(* ===== verification/Foxtrot_Prelude.thy ===== *)
theory Foxtrot_Prelude
  imports Complex_Main "HOL-Library.AList" "HOL-Library.Word"
begin

text \<open>
  What every component of the development shares.

  \<^item> \<open>error\<close>: the exceptions the program throws, one constructor per C++ class, plus
    \<open>UB\<close> for executions to which the C++ standard gives no meaning (an iterator past the
    end that is erased, an index outside a string). A theorem that an operation never ends in
    \<open>UB\<close> says that the code stays inside the language.
  \<^item> \<open>('s, 'a) prog\<close>: a stateful operation that may throw. The state is returned in
    both cases, since an exception does not undo the assignments made before it.
  \<^item> \<open>om_\<close>: \<open>std::map\<close> as a list of pairs with increasing keys, in iteration order.
  \<^item> \<open>um_\<close>: \<open>std::unordered_map\<close> as an association list. Its iteration order is
    not fixed by the standard; nothing proved here depends on the order of the list.
\<close>

section \<open>Errors and stateful operations\<close>

datatype error =
    Out_of_range string
  | Logic_error string
  | Runtime_error string
  | Invalid_argument string
  | Device_error string
  | Protocol_error string
  | Protocol_timeout string
  | Contention_error string
  | Motor_error string
  | Server_error string
  | Base_error string
  | Bad_variant_access
  | Owned_by "16 word"
  | UB string

type_synonym 'a result = "error + 'a"
type_synonym ('s, 'a) prog = "'s \<Rightarrow> 'a result \<times> 's"

named_theorems prog_simps \<open>unfolding rules of the stateful operations\<close>

definition returns :: "'a \<Rightarrow> ('s, 'a) prog" where
  "returns x s = (Inr x, s)"

definition throws :: "error \<Rightarrow> ('s, 'a) prog" where
  "throws e s = (Inl e, s)"

definition andthen :: "('s, 'a) prog \<Rightarrow> ('a \<Rightarrow> ('s, 'b) prog) \<Rightarrow> ('s, 'b) prog" where
  "andthen m k s = (case m s of (Inl e, s') \<Rightarrow> (Inl e, s') | (Inr x, s') \<Rightarrow> k x s')"

definition gets :: "('s \<Rightarrow> 'a) \<Rightarrow> ('s, 'a) prog" where
  "gets f s = (Inr (f s), s)"

definition modifies :: "('s \<Rightarrow> 's) \<Rightarrow> ('s, unit) prog" where
  "modifies f s = (Inr (), f s)"

definition lifts :: "'a result \<Rightarrow> ('s, 'a) prog" where
  "lifts r s = (r, s)"

definition throw_unless :: "bool \<Rightarrow> error \<Rightarrow> ('s, unit) prog" where
  "throw_unless b e = (if b then returns () else throws e)"

text \<open>A \<open>try\<close> block with a handler for every exception; the handler sees the state
  the block left behind. No handler catches an execution without a meaning.\<close>

fun is_UB :: "error \<Rightarrow> bool" where
  "is_UB (UB _) = True"
| "is_UB _ = False"

definition catches :: "('s, 'a) prog \<Rightarrow> (error \<Rightarrow> ('s, 'a) prog) \<Rightarrow> ('s, 'a) prog" where
  "catches m h s = (case m s of
     (Inl e, s') \<Rightarrow> if is_UB e then (Inl e, s') else h e s'
   | (Inr x, s') \<Rightarrow> (Inr x, s'))"

definition rbind :: "'a result \<Rightarrow> ('a \<Rightarrow> 'b result) \<Rightarrow> 'b result" where
  "rbind r k = (case r of Inl e \<Rightarrow> Inl e | Inr x \<Rightarrow> k x)"

declare returns_def [prog_simps] throws_def [prog_simps] gets_def [prog_simps]
  modifies_def [prog_simps] lifts_def [prog_simps] throw_unless_def [prog_simps]

lemma andthen_returns [simp]: "andthen (returns x) k = k x"
  by (rule ext) (simp add: andthen_def returns_def)

lemma andthen_throws [simp]: "andthen (throws e) k = throws e"
  by (rule ext) (simp add: andthen_def throws_def)

lemma returns_andthen [simp]: "andthen m returns = m"
  by (rule ext) (auto simp: andthen_def returns_def split: sum.splits prod.splits)

lemma andthen_assoc: "andthen (andthen m f) g = andthen m (\<lambda>x. andthen (f x) g)"
  by (rule ext) (auto simp: andthen_def split: sum.splits prod.splits)

lemma andthen_Inr [simp]: "m s = (Inr x, s') \<Longrightarrow> andthen m k s = k x s'"
  by (simp add: andthen_def)

lemma andthen_Inl [simp]: "m s = (Inl e, s') \<Longrightarrow> andthen m k s = (Inl e, s')"
  by (simp add: andthen_def)

lemma andthen_eq_Inr:
  "andthen m k s = (Inr y, t) \<longleftrightarrow> (\<exists>x s'. m s = (Inr x, s') \<and> k x s' = (Inr y, t))"
  by (auto simp: andthen_def split: sum.splits prod.splits)

text \<open>What a call that may wait for a mutex returns.\<close>

datatype 'a waiting = Done 'a | Blocked

lemma rbind_simps [simp]: "rbind (Inl e) k = Inl e" "rbind (Inr x) k = k x"
  by (simp_all add: rbind_def)

lemma rbind_eq_Inr: "rbind r k = Inr y \<longleftrightarrow> (\<exists>x. r = Inr x \<and> k x = Inr y)"
  by (cases r) auto

definition is_ub :: "'a result \<Rightarrow> bool" where
  "is_ub r \<longleftrightarrow> (case r of Inl (UB _) \<Rightarrow> True | _ \<Rightarrow> False)"

lemma is_ub_simps [simp]: "\<not> is_ub (Inr x)" "is_ub (Inl e) = is_UB e"
  by (simp_all add: is_ub_def) (cases e; simp)

section \<open>Ordered and unordered maps\<close>

fun om_set :: "'k::linorder \<Rightarrow> 'v \<Rightarrow> ('k \<times> 'v) list \<Rightarrow> ('k \<times> 'v) list" where
  "om_set k v [] = [(k, v)]"
| "om_set k v ((k', v') # xs) =
     (if k < k' then (k, v) # (k', v') # xs
      else if k = k' then (k, v) # xs
      else (k', v') # om_set k v xs)"

definition om_erase :: "'k \<Rightarrow> ('k \<times> 'v) list \<Rightarrow> ('k \<times> 'v) list" where
  "om_erase k xs = filter (\<lambda>p. fst p \<noteq> k) xs"

definition om_wf :: "('k::linorder \<times> 'v) list \<Rightarrow> bool" where
  "om_wf xs \<longleftrightarrow> sorted_wrt (<) (map fst xs)"

definition um_set :: "'k \<Rightarrow> 'v \<Rightarrow> ('k \<times> 'v) list \<Rightarrow> ('k \<times> 'v) list" where
  "um_set k v xs = AList.update k v xs"

definition um_erase :: "'k \<Rightarrow> ('k \<times> 'v) list \<Rightarrow> ('k \<times> 'v) list" where
  "um_erase k xs = filter (\<lambda>p. fst p \<noteq> k) xs"

lemma fst_set_om_set: "fst ` set (om_set k v xs) = insert k (fst ` set xs)"
  by (induction k v xs rule: om_set.induct) auto

lemma om_wf_Nil [simp]: "om_wf []"
  by (simp add: om_wf_def)

lemma om_wf_Cons: "om_wf ((k, v) # xs) \<longleftrightarrow> (\<forall>p\<in>set xs. k < fst p) \<and> om_wf xs"
  by (auto simp: om_wf_def)

lemma om_wf_set [simp]: "om_wf xs \<Longrightarrow> om_wf (om_set k v xs)"
proof (induction k v xs rule: om_set.induct)
  case (2 k v k' v' xs)
  have "\<forall>p\<in>set (om_set k v xs). k' < fst p" if "k' < k"
    using 2(2) that fst_set_om_set [of k v xs] by (force simp: om_wf_Cons)
  with 2 show ?case
    by (auto simp: om_wf_Cons dest: less_trans)
qed (simp add: om_wf_def)

lemma om_wf_erase [simp]: "om_wf xs \<Longrightarrow> om_wf (om_erase k xs)"
  by (induction xs) (auto simp: om_erase_def om_wf_Cons)

lemma om_wf_distinct: "om_wf xs \<Longrightarrow> distinct (map fst xs)"
  by (simp add: om_wf_def strict_sorted_iff)

lemma map_of_om_set [simp]:
  "om_wf xs \<Longrightarrow> map_of (om_set k v xs) = (map_of xs)(k \<mapsto> v)"
proof (induction k v xs rule: om_set.induct)
  case (2 k v k' v' xs)
  then show ?case by (auto simp: om_wf_Cons fun_eq_iff)
qed simp

lemma map_of_om_erase [simp]: "map_of (om_erase k xs) = (map_of xs)(k := None)"
  by (induction xs) (auto simp: om_erase_def)

lemma map_of_um_set [simp]: "map_of (um_set k v xs) = (map_of xs)(k \<mapsto> v)"
  by (simp add: um_set_def update_conv')

lemma map_of_um_erase [simp]: "map_of (um_erase k xs) = (map_of xs)(k := None)"
  by (induction xs) (auto simp: um_erase_def)

lemma distinct_um_set [simp]:
  "distinct (map fst xs) \<Longrightarrow> distinct (map fst (um_set k v xs))"
  by (simp add: um_set_def distinct_update)

lemma distinct_um_erase [simp]:
  "distinct (map fst xs) \<Longrightarrow> distinct (map fst (um_erase k xs))"
  by (simp add: um_erase_def distinct_map_filter)

text \<open>\<open>insert\<close> of a map: a key that is present keeps its value.\<close>

definition map_insert :: "'k \<Rightarrow> 'v \<Rightarrow> ('k \<times> 'v) list \<Rightarrow> ('k \<times> 'v) list" where
  "map_insert k v xs = (if map_of xs k = None then xs @ [(k, v)] else xs)"

lemma map_of_map_insert:
  "map_of (map_insert k v xs) = (if map_of xs k = None then (map_of xs)(k \<mapsto> v) else map_of xs)"
  by (rule ext) (simp add: map_insert_def map_add_def split: option.split)

text \<open>Erasing a list of keys one after the other, as the range-based loops do.\<close>

lemma map_of_fold_om_erase:
  "map_of (fold om_erase ks xs) = (\<lambda>k. if k \<in> set ks then None else map_of xs k)"
  by (induction ks arbitrary: xs) (auto simp: fun_eq_iff)

lemma map_of_fold_um_erase:
  "map_of (fold um_erase ks xs) = (\<lambda>k. if k \<in> set ks then None else map_of xs k)"
  by (induction ks arbitrary: xs) (auto simp: fun_eq_iff)

lemma om_wf_fold_erase [simp]: "om_wf xs \<Longrightarrow> om_wf (fold om_erase ks xs)"
  by (induction ks arbitrary: xs) auto

lemma om_wf_fold_set [simp]: "om_wf xs \<Longrightarrow> om_wf (fold (\<lambda>k. om_set (f k) v) ks xs)"
  by (induction ks arbitrary: xs) auto

lemma map_of_fold_om_set:
  "om_wf xs \<Longrightarrow> map_of (fold (\<lambda>k. om_set (f k) v) ks xs) =
     (\<lambda>k. if k \<in> f ` set ks then Some v else map_of xs k)"
  by (induction ks arbitrary: xs) (auto simp: fun_eq_iff)

lemma map_of_fold_um_set:
  "map_of (fold (\<lambda>k. um_set k v) ks xs) =
     (\<lambda>k. if k \<in> set ks then Some v else map_of xs k)"
  by (induction ks arbitrary: xs) (auto simp: fun_eq_iff)

lemma word_less_succ: "(x :: 'a::len word) \<noteq> - 1 \<Longrightarrow> x < x + 1"
proof -
  assume "x \<noteq> - 1"
  then have "x + 1 \<noteq> 0" by (metis add.inverse_unique add.commute)
  then have "unat (x + 1) = Suc (unat x)" by (metis unatSuc add.commute)
  then show ?thesis by (simp add: word_less_nat_alt)
qed

lemma ucast_16_32 [simp]: "(ucast (ucast (x :: 16 word) :: 32 word) :: 16 word) = x"
  by (rule bit_word_eqI) (simp add: bit_simps)

lemma inj_ucast_16_32: "inj (ucast :: 16 word \<Rightarrow> 32 word)"
  by (rule injI) (metis ucast_16_32)

lemma find_SomeD: "find P xs = Some x \<Longrightarrow> x \<in> set xs \<and> P x"
  by (induction xs) (auto split: if_splits)

section \<open>Signed bytes\<close>

text \<open>The conversion of an integer to a signed 8 bit value.\<close>

definition s8 :: "int \<Rightarrow> int" where
  "s8 i = sint (word_of_int i :: 8 word)"

lemma s8_mod [simp]: "s8 i mod 256 = i mod 256"
proof -
  have "take_bit 8 (signed_take_bit 7 i) = take_bit 8 i"
    by (rule take_bit_signed_take_bit) simp
  then show ?thesis by (simp add: s8_def sint_sbintrunc' take_bit_eq_mod)
qed

lemma s8_bounds: "- 128 \<le> s8 i" "s8 i \<le> 127"
  using sint_greater_eq [of "word_of_int i :: 8 word"] sint_less [of "word_of_int i :: 8 word"]
  by (auto simp: s8_def)

lemma s8_id: "- 128 \<le> i \<Longrightarrow> i \<le> 127 \<Longrightarrow> s8 i = i"
  using s8_mod [of i] s8_bounds [of i] by (smt (verit) mod_pos_pos_trivial mod_add_self2)

section \<open>Machines with guarded operations\<close>

text \<open>
  A component seen as a machine: operations on a state, a guard that says what the environment
  guarantees when it calls one (a fresh random number, a file that exists), and an invariant.
  \<open>run_ok\<close> holds of a sequence of operations each of which meets its guard.
\<close>

fun run_ok :: "('op \<Rightarrow> 's \<Rightarrow> bool) \<Rightarrow> ('op \<Rightarrow> 's \<Rightarrow> 's) \<Rightarrow> 'op list \<Rightarrow> 's \<Rightarrow> bool" where
  "run_ok ok step [] s = True"
| "run_ok ok step (op # ops) s = (ok op s \<and> run_ok ok step ops (step op s))"

locale guarded_machine =
  fixes inv :: "'s \<Rightarrow> bool" and ok :: "'op \<Rightarrow> 's \<Rightarrow> bool" and step :: "'op \<Rightarrow> 's \<Rightarrow> 's"
  assumes step_inv: "inv s \<Longrightarrow> ok op s \<Longrightarrow> inv (step op s)"
begin

lemma run_inv: "inv s \<Longrightarrow> run_ok ok step ops s \<Longrightarrow> inv (fold step ops s)"
  by (induction ops arbitrary: s) (auto intro: step_inv)

lemma run_prefix_inv:
  "inv s \<Longrightarrow> run_ok ok step (xs @ ys) s \<Longrightarrow> inv (fold step xs s)"
  by (induction xs arbitrary: s) (auto intro: step_inv)

end

section \<open>IEEE doubles that are only compared\<close>

text \<open>
  The control logic compares measured doubles with thresholds and computes nothing with them.
  A finite double is a rational number; the comparisons of C++ on doubles are the comparisons
  of the rationals, and every comparison with a NaN is false.
\<close>

datatype f64 = NaN | Neg_inf | Pos_inf | Fin rat

fun flt :: "f64 \<Rightarrow> f64 \<Rightarrow> bool" where
  "flt NaN _ = False"
| "flt _ NaN = False"
| "flt _ Neg_inf = False"
| "flt Neg_inf _ = True"
| "flt Pos_inf _ = False"
| "flt (Fin _) Pos_inf = True"
| "flt (Fin a) (Fin b) = (a < b)"

definition fgt :: "f64 \<Rightarrow> f64 \<Rightarrow> bool" where
  "fgt a b = flt b a"

lemma flt_irrefl [simp]: "\<not> flt x x"
  by (cases x) auto

lemma flt_asym: "flt x y \<Longrightarrow> \<not> flt y x"
  by (cases x; cases y) auto

section \<open>What an operation keeps and what it ensures\<close>

text \<open>\<open>keeps f m\<close>: the operation does not change the part \<open>f\<close> of the state, whether it returns
  or throws. \<open>ensures P m Q E\<close>: started in \<open>P\<close> it returns in \<open>Q\<close> or throws in \<open>E\<close>.\<close>

definition keeps :: "('s \<Rightarrow> 'x) \<Rightarrow> ('s, 'a) prog \<Rightarrow> bool" where
  "keeps f m \<longleftrightarrow> (\<forall>s. f (snd (m s)) = f s)"

definition ensures :: "('s \<Rightarrow> bool) \<Rightarrow> ('s, 'a) prog \<Rightarrow> ('a \<Rightarrow> 's \<Rightarrow> bool) \<Rightarrow> ('s \<Rightarrow> bool) \<Rightarrow> bool" where
  "ensures P m Q E \<longleftrightarrow>
     (\<forall>s. P s \<longrightarrow> (case fst (m s) of Inr x \<Rightarrow> Q x (snd (m s)) | Inl _ \<Rightarrow> E (snd (m s))))"

named_theorems keeps_intros \<open>rules that show that an operation keeps a part of the state\<close>

lemma keepsD: "keeps f m \<Longrightarrow> f (snd (m s)) = f s"
  by (simp add: keeps_def)

lemma keeps_basic [keeps_intros]:
  "keeps f (returns x)" "keeps f (throws e)" "keeps f (lifts r)" "keeps f (gets g)"
  by (simp_all add: keeps_def prog_simps)

lemma keeps_modifies [keeps_intros]: "(\<And>s. f (g s) = f s) \<Longrightarrow> keeps f (modifies g)"
  by (simp add: keeps_def modifies_def)

lemma keeps_andthen [keeps_intros]: "keeps f m \<Longrightarrow> (\<And>x. keeps f (k x)) \<Longrightarrow> keeps f (andthen m k)"
  by (auto simp: keeps_def andthen_def split: prod.splits sum.splits) (metis snd_conv)+

lemma keeps_catches [keeps_intros]: "keeps f m \<Longrightarrow> (\<And>e. keeps f (h e)) \<Longrightarrow> keeps f (catches m h)"
  by (auto simp: keeps_def catches_def split: prod.splits sum.splits) (metis snd_conv)+

lemma keeps_if [keeps_intros]: "keeps f m \<Longrightarrow> keeps f n \<Longrightarrow> keeps f (if b then m else n)"
  by simp

lemma keeps_option [keeps_intros]:
  "keeps f m \<Longrightarrow> (\<And>x. keeps f (k x)) \<Longrightarrow> keeps f (case r of None \<Rightarrow> m | Some x \<Rightarrow> k x)"
  by (cases r) simp_all

lemma ensures_andthen:
  "ensures P m R E \<Longrightarrow> (\<And>x. ensures (R x) (k x) Q E) \<Longrightarrow> ensures P (andthen m k) Q E"
  by (fastforce simp: ensures_def andthen_def split: prod.splits sum.splits)

lemma ensures_keeps: "keeps f m \<Longrightarrow> ensures (\<lambda>s. P (f s)) m (\<lambda>_ s. P (f s)) (\<lambda>s. P (f s))"
  by (simp add: ensures_def keeps_def split: sum.split)

lemma ensures_weaken:
  "ensures P m Q E \<Longrightarrow> (\<And>s. P' s \<Longrightarrow> P s) \<Longrightarrow> (\<And>x s. Q x s \<Longrightarrow> Q' x s) \<Longrightarrow> (\<And>s. E s \<Longrightarrow> E' s) \<Longrightarrow>
   ensures P' m Q' E'"
  by (fastforce simp: ensures_def split: sum.splits)

lemma ensures_if: "(b \<Longrightarrow> ensures P m Q E) \<Longrightarrow> (\<not> b \<Longrightarrow> ensures P n Q E) \<Longrightarrow> ensures P (if b then m else n) Q E"
  by simp

lemma ensures_returns: "(\<And>s. P s \<Longrightarrow> Q x s) \<Longrightarrow> ensures P (returns x) Q E"
  by (simp add: ensures_def returns_def)

lemma ensures_gets: "(\<And>s. P s \<Longrightarrow> Q (f s) s) \<Longrightarrow> ensures P (gets f) Q E"
  by (simp add: ensures_def gets_def)

lemma ensures_modifies: "(\<And>s. P s \<Longrightarrow> Q () (f s)) \<Longrightarrow> ensures P (modifies f) Q E"
  by (simp add: ensures_def modifies_def)

lemma ensures_disj:
  "ensures P m (\<lambda>_. A) A \<Longrightarrow> ensures P' m (\<lambda>_. B) B \<Longrightarrow>
   ensures (\<lambda>s. P s \<or> P' s) m (\<lambda>_ s. A s \<or> B s) (\<lambda>s. A s \<or> B s)"
  by (fastforce simp: ensures_def split: sum.splits)

lemma ensuresD:
  "ensures P m Q E \<Longrightarrow> P s \<Longrightarrow> m s = (r, s') \<Longrightarrow> (case r of Inr x \<Rightarrow> Q x s' | Inl _ \<Rightarrow> E s')"
  by (auto simp: ensures_def split: sum.splits)

definition maintains :: "('s \<Rightarrow> bool) \<Rightarrow> ('s, 'a) prog \<Rightarrow> bool" where
  "maintains P m \<longleftrightarrow> (\<forall>s. P s \<longrightarrow> P (snd (m s)))"

named_theorems maintains_intros \<open>rules that show that an operation maintains an invariant\<close>

lemma maintains_basic [maintains_intros]:
  "maintains P (returns x)" "maintains P (throws e)" "maintains P (lifts r)" "maintains P (gets g)"
  by (simp_all add: maintains_def prog_simps)

lemma maintains_modifies [maintains_intros]: "(\<And>s. P s \<Longrightarrow> P (f s)) \<Longrightarrow> maintains P (modifies f)"
  by (simp add: maintains_def modifies_def)

lemma maintains_andthen [maintains_intros]:
  "maintains P m \<Longrightarrow> (\<And>x. maintains P (k x)) \<Longrightarrow> maintains P (andthen m k)"
  by (auto simp: maintains_def andthen_def split: prod.splits sum.splits)

lemma maintains_catches [maintains_intros]:
  "maintains P m \<Longrightarrow> (\<And>e. maintains P (h e)) \<Longrightarrow> maintains P (catches m h)"
  by (auto simp: maintains_def catches_def split: prod.splits sum.splits)

lemma maintains_if [maintains_intros]: "maintains P m \<Longrightarrow> maintains P n \<Longrightarrow> maintains P (if b then m else n)"
  by simp

lemma maintains_option [maintains_intros]:
  "maintains P m \<Longrightarrow> (\<And>x. maintains P (k x)) \<Longrightarrow> maintains P (case r of None \<Rightarrow> m | Some x \<Rightarrow> k x)"
  by (cases r) simp_all

lemma keeps_maintains: "keeps f m \<Longrightarrow> maintains (\<lambda>s. P (f s)) m"
  by (simp add: keeps_def maintains_def)

lemma ensures_maintains: "maintains P m \<Longrightarrow> ensures P m (\<lambda>_. P) P"
  by (simp add: maintains_def ensures_def split: sum.split)

end
