(* ===== verification/Session_Manager.thy ===== *)
theory Session_Manager
  imports Foxtrot_Prelude
begin

text \<open>
  The session table of the server: server/src/SessionManager.cpp and
  server/include/foxtrot/server/SessionManager.hh.

  A session is a lease of devices and of server flags, held by whoever knows its 32 byte
  secret until it expires or is closed. The manager keeps four maps: the sessions by their
  internal number, the number of each secret, and two caches from a device or a flag to the
  number of the session that leases it. Here are the record of the four maps, every operation
  on them, the invariant that ties them together, and the refinement to the table
  \<open>leases\<close> from secrets to sessions that a client of the manager sees.

  Times are the tick counts of \<open>std::chrono::system_clock\<close>, as unbounded integers
  (a 64 bit count of nanoseconds overflows in the year 2262). Each call of \<open>now()\<close> in
  the code is an argument of the model. The secret that libsodium draws is an argument too.
\<close>

section \<open>State\<close>

type_synonym sessionid = "8 word list"

record ft_session_info =
  internal_session_id :: "16 word"
  user_identifier :: string
  comment :: string
  devices :: "32 word list"
  flags :: "string list"
  expiry :: int

record session_manager =
  sessionmap :: "(16 word \<times> ft_session_info) list"
  sessionidmap :: "(sessionid \<times> 16 word) list"
  devicecachemap :: "(16 word \<times> 32 word) list"
  flagcachemap :: "(string \<times> 16 word) list"
  next_session_id :: "16 word"
  session_length :: int

definition new_session_manager :: "int \<Rightarrow> session_manager" where
  "new_session_manager len =
     \<lparr>sessionmap = [], sessionidmap = [], devicecachemap = [], flagcachemap = [],
      next_session_id = 0, session_length = len\<rparr>"

section \<open>Queries\<close>

text \<open>\<open>std::map::at\<close> on the session map.\<close>

definition session_at :: "session_manager \<Rightarrow> 16 word \<Rightarrow> ft_session_info result" where
  "session_at st i = (case map_of (sessionmap st) i of
     None \<Rightarrow> Inl (Out_of_range ''map::at'') | Some info \<Rightarrow> Inr info)"

definition get_session_info_secret :: "session_manager \<Rightarrow> sessionid \<Rightarrow> ft_session_info result" where
  "get_session_info_secret st secret = (case map_of (sessionidmap st) secret of
     None \<Rightarrow> Inl (Out_of_range ''invalid secret!'')
   | Some i \<Rightarrow> session_at st i)"

definition get_session_info_id :: "session_manager \<Rightarrow> 16 word \<Rightarrow> ft_session_info result" where
  "get_session_info_id st i = session_at st i"

text \<open>The session number found in a cache is converted to the 16 bit key of the session map.\<close>

definition find_in_cache ::
  "session_manager \<Rightarrow> ('k \<times> 'n::len word) list \<Rightarrow> 'k \<Rightarrow> ft_session_info option result" where
  "find_in_cache st cache val = (case map_of cache val of
     None \<Rightarrow> Inr None
   | Some i \<Rightarrow> rbind (session_at st (ucast i)) (\<lambda>info. Inr (Some info)))"

text \<open>The key of the device cache is an \<open>unsigned short\<close>: the device number is
  truncated to 16 bits.\<close>

definition who_owns_device :: "session_manager \<Rightarrow> 32 word \<Rightarrow> ft_session_info option result" where
  "who_owns_device st devid = find_in_cache st (devicecachemap st) (ucast devid)"

definition who_owns_flag :: "session_manager \<Rightarrow> string \<Rightarrow> ft_session_info option result" where
  "who_owns_flag st flagname = find_in_cache st (flagcachemap st) flagname"

definition auth_check ::
  "session_manager \<Rightarrow> sessionid \<Rightarrow> (ft_session_info \<Rightarrow> 'a list) \<Rightarrow> 'a \<Rightarrow> bool result" where
  "auth_check st secret valmap_get val = (case map_of (sessionidmap st) secret of
     None \<Rightarrow> Inr False
   | Some i \<Rightarrow> rbind (session_at st i) (\<lambda>info. Inr (val \<in> set (valmap_get info))))"

definition session_auth_check_device :: "session_manager \<Rightarrow> sessionid \<Rightarrow> 32 word \<Rightarrow> bool result" where
  "session_auth_check_device st secret devid = auth_check st secret devices devid"

definition session_auth_check_flag :: "session_manager \<Rightarrow> sessionid \<Rightarrow> string \<Rightarrow> bool result" where
  "session_auth_check_flag st secret flagname = auth_check st secret flags flagname"

section \<open>Starting a session\<close>

fun check_items :: "('a \<Rightarrow> ft_session_info option result) \<Rightarrow> 'a list \<Rightarrow> unit result" where
  "check_items checkfun [] = Inr ()"
| "check_items checkfun (item # items) = rbind (checkfun item) (\<lambda>owner. case owner of
     Some info \<Rightarrow> Inl (Owned_by (internal_session_id info))
   | None \<Rightarrow> check_items checkfun items)"

text \<open>A request is a pointer to a vector: \<open>None\<close> is the null pointer.\<close>

definition check_requested_items ::
  "'a list option \<Rightarrow> ('a \<Rightarrow> ft_session_info option result) \<Rightarrow> unit result" where
  "check_requested_items req checkfun = (case req of
     None \<Rightarrow> Inr () | Some items \<Rightarrow> check_items checkfun items)"

definition check_requested_expiry :: "session_manager \<Rightarrow> int \<Rightarrow> int \<Rightarrow> unit result" where
  "check_requested_expiry st now tm =
     (if now + session_length st < tm
      then Inl (Out_of_range ''requested a session longer than max allowed'')
      else if tm < now
      then Inl (Out_of_range ''requested a session expiry in the past'')
      else Inr ())"

text \<open>\<open>std::max_element\<close> over the keys, from the largest key seen so far.\<close>

fun max_element_key :: "('k::linorder \<times> 'v) list \<Rightarrow> 'k \<Rightarrow> 'k" where
  "max_element_key [] m = m"
| "max_element_key ((k, v) # xs) m = max_element_key xs (if m < k then k else m)"

definition issue_session_id :: "session_manager \<Rightarrow> 16 word" where
  "issue_session_id st = (case sessionmap st of
     [] \<Rightarrow> next_session_id st
   | (k, v) # xs \<Rightarrow> max_element_key xs k + 1)"

record session_request =
  req_username :: string
  req_comment :: string
  devices_requested :: "32 word list option"
  flags_requested :: "string list option"
  requested_expiry :: "int option"

definition requested :: "'a list option \<Rightarrow> 'a list" where
  "requested r = (case r of None \<Rightarrow> [] | Some xs \<Rightarrow> xs)"

text \<open>The checks, made under shared locks that are released before the session is made.\<close>

definition start_session_checks :: "int \<Rightarrow> session_request \<Rightarrow> session_manager \<Rightarrow> unit result" where
  "start_session_checks now_check req st =
     rbind (check_requested_items (devices_requested req) (who_owns_device st)) (\<lambda>_.
     rbind (check_requested_items (flags_requested req) (who_owns_flag st)) (\<lambda>_.
     case requested_expiry req of
       None \<Rightarrow> Inr ()
     | Some tm \<Rightarrow> check_requested_expiry st now_check tm))"

text \<open>The part under the exclusive lock. The expiry of the new session is
  \<open>now + _session_length\<close>, whatever expiry was requested.\<close>

definition new_session :: "int \<Rightarrow> session_request \<Rightarrow> session_manager \<Rightarrow> ft_session_info" where
  "new_session now req st =
     \<lparr>internal_session_id = issue_session_id st,
      user_identifier = req_username req,
      comment = req_comment req,
      devices = requested (devices_requested req),
      flags = requested (flags_requested req),
      expiry = now + session_length st\<rparr>"

definition start_session_commit ::
  "int \<Rightarrow> sessionid \<Rightarrow> session_request \<Rightarrow> session_manager \<Rightarrow> session_manager" where
  "start_session_commit now secret req st =
     (let i = issue_session_id st in
      st\<lparr>next_session_id := i,
         devicecachemap := fold (\<lambda>devid. om_set (ucast devid) (ucast i))
           (requested (devices_requested req)) (devicecachemap st),
         flagcachemap := fold (\<lambda>flagname. um_set flagname i)
           (requested (flags_requested req)) (flagcachemap st),
         sessionidmap := um_set secret i (sessionidmap st),
         sessionmap := om_set i (new_session now req st) (sessionmap st)\<rparr>)"

definition start_session ::
  "int \<Rightarrow> int \<Rightarrow> sessionid \<Rightarrow> session_request \<Rightarrow> (session_manager, sessionid \<times> 16 word) prog" where
  "start_session now now_check secret req st = (case start_session_checks now_check req st of
     Inl e \<Rightarrow> (Inl e, st)
   | Inr _ \<Rightarrow> (Inr (secret, issue_session_id st), start_session_commit now secret req st))"

section \<open>Closing, renewing and expiring\<close>

text \<open>\<open>std::find_if\<close> for the secret of a session number.\<close>

definition find_secret :: "16 word \<Rightarrow> (sessionid \<times> 16 word) list \<Rightarrow> sessionid option" where
  "find_secret i xs = map_option fst (find (\<lambda>p. snd p = i) xs)"

text \<open>The caches lose every entry of the session. Erasing the end iterator, when no secret
  belongs to the session, has no defined behaviour.\<close>

definition remove_session :: "16 word \<Rightarrow> (session_manager, unit) prog" where
  "remove_session sesid st = (case session_at st sesid of
     Inl e \<Rightarrow> (Inl e, st)
   | Inr info \<Rightarrow>
      (let st1 = st\<lparr>devicecachemap := fold om_erase (map ucast (devices info)) (devicecachemap st),
                    flagcachemap := fold um_erase (flags info) (flagcachemap st)\<rparr>
       in case find_secret sesid (sessionidmap st) of
            None \<Rightarrow> (Inl (UB ''unordered_map::erase(end())''), st1)
          | Some secret \<Rightarrow>
             (Inr (), st1\<lparr>sessionidmap := um_erase secret (sessionidmap st1),
                          sessionmap := om_erase sesid (sessionmap st1)\<rparr>)))"

definition close_session :: "sessionid \<Rightarrow> (session_manager, bool) prog" where
  "close_session secret st = (case map_of (sessionidmap st) secret of
     None \<Rightarrow> (Inr False, st)
   | Some i \<Rightarrow> andthen (remove_session i) (\<lambda>_. returns True) st)"

definition set_expiry :: "16 word \<Rightarrow> int \<Rightarrow> session_manager \<Rightarrow> session_manager" where
  "set_expiry i tm st = (case map_of (sessionmap st) i of
     None \<Rightarrow> st
   | Some info \<Rightarrow> st\<lparr>sessionmap := om_set i (info\<lparr>expiry := tm\<rparr>) (sessionmap st)\<rparr>)"

definition renew_session ::
  "int \<Rightarrow> int \<Rightarrow> sessionid \<Rightarrow> int option \<Rightarrow> (session_manager, bool) prog" where
  "renew_session now now_check secret req_expiry st = (case map_of (sessionidmap st) secret of
     None \<Rightarrow> (Inr False, st)
   | Some i \<Rightarrow> (case session_at st i of
       Inl e \<Rightarrow> (Inl e, st)
     | Inr info \<Rightarrow> (case req_expiry of
         Some tm \<Rightarrow> (case check_requested_expiry st now_check tm of
             Inl e \<Rightarrow> (Inl e, st)
           | Inr _ \<Rightarrow> (Inr True, set_expiry i tm st))
       | None \<Rightarrow> (Inr True, set_expiry i (now + session_length st) st))))"

definition expired_ids :: "int \<Rightarrow> session_manager \<Rightarrow> 16 word list" where
  "expired_ids now st = map fst (filter (\<lambda>p. expiry (snd p) < now) (sessionmap st))"

fun remove_sessions :: "16 word list \<Rightarrow> (session_manager, unit) prog" where
  "remove_sessions [] = returns ()"
| "remove_sessions (i # is) = andthen (remove_session i) (\<lambda>_. remove_sessions is)"

definition update_session_states :: "int \<Rightarrow> (session_manager, unit) prog" where
  "update_session_states now st = remove_sessions (expired_ids now st) st"

text \<open>\<open>std::min_element\<close> on the expiry times, and one round of the update thread. The
  result tells whether there was a session at all, and until when the thread slept (\<open>None\<close>:
  not at all). Both branches update the sessions, at the time of the wake-up.\<close>

fun min_expiry :: "(16 word \<times> ft_session_info) list \<Rightarrow> int \<Rightarrow> int" where
  "min_expiry [] m = m"
| "min_expiry ((i, info) # xs) m = min_expiry xs (if expiry info < m then expiry info else m)"

definition one_second :: int where
  "one_second = 1000000000"

definition update_at_next_expiry ::
  "int \<Rightarrow> int \<Rightarrow> (session_manager, bool \<times> int option) prog" where
  "update_at_next_expiry now now_update st = (case sessionmap st of
     [] \<Rightarrow> (Inr (False, None), st)
   | (i, info) # xs \<Rightarrow>
      (let next_expiry = min_expiry xs (expiry info) in
       if next_expiry < now
       then andthen (update_session_states now_update) (\<lambda>_. returns (True, None)) st
       else andthen (update_session_states now_update)
              (\<lambda>_. returns (True, Some (next_expiry + one_second))) st))"

section \<open>The invariant\<close>

text \<open>
  A cache agrees with the sessions when it maps an item to exactly the session that leases it.
  Since a cache is a map, two sessions cannot lease the same item.
\<close>

definition cache_agrees ::
  "('i \<Rightarrow> 'n) \<Rightarrow> ('info \<Rightarrow> 'k list) \<Rightarrow> ('k \<rightharpoonup> 'n) \<Rightarrow> ('i \<rightharpoonup> 'info) \<Rightarrow> bool" where
  "cache_agrees conv items cache sess \<longleftrightarrow> (\<forall>d n. cache d = Some n \<longleftrightarrow>
     (\<exists>i info. sess i = Some info \<and> n = conv i \<and> d \<in> set (items info)))"

definition device_keys :: "ft_session_info \<Rightarrow> 16 word list" where
  "device_keys info = map ucast (devices info)"

definition ids_agree :: "(sessionid \<times> 16 word) list \<Rightarrow> (16 word \<rightharpoonup> ft_session_info) \<Rightarrow> bool" where
  "ids_agree idmap sess \<longleftrightarrow> distinct (map fst idmap) \<and>
     (\<forall>i. sess i \<noteq> None \<longleftrightarrow> (\<exists>s. map_of idmap s = Some i)) \<and>
     (\<forall>s t i. map_of idmap s = Some i \<longrightarrow> map_of idmap t = Some i \<longrightarrow> s = t)"

definition sm_inv :: "session_manager \<Rightarrow> bool" where
  "sm_inv st \<longleftrightarrow> om_wf (sessionmap st) \<and> om_wf (devicecachemap st) \<and>
     (\<forall>i info. map_of (sessionmap st) i = Some info \<longrightarrow> internal_session_id info = i) \<and>
     ids_agree (sessionidmap st) (map_of (sessionmap st)) \<and>
     cache_agrees ucast device_keys (map_of (devicecachemap st)) (map_of (sessionmap st)) \<and>
     cache_agrees id flags (map_of (flagcachemap st)) (map_of (sessionmap st))"

lemma sm_inv_new: "sm_inv (new_session_manager len)"
  by (simp add: sm_inv_def new_session_manager_def cache_agrees_def ids_agree_def)

lemma cache_agreesI:
  assumes "\<And>i info d. sess i = Some info \<Longrightarrow> d \<in> set (items info) \<Longrightarrow> cache d = Some (conv i)"
    and "\<And>d n. cache d = Some n \<Longrightarrow>
           \<exists>i info. sess i = Some info \<and> n = conv i \<and> d \<in> set (items info)"
  shows "cache_agrees conv items cache sess"
  unfolding cache_agrees_def using assms by blast

lemma cache_agreesD1:
  "cache_agrees conv items cache sess \<Longrightarrow> sess i = Some info \<Longrightarrow> d \<in> set (items info) \<Longrightarrow>
     cache d = Some (conv i)"
  unfolding cache_agrees_def by blast

lemma cache_agreesD2:
  assumes "cache_agrees conv items cache sess" "cache d = Some n"
  obtains i info where "sess i = Some info" "n = conv i" "d \<in> set (items info)"
  using assms unfolding cache_agrees_def by blast

lemma cache_agrees_insert:
  assumes ca: "cache_agrees conv items cache sess" and new: "sess i = None"
    and free: "\<And>d. d \<in> set (items info) \<Longrightarrow> cache d = None"
  shows "cache_agrees conv items
           (\<lambda>d. if d \<in> set (items info) then Some (conv i) else cache d) (sess(i \<mapsto> info))"
proof (rule cache_agreesI)
  fix i' info' d
  assume "(sess(i \<mapsto> info)) i' = Some info'" "d \<in> set (items info')"
  then show "(if d \<in> set (items info) then Some (conv i) else cache d) = Some (conv i')"
    using cache_agreesD1 [OF ca, of i' info' d] free [of d] by (auto split: if_splits)
next
  fix d n
  assume n: "(if d \<in> set (items info) then Some (conv i) else cache d) = Some n"
  show "\<exists>i' info'. (sess(i \<mapsto> info)) i' = Some info' \<and> n = conv i' \<and> d \<in> set (items info')"
  proof (cases "d \<in> set (items info)")
    case True
    with n show ?thesis by (auto intro!: exI [of _ i])
  next
    case False
    with n have "cache d = Some n" by simp
    with ca obtain i' info' where "sess i' = Some info'" "n = conv i'" "d \<in> set (items info')"
      by (rule cache_agreesD2)
    with new show ?thesis by (auto intro!: exI [of _ i'])
  qed
qed

lemma cache_agrees_remove:
  assumes ca: "cache_agrees conv items cache sess" and i: "sess i = Some info" and "inj conv"
  shows "cache_agrees conv items
           (\<lambda>d. if d \<in> set (items info) then None else cache d) (sess(i := None))"
proof (rule cache_agreesI)
  fix i' info' d
  assume a: "(sess(i := None)) i' = Some info'" and d: "d \<in> set (items info')"
  then have c: "cache d = Some (conv i')" "i' \<noteq> i"
    using cache_agreesD1 [OF ca, of i' info' d] by (auto split: if_splits)
  then have "d \<notin> set (items info)"
    using cache_agreesD1 [OF ca i, of d] \<open>inj conv\<close> by (auto dest: injD)
  with c show "(if d \<in> set (items info) then None else cache d) = Some (conv i')" by simp
next
  fix d n
  assume n: "(if d \<in> set (items info) then None else cache d) = Some n"
  then have "cache d = Some n" "d \<notin> set (items info)" by (auto split: if_splits)
  with ca obtain i' info' where "sess i' = Some info'" "n = conv i'" "d \<in> set (items info')"
    by (blast elim: cache_agreesD2)
  with i \<open>d \<notin> set (items info)\<close>
  show "\<exists>i' info'. (sess(i := None)) i' = Some info' \<and> n = conv i' \<and> d \<in> set (items info')"
    by (auto intro!: exI [of _ i'])
qed

lemma cache_agrees_relabel:
  assumes ca: "cache_agrees conv items cache sess" and i: "sess i = Some info"
    and same: "items info' = items info"
  shows "cache_agrees conv items cache (sess(i \<mapsto> info'))"
proof (rule cache_agreesI)
  fix k x d assume "(sess(i \<mapsto> info')) k = Some x" "d \<in> set (items x)"
  then show "cache d = Some (conv k)"
    using cache_agreesD1 [OF ca, of k x d] cache_agreesD1 [OF ca i, of d] same
    by (auto split: if_splits)
next
  fix d n assume "cache d = Some n"
  with ca obtain k x where "sess k = Some x" "n = conv k" "d \<in> set (items x)"
    by (rule cache_agreesD2)
  with i same show "\<exists>k x. (sess(i \<mapsto> info')) k = Some x \<and> n = conv k \<and> d \<in> set (items x)"
    by (cases "k = i") (auto intro!: exI [of _ k])
qed

lemma ids_agreeI:
  assumes "distinct (map fst idmap)"
    and "\<And>i info. sess i = Some info \<Longrightarrow> \<exists>s. map_of idmap s = Some i"
    and "\<And>s i. map_of idmap s = Some i \<Longrightarrow> \<exists>info. sess i = Some info"
    and "\<And>s t i. map_of idmap s = Some i \<Longrightarrow> map_of idmap t = Some i \<Longrightarrow> s = t"
  shows "ids_agree idmap sess"
  unfolding ids_agree_def using assms by (metis option.exhaust option.distinct(1))

lemma ids_agreeD:
  assumes "ids_agree idmap sess"
  shows "distinct (map fst idmap)"
    and "sess i = Some info \<Longrightarrow> \<exists>s. map_of idmap s = Some i"
    and "map_of idmap s = Some i \<Longrightarrow> \<exists>info. sess i = Some info"
    and "map_of idmap s = Some i \<Longrightarrow> map_of idmap t = Some i \<Longrightarrow> s = t"
  using assms unfolding ids_agree_def by (metis option.exhaust option.distinct(1))+

lemma ids_agree_insert:
  assumes ia: "ids_agree idmap sess" and i: "sess i = None" and s: "map_of idmap s = None"
  shows "ids_agree (um_set s i idmap) (sess(i \<mapsto> info))"
proof (rule ids_agreeI)
  show "distinct (map fst (um_set s i idmap))" using ids_agreeD(1) [OF ia] by simp
next
  fix k x assume "(sess(i \<mapsto> info)) k = Some x"
  show "\<exists>t. map_of (um_set s i idmap) t = Some k"
  proof (cases "k = i")
    case True
    then show ?thesis by (intro exI [of _ s]) simp
  next
    case False
    with \<open>(sess(i \<mapsto> info)) k = Some x\<close> have "sess k = Some x" by simp
    with ids_agreeD(2) [OF ia] obtain t where t: "map_of idmap t = Some k" by blast
    with s have "t \<noteq> s" by (metis option.distinct(1))
    with t show ?thesis by (intro exI [of _ t]) simp
  qed
next
  fix t k assume "map_of (um_set s i idmap) t = Some k"
  then show "\<exists>x. (sess(i \<mapsto> info)) k = Some x"
    using ids_agreeD(3) [OF ia, of t k] by (auto split: if_splits)
next
  fix t u k assume "map_of (um_set s i idmap) t = Some k" "map_of (um_set s i idmap) u = Some k"
  then show "t = u"
    using ids_agreeD(3) [OF ia, of t k] ids_agreeD(3) [OF ia, of u k] ids_agreeD(4) [OF ia, of t k u] i
    by (auto split: if_splits)
qed

lemma ids_agree_remove:
  assumes ia: "ids_agree idmap sess" and s: "map_of idmap s = Some i"
  shows "ids_agree (um_erase s idmap) (sess(i := None))"
proof (rule ids_agreeI)
  show "distinct (map fst (um_erase s idmap))" using ids_agreeD(1) [OF ia] by simp
next
  fix k x assume "(sess(i := None)) k = Some x"
  then have "k \<noteq> i" "sess k = Some x" by (auto split: if_splits)
  with ids_agreeD(2) [OF ia] obtain t where t: "map_of idmap t = Some k" by blast
  with s \<open>k \<noteq> i\<close> have "t \<noteq> s" by (metis option.inject)
  with t show "\<exists>t. map_of (um_erase s idmap) t = Some k" by (intro exI [of _ t]) simp
next
  fix t k assume "map_of (um_erase s idmap) t = Some k"
  then have "map_of idmap t = Some k" "t \<noteq> s" by (auto split: if_splits)
  then show "\<exists>x. (sess(i := None)) k = Some x"
    using ids_agreeD(3) [OF ia, of t k] ids_agreeD(4) [OF ia, of t i s] s by auto
next
  fix t u k assume "map_of (um_erase s idmap) t = Some k" "map_of (um_erase s idmap) u = Some k"
  then show "t = u" using ids_agreeD(4) [OF ia, of t k u] by (auto split: if_splits)
qed

lemma ids_agree_relabel:
  assumes ia: "ids_agree idmap sess" and i: "sess i = Some info"
  shows "ids_agree idmap (sess(i \<mapsto> info'))"
proof (rule ids_agreeI)
  show "distinct (map fst idmap)" by (rule ids_agreeD(1) [OF ia])
next
  fix k x assume "(sess(i \<mapsto> info')) k = Some x"
  then show "\<exists>s. map_of idmap s = Some k"
    using ids_agreeD(2) [OF ia i] ids_agreeD(2) [OF ia, of k x] by (cases "k = i") auto
next
  fix s k assume "map_of idmap s = Some k"
  then show "\<exists>x. (sess(i \<mapsto> info')) k = Some x" using ids_agreeD(3) [OF ia, of s k] by auto
next
  fix s t k assume "map_of idmap s = Some k" "map_of idmap t = Some k"
  then show "s = t" by (rule ids_agreeD(4) [OF ia])
qed

lemma find_secret_iff:
  assumes ia: "ids_agree idmap sess"
  shows "find_secret i idmap = Some s \<longleftrightarrow> map_of idmap s = Some i"
proof
  assume "find_secret i idmap = Some s"
  then have "(s, i) \<in> set idmap"
    by (auto simp: find_secret_def dest: find_SomeD)
  then show "map_of idmap s = Some i" using ids_agreeD(1) [OF ia] by simp
next
  assume s: "map_of idmap s = Some i"
  then have "(s, i) \<in> set idmap" by (rule map_of_SomeD)
  then obtain p where p: "find (\<lambda>p. snd p = i) idmap = Some p"
    by (cases "find (\<lambda>p. snd p = i) idmap") (auto simp: find_None_iff)
  then have "p \<in> set idmap" "snd p = i" by (auto dest: find_SomeD)
  then have "(fst p, i) \<in> set idmap" by (metis prod.collapse)
  then have "map_of idmap (fst p) = Some i"
    by (rule map_of_is_SomeI [OF ids_agreeD(1) [OF ia]])
  with s have "fst p = s" by (auto intro: ids_agreeD(4) [OF ia])
  with p show "find_secret i idmap = Some s" by (simp add: find_secret_def)
qed

section \<open>Starting a session\<close>

lemma check_items_Inr: "check_items f xs = Inr u \<longleftrightarrow> (\<forall>x\<in>set xs. f x = Inr None)"
  by (induction xs) (auto simp: rbind_def split: sum.splits option.splits)

lemma check_requested_items_Inr:
  "check_requested_items req f = Inr u \<longleftrightarrow> (\<forall>x\<in>set (requested req). f x = Inr None)"
  by (simp add: check_requested_items_def requested_def check_items_Inr Ball_def split: option.split)

lemma find_in_cache_None: "find_in_cache st cache v = Inr None \<longleftrightarrow> map_of cache v = None"
  by (auto simp: find_in_cache_def rbind_def split: option.splits sum.splits)

lemma max_element_key_ge:
  "m \<le> max_element_key xs m \<and> (\<forall>k\<in>fst ` set xs. k \<le> max_element_key xs m)"
  by (induction xs m rule: max_element_key.induct) (auto intro: order_trans less_imp_le)

lemma max_element_key_in: "max_element_key xs m \<in> insert m (fst ` set xs)"
  by (induction xs m rule: max_element_key.induct) (auto split: if_splits)

text \<open>The number issued is free unless session 65535 is live: then the sum wraps to 0.\<close>

lemma issue_session_id_fresh:
  assumes "map_of (sessionmap st) (- 1) = None"
  shows "map_of (sessionmap st) (issue_session_id st) = None"
proof (cases "sessionmap st")
  case (Cons p xs)
  let ?m = "max_element_key xs (fst p)"
  have "?m \<in> fst ` set (sessionmap st)"
    using max_element_key_in [of xs "fst p"] Cons by auto
  moreover have "(- 1 :: 16 word) \<notin> fst ` set (sessionmap st)"
    using assms by (simp add: map_of_eq_None_iff)
  ultimately have "?m \<noteq> - 1" by metis
  then have "?m < ?m + 1" by (rule word_less_succ)
  moreover have "\<forall>k\<in>fst ` set (sessionmap st). k \<le> ?m"
    using max_element_key_ge [of "fst p" xs] Cons by auto
  ultimately have "?m + 1 \<notin> fst ` set (sessionmap st)" by force
  then show ?thesis using Cons by (cases p) (simp add: issue_session_id_def map_of_eq_None_iff)
qed simp

text \<open>
  What a client sees: the session that a secret stands for. \<open>leases\<close> is the abstraction
  function of the refinement: every operation of the manager is an update of this one map.
\<close>

definition leases :: "session_manager \<Rightarrow> sessionid \<rightharpoonup> ft_session_info" where
  "leases st secret = (case map_of (sessionidmap st) secret of
     None \<Rightarrow> None | Some i \<Rightarrow> map_of (sessionmap st) i)"

lemma sm_invD:
  assumes "sm_inv st"
  shows "om_wf (sessionmap st)" "om_wf (devicecachemap st)"
    "map_of (sessionmap st) i = Some info \<Longrightarrow> internal_session_id info = i"
    "ids_agree (sessionidmap st) (map_of (sessionmap st))"
    "cache_agrees ucast device_keys (map_of (devicecachemap st)) (map_of (sessionmap st))"
    "cache_agrees id flags (map_of (flagcachemap st)) (map_of (sessionmap st))"
  using assms by (auto simp: sm_inv_def)

lemma leases_dom:
  assumes "sm_inv st"
  shows "leases st s = None \<longleftrightarrow> map_of (sessionidmap st) s = None"
  using ids_agreeD(3) [OF sm_invD(4) [OF assms], of s]
  by (auto simp: leases_def split: option.splits)

lemma start_session_commit_fields [simp]:
  "session_length (start_session_commit now secret req st) = session_length st"
  by (simp add: start_session_commit_def Let_def)

lemma map_of_device_commit:
  "om_wf (devicecachemap st) \<Longrightarrow>
   map_of (devicecachemap (start_session_commit now secret req st)) =
     (\<lambda>d. if d \<in> set (device_keys (new_session now req st))
          then Some (ucast (issue_session_id st)) else map_of (devicecachemap st) d)"
  by (simp add: start_session_commit_def Let_def map_of_fold_om_set new_session_def device_keys_def)

lemma map_of_flag_commit:
  "map_of (flagcachemap (start_session_commit now secret req st)) =
     (\<lambda>f. if f \<in> set (flags (new_session now req st))
          then Some (issue_session_id st) else map_of (flagcachemap st) f)"
  by (simp add: start_session_commit_def Let_def map_of_fold_um_set new_session_def)

lemma start_session_commit_inv:
  assumes inv: "sm_inv st"
    and sec: "map_of (sessionidmap st) secret = None"
    and fresh: "map_of (sessionmap st) (issue_session_id st) = None"
    and dev: "\<And>d. d \<in> set (device_keys (new_session now req st)) \<Longrightarrow> map_of (devicecachemap st) d = None"
    and flg: "\<And>f. f \<in> set (flags (new_session now req st)) \<Longrightarrow> map_of (flagcachemap st) f = None"
  shows "sm_inv (start_session_commit now secret req st)"
proof -
  let ?st = "start_session_commit now secret req st" and ?i = "issue_session_id st"
  let ?info = "new_session now req st"
  note I = sm_invD [OF inv]
  have sess: "map_of (sessionmap ?st) = (map_of (sessionmap st))(?i \<mapsto> ?info)"
    using I(1) by (simp add: start_session_commit_def Let_def)
  have ids: "sessionidmap ?st = um_set secret ?i (sessionidmap st)"
    by (simp add: start_session_commit_def Let_def)
  have wf: "om_wf (sessionmap ?st)" "om_wf (devicecachemap ?st)"
    using I(1,2) by (simp_all add: start_session_commit_def Let_def)
  have lab: "internal_session_id info = k" if "map_of (sessionmap ?st) k = Some info" for k info
    using that I(3) by (auto simp: sess new_session_def split: if_splits)
  have ida: "ids_agree (sessionidmap ?st) (map_of (sessionmap ?st))"
    unfolding sess ids by (rule ids_agree_insert [OF I(4) fresh sec])
  have dca: "cache_agrees ucast device_keys (map_of (devicecachemap ?st)) (map_of (sessionmap ?st))"
    unfolding sess map_of_device_commit [OF I(2)]
    by (rule cache_agrees_insert [OF I(5) fresh dev])
  have fca: "cache_agrees id flags (map_of (flagcachemap ?st)) (map_of (sessionmap ?st))"
    using cache_agrees_insert [OF I(6) fresh, where info = ?info, OF flg]
    unfolding sess map_of_flag_commit id_apply by simp
  from wf lab ida dca fca show ?thesis by (auto simp: sm_inv_def)
qed

lemma start_session_Inr:
  assumes "start_session now now_check secret req st = (Inr r, st')"
  shows "r = (secret, issue_session_id st)" "st' = start_session_commit now secret req st"
    and "start_session_checks now_check req st = Inr ()"
  using assms by (auto simp: start_session_def split: sum.splits)

lemma start_session_checks_free:
  assumes "start_session_checks now_check req st = Inr ()"
  shows "d \<in> set (device_keys (new_session now req st)) \<Longrightarrow> map_of (devicecachemap st) d = None"
    and "f \<in> set (flags (new_session now req st)) \<Longrightarrow> map_of (flagcachemap st) f = None"
  using assms
  by (auto simp: start_session_checks_def rbind_eq_Inr check_requested_items_Inr who_owns_device_def
      who_owns_flag_def find_in_cache_None new_session_def device_keys_def)

lemma start_session_commit_leases:
  assumes inv: "sm_inv st" and sec: "map_of (sessionidmap st) secret = None"
    and fresh: "map_of (sessionmap st) (issue_session_id st) = None"
  shows "leases (start_session_commit now secret req st) = (leases st)(secret \<mapsto> new_session now req st)"
proof
  fix s
  note I = sm_invD [OF inv]
  have "map_of (sessionidmap st) s \<noteq> Some (issue_session_id st)"
    using ids_agreeD(3) [OF I(4), of s "issue_session_id st"] fresh by auto
  then show "leases (start_session_commit now secret req st) s =
      ((leases st)(secret \<mapsto> new_session now req st)) s"
    using I(1) by (auto simp: leases_def start_session_commit_def Let_def split: option.splits)
qed

section \<open>Removing sessions\<close>

lemma leases_id:
  assumes "sm_inv st" "leases st s = Some info"
  shows "map_of (sessionidmap st) s = Some (internal_session_id info)"
    and "map_of (sessionmap st) (internal_session_id info) = Some info"
  using assms(2) sm_invD(3) [OF assms(1)] by (auto simp: leases_def split: option.splits)

lemma remove_session_live:
  assumes inv: "sm_inv st" and live: "map_of (sessionmap st) i = Some info"
  obtains secret st' where "remove_session i st = (Inr (), st')" "map_of (sessionidmap st) secret = Some i"
    "sm_inv st'" "leases st' = (leases st)(secret := None)"
    "map_of (sessionmap st') = (map_of (sessionmap st))(i := None)"
    "session_length st' = session_length st"
proof -
  note I = sm_invD [OF inv]
  obtain secret where sec: "map_of (sessionidmap st) secret = Some i"
    using ids_agreeD(2) [OF I(4) live] by blast
  let ?st = "st\<lparr>devicecachemap := fold om_erase (device_keys info) (devicecachemap st),
      flagcachemap := fold um_erase (flags info) (flagcachemap st),
      sessionidmap := um_erase secret (sessionidmap st),
      sessionmap := om_erase i (sessionmap st)\<rparr>"
  have r: "remove_session i st = (Inr (), ?st)"
    using live find_secret_iff [OF I(4), of i secret] sec
    by (simp add: remove_session_def session_at_def device_keys_def Let_def)
  have l: "leases ?st = (leases st)(secret := None)"
  proof
    fix s show "leases ?st s = ((leases st)(secret := None)) s"
      using ids_agreeD(4) [OF I(4) sec, of s] by (auto simp: leases_def split: option.splits)
  qed
  have "sm_inv ?st"
    using I(1-3) ids_agree_remove [OF I(4) sec]
      cache_agrees_remove [OF I(5) live inj_ucast_16_32] cache_agrees_remove [OF I(6) live inj_on_id]
    by (auto simp: sm_inv_def map_of_fold_om_erase map_of_fold_um_erase split: if_splits)
  from that [OF r sec this l] show thesis by simp
qed

lemma close_session_lease:
  assumes inv: "sm_inv st"
  obtains st' where "close_session secret st = (Inr (leases st secret \<noteq> None), st')"
    "sm_inv st'" "leases st' = (leases st)(secret := None)" "session_length st' = session_length st"
proof (cases "map_of (sessionidmap st) secret")
  case None
  with inv have "leases st secret = None" by (simp add: leases_dom)
  with None inv show ?thesis by (intro that [of st]) (auto simp: close_session_def fun_eq_iff)
next
  case (Some i)
  note I = sm_invD [OF inv]
  obtain info where live: "map_of (sessionmap st) i = Some info"
    using ids_agreeD(3) [OF I(4) Some] by blast
  then have l: "leases st secret \<noteq> None" using Some by (simp add: leases_def)
  obtain s st' where r: "remove_session i st = (Inr (), st')" "map_of (sessionidmap st) s = Some i"
    "sm_inv st'" "leases st' = (leases st)(s := None)" "session_length st' = session_length st"
    using remove_session_live [OF inv live] by metis
  with ids_agreeD(4) [OF I(4) Some] have "s = secret" by auto
  with r l Some show ?thesis
    by (intro that [of st']) (auto simp: close_session_def returns_def)
qed

lemma remove_sessions_live:
  assumes "sm_inv st" "distinct is" "\<And>i. i \<in> set is \<Longrightarrow> map_of (sessionmap st) i \<noteq> None"
  shows "\<exists>st'. remove_sessions is st = (Inr (), st') \<and> sm_inv st' \<and>
     session_length st' = session_length st \<and>
     (\<forall>s. leases st' s = (case leases st s of None \<Rightarrow> None
        | Some info \<Rightarrow> if internal_session_id info \<in> set is then None else Some info))"
  using assms
proof (induction "is" arbitrary: st)
  case Nil
  then show ?case by (simp add: returns_def split: option.split)
next
  case (Cons i js)
  obtain info where live: "map_of (sessionmap st) i = Some info" using Cons.prems(3) by force
  obtain s st1 where r: "remove_session i st = (Inr (), st1)" "map_of (sessionidmap st) s = Some i"
    "sm_inv st1" "leases st1 = (leases st)(s := None)"
    "map_of (sessionmap st1) = (map_of (sessionmap st))(i := None)" "session_length st1 = session_length st"
    using remove_session_live [OF Cons.prems(1) live] by metis
  have "\<And>k. k \<in> set js \<Longrightarrow> map_of (sessionmap st1) k \<noteq> None"
    using Cons.prems(2,3) r(5) by auto
  then obtain st2 where st2: "remove_sessions js st1 = (Inr (), st2)" "sm_inv st2"
    "session_length st2 = session_length st1"
    "\<forall>s. leases st2 s = (case leases st1 s of None \<Rightarrow> None
        | Some info \<Rightarrow> if internal_session_id info \<in> set js then None else Some info)"
    using Cons.IH [OF r(3)] Cons.prems(2) by auto
  have "leases st2 t = (case leases st t of None \<Rightarrow> None
        | Some x \<Rightarrow> if internal_session_id x \<in> set (i # js) then None else Some x)" for t
  proof (cases "t = s")
    case True
    have "leases st s = Some info" using r(2) live by (simp add: leases_def)
    with True st2(4) r(4) sm_invD(3) [OF Cons.prems(1) live] show ?thesis by simp
  next
    case False
    have "internal_session_id x \<noteq> i" if "leases st t = Some x" for x
      using leases_id(1) [OF Cons.prems(1) that] False r(2)
        ids_agreeD(4) [OF sm_invD(4) [OF Cons.prems(1)], of t i s] by auto
    with False st2(4) r(4) show ?thesis by (auto split: option.split)
  qed
  with r(1,6) st2 show ?case by auto
qed

lemma expired_ids_live:
  assumes "sm_inv st"
  shows "distinct (expired_ids now st)"
    and "i \<in> set (expired_ids now st) \<longleftrightarrow> (\<exists>info. map_of (sessionmap st) i = Some info \<and> expiry info < now)"
proof -
  have d: "distinct (map fst (sessionmap st))" by (rule om_wf_distinct [OF sm_invD(1) [OF assms]])
  show "distinct (expired_ids now st)"
    unfolding expired_ids_def by (rule distinct_map_filter [OF d])
  show "i \<in> set (expired_ids now st) \<longleftrightarrow> (\<exists>info. map_of (sessionmap st) i = Some info \<and> expiry info < now)"
    by (force simp: expired_ids_def map_of_eq_Some_iff [OF d])
qed

lemma update_session_states_leases:
  assumes inv: "sm_inv st"
  shows "\<exists>st'. update_session_states now st = (Inr (), st') \<and> sm_inv st' \<and>
     session_length st' = session_length st \<and>
     leases st' = (\<lambda>s. case leases st s of None \<Rightarrow> None
        | Some info \<Rightarrow> if expiry info < now then None else Some info)"
proof -
  have live: "\<And>i. i \<in> set (expired_ids now st) \<Longrightarrow> map_of (sessionmap st) i \<noteq> None"
    using expired_ids_live(2) [OF inv] by force
  obtain st' where st': "remove_sessions (expired_ids now st) st = (Inr (), st')" "sm_inv st'"
    "session_length st' = session_length st"
    "\<forall>s. leases st' s = (case leases st s of None \<Rightarrow> None
        | Some x \<Rightarrow> if internal_session_id x \<in> set (expired_ids now st) then None else Some x)"
    using remove_sessions_live [OF inv expired_ids_live(1) [OF inv] live] by blast
  have "internal_session_id x \<in> set (expired_ids now st) \<longleftrightarrow> expiry x < now"
    if "leases st s = Some x" for s x
    using leases_id(2) [OF inv that] expired_ids_live(2) [OF inv] by auto
  with st' show ?thesis
    by (intro exI [of _ st']) (simp add: update_session_states_def fun_eq_iff cong: option.case_cong if_cong)
qed

section \<open>Renewing a session\<close>

lemma set_expiry_lease:
  assumes inv: "sm_inv st" and s: "map_of (sessionidmap st) secret = Some i"
    and live: "map_of (sessionmap st) i = Some info"
  shows "sm_inv (set_expiry i tm st)"
    and "leases (set_expiry i tm st) = (leases st)(secret \<mapsto> info\<lparr>expiry := tm\<rparr>)"
    and "session_length (set_expiry i tm st) = session_length st"
proof -
  note I = sm_invD [OF inv]
  let ?info = "info\<lparr>expiry := tm\<rparr>"
  have sess: "map_of (sessionmap (set_expiry i tm st)) = (map_of (sessionmap st))(i \<mapsto> ?info)"
    using live I(1) by (simp add: set_expiry_def)
  have "ids_agree (sessionidmap st) ((map_of (sessionmap st))(i \<mapsto> ?info))"
    by (rule ids_agree_relabel [OF I(4) live])
  moreover have "cache_agrees ucast device_keys (map_of (devicecachemap st))
      ((map_of (sessionmap st))(i \<mapsto> ?info))"
    by (rule cache_agrees_relabel [OF I(5) live]) (simp add: device_keys_def)
  moreover have "cache_agrees id flags (map_of (flagcachemap st)) ((map_of (sessionmap st))(i \<mapsto> ?info))"
    by (rule cache_agrees_relabel [OF I(6) live]) simp
  ultimately show "sm_inv (set_expiry i tm st)"
    using live I(1-3) by (auto simp: sm_inv_def set_expiry_def)
  show "leases (set_expiry i tm st) = (leases st)(secret \<mapsto> ?info)"
  proof
    fix t
    have ids: "sessionidmap (set_expiry i tm st) = sessionidmap st"
      by (simp add: set_expiry_def split: option.split)
    show "leases (set_expiry i tm st) t = ((leases st)(secret \<mapsto> ?info)) t"
    proof (cases "t = secret")
      case True
      with s show ?thesis by (simp add: leases_def ids sess)
    next
      case False
      then have "map_of (sessionidmap st) t \<noteq> Some i" using ids_agreeD(4) [OF I(4) s, of t] by blast
      with False show ?thesis by (auto simp: leases_def ids sess split: option.split)
    qed
  qed
  show "session_length (set_expiry i tm st) = session_length st"
    by (simp add: set_expiry_def split: option.split)
qed

section \<open>Ownership\<close>

text \<open>
  The contract of a table of exclusive leases, as the request handlers rely on it: the owner
  that the table reports for an item is the one session that holds it, and no two secrets stand
  for the same session.
\<close>

locale ownership =
  fixes inv :: "'s \<Rightarrow> bool"
    and lease :: "'s \<Rightarrow> 'sec \<Rightarrow> ft_session_info option"
    and items :: "ft_session_info \<Rightarrow> 'item list"
    and owner :: "'s \<Rightarrow> 'item \<Rightarrow> ft_session_info option result"
  assumes owner_total: "inv s \<Longrightarrow> \<exists>r. owner s d = Inr r"
    and owner_iff: "inv s \<Longrightarrow> owner s d = Inr (Some x) \<longleftrightarrow> (\<exists>k. lease s k = Some x \<and> d \<in> set (items x))"
    and lease_inj: "inv s \<Longrightarrow> lease s k = Some x \<Longrightarrow> lease s l = Some x \<Longrightarrow> k = l"
begin

lemma owner_of_holder:
  "inv s \<Longrightarrow> lease s k = Some x \<Longrightarrow> d \<in> set (items x) \<Longrightarrow> owner s d = Inr (Some x)"
  using owner_iff by blast

lemma exclusive:
  assumes "inv s" "lease s k = Some x" "lease s l = Some y" "d \<in> set (items x)" "d \<in> set (items y)"
  shows "k = l"
proof -
  have "owner s d = Inr (Some x)" "owner s d = Inr (Some y)"
    using assms by (auto intro: owner_of_holder)
  then have "x = y" by simp
  with assms show ?thesis by (auto intro: lease_inj)
qed

lemma check_items_taken:
  assumes "inv s" "lease s k = Some x" "item \<in> set (items x)"
    and "want \<in> set xs" "key want = item"
    and "\<And>w. f w = owner s (key w)"
  shows "\<exists>y l. lease s l = Some y \<and>
     check_items f xs = Inl (Owned_by (internal_session_id y))"
  using assms(4)
proof (induction xs)
  case (Cons w ws)
  obtain r where r: "owner s (key w) = Inr r" using owner_total [OF assms(1)] by blast
  show ?case
  proof (cases r)
    case (Some y)
    with r owner_iff [OF assms(1)] obtain l where "lease s l = Some y" by blast
    with r Some assms(6) [of w] show ?thesis by auto
  next
    case None
    have "w \<noteq> want"
      using r None owner_of_holder [OF assms(1-3)] assms(5) by auto
    with Cons None r assms(6) [of w] show ?thesis by auto
  qed
qed simp

end

definition lookup_device :: "session_manager \<Rightarrow> 16 word \<Rightarrow> ft_session_info option result" where
  "lookup_device st key = find_in_cache st (devicecachemap st) key"

lemma find_in_cache_agrees:
  assumes ca: "cache_agrees conv items (map_of cache) (map_of (sessionmap st))"
    and rev: "\<And>i. ucast (conv i) = i"
  shows "find_in_cache st cache d = Inr (Some x) \<longleftrightarrow>
      (\<exists>i. map_of (sessionmap st) i = Some x \<and> d \<in> set (items x))"
    and "\<exists>r. find_in_cache st cache d = Inr r"
proof -
  show "\<exists>r. find_in_cache st cache d = Inr r"
  proof (cases "map_of cache d")
    case (Some n)
    with ca obtain i info where "map_of (sessionmap st) i = Some info" "n = conv i"
      by (rule cache_agreesD2)
    with Some rev show ?thesis by (simp add: find_in_cache_def session_at_def)
  qed (simp add: find_in_cache_def)
  show "find_in_cache st cache d = Inr (Some x) \<longleftrightarrow>
      (\<exists>i. map_of (sessionmap st) i = Some x \<and> d \<in> set (items x))"
  proof
    assume f: "find_in_cache st cache d = Inr (Some x)"
    then obtain n where n: "map_of cache d = Some n"
      by (auto simp: find_in_cache_def split: option.splits)
    with ca obtain i info where i: "map_of (sessionmap st) i = Some info" "n = conv i" "d \<in> set (items info)"
      by (rule cache_agreesD2)
    with f n rev show "\<exists>i. map_of (sessionmap st) i = Some x \<and> d \<in> set (items x)"
      by (auto simp: find_in_cache_def session_at_def)
  next
    assume "\<exists>i. map_of (sessionmap st) i = Some x \<and> d \<in> set (items x)"
    then obtain i where i: "map_of (sessionmap st) i = Some x" "d \<in> set (items x)" by blast
    then have "map_of cache d = Some (conv i)" by (rule cache_agreesD1 [OF ca])
    with i rev show "find_in_cache st cache d = Inr (Some x)"
      by (simp add: find_in_cache_def session_at_def)
  qed
qed

lemma live_session_lease:
  assumes "sm_inv st"
  shows "(\<exists>i. map_of (sessionmap st) i = Some x \<and> P) \<longleftrightarrow> (\<exists>s. leases st s = Some x \<and> P)"
proof
  assume "\<exists>i. map_of (sessionmap st) i = Some x \<and> P"
  then obtain i where "map_of (sessionmap st) i = Some x" P by blast
  moreover from this ids_agreeD(2) [OF sm_invD(4) [OF assms]]
  obtain s where "map_of (sessionidmap st) s = Some i" by blast
  ultimately show "\<exists>s. leases st s = Some x \<and> P"
    by (intro exI [of _ s]) (simp add: leases_def)
qed (auto dest: leases_id(2) [OF assms])

interpretation device_owner: ownership sm_inv leases device_keys lookup_device
proof unfold_locales
  fix s :: session_manager and d x assume inv: "sm_inv s"
  note ca = sm_invD(5) [OF inv]
  show "\<exists>r. lookup_device s d = Inr r"
    unfolding lookup_device_def by (rule find_in_cache_agrees(2) [OF ca]) simp
  show "lookup_device s d = Inr (Some x) \<longleftrightarrow> (\<exists>k. leases s k = Some x \<and> d \<in> set (device_keys x))"
    unfolding lookup_device_def live_session_lease [OF inv, symmetric]
    by (rule find_in_cache_agrees(1) [OF ca]) simp
next
  fix s k l x assume "sm_inv s" "leases s k = Some x" "leases s l = Some x"
  then show "k = l"
    using leases_id(1) ids_agreeD(4) [OF sm_invD(4)] by metis
qed

interpretation flag_owner: ownership sm_inv leases flags who_owns_flag
proof unfold_locales
  fix s :: session_manager and d x assume inv: "sm_inv s"
  note ca = sm_invD(6) [OF inv]
  show "\<exists>r. who_owns_flag s d = Inr r"
    unfolding who_owns_flag_def by (rule find_in_cache_agrees(2) [OF ca]) simp
  show "who_owns_flag s d = Inr (Some x) \<longleftrightarrow> (\<exists>k. leases s k = Some x \<and> d \<in> set (flags x))"
    unfolding who_owns_flag_def live_session_lease [OF inv, symmetric]
    by (rule find_in_cache_agrees(1) [OF ca]) simp
next
  fix s k l x assume "sm_inv s" "leases s k = Some x" "leases s l = Some x"
  then show "k = l"
    using leases_id(1) ids_agreeD(4) [OF sm_invD(4)] by metis
qed

lemma device_keys_ucast: "d \<in> set (devices x) \<Longrightarrow> ucast d \<in> set (device_keys x)"
  by (simp add: device_keys_def)

section \<open>The manager as a machine\<close>

text \<open>
  One call of an operation. The guard of \<open>Start\<close> says that the random secret is not in
  use and that session number 65535 is not live.
\<close>

lemma auth_check_device:
  assumes inv: "sm_inv st"
  shows "session_auth_check_device st secret d =
      Inr (\<exists>info. leases st secret = Some info \<and> d \<in> set (devices info))"
proof (cases "map_of (sessionidmap st) secret")
  case (Some i)
  then show ?thesis using ids_agreeD(3) [OF sm_invD(4) [OF inv] Some]
    by (auto simp: session_auth_check_device_def auth_check_def session_at_def leases_def)
qed (simp add: session_auth_check_device_def auth_check_def leases_def)

lemma who_owns_leased_device:
  assumes "sm_inv st" and "leases st secret = Some info" and "d \<in> set (devices info)"
  shows "who_owns_device st d = Inr (Some info)"
  using device_owner.owner_of_holder [OF assms(1,2), of "ucast d"] assms(3)
  by (simp add: who_owns_device_def lookup_device_def device_keys_def)

datatype session_op =
    Start int int sessionid session_request
  | Close sessionid
  | Renew int int sessionid "int option"
  | Expire int

fun session_step :: "session_op \<Rightarrow> session_manager \<Rightarrow> session_manager" where
  "session_step (Start now now_check secret req) st = snd (start_session now now_check secret req st)"
| "session_step (Close secret) st = snd (close_session secret st)"
| "session_step (Renew now now_check secret tm) st = snd (renew_session now now_check secret tm st)"
| "session_step (Expire now) st = snd (update_session_states now st)"

fun session_ok :: "session_op \<Rightarrow> session_manager \<Rightarrow> bool" where
  "session_ok (Start now now_check secret req) st =
     (map_of (sessionidmap st) secret = None \<and> map_of (sessionmap st) (- 1) = None)"
| "session_ok _ st = True"

lemma start_session_refines:
  assumes "sm_inv st" "session_ok (Start now now_check secret req) st"
    and "start_session now now_check secret req st = (Inr r, st')"
  shows "leases st' = (leases st)(secret \<mapsto> new_session now req st) \<and> sm_inv st'"
  using start_session_Inr [OF assms(3)] assms(1,2) issue_session_id_fresh [of st]
    start_session_commit_leases [of st secret] start_session_checks_free [of now_check req st]
    start_session_commit_inv [of st secret now req]
  by simp

lemma renew_session_refines:
  assumes inv: "sm_inv st"
  obtains (gone) "leases st secret = None" "renew_session now now_check secret tm st = (Inr False, st)"
  | (refused) e t where "tm = Some t" "check_requested_expiry st now_check t = Inl e"
      "renew_session now now_check secret tm st = (Inl e, st)"
  | (renewed) info st' where "leases st secret = Some info"
      "renew_session now now_check secret tm st = (Inr True, st')" "sm_inv st'"
      "leases st' = (leases st)(secret \<mapsto> info\<lparr>expiry := (case tm of
          None \<Rightarrow> now + session_length st | Some t \<Rightarrow> t)\<rparr>)"
      "session_length st' = session_length st"
      "\<And>t. tm = Some t \<Longrightarrow> check_requested_expiry st now_check t = Inr ()"
proof (cases "map_of (sessionidmap st) secret")
  case None
  then show ?thesis using gone leases_dom [OF inv] by (simp add: renew_session_def)
next
  case (Some i)
  then obtain info where live: "map_of (sessionmap st) i = Some info"
    using ids_agreeD(3) [OF sm_invD(4) [OF inv]] by blast
  then have l: "leases st secret = Some info" using Some by (simp add: leases_def)
  note E = set_expiry_lease [OF inv Some live]
  show ?thesis
  proof (cases tm)
    case None
    then show ?thesis
      using renewed [OF l, of "set_expiry i (now + session_length st) st"] Some live E
      by (simp add: renew_session_def session_at_def)
  next
    case tm: (Some t)
    show ?thesis
    proof (cases "check_requested_expiry st now_check t")
      case (Inl e)
      then show ?thesis using refused [OF tm Inl] Some live tm
        by (simp add: renew_session_def session_at_def)
    next
      case (Inr u)
      then show ?thesis
        using renewed [OF l, of "set_expiry i t st"] Some live E tm
        by (simp add: renew_session_def session_at_def)
    qed
  qed
qed

lemma session_step_inv:
  assumes inv: "sm_inv st" and ok: "session_ok op st"
  shows "sm_inv (session_step op st)"
proof (cases op)
  case (Start now now_check secret req)
  show ?thesis
  proof (cases "start_session now now_check secret req st")
    case (Pair r st')
    then show ?thesis
      using start_session_refines [OF inv, of now now_check secret req] ok Start inv
      by (cases r) (auto simp: start_session_def split: sum.splits)
  qed
next
  case (Close secret)
  then show ?thesis by (cases rule: close_session_lease [OF inv, of secret]) simp
next
  case (Renew now now_check secret tm)
  then show ?thesis
    using inv by (cases rule: renew_session_refines [OF inv, of secret now now_check tm]) simp_all
next
  case (Expire now)
  then show ?thesis using update_session_states_leases [OF inv, of now] by auto
qed

interpretation sm: guarded_machine sm_inv session_ok session_step
  by unfold_locales (rule session_step_inv)

section \<open>Properties\<close>

lemmas session_eval = start_session_def start_session_checks_def start_session_commit_def
  check_requested_items_def requested_def who_owns_device_def who_owns_flag_def find_in_cache_def
  session_at_def issue_session_id_def new_session_def new_session_manager_def um_set_def
  check_requested_expiry_def close_session_def remove_session_def find_secret_def
  um_erase_def om_erase_def returns_def leases_def device_keys_def auth_check_def
  session_auth_check_device_def renew_session_def set_expiry_def update_session_states_def
  expired_ids_def andthen_def

definition camera_request :: session_request where
  "camera_request = \<lparr>req_username = ''dan'', req_comment = ''camera'',
     devices_requested = Some [3], flags_requested = Some [''shutter''], requested_expiry = None\<rparr>"

definition camera_state :: session_manager where
  "camera_state = start_session_commit 100 [1] camera_request (new_session_manager 3600)"

lemma camera_state_start:
  "start_session 100 100 [1] camera_request (new_session_manager 3600) = (Inr ([1], 0), camera_state)"
  by (simp add: camera_state_def session_eval camera_request_def)

lemma camera_state_inv: "sm_inv camera_state"
  using session_step_inv [OF sm_inv_new, of "Start 100 100 [1] camera_request" 3600] camera_state_start
  by (simp add: new_session_manager_def)

lemma camera_state_lease: "leases camera_state [1] = Some
   \<lparr>internal_session_id = 0, user_identifier = ''dan'', comment = ''camera'', devices = [3],
    flags = [''shutter''], expiry = 3700\<rparr>"
  by (simp add: camera_state_def session_eval camera_request_def)

text \<open>
  Starting a session. When the random secret is not in use and session number 65535 is not
  live, a call of \<open>start_session\<close> that returns has added exactly one lease to the table:
  the new secret now stands for a session with the requested devices and flags, every other
  secret stands for what it stood for before, and the four maps still agree.
\<close>

theorem start_session_grants:
  assumes "sm_inv st" and "map_of (sessionidmap st) secret = None"
    and "map_of (sessionmap st) (- 1) = None"
    and "start_session now now_check secret req st = (Inr r, st')"
  shows "r = (secret, issue_session_id st) \<and>
    leases st' = (leases st)(secret \<mapsto> new_session now req st) \<and> sm_inv st'"
  using assms start_session_refines [OF assms(1) _ assms(4)] start_session_Inr(1) [OF assms(4)]
  by simp

theorem start_session_grants_witness:
  "([1::8 word], 0::16 word) = ([1], issue_session_id (new_session_manager 3600)) \<and>
   leases camera_state = (leases (new_session_manager 3600))([1] \<mapsto>
     new_session 100 camera_request (new_session_manager 3600)) \<and> sm_inv camera_state"
  by (rule start_session_grants [OF sm_inv_new _ _ camera_state_start])
     (simp_all add: new_session_manager_def)



text \<open>
  Mutual exclusion. Two secrets never lease the same device: if they do, they are the same
  secret. (The comparison is of the low 16 bits, as in the device cache.)
\<close>

theorem leases_exclusive:
  assumes "sm_inv st" and "leases st k = Some x" and "leases st l = Some y"
    and "d \<in> set (devices x)" and "e \<in> set (devices y)" and "(ucast d :: 16 word) = ucast e"
  shows "k = l"
  using device_owner.exclusive [OF assms(1-3), of "ucast d"] device_keys_ucast [OF assms(4)]
    device_keys_ucast [OF assms(5)] assms(6) by simp

theorem leases_exclusive_witness: "[1::8 word] = [1]"
  by (rule leases_exclusive [OF camera_state_inv camera_state_lease camera_state_lease, of 3 3]) simp_all

text \<open>
  The same for server flags, and with the query that the server offers: the session that
  \<open>who_owns_flag\<close> names is the one session that leases the flag, and the query never
  throws.
\<close>

theorem who_owns_flag_names_holder:
  assumes "sm_inv st"
  shows "who_owns_flag st f = Inr (Some x) \<longleftrightarrow> (\<exists>k. leases st k = Some x \<and> f \<in> set (flags x))"
  by (rule flag_owner.owner_iff [OF assms])

theorem who_owns_flag_names_holder_witness:
  "\<forall>x. who_owns_flag camera_state ''shutter'' = Inr (Some x) \<longleftrightarrow>
     (\<exists>k. leases camera_state k = Some x \<and> ''shutter'' \<in> set (flags x))"
  by (intro allI who_owns_flag_names_holder [OF camera_state_inv])

text \<open>
  C3. Authorisation. \<open>session_auth_check\<close> on a device answers True exactly for the
  secret whose session lists the device, it never throws, and then \<open>who_owns_device\<close>
  names that session.
\<close>

theorem session_auth_check_device_owner:
  assumes inv: "sm_inv st"
  shows "session_auth_check_device st secret d =
      Inr (\<exists>info. leases st secret = Some info \<and> d \<in> set (devices info)) \<and>
    (session_auth_check_device st secret d = Inr True \<longrightarrow>
      who_owns_device st d = Inr (leases st secret))"
  using auth_check_device [OF inv, of secret d] who_owns_leased_device [OF inv, of secret _ d] by auto

theorem session_auth_check_device_owner_witness:
  "session_auth_check_device camera_state [1] 3 = Inr True \<and>
   who_owns_device camera_state 3 = Inr (leases camera_state [1])"
  using session_auth_check_device_owner [OF camera_state_inv, of "[1]" 3] camera_state_lease
  by (auto simp: new_session_def camera_request_def requested_def)

text \<open>
  C4. Closing. \<open>close_session\<close> tells whether the secret stood for a session, and after it
  the secret stands for none, every other secret is untouched, and the maps still agree. In
  particular it never erases the end iterator of \<open>_sessionidmap\<close>.
\<close>

theorem close_session_releases:
  assumes "sm_inv st"
  shows "\<exists>st'. close_session secret st = (Inr (leases st secret \<noteq> None), st') \<and>
    leases st' = (leases st)(secret := None) \<and> sm_inv st'"
  by (rule close_session_lease [OF assms, of secret]) blast

theorem close_session_releases_witness:
  "\<exists>st'. close_session [1] camera_state = (Inr (leases camera_state [1] \<noteq> None), st') \<and>
    leases st' = (leases camera_state)([1] := None) \<and> sm_inv st'"
  by (rule close_session_releases [OF camera_state_inv])

text \<open>
  Renewing. A renewal that succeeds changes nothing but the expiry of the caller's own
  session, and the new expiry is at most the session length after the later of the two clock
  readings that the call makes.
\<close>

theorem renew_session_bounded:
  assumes inv: "sm_inv st" and run: "renew_session now now_check secret tm st = (Inr True, st')"
  shows "\<exists>info t. leases st secret = Some info \<and>
    leases st' = (leases st)(secret \<mapsto> info\<lparr>expiry := t\<rparr>) \<and>
    t \<le> max now now_check + session_length st \<and> sm_inv st'"
proof (cases rule: renew_session_refines [OF inv, of secret now now_check tm,
      case_names gone refused renewed])
  case (renewed info st1)
  with run have "st1 = st'" by simp
  moreover have "(case tm of None \<Rightarrow> now + session_length st | Some t \<Rightarrow> t)
      \<le> max now now_check + session_length st"
    using renewed(6) by (auto simp: check_requested_expiry_def split: option.splits if_splits)
  ultimately show ?thesis using renewed(1,3,4) by blast
qed (use run in simp_all)

theorem renew_session_bounded_witness:
  "\<exists>info t. leases camera_state [1] = Some info \<and>
    leases (set_expiry 0 5000 camera_state) = (leases camera_state)([1] \<mapsto> info\<lparr>expiry := t\<rparr>) \<and>
    t \<le> max 2000 2001 + session_length camera_state \<and> sm_inv (set_expiry 0 5000 camera_state)"
  by (rule renew_session_bounded [OF camera_state_inv, of 2000 2001 "[1]" "Some 5000"])
     (simp add: camera_state_def session_eval camera_request_def)

text \<open>
  Expiry. A sweep of the update thread ends every session whose expiry lies before the
  sweep and keeps every other one unchanged; it never throws and never runs into undefined
  behaviour, so it does not stop the update thread.
\<close>

theorem update_session_states_expires:
  assumes "sm_inv st"
  shows "\<exists>st'. update_session_states now st = (Inr (), st') \<and> sm_inv st' \<and>
    leases st' = (\<lambda>s. case leases st s of None \<Rightarrow> None
      | Some info \<Rightarrow> if expiry info < now then None else Some info)"
  using update_session_states_leases [OF assms, of now] by blast

theorem update_session_states_expires_witness:
  "\<exists>st'. update_session_states 3701 camera_state = (Inr (), st') \<and> sm_inv st' \<and>
    leases st' = (\<lambda>s. case leases camera_state s of None \<Rightarrow> None
      | Some info \<Rightarrow> if expiry info < 3701 then None else Some info)"
  by (rule update_session_states_expires [OF camera_state_inv])

text \<open>
  C5. Every run. After any sequence of starts, closes, renewals and sweeps on a new manager
  (each start with an unused secret and below session number 65535), no two secrets lease the
  same device.
\<close>

theorem session_run_exclusive:
  assumes ok: "run_ok session_ok session_step ops (new_session_manager len)"
    and k: "leases (fold session_step ops (new_session_manager len)) k = Some x" "d \<in> set (devices x)"
    and l: "leases (fold session_step ops (new_session_manager len)) l = Some y" "d \<in> set (devices y)"
  shows "k = l"
proof -
  have "sm_inv (fold session_step ops (new_session_manager len))"
    by (rule sm.run_inv [OF sm_inv_new ok])
  from device_owner.exclusive [OF this k(1) l(1), of "ucast d"] k(2) l(2) show ?thesis
    by (simp add: device_keys_def)
qed

theorem session_run_exclusive_witness: "[1::8 word] = [1]"
proof -
  have st: "fold session_step [Start 100 100 [1] camera_request] (new_session_manager 3600) = camera_state"
    by (simp add: camera_state_start)
  have ok: "run_ok session_ok session_step [Start 100 100 [1] camera_request] (new_session_manager 3600)"
    by (simp add: new_session_manager_def)
  show ?thesis
    by (rule session_run_exclusive [OF ok, unfolded st, OF camera_state_lease _ camera_state_lease, of 3])
       simp_all
qed

text \<open>
  C6. The race in \<open>start_session\<close>. The checks run under a shared lock that is released
  before the exclusive lock is taken. Two calls that both pass their checks before either
  commits both succeed: afterwards two different secrets are authorised for the same device.
\<close>

theorem start_session_race:
  assumes "start_session_checks tA reqA st = Inr ()" and "start_session_checks tB reqB st = Inr ()"
    and "devices_requested reqA = Some dsA" "d \<in> set dsA"
    and "devices_requested reqB = Some dsB" "d \<in> set dsB"
    and "a \<noteq> b" and "om_wf (sessionmap st)"
    and stA: "stA = start_session_commit tA a reqA st" and "map_of (sessionmap stA) (- 1) = None"
    and stB: "stB = start_session_commit tB b reqB stA"
  shows "session_auth_check_device stB a d = Inr True \<and> session_auth_check_device stB b d = Inr True"
proof -
  let ?i = "issue_session_id st" and ?j = "issue_session_id stA"
  have "map_of (sessionmap stA) ?j = None" by (rule issue_session_id_fresh [OF assms(10)])
  then have "?i \<noteq> ?j" using assms(8) by (auto simp: stA start_session_commit_def Let_def)
  moreover have "om_wf (sessionmap stA)" using assms(8) by (simp add: stA start_session_commit_def Let_def)
  ultimately show ?thesis
    using assms(3-8)
    by (simp add: stA stB session_auth_check_device_def auth_check_def session_at_def
        start_session_commit_def [of tA] start_session_commit_def [of tB] Let_def new_session_def
        requested_def)
qed

theorem start_session_race_witness:
  "session_auth_check_device (start_session_commit 101 [2] camera_request camera_state) [1] 3 = Inr True \<and>
   session_auth_check_device (start_session_commit 101 [2] camera_request camera_state) [2] 3 = Inr True"
  by (rule start_session_race [where st = "new_session_manager 3600" and stA = camera_state
        and tA = 100 and reqA = camera_request and reqB = camera_request and dsA = "[3]" and dsB = "[3]"])
     (simp_all add: camera_state_def session_eval camera_request_def)

text \<open>
  C7. Session numbers wrap. While session 65535 is live the next number issued is 0, whether or
  not session 0 is live: a live session 0 is then overwritten, and its holder's secret stands for
  the new session from then on.
\<close>

theorem session_number_wrap:
  assumes "map_of (sessionmap st) (- 1) \<noteq> None" and "om_wf (sessionmap st)"
    and "map_of (sessionidmap st) old = Some 0"
    and "start_session now now_check secret req st = (Inr r, st')"
  shows "leases st' old = Some (new_session now req st) \<and> leases st' secret = Some (new_session now req st)"
proof -
  have "issue_session_id st = 0"
  proof (cases "sessionmap st")
    case Nil
    with assms(1) show ?thesis by simp
  next
    case (Cons p xs)
    have "(- 1 :: 16 word) \<in> fst ` set (sessionmap st)"
      using assms(1) by (metis map_of_eq_None_iff)
    then have "- 1 \<le> max_element_key xs (fst p)"
      using max_element_key_ge [of "fst p" xs] Cons by auto
    then have "max_element_key xs (fst p) = - 1" by (simp add: word_order.extremum_unique)
    then show ?thesis using Cons by (cases p) (simp add: issue_session_id_def)
  qed
  then show ?thesis
    using start_session_Inr(2) [OF assms(4)] assms(2,3)
    by (simp add: leases_def start_session_commit_def Let_def)
qed

definition full_state :: session_manager where
  "full_state = camera_state\<lparr>sessionmap := om_set (- 1)
     \<lparr>internal_session_id = - 1, user_identifier = ''eve'', comment = '''', devices = [], flags = [],
      expiry = 9000\<rparr> (sessionmap camera_state),
     sessionidmap := um_set [7] (- 1) (sessionidmap camera_state)\<rparr>"

definition laser_request :: session_request where
  "laser_request = camera_request\<lparr>devices_requested := Some [5], flags_requested := None\<rparr>"

theorem session_number_wrap_witness:
  "leases (start_session_commit 100 [9] laser_request full_state) [1] =
     Some (new_session 100 laser_request full_state) \<and>
   leases (start_session_commit 100 [9] laser_request full_state) [9] =
     Some (new_session 100 laser_request full_state)"
  by (rule session_number_wrap [where now_check = 100])
     (simp_all add: full_state_def laser_request_def camera_state_def session_eval camera_request_def
        om_wf_def word_gt_0)

text \<open>
  A requested expiry is checked and then ignored: a session that is granted expires at
  \<open>now + _session_length\<close> whatever expiry the client asked for.
\<close>

theorem start_session_ignores_requested_expiry:
  assumes "start_session now now_check secret req st = (Inr r, st')" and "om_wf (sessionmap st)"
  shows "map_option expiry (leases st' secret) = Some (now + session_length st)"
  using start_session_Inr(2) [OF assms(1)] assms(2)
  by (simp add: leases_def start_session_commit_def Let_def new_session_def)

theorem start_session_ignores_requested_expiry_witness:
  "map_option expiry (leases (start_session_commit 100 [1] (camera_request\<lparr>requested_expiry := Some 200\<rparr>)
     (new_session_manager 3600)) [1]) = Some (100 + session_length (new_session_manager 3600))"
  by (rule start_session_ignores_requested_expiry [where now_check = 100 and now = 100 and
        req = "camera_request\<lparr>requested_expiry := Some 200\<rparr>"])
     (simp_all add: session_eval camera_request_def)

end
