(* ===== verification/Lease_Table.thy ===== *)
theory Lease_Table
  imports Session_Manager
begin

text \<open>
  What the session manager promises, without its maps: a table that says which secret holds
  which devices and flags until when. \<open>lease_step\<close> is the specification, a relation because
  it says when a request is granted and when it is refused but not how sessions are numbered.
  The manager of \<open>Session_Manager\<close> implements it: every operation on consistent maps is a step
  of the table, and what the table excludes no run of the manager reaches.
\<close>

section \<open>The specification\<close>

record lease =
  holder :: string
  purpose :: string
  held_devices :: "16 word set"
  held_flags :: "string set"
  valid_until :: int

type_synonym lease_table = "sessionid \<rightharpoonup> lease"

definition wanted_devices :: "session_request \<Rightarrow> 16 word set" where
  "wanted_devices req = ucast ` set (requested (devices_requested req))"

definition wanted_flags :: "session_request \<Rightarrow> string set" where
  "wanted_flags req = set (requested (flags_requested req))"

definition free_of :: "lease_table \<Rightarrow> session_request \<Rightarrow> bool" where
  "free_of T req \<longleftrightarrow> (\<forall>k l. T k = Some l \<longrightarrow>
     held_devices l \<inter> wanted_devices req = {} \<and> held_flags l \<inter> wanted_flags req = {})"

definition expiry_allowed :: "int \<Rightarrow> int \<Rightarrow> int option \<Rightarrow> bool" where
  "expiry_allowed len now tm = (case tm of None \<Rightarrow> True | Some t \<Rightarrow> now \<le> t \<and> t \<le> now + len)"

definition granted :: "int \<Rightarrow> int \<Rightarrow> session_request \<Rightarrow> lease" where
  "granted len now req = \<lparr>holder = req_username req, purpose = req_comment req,
     held_devices = wanted_devices req, held_flags = wanted_flags req, valid_until = now + len\<rparr>"

inductive lease_step :: "int \<Rightarrow> session_op \<Rightarrow> lease_table \<Rightarrow> lease_table \<Rightarrow> bool" for len where
  grant: "free_of T req \<Longrightarrow> expiry_allowed len now_check (requested_expiry req) \<Longrightarrow>
    lease_step len (Start now now_check secret req) T (T(secret \<mapsto> granted len now req))"
| refuse: "\<not> (free_of T req \<and> expiry_allowed len now_check (requested_expiry req)) \<Longrightarrow>
    lease_step len (Start now now_check secret req) T T"
| release: "lease_step len (Close secret) T (T(secret := None))"
| renew: "T secret = Some l \<Longrightarrow> expiry_allowed len now_check tm \<Longrightarrow>
    lease_step len (Renew now now_check secret tm) T
      (T(secret \<mapsto> l\<lparr>valid_until := (case tm of None \<Rightarrow> now + len | Some t \<Rightarrow> t)\<rparr>))"
| no_renew: "T secret = None \<or> \<not> expiry_allowed len now_check tm \<Longrightarrow>
    lease_step len (Renew now now_check secret tm) T T"
| expire: "lease_step len (Expire now) T
    (\<lambda>s. case T s of None \<Rightarrow> None | Some l \<Rightarrow> if valid_until l < now then None else Some l)"

inductive lease_run :: "int \<Rightarrow> session_op list \<Rightarrow> lease_table \<Rightarrow> bool" for len where
  empty_table: "lease_run len [] Map.empty"
| step: "lease_run len ops T \<Longrightarrow> lease_step len op T T' \<Longrightarrow> lease_run len (ops @ [op]) T'"

text \<open>What the specification is for: no item is held twice.\<close>

definition exclusive_table :: "lease_table \<Rightarrow> bool" where
  "exclusive_table T \<longleftrightarrow> (\<forall>k l x y. T k = Some x \<longrightarrow> T l = Some y \<longrightarrow> k \<noteq> l \<longrightarrow>
     held_devices x \<inter> held_devices y = {} \<and> held_flags x \<inter> held_flags y = {})"

lemma exclusive_step:
  assumes "lease_step len op T T'" and "exclusive_table T"
  shows "exclusive_table T'"
  using assms
proof (induction rule: lease_step.induct)
  case (grant T req now_check now secret)
  then show ?case
    by (auto simp: exclusive_table_def free_of_def granted_def split: if_splits)
next
  case (renew T secret l now_check tm now)
  then show ?case by (auto simp: exclusive_table_def split: if_splits)
next
  case (expire now T)
  then show ?case by (auto simp: exclusive_table_def split: option.splits if_splits)
next
  case (release secret T)
  then show ?case by (auto simp: exclusive_table_def split: if_splits)
qed simp_all

lemma exclusive_run: "lease_run len ops T \<Longrightarrow> exclusive_table T"
  by (induction rule: lease_run.induct) (simp add: exclusive_table_def, rule exclusive_step)

section \<open>The manager as a lease table\<close>

definition lease_of :: "ft_session_info \<Rightarrow> lease" where
  "lease_of info = \<lparr>holder = user_identifier info, purpose = comment info,
     held_devices = set (device_keys info), held_flags = set (flags info), valid_until = expiry info\<rparr>"

definition table_of :: "session_manager \<Rightarrow> lease_table" where
  "table_of st s = map_option lease_of (leases st s)"

lemma table_of_upd: "leases st' = (leases st)(s \<mapsto> x) \<Longrightarrow> table_of st' = (table_of st)(s \<mapsto> lease_of x)"
  by (auto simp: table_of_def)

lemma table_of_cong: "leases st' = leases st \<Longrightarrow> table_of st' = table_of st"
  by (rule ext) (simp add: table_of_def)

lemma lease_of_new_session: "lease_of (new_session now req st) = granted (session_length st) now req"
  by (simp add: lease_of_def new_session_def granted_def wanted_devices_def wanted_flags_def device_keys_def)

lemma expiry_allowed_check:
  "expiry_allowed (session_length st) now tm \<longleftrightarrow>
     (case tm of None \<Rightarrow> True | Some t \<Rightarrow> check_requested_expiry st now t = Inr ())"
  by (auto simp: expiry_allowed_def check_requested_expiry_def split: option.split)

lemma table_Some: "table_of st k = Some l \<longleftrightarrow> (\<exists>x. leases st k = Some x \<and> l = lease_of x)"
  by (auto simp: table_of_def)

lemma table_Some_free: "free_of (table_of st) req \<longleftrightarrow> (\<forall>k x. leases st k = Some x \<longrightarrow>
    held_devices (lease_of x) \<inter> wanted_devices req = {} \<and> held_flags (lease_of x) \<inter> wanted_flags req = {})"
  unfolding free_of_def table_Some by blast

lemma disjoint_devices: "held_devices (lease_of x) \<inter> wanted_devices req = {} \<longleftrightarrow>
    (\<forall>d\<in>set (requested (devices_requested req)). ucast d \<notin> set (device_keys x))"
  by (auto simp: lease_of_def wanted_devices_def)

lemma disjoint_flags: "held_flags (lease_of x) \<inter> wanted_flags req = {} \<longleftrightarrow>
    (\<forall>f\<in>set (requested (flags_requested req)). f \<notin> set (flags x))"
  by (auto simp: lease_of_def wanted_flags_def)

text \<open>The checks of a start pass exactly when the specification would grant.\<close>

lemma checks_iff_granted:
  assumes inv: "sm_inv st"
  shows "start_session_checks now_check req st = Inr () \<longleftrightarrow>
    free_of (table_of st) req \<and> expiry_allowed (session_length st) now_check (requested_expiry req)"
proof -
  have dev: "who_owns_device st d = Inr None \<longleftrightarrow> (\<forall>k x. leases st k = Some x \<longrightarrow> ucast d \<notin> set (device_keys x))" for d
  proof -
    obtain r where r: "lookup_device st (ucast d) = Inr r" using device_owner.owner_total [OF inv] by blast
    then have "who_owns_device st d = Inr r" by (simp add: who_owns_device_def lookup_device_def)
    with r device_owner.owner_iff [OF inv, of "ucast d"] show ?thesis by (cases r) auto
  qed
  have flag: "who_owns_flag st f = Inr None \<longleftrightarrow> (\<forall>k x. leases st k = Some x \<longrightarrow> f \<notin> set (flags x))" for f
  proof -
    obtain r where r: "who_owns_flag st f = Inr r" using flag_owner.owner_total [OF inv] by blast
    with flag_owner.owner_iff [OF inv, of f] show ?thesis by (cases r) (auto, metis)
  qed
  have free: "free_of (table_of st) req \<longleftrightarrow>
      (\<forall>d\<in>set (requested (devices_requested req)). who_owns_device st d = Inr None) \<and>
      (\<forall>f\<in>set (requested (flags_requested req)). who_owns_flag st f = Inr None)"
    unfolding dev flag table_Some_free disjoint_devices disjoint_flags by blast
  have expiry: "(case requested_expiry req of None \<Rightarrow> Inr ()
      | Some tm \<Rightarrow> check_requested_expiry st now_check tm) = Inr () \<longleftrightarrow>
      expiry_allowed (session_length st) now_check (requested_expiry req)"
    by (simp add: expiry_allowed_check split: option.split)
  show ?thesis
    unfolding start_session_checks_def rbind_eq_Inr check_requested_items_Inr expiry free by auto
qed

section \<open>The refinement\<close>

lemma start_refines_step:
  assumes inv: "sm_inv st" and ok: "session_ok (Start now now_check secret req) st"
  shows "lease_step (session_length st) (Start now now_check secret req) (table_of st)
    (table_of (snd (start_session now now_check secret req st)))"
proof (cases "start_session_checks now_check req st")
  case (Inl e)
  then have "\<not> (free_of (table_of st) req \<and> expiry_allowed (session_length st) now_check (requested_expiry req))"
    using checks_iff_granted [OF inv, of now_check req] by auto
  with Inl show ?thesis by (simp add: start_session_def lease_step.refuse)
next
  case (Inr u)
  then have g: "free_of (table_of st) req" "expiry_allowed (session_length st) now_check (requested_expiry req)"
    using checks_iff_granted [OF inv, of now_check req] by simp_all
  have run: "start_session now now_check secret req st =
      (Inr (secret, issue_session_id st), start_session_commit now secret req st)"
    using Inr by (simp add: start_session_def)
  from start_session_refines [OF inv ok run]
  have "table_of (start_session_commit now secret req st) =
      (table_of st)(secret \<mapsto> granted (session_length st) now req)"
    by (simp add: table_of_upd lease_of_new_session)
  with lease_step.grant [OF g, of now secret] run show ?thesis by simp
qed

lemma renew_refines_step:
  assumes inv: "sm_inv st"
  shows "lease_step (session_length st) (Renew now now_check secret tm) (table_of st)
    (table_of (snd (renew_session now now_check secret tm st)))"
proof (cases rule: renew_session_refines [OF inv, of secret now now_check tm,
      case_names gone refused renewed])
  case gone
  then show ?thesis by (auto simp: table_of_def intro!: lease_step.no_renew)
next
  case (refused e t)
  then show ?thesis by (auto simp: expiry_allowed_check intro!: lease_step.no_renew)
next
  case (renewed info st')
  let ?t = "case tm of None \<Rightarrow> now + session_length st | Some t \<Rightarrow> t"
  have "expiry_allowed (session_length st) now_check tm"
    using renewed(6) by (auto simp: expiry_allowed_check split: option.split)
  from lease_step.renew [OF _ this, of "table_of st" secret "lease_of info" now] renewed(1)
  have "lease_step (session_length st) (Renew now now_check secret tm) (table_of st)
      ((table_of st)(secret \<mapsto> (lease_of info)\<lparr>valid_until := ?t\<rparr>))"
    by (simp add: table_of_def)
  also have "(lease_of info)\<lparr>valid_until := ?t\<rparr> = lease_of (info\<lparr>expiry := ?t\<rparr>)"
    by (simp add: lease_of_def device_keys_def)
  also have "(table_of st)(secret \<mapsto> lease_of (info\<lparr>expiry := ?t\<rparr>)) = table_of st'"
    by (rule table_of_upd [OF renewed(4), symmetric])
  finally show ?thesis using renewed(2) by simp
qed

lemma close_refines_step:
  assumes inv: "sm_inv st"
  shows "lease_step (session_length st) (Close secret) (table_of st)
    (table_of (snd (close_session secret st)))"
proof -
  obtain st' where "close_session secret st = (Inr (leases st secret \<noteq> None), st')"
    "leases st' = (leases st)(secret := None)"
    by (rule close_session_lease [OF inv, of secret])
  moreover from this(2) have "table_of st' = (table_of st)(secret := None)"
    by (auto simp: table_of_def)
  ultimately show ?thesis by (simp add: lease_step.release)
qed

lemma expire_refines_step:
  assumes inv: "sm_inv st"
  shows "lease_step (session_length st) (Expire now) (table_of st)
    (table_of (snd (update_session_states now st)))"
proof -
  obtain st' where "update_session_states now st = (Inr (), st')" and
    l: "leases st' = (\<lambda>s. case leases st s of None \<Rightarrow> None
        | Some info \<Rightarrow> if expiry info < now then None else Some info)"
    using update_session_states_leases [OF inv, of now] by blast
  moreover have "table_of st' = (\<lambda>s. case table_of st s of None \<Rightarrow> None
        | Some l \<Rightarrow> if valid_until l < now then None else Some l)"
    by (rule ext) (simp add: table_of_def l lease_of_def split: option.split)
  ultimately show ?thesis by (simp add: lease_step.expire)
qed

lemma session_step_length:
  assumes "sm_inv st"
  shows "session_length (session_step op st) = session_length st"
proof (cases op)
  case (Start now now_check secret req)
  then show ?thesis by (simp add: start_session_def split: sum.split)
next
  case (Close secret)
  then show ?thesis by (cases rule: close_session_lease [OF assms, of secret]) simp_all
next
  case (Renew now now_check secret tm)
  then show ?thesis
    by (cases rule: renew_session_refines [OF assms, of secret now now_check tm]) simp_all
next
  case (Expire now)
  with update_session_states_leases [OF assms, of now] show ?thesis by auto
qed

lemma session_step_refines:
  assumes "sm_inv st" and "session_ok op st"
  shows "lease_step (session_length st) op (table_of st) (table_of (session_step op st))"
proof (cases op)
  case (Start now now_check secret req)
  show ?thesis
    unfolding Start session_step.simps
    by (rule start_refines_step [OF assms(1)]) (use assms(2) Start in simp)
next
  case (Close secret)
  show ?thesis
    unfolding Close session_step.simps by (rule close_refines_step [OF assms(1)])
next
  case (Renew now now_check secret tm)
  show ?thesis
    unfolding Renew session_step.simps by (rule renew_refines_step [OF assms(1)])
next
  case (Expire now)
  show ?thesis
    unfolding Expire session_step.simps by (rule expire_refines_step [OF assms(1)])
qed

lemma run_ok_snoc: "run_ok ok step (ops @ [op]) s \<longleftrightarrow> run_ok ok step ops s \<and> ok op (fold step ops s)"
  by (induction ops arbitrary: s) auto

lemma session_run_length:
  "sm_inv st \<Longrightarrow> run_ok session_ok session_step ops st \<Longrightarrow>
   session_length (fold session_step ops st) = session_length st"
  by (induction ops arbitrary: st) (auto simp: session_step_length sm.step_inv)

section \<open>Properties\<close>

text \<open>
  C1. The manager implements the table. From a new manager, every run of starts, closes, renewals
  and sweeps (each start with an unused secret and below session number 65535) is a run of the
  specification: the lease table that the four maps stand for is the one the specification
  reaches, so a start is granted exactly when all its items are free and its expiry is allowed.
\<close>

theorem session_manager_refines_lease_table:
  assumes "run_ok session_ok session_step ops (new_session_manager len)"
  shows "lease_run len ops (table_of (fold session_step ops (new_session_manager len)))"
  using assms
proof (induction ops rule: rev_induct)
  case Nil
  have "table_of (new_session_manager len) = Map.empty"
    by (rule ext) (simp add: table_of_def leases_def new_session_manager_def)
  then show ?case by (simp add: lease_run.empty_table)
next
  case (snoc op ops)
  let ?st = "fold session_step ops (new_session_manager len)"
  have inv: "sm_inv ?st" and "session_length ?st = len"
    using snoc.prems sm.run_inv [OF sm_inv_new] session_run_length [OF sm_inv_new]
    by (simp_all add: run_ok_snoc new_session_manager_def)
  with session_step_refines [OF inv, of op] snoc show ?case
    by (auto simp: run_ok_snoc intro: lease_run.step)
qed

theorem session_manager_refines_lease_table_witness:
  "lease_run 3600 [Start 100 100 [1] camera_request, Start 200 200 [2] camera_request]
     [[1] \<mapsto> granted 3600 100 camera_request]"
proof -
  let ?ops = "[Start 100 100 [1] camera_request, Start 200 200 [2] camera_request]"
  have "run_ok session_ok session_step ?ops (new_session_manager 3600)"
    by (simp add: new_session_manager_def session_eval camera_request_def)
  from session_manager_refines_lease_table [OF this]
  have "lease_run 3600 ?ops (table_of (fold session_step ?ops (new_session_manager 3600)))" .
  moreover have "table_of (fold session_step ?ops (new_session_manager 3600)) =
      [[1] \<mapsto> granted 3600 100 camera_request]"
    by (rule ext) (simp add: table_of_def new_session_manager_def session_eval camera_request_def
        lease_of_def granted_def wanted_devices_def wanted_flags_def device_keys_def requested_def leases_def)
  ultimately show ?thesis by simp
qed

end
