(* ===== verification/Server_Core.thy ===== *)
theory Server_Core
  imports Foxtrot_Prelude
begin

text \<open>
  One remote call on the server: server/include/exptserve/HandlerBase.h and
  server/include/foxtrot/server/ServerUtil.h.

  The rpc library is not part of the repository. What a handler hands to its responder is
  recorded in \<open>finished\<close>, in order; the library answers each \<open>Finish\<close> and each
  registration with one later call of \<open>Proceed\<close>. A handler is generic in the logic it runs:
  a metadata check on the state of the server and a \<open>HandleRequest\<close> on the call.

  The locale \<open>unary_logic\<close> is the contract that \<open>HandlerBase\<close> relies on and does not
  check: a logic that returns has finished the responder exactly once, one that throws has not.
  Under it every request is answered exactly once. It is interpreted for every unary logic of
  the server in the theories that model them.
\<close>

section \<open>Error replies\<close>

datatype error_types =
    ft_Error | ft_DeviceError | ft_ProtocolError | out_of_range | unknown_error
  | contention_timeout | ft_ServerError | ft_AuthError

record errstatus =
  err_tp :: error_types
  err_msg :: string

fun error_reply :: "error \<Rightarrow> errstatus" where
  "error_reply (Device_error m) = \<lparr>err_tp = ft_DeviceError, err_msg = m\<rparr>"
| "error_reply (Motor_error m) = \<lparr>err_tp = ft_Error, err_msg = m\<rparr>"
| "error_reply (Protocol_error m) = \<lparr>err_tp = ft_ProtocolError, err_msg = m\<rparr>"
| "error_reply (Protocol_timeout m) = \<lparr>err_tp = ft_ProtocolError, err_msg = m\<rparr>"
| "error_reply (Contention_error m) = \<lparr>err_tp = contention_timeout, err_msg = m\<rparr>"
| "error_reply (Server_error m) = \<lparr>err_tp = ft_ServerError, err_msg = m\<rparr>"
| "error_reply (Base_error m) = \<lparr>err_tp = ft_Error, err_msg = m\<rparr>"
| "error_reply (Out_of_range m) = \<lparr>err_tp = out_of_range, err_msg = m\<rparr>"
| "error_reply (Logic_error m) = \<lparr>err_tp = ft_Error, err_msg = m\<rparr>"
| "error_reply (Runtime_error m) = \<lparr>err_tp = ft_Error, err_msg = m\<rparr>"
| "error_reply (Invalid_argument m) = \<lparr>err_tp = ft_Error, err_msg = m\<rparr>"
| "error_reply Bad_variant_access = \<lparr>err_tp = ft_Error, err_msg = ''bad_variant_access''\<rparr>"
| "error_reply (Owned_by _) = \<lparr>err_tp = unknown_error, err_msg = ''unknown error''\<rparr>"
| "error_reply (UB m) = \<lparr>err_tp = unknown_error, err_msg = m\<rparr>"

section \<open>A call\<close>

record ('s, 'repl) call =
  server :: 's
  repl :: 'repl
  finished :: "'repl list"

definition on_server :: "('s, 'a) prog \<Rightarrow> (('s, 'repl) call, 'a) prog" where
  "on_server m c = (case m (server c) of (r, s) \<Rightarrow> (r, c\<lparr>server := s\<rparr>))"

definition on_repl :: "('repl \<Rightarrow> 'repl) \<Rightarrow> (('s, 'repl) call, unit) prog" where
  "on_repl f = modifies (\<lambda>c. c\<lparr>repl := f (repl c)\<rparr>)"

definition respond_finish :: "(('s, 'repl) call, unit) prog" where
  "respond_finish = modifies (\<lambda>c. c\<lparr>finished := finished c @ [repl c]\<rparr>)"

text \<open>\<open>foxtrot_server_specific_error\<close> and \<open>foxtrot_rpc_error_handling\<close>: the error is put
  into the reply and the reply is handed to the responder. There is no handler for an execution
  without a meaning.\<close>

definition server_specific_error ::
  "(errstatus \<Rightarrow> 'repl \<Rightarrow> 'repl) \<Rightarrow> string \<Rightarrow> error_types \<Rightarrow> (('s, 'repl) call, unit) prog" where
  "server_specific_error set_err msg tp =
     andthen (on_repl (set_err \<lparr>err_tp = tp, err_msg = msg\<rparr>)) (\<lambda>_. respond_finish)"

definition rpc_error_handling ::
  "(errstatus \<Rightarrow> 'repl \<Rightarrow> 'repl) \<Rightarrow> error \<Rightarrow> (('s, 'repl) call, unit) prog" where
  "rpc_error_handling set_err e = (case e of
     UB m \<Rightarrow> throws (UB m)
   | _ \<Rightarrow> andthen (on_repl (set_err (error_reply e))) (\<lambda>_. respond_finish))"

section \<open>The handler machine\<close>

datatype handler_status = CREATE | PROCESS | IN_FLIGHT | FINISH

type_synonym metadata = "(string \<times> 8 word list) list"

record ('s, 'req, 'repl) logic =
  check_metadata :: "metadata \<Rightarrow> 'req \<Rightarrow> ('s, bool) prog"
  handle_request :: "'req \<Rightarrow> (('s, 'repl) call, bool waiting) prog"
  set_err :: "errstatus \<Rightarrow> 'repl \<Rightarrow> 'repl"

text \<open>The \<open>try\<close> block of the state PROCESS.\<close>

definition process_request ::
  "('s, 'req, 'repl) logic \<Rightarrow> metadata \<Rightarrow> 'req \<Rightarrow> (('s, 'repl) call, handler_status waiting) prog" where
  "process_request lg ctxt req =
     catches
       (andthen (on_server (check_metadata lg ctxt req)) (\<lambda>ok.
        if ok
        then andthen (handle_request lg req) (\<lambda>d. case d of
               Blocked \<Rightarrow> returns Blocked
             | Done fin \<Rightarrow> returns (Done (if fin then FINISH else PROCESS)))
        else returns (Done FINISH)))
       (\<lambda>e. andthen (rpc_error_handling (set_err lg) e) (\<lambda>_. returns (Done FINISH)))"

record handler_base =
  status :: handler_status
  newrequest :: bool

datatype handler_event = Registered | Spawned | Deleted

text \<open>One call of \<open>Proceed\<close>. The event \<open>Registered\<close> is the call of the request function
  of the service, \<open>Spawned\<close> the construction of the handler of the next request, and
  \<open>Deleted\<close> is \<open>delete this\<close>.\<close>

definition Proceed ::
  "('s, 'req, 'repl) logic \<Rightarrow> metadata \<Rightarrow> 'req \<Rightarrow> handler_base \<Rightarrow>
   (('s, 'repl) call, handler_base \<times> handler_event list) prog" where
  "Proceed lg ctxt req hb = (case status hb of
     CREATE \<Rightarrow> returns (hb\<lparr>status := PROCESS\<rparr>, [Registered])
   | PROCESS \<Rightarrow>
       (let events = (if newrequest hb then [Spawned] else []);
            hbA = hb\<lparr>newrequest := False\<rparr>
        in andthen (process_request lg ctxt req) (\<lambda>d. case d of
             Blocked \<Rightarrow> returns (hbA, events)
           | Done st \<Rightarrow> returns (hbA\<lparr>status := st\<rparr>, events)))
   | _ \<Rightarrow> returns (hb, [Deleted]))"

definition new_handler :: handler_base where
  "new_handler = \<lparr>status = CREATE, newrequest = True\<rparr>"

section \<open>The contract of a unary logic\<close>

named_theorems call_simps \<open>unfolding rules of the operations on a call\<close>

declare on_server_def [call_simps] on_repl_def [call_simps] respond_finish_def [call_simps]
  server_specific_error_def [call_simps] andthen_def [call_simps] returns_def [call_simps]
  throws_def [call_simps] modifies_def [call_simps] gets_def [call_simps] lifts_def [call_simps]
  throw_unless_def [call_simps]

lemma rpc_error_handling_answers:
  assumes "rpc_error_handling f e c = (Inr (), c')"
  shows "finished c' = finished c @ [f (error_reply e) (repl c)] \<and> server c' = server c"
  using assms by (cases e) (auto simp: rpc_error_handling_def call_simps)

lemma rpc_error_handling_not_ub:
  "\<not> is_UB e \<Longrightarrow> rpc_error_handling f e c =
     (Inr (), c\<lparr>repl := f (error_reply e) (repl c), finished := finished c @ [f (error_reply e) (repl c)]\<rparr>)"
  by (cases e) (auto simp: rpc_error_handling_def call_simps)

text \<open>A program on a call is quiet when it leaves the responder alone, and it answers when it
  finishes the responder exactly once if it returns and not at all if it throws.\<close>

definition quiet :: "(('s, 'repl) call, 'a) prog \<Rightarrow> bool" where
  "quiet m \<longleftrightarrow> (\<forall>c. finished (snd (m c)) = finished c)"

definition answered_from :: "'repl list \<Rightarrow> bool waiting result \<times> ('s, 'repl) call \<Rightarrow> bool" where
  "answered_from fs p \<longleftrightarrow> (case fst p of
     Inl e \<Rightarrow> is_UB e \<or> finished (snd p) = fs
   | Inr Blocked \<Rightarrow> finished (snd p) = fs
   | Inr (Done b) \<Rightarrow> b \<and> (\<exists>r. finished (snd p) = fs @ [r]))"

definition answers :: "(('s, 'repl) call, bool waiting) prog \<Rightarrow> bool" where
  "answers m \<longleftrightarrow> (\<forall>c. answered_from (finished c) (m c))"

lemma answersD: "answers m \<Longrightarrow> answered_from (finished c) (m c)"
  by (simp add: answers_def)

named_theorems answers_intros \<open>rules that show that a handler answers\<close>

lemma quiet_basic [answers_intros]:
  "quiet (returns x)" "quiet (throws e)" "quiet (lifts r)" "quiet (gets f)" "quiet (on_server p)"
  "quiet (on_repl g)"
  by (auto simp: quiet_def call_simps split: prod.split)

lemma quiet_andthen [answers_intros]: "quiet m \<Longrightarrow> (\<And>x. quiet (k x)) \<Longrightarrow> quiet (andthen m k)"
  by (auto simp: quiet_def andthen_def split: prod.splits sum.splits) (metis snd_conv)+

lemma answers_andthen [answers_intros]:
  assumes m: "quiet m" and k: "\<And>x. answers (k x)"
  shows "answers (andthen m k)"
  unfolding answers_def
proof
  fix c
  obtain r c' where mc: "m c = (r, c')" by fastforce
  with m have q: "finished c' = finished c" by (metis quiet_def snd_conv)
  show "answered_from (finished c) (andthen m k c)"
  proof (cases r)
    case (Inl e)
    with mc q show ?thesis by (simp add: andthen_def answered_from_def)
  next
    case (Inr x)
    with mc q answersD [OF k, of c' x] show ?thesis by (simp add: andthen_def)
  qed
qed

lemma answers_basic [answers_intros]:
  "answers (throws e)" "answers (returns Blocked)"
  "answers (andthen respond_finish (\<lambda>_. returns (Done True)))"
  "answers (andthen (server_specific_error f msg tp) (\<lambda>_. returns (Done True)))"
  by (auto simp: answers_def answered_from_def call_simps)

lemma answers_rpc_error [answers_intros]:
  "answers (andthen (rpc_error_handling f e) (\<lambda>_. returns (Done True)))"
  by (cases e) (auto simp: answers_def answered_from_def rpc_error_handling_def call_simps)

lemma answers_catches [answers_intros]:
  assumes m: "answers m" and h: "\<And>e. answers (h e)"
  shows "answers (catches m h)"
  unfolding answers_def
proof
  fix c
  obtain r c' where mc: "m c = (r, c')" by fastforce
  show "answered_from (finished c) (catches m h c)"
  proof (cases r)
    case (Inl e)
    show ?thesis
    proof (cases "is_UB e")
      case True
      with Inl mc show ?thesis by (simp add: catches_def answered_from_def)
    next
      case False
      with Inl mc answersD [OF m, of c] have "finished c' = finished c" by (simp add: answered_from_def)
      with Inl mc False answersD [OF h, of c' e] show ?thesis by (simp add: catches_def)
    qed
  next
    case (Inr x)
    with mc answersD [OF m, of c] show ?thesis by (simp add: catches_def)
  qed
qed

lemma answers_if [answers_intros]: "(b \<Longrightarrow> answers m) \<Longrightarrow> (\<not> b \<Longrightarrow> answers n) \<Longrightarrow> answers (if b then m else n)"
  by simp

lemma quiet_if [answers_intros]: "(b \<Longrightarrow> quiet m) \<Longrightarrow> (\<not> b \<Longrightarrow> quiet n) \<Longrightarrow> quiet (if b then m else n)"
  by simp

lemma answers_option [answers_intros]:
  "answers m \<Longrightarrow> (\<And>x. answers (k x)) \<Longrightarrow> answers (case r of None \<Rightarrow> m | Some x \<Rightarrow> k x)"
  by (cases r) simp_all

locale unary_logic =
  fixes lg :: "('s, 'req, 'repl) logic"
  assumes check_passes: "check_metadata lg ctxt req s = (Inr b, s') \<Longrightarrow> b"
    and handle_answers: "answers (handle_request lg req)"
begin

lemma returns_finished:
  "handle_request lg req c = (Inr (Done b), c') \<Longrightarrow> b \<and> (\<exists>r. finished c' = finished c @ [r])"
  using answersD [OF handle_answers, of c req] by (simp add: answered_from_def)

lemma throws_unfinished:
  "handle_request lg req c = (Inl e, c') \<Longrightarrow> \<not> is_UB e \<Longrightarrow> finished c' = finished c"
  using answersD [OF handle_answers, of c req] by (simp add: answered_from_def)

lemma answered_once:
  assumes "process_request lg ctxt req c = (Inr (Done st), c')"
  shows "st = FINISH \<and> (\<exists>r. finished c' = finished c @ [r])"
proof (cases "check_metadata lg ctxt req (server c)")
  case (Pair chk s)
  show ?thesis
  proof (cases chk)
    case (Inl e)
    with assms Pair show ?thesis
      by (auto simp: process_request_def catches_def on_server_def andthen_def returns_def
          split: prod.splits sum.splits if_splits dest!: rpc_error_handling_answers)
  next
    case (Inr b)
    with check_passes Pair have b: "check_metadata lg ctxt req (server c) = (Inr True, s)" by fastforce
    show ?thesis
    proof (cases "handle_request lg req (c\<lparr>server := s\<rparr>)")
      case (Pair r cA)
      show ?thesis
      proof (cases r)
        case (Inl e)
        with assms b Pair have "\<not> is_UB e"
          by (auto simp: process_request_def catches_def on_server_def andthen_def returns_def)
        with Pair throws_unfinished [of req "c\<lparr>server := s\<rparr>" e cA] Inl have "finished cA = finished c" by simp
        with assms b Pair Inl \<open>\<not> is_UB e\<close> show ?thesis
          by (auto simp: process_request_def catches_def on_server_def andthen_def returns_def
              split: prod.splits sum.splits if_splits dest!: rpc_error_handling_answers)
      next
        case (Inr d)
        with assms b Pair obtain fin where d: "d = Done fin"
          by (cases d) (auto simp: process_request_def catches_def on_server_def andthen_def returns_def)
        with Pair Inr returns_finished [of req "c\<lparr>server := s\<rparr>" fin cA] assms b show ?thesis
          by (auto simp: process_request_def catches_def on_server_def andthen_def returns_def)
      qed
    qed
  qed
qed

lemma life_of_a_request:
  assumes "process_request lg ctxt req c = (Inr (Done st), c')"
  shows "\<exists>hA hB r. Proceed lg ctxt req new_handler c = (Inr (hA, [Registered]), c) \<and>
    Proceed lg ctxt req hA c = (Inr (hB, [Spawned]), c') \<and>
    Proceed lg ctxt req hB c' = (Inr (hB, [Deleted]), c') \<and> finished c' = finished c @ [r]"
proof -
  let ?hA = "\<lparr>status = PROCESS, newrequest = True\<rparr>" and ?hB = "\<lparr>status = FINISH, newrequest = False\<rparr>"
  from answered_once [OF assms] obtain r where r: "st = FINISH" "finished c' = finished c @ [r]" by blast
  have "Proceed lg ctxt req new_handler c = (Inr (?hA, [Registered]), c)"
    "Proceed lg ctxt req ?hA c = (Inr (?hB, [Spawned]), c')"
    "Proceed lg ctxt req ?hB c' = (Inr (?hB, [Deleted]), c')"
    using assms r(1) by (simp_all add: Proceed_def new_handler_def andthen_def returns_def Let_def)
  with r(2) show ?thesis by blast
qed

end

end
