(* ===== verification/Session_Handlers.thy ===== *)
theory Session_Handlers
  imports Server_Core Session_Manager
begin

text \<open>
  The remote calls on sessions: server/src/StartSessionImpl.cpp, CloseSessionImpl.cpp,
  KeepAliveSessionImpl.cpp, ListSessionsImpl.cpp and
  server/include/exptserve/session\_utils.hh, and the interceptor
  server/src/interceptors/SessionInterceptor.cpp.

  A request and a reply are the message \<open>session_info\<close>; the protocol buffer fields that are
  absent are empty or \<open>None\<close>. The random secret and every reading of the clock are arguments.
  Expiry times are seconds in a message and clock ticks in the session manager.
\<close>

section \<open>Messages\<close>

record session_info =
  err :: "errstatus option"
  si_sessionid :: "8 word list"
  si_user_identifier :: string
  si_comment :: string
  si_devices :: "32 word list"
  si_flags :: "string list"
  si_expiry :: "int option"

definition empty_session_info :: session_info where
  "empty_session_info = \<lparr>err = None, si_sessionid = [], si_user_identifier = '''', si_comment = '''',
     si_devices = [], si_flags = [], si_expiry = None\<rparr>"

definition set_session_err :: "errstatus \<Rightarrow> session_info \<Rightarrow> session_info" where
  "set_session_err e r = r\<lparr>err := Some e\<rparr>"

text \<open>\<open>to_time_t\<close> and \<open>from_time_t\<close>: a cast of ticks to seconds truncates towards
  zero.\<close>

definition to_time_t :: "int \<Rightarrow> int" where
  "to_time_t t = sgn t * (abs t div one_second)"

definition from_time_t :: "int \<Rightarrow> int" where
  "from_time_t s = s * one_second"

definition get_expiry :: "session_info \<Rightarrow> int option" where
  "get_expiry req = map_option from_time_t (si_expiry req)"

definition set_expiry_from_time :: "int \<Rightarrow> session_info \<Rightarrow> session_info" where
  "set_expiry_from_time t r = r\<lparr>si_expiry := Some (to_time_t t)\<rparr>"

definition SESSION_ID_BYTES :: nat where
  "SESSION_ID_BYTES = 32"

text \<open>\<open>require_sessionid_check\<close> answers True when it has already answered the request.\<close>

definition require_sessionid_check ::
  "session_info \<Rightarrow> ((session_manager, session_info) call, bool) prog" where
  "require_sessionid_check req =
     (if length (si_sessionid req) = 0
      then andthen (server_specific_error set_session_err
             ''must supply a session secret to use this call'' ft_ServerError) (\<lambda>_. returns True)
      else if length (si_sessionid req) \<noteq> SESSION_ID_BYTES
      then andthen (server_specific_error set_session_err
             ''invalid session id format'' ft_ServerError) (\<lambda>_. returns True)
      else returns False)"

section \<open>StartSession\<close>

definition session_request_of :: "session_info \<Rightarrow> session_request" where
  "session_request_of req = \<lparr>req_username = si_user_identifier req, req_comment = si_comment req,
     devices_requested = Some (si_devices req), flags_requested = Some (si_flags req),
     requested_expiry = get_expiry req\<rparr>"

definition start_granted ::
  "session_info \<Rightarrow> sessionid \<times> 16 word \<Rightarrow> ((session_manager, session_info) call, bool waiting) prog" where
  "start_granted req ids =
     andthen (on_repl (\<lambda>r. r\<lparr>si_sessionid := fst ids, si_user_identifier := si_user_identifier req,
        si_comment := si_comment req, si_devices := si_devices req, si_flags := si_flags req\<rparr>)) (\<lambda>_.
     andthen (on_server (\<lambda>st. (get_session_info_id st (snd ids), st))) (\<lambda>info.
     andthen (on_repl (set_expiry_from_time (expiry info))) (\<lambda>_.
     andthen respond_finish (\<lambda>_. returns (Done True)))))"

definition start_refused ::
  "16 word \<Rightarrow> ((session_manager, session_info) call, bool waiting) prog" where
  "start_refused i =
     andthen (on_server (\<lambda>st. (get_session_info_id st i, st))) (\<lambda>owner.
     andthen (on_repl (\<lambda>r. set_expiry_from_time (expiry owner)
        (r\<lparr>si_user_identifier := user_identifier owner, si_comment := comment owner\<rparr>))) (\<lambda>_.
     andthen (server_specific_error set_session_err
        ''Can't start session as it conflicts with another session'' ft_ServerError) (\<lambda>_.
     returns (Done True))))"

definition start_out_of_range ::
  "int \<Rightarrow> session_info \<Rightarrow> string \<Rightarrow> ((session_manager, session_info) call, bool waiting) prog" where
  "start_out_of_range now req m = (case get_expiry req of
     None \<Rightarrow> throws (Out_of_range m)
   | Some tm \<Rightarrow> andthen (on_server (gets session_length)) (\<lambda>len.
       if now + len < tm
       then andthen (on_repl (set_expiry_from_time (now + len))) (\<lambda>_.
            andthen (server_specific_error set_session_err
              ''requested an expiry beyond the maximum allowed'' ft_ServerError) (\<lambda>_.
            returns (Done True)))
       else throws (Out_of_range m)))"

text \<open>Three readings of the clock: for the check of the expiry, for the new session, and in the
  handler of \<open>out_of_range\<close>.\<close>

definition StartSession_HandleRequest ::
  "int \<Rightarrow> int \<Rightarrow> int \<Rightarrow> sessionid \<Rightarrow> session_info \<Rightarrow>
   ((session_manager, session_info) call, bool waiting) prog" where
  "StartSession_HandleRequest now_check now now_err secret req =
     (if length (si_user_identifier req) = 0
      then andthen (server_specific_error set_session_err
             ''must supply a user identifier to start session'' ft_ServerError) (\<lambda>_.
           returns (Done True))
      else catches
        (andthen (on_server (start_session now now_check secret (session_request_of req)))
          (start_granted req))
        (\<lambda>e. case e of
           Owned_by i \<Rightarrow> start_refused i
         | Out_of_range m \<Rightarrow> start_out_of_range now_err req m
         | _ \<Rightarrow> throws e))"

section \<open>CloseSession, KeepAliveSession, ListSessions\<close>

definition CloseSession_HandleRequest ::
  "session_info \<Rightarrow> ((session_manager, session_info) call, bool waiting) prog" where
  "CloseSession_HandleRequest req =
     andthen (require_sessionid_check req) (\<lambda>answered.
     if answered then returns (Done True)
     else andthen (on_server (\<lambda>st. (get_session_info_secret st (si_sessionid req), st))) (\<lambda>info.
     andthen (on_repl (\<lambda>r. (set_expiry_from_time (expiry info)
        (r\<lparr>si_user_identifier := user_identifier info, si_comment := comment info\<rparr>))
        \<lparr>si_devices := devices info, si_flags := si_flags r @ flags info\<rparr>)) (\<lambda>_.
     andthen (on_server (close_session (si_sessionid req))) (\<lambda>success.
     if \<not> success
     then andthen (server_specific_error set_session_err
            ''unable to close session, perhaps secret is incorrect'' ft_ServerError) (\<lambda>_.
          returns (Done True))
     else andthen respond_finish (\<lambda>_. returns (Done True))))))"

definition KeepAliveSession_HandleRequest ::
  "int \<Rightarrow> int \<Rightarrow> session_info \<Rightarrow> ((session_manager, session_info) call, bool waiting) prog" where
  "KeepAliveSession_HandleRequest now now_check req =
     andthen (require_sessionid_check req) (\<lambda>answered.
     if answered then returns (Done True)
     else andthen (on_server (renew_session now now_check (si_sessionid req) (get_expiry req))) (\<lambda>success.
     if \<not> success
     then andthen (server_specific_error set_session_err ''unable to renew session'' ft_ServerError) (\<lambda>_.
          returns (Done True))
     else andthen (on_server (\<lambda>st. (get_session_info_secret st (si_sessionid req), st))) (\<lambda>info.
     andthen (on_repl (\<lambda>r. set_expiry_from_time (expiry info)
        (r\<lparr>si_user_identifier := user_identifier info, si_comment := comment info\<rparr>))) (\<lambda>_.
     andthen respond_finish (\<lambda>_. returns (Done True))))))"

record session_list =
  sl_err :: "errstatus option"
  sl_sessions :: "session_info list"

definition session_out :: "ft_session_info \<Rightarrow> session_info" where
  "session_out info = empty_session_info\<lparr>si_user_identifier := user_identifier info,
     si_comment := comment info, si_devices := devices info, si_flags := flags info,
     si_expiry := Some (to_time_t (expiry info))\<rparr>"

definition ListSessions_HandleRequest ::
  "unit \<Rightarrow> ((session_manager, session_list) call, bool waiting) prog" where
  "ListSessions_HandleRequest req =
     andthen (on_server (gets sessionmap)) (\<lambda>ses.
     andthen (on_repl (\<lambda>r. r\<lparr>sl_sessions := sl_sessions r @ map (session_out \<circ> snd) ses\<rparr>)) (\<lambda>_.
     andthen respond_finish (\<lambda>_. returns (Done True))))"
section \<open>The interceptor\<close>

datatype intercepted_message = Flag_message string | Capability_message "32 word" | Fetch_message

datatype intercept_type = Intercept_flag | Intercept_capability | Intercept_fetch

definition CreateServerInterceptor :: "string \<Rightarrow> intercept_type option" where
  "CreateServerInterceptor methodname =
     (if methodname = ''/foxtrot.exptserve/InvokeCapability'' then Some Intercept_capability
      else if methodname = ''/foxtrot.exptserve/FetchData'' then Some Intercept_fetch
      else if methodname = ''/foxtrot.exptserve/SetServerFlag'' \<or>
              methodname = ''/foxtrot.exptserve/DropServerFlag'' then Some Intercept_flag
      else None)"

text \<open>One batch: the initial metadata and the message are present at their hook points. The
  interceptor remembers the secret it finds; what it learns about ownership is only logged, and
  it lets the call proceed. \<open>True\<close> stands for the call of \<open>Proceed\<close>.\<close>

definition Intercept ::
  "session_manager \<Rightarrow> metadata option \<Rightarrow> intercepted_message option \<Rightarrow> (8 word list, bool) prog" where
  "Intercept st metadata msg =
     andthen (case metadata of
         None \<Rightarrow> returns ()
       | Some md \<Rightarrow> (case map_of md ''session_secret'' of
             None \<Rightarrow> returns () | Some s \<Rightarrow> modifies (\<lambda>_. s))) (\<lambda>_.
     andthen (case msg of
         None \<Rightarrow> returns ()
       | Some (Flag_message f) \<Rightarrow> andthen (lifts (who_owns_flag st f)) (\<lambda>_. returns ())
       | Some (Capability_message d) \<Rightarrow> andthen (lifts (who_owns_device st d)) (\<lambda>_. returns ())
       | Some Fetch_message \<Rightarrow> returns ()) (\<lambda>_. returns True))"

section \<open>Every call is answered once\<close>

lemma answers_require [answers_intros]:
  assumes "answers k"
  shows "answers (andthen (require_sessionid_check req) (\<lambda>a. if a then returns (Done True) else k))"
  using assms answers_basic(4)
  by (cases "si_sessionid req = []"; cases "length (si_sessionid req) = SESSION_ID_BYTES")
    (simp_all add: require_sessionid_check_def andthen_assoc SESSION_ID_BYTES_def)

lemma answers_start_granted [answers_intros]: "answers (start_granted req ids)"
  unfolding start_granted_def by (intro answers_intros)

lemma answers_start_refused [answers_intros]: "answers (start_refused i)"
  unfolding start_refused_def by (intro answers_intros)

lemma answers_start_out_of_range [answers_intros]: "answers (start_out_of_range now req m)"
  unfolding start_out_of_range_def by (intro answers_intros)

lemma answers_error_cases [answers_intros]:
  assumes "\<And>i. answers (f i)" and "\<And>m. answers (g m)"
  shows "answers (case e of Owned_by i \<Rightarrow> f i | Out_of_range m \<Rightarrow> g m | _ \<Rightarrow> throws e)"
  using assms by (cases e) (auto intro: answers_intros)

definition StartSessionLogic ::
  "int \<Rightarrow> int \<Rightarrow> int \<Rightarrow> sessionid \<Rightarrow> (session_manager, session_info, session_info) logic" where
  "StartSessionLogic now_check now now_err secret =
     \<lparr>check_metadata = (\<lambda>_ _. returns True),
      handle_request = StartSession_HandleRequest now_check now now_err secret,
      set_err = set_session_err\<rparr>"

definition CloseSessionLogic :: "(session_manager, session_info, session_info) logic" where
  "CloseSessionLogic = \<lparr>check_metadata = (\<lambda>_ _. returns True),
      handle_request = CloseSession_HandleRequest, set_err = set_session_err\<rparr>"

definition KeepAliveSessionLogic ::
  "int \<Rightarrow> int \<Rightarrow> (session_manager, session_info, session_info) logic" where
  "KeepAliveSessionLogic now now_check = \<lparr>check_metadata = (\<lambda>_ _. returns True),
      handle_request = KeepAliveSession_HandleRequest now now_check, set_err = set_session_err\<rparr>"

definition ListSessionsLogic :: "(session_manager, unit, session_list) logic" where
  "ListSessionsLogic = \<lparr>check_metadata = (\<lambda>_ _. returns True),
      handle_request = ListSessions_HandleRequest,
      set_err = (\<lambda>e r. r\<lparr>sl_err := Some e\<rparr>)\<rparr>"

interpretation start_rpc: unary_logic "StartSessionLogic now_check now now_err secret"
proof
  show "\<And>ctxt req s b s'. check_metadata (StartSessionLogic now_check now now_err secret) ctxt req s = (Inr b, s') \<Longrightarrow> b"
    by (simp add: StartSessionLogic_def returns_def)
  show "\<And>req. answers (handle_request (StartSessionLogic now_check now now_err secret) req)"
    unfolding StartSessionLogic_def StartSession_HandleRequest_def logic.simps
    by (intro answers_intros)
qed

interpretation close_rpc: unary_logic CloseSessionLogic
proof
  show "\<And>ctxt req s b s'. check_metadata CloseSessionLogic ctxt req s = (Inr b, s') \<Longrightarrow> b"
    by (simp add: CloseSessionLogic_def returns_def)
  show "\<And>req. answers (handle_request CloseSessionLogic req)"
    unfolding CloseSessionLogic_def CloseSession_HandleRequest_def logic.simps
    by (intro answers_intros)
qed

interpretation keep_alive_rpc: unary_logic "KeepAliveSessionLogic now now_check"
proof
  show "\<And>ctxt req s b s'. check_metadata (KeepAliveSessionLogic now now_check) ctxt req s = (Inr b, s') \<Longrightarrow> b"
    by (simp add: KeepAliveSessionLogic_def returns_def)
  show "\<And>req. answers (handle_request (KeepAliveSessionLogic now now_check) req)"
    unfolding KeepAliveSessionLogic_def KeepAliveSession_HandleRequest_def logic.simps
    by (intro answers_intros)
qed

interpretation list_rpc: unary_logic ListSessionsLogic
proof
  show "\<And>ctxt req s b s'. check_metadata ListSessionsLogic ctxt req s = (Inr b, s') \<Longrightarrow> b"
    by (simp add: ListSessionsLogic_def returns_def)
  show "\<And>req. answers (handle_request ListSessionsLogic req)"
    unfolding ListSessionsLogic_def ListSessions_HandleRequest_def logic.simps
    by (intro answers_intros)
qed

section \<open>What a client is told\<close>

text \<open>A refused start: whatever went wrong, the reply carries an error and the manager is as it
  was.\<close>

definition told_error :: "('s, session_info) call \<Rightarrow> ('s, session_info) call \<Rightarrow> bool" where
  "told_error c c' \<longleftrightarrow> server c' = server c \<and>
     (\<exists>r. finished c' = finished c @ [r] \<and> err r \<noteq> None)"

lemma told_error_rpc:
  assumes "\<not> is_UB e" and "server cA = server c" "finished cA = finished c"
  shows "\<exists>c'. andthen (rpc_error_handling set_session_err e) (\<lambda>_. returns (Done FINISH)) cA =
    (Inr (Done FINISH), c') \<and> told_error c c'"
  using assms rpc_error_handling_not_ub [OF assms(1), of set_session_err cA]
  by (simp add: andthen_def returns_def told_error_def set_session_err_def)

lemma start_session_Inl:
  assumes "start_session now now_check secret req st = (Inl e, st')"
  shows "st' = st \<and> \<not> is_UB e"
proof -
  have at: "session_at st i = Inl e' \<Longrightarrow> \<not> is_UB e'" for i e'
    by (auto simp: session_at_def split: option.splits)
  have find: "find_in_cache st cache v = Inl e' \<Longrightarrow> \<not> is_UB e'" for cache v e'
    by (auto simp: find_in_cache_def rbind_def split: option.splits sum.splits dest: at)
  have items: "(\<And>x e'. f x = Inl e' \<Longrightarrow> \<not> is_UB e') \<Longrightarrow>
      check_items f xs = Inl e' \<Longrightarrow> \<not> is_UB e'" for f :: "'x \<Rightarrow> _" and xs e'
    by (induction xs) (auto simp: rbind_def split: sum.splits option.splits)
  have "start_session_checks now_check req st = Inl e" "st' = st"
    using assms by (auto simp: start_session_def split: sum.splits)
  then show ?thesis
    by (auto simp: start_session_checks_def rbind_def check_requested_items_def who_owns_device_def
        who_owns_flag_def check_requested_expiry_def split: sum.splits option.splits if_splits
        dest!: items [rotated] dest: find)
qed

lemma session_at_Inl: "session_at st i = Inl e \<Longrightarrow> e = Out_of_range ''map::at''"
  by (auto simp: session_at_def split: option.splits)

lemmas handler_eval = process_request_def catches_def on_server_def on_repl_def respond_finish_def
  server_specific_error_def rpc_error_handling_def andthen_def returns_def throws_def modifies_def
  gets_def

lemma start_rpc_refused:
  assumes "start_session now now_check secret (session_request_of req) (server c) = (Inl e, st')"
  shows "\<exists>c'. process_request (StartSessionLogic now_check now now_err secret) m req c =
    (Inr (Done FINISH), c') \<and> told_error c c'"
proof -
  note st = start_session_Inl [OF assms]
  show ?thesis
  proof (cases e)
    case (Owned_by i)
    then show ?thesis
      using assms st
      by (cases "session_at (server c) i")
        (auto simp: handler_eval StartSessionLogic_def StartSession_HandleRequest_def start_refused_def
          get_session_info_id_def set_expiry_from_time_def told_error_def set_session_err_def
          dest!: session_at_Inl)
  next
    case (Out_of_range msg)
    then show ?thesis
      using assms st
      by (cases "si_expiry req")
        (auto simp: handler_eval StartSessionLogic_def StartSession_HandleRequest_def start_out_of_range_def
          get_expiry_def set_expiry_from_time_def told_error_def set_session_err_def)
  qed (use assms st in \<open>auto simp: handler_eval StartSessionLogic_def StartSession_HandleRequest_def
        told_error_def set_session_err_def\<close>)
qed

lemma start_rpc_granted:
  assumes run: "start_session now now_check secret (session_request_of req) (server c) = (Inr ids, st')"
    and live: "get_session_info_id st' (snd ids) = Inr info" and user: "si_user_identifier req \<noteq> []"
  shows "process_request (StartSessionLogic now_check now now_err secret) m req c =
    (Inr (Done FINISH),
     (let r = (repl c)\<lparr>si_sessionid := fst ids, si_user_identifier := si_user_identifier req,
        si_comment := si_comment req, si_devices := si_devices req, si_flags := si_flags req,
        si_expiry := Some (to_time_t (expiry info))\<rparr>
      in c\<lparr>server := st', repl := r, finished := finished c @ [r]\<rparr>))"
  using assms
  by (simp add: handler_eval StartSessionLogic_def StartSession_HandleRequest_def start_granted_def
      set_expiry_from_time_def Let_def)

definition fresh_call :: "'s \<Rightarrow> ('s, session_info) call" where
  "fresh_call st = \<lparr>server = st, repl = empty_session_info, finished = []\<rparr>"

definition camera_message :: session_info where
  "camera_message = empty_session_info\<lparr>si_user_identifier := ''dan'', si_comment := ''camera'',
     si_devices := [3], si_flags := [''shutter'']\<rparr>"

definition secretA :: sessionid where
  "secretA = replicate 32 7"

definition desk_state :: session_manager where
  "desk_state = start_session_commit 100 secretA camera_request (new_session_manager 3600)"

lemma desk_state_inv: "sm_inv desk_state"
proof -
  have "start_session 100 100 secretA camera_request (new_session_manager 3600) =
      (Inr (secretA, issue_session_id (new_session_manager 3600)), desk_state)"
    by (simp add: desk_state_def session_eval camera_request_def)
  then show ?thesis
    using start_session_refines [OF sm_inv_new, of 100 100 secretA camera_request 3600]
    by (simp add: new_session_manager_def)
qed

lemma start_session_live:
  assumes "sm_inv st" and "start_session now now_check secret req st = (Inr ids, st')"
  shows "get_session_info_id st' (snd ids) = Inr (new_session now req st)"
  using start_session_Inr [OF assms(2)] sm_invD(1) [OF assms(1)]
  by (simp add: get_session_info_id_def session_at_def start_session_commit_def Let_def)

section \<open>Properties\<close>

text \<open>
  The answer to StartSession is the truth. On a consistent manager, with an unused secret and
  session number 65535 not live, the call is answered exactly once and its handler is done. An
  answer without an error carries the secret and the expiry of a lease that exists from then on
  and did not before; an answer with an error leaves the manager as it was.
\<close>

theorem start_session_reply_truthful:
  assumes inv: "sm_inv (server c)" and new: "map_of (sessionidmap (server c)) secret = None"
    and room: "map_of (sessionmap (server c)) (- 1) = None" and empty: "repl c = empty_session_info"
  shows "\<exists>c' r. process_request (StartSessionLogic now_check now now_err secret) m req c =
      (Inr (Done FINISH), c') \<and> finished c' = finished c @ [r] \<and> sm_inv (server c') \<and>
    (if err r = None
     then si_sessionid r = secret \<and>
       si_expiry r = Some (to_time_t (now + session_length (server c))) \<and>
       leases (server c') = (leases (server c))(secret \<mapsto>
         new_session now (session_request_of req) (server c))
     else server c' = server c)"
proof (cases "si_user_identifier req = []")
  case True
  with inv show ?thesis
    by (auto simp: handler_eval StartSessionLogic_def StartSession_HandleRequest_def set_session_err_def)
next
  case user: False
  obtain r st' where run: "start_session now now_check secret (session_request_of req) (server c) = (r, st')"
    by fastforce
  show ?thesis
  proof (cases r)
    case (Inl e)
    with run obtain cA where p: "process_request (StartSessionLogic now_check now now_err secret) m req c =
        (Inr (Done FINISH), cA)" "told_error c cA"
      using start_rpc_refused [of now now_check secret req c e st' now_err m] by auto
    then obtain rA where "finished cA = finished c @ [rA]" "err rA \<noteq> None" "server cA = server c"
      by (auto simp: told_error_def)
    with p inv show ?thesis by (intro exI [of _ cA] exI [of _ rA]) auto
  next
    case (Inr ids)
    with run have ok: "start_session now now_check secret (session_request_of req) (server c) = (Inr ids, st')"
      by simp
    have "ids = (secret, issue_session_id (server c))" using start_session_Inr [OF ok] by simp
    moreover have "leases st' = (leases (server c))(secret \<mapsto>
        new_session now (session_request_of req) (server c)) \<and> sm_inv st'"
      using start_session_refines [OF inv _ ok] new room by simp
    ultimately show ?thesis
      using start_rpc_granted [OF ok start_session_live [OF inv ok] user, of now_err m] empty
      by (auto simp: Let_def new_session_def empty_session_info_def)
  qed
qed

theorem start_session_reply_truthful_witness:
  "\<exists>c' r. process_request (StartSessionLogic 100 100 100 secretA) [] camera_message
        (fresh_call (new_session_manager 3600)) = (Inr (Done FINISH), c') \<and>
    finished c' = finished (fresh_call (new_session_manager 3600)) @ [r] \<and> sm_inv (server c') \<and>
    (if err r = None
     then si_sessionid r = secretA \<and>
       si_expiry r = Some (to_time_t (100 + session_length (server (fresh_call (new_session_manager 3600))))) \<and>
       leases (server c') = (leases (server (fresh_call (new_session_manager 3600))))(secretA \<mapsto>
         new_session 100 (session_request_of camera_message) (server (fresh_call (new_session_manager 3600))))
     else server c' = server (fresh_call (new_session_manager 3600)))"
  by (rule start_session_reply_truthful)
    (simp_all add: fresh_call_def sm_inv_new, simp_all add: new_session_manager_def)

text \<open>
  The answer to CloseSession. With a secret of the right size the call is answered exactly
  once: if the secret stands for a session the reply describes it and the lease is gone
  afterwards, every other one unchanged; if not, the reply is the out of range error of the
  lookup and the manager is unchanged. The error message about an incorrect secret that the code
  has for this case is never sent.
\<close>

theorem close_session_reply:
  assumes inv: "sm_inv (server c)" and len: "length (si_sessionid req) = SESSION_ID_BYTES"
    and empty: "repl c = empty_session_info"
  shows "\<exists>c' r. process_request CloseSessionLogic m req c = (Inr (Done FINISH), c') \<and>
    finished c' = finished c @ [r] \<and> sm_inv (server c') \<and>
    leases (server c') = (leases (server c))(si_sessionid req := None) \<and>
    (case leases (server c) (si_sessionid req) of
       None \<Rightarrow> err r = Some \<lparr>err_tp = out_of_range, err_msg = ''invalid secret!''\<rparr> \<and> server c' = server c
     | Some info \<Rightarrow> r = session_out info)"
proof (cases "leases (server c) (si_sessionid req)")
  case None
  with inv have "get_session_info_secret (server c) (si_sessionid req) = Inl (Out_of_range ''invalid secret!'')"
    by (simp add: leases_dom get_session_info_secret_def)
  with None inv len show ?thesis
    by (auto simp: handler_eval CloseSessionLogic_def CloseSession_HandleRequest_def fun_eq_iff
        require_sessionid_check_def SESSION_ID_BYTES_def set_session_err_def)
next
  case (Some info)
  then have g: "get_session_info_secret (server c) (si_sessionid req) = Inr info"
    by (auto simp: leases_def get_session_info_secret_def session_at_def split: option.splits)
  obtain st' where "close_session (si_sessionid req) (server c) = (Inr True, st')" "sm_inv st'"
    "leases st' = (leases (server c))(si_sessionid req := None)"
    using close_session_lease [OF inv, of "si_sessionid req"] Some by auto
  with g len empty Some show ?thesis
    by (auto simp: handler_eval CloseSessionLogic_def CloseSession_HandleRequest_def session_out_def
        require_sessionid_check_def SESSION_ID_BYTES_def set_expiry_from_time_def empty_session_info_def)
qed

theorem close_session_reply_witness:
  "\<exists>c' r. process_request CloseSessionLogic [] (camera_message\<lparr>si_sessionid := secretA\<rparr>)
        (fresh_call desk_state) = (Inr (Done FINISH), c') \<and>
    finished c' = finished (fresh_call desk_state) @ [r] \<and> sm_inv (server c') \<and>
    leases (server c') = (leases (server (fresh_call desk_state)))
      (si_sessionid (camera_message\<lparr>si_sessionid := secretA\<rparr>) := None) \<and>
    (case leases (server (fresh_call desk_state)) (si_sessionid (camera_message\<lparr>si_sessionid := secretA\<rparr>)) of
       None \<Rightarrow> err r = Some \<lparr>err_tp = out_of_range, err_msg = ''invalid secret!''\<rparr> \<and>
         server c' = server (fresh_call desk_state)
     | Some info \<Rightarrow> r = session_out info)"
  by (rule close_session_reply) (simp_all add: fresh_call_def desk_state_inv secretA_def SESSION_ID_BYTES_def)

end
