(* ===== verification/Device_Core.thy ===== *)
theory Device_Core
  imports Foxtrot_Prelude
begin

text \<open>
  Devices and the table of devices: core/src/Device.cpp, core/include/foxtrot/Device.h,
  core/src/DeviceHarness.cpp and server/include/foxtrot/server/DeviceLocks.hh.

  The reflection library (rttr) is not part of the repository. What it returns for a device
  class is an argument: a \<open>reflected_type\<close> with the properties and methods of the class, and
  the operations on its variants in a \<open>variant_ops\<close>. Executing a property or method is a
  \<open>prog\<close> on the state \<open>'d\<close> of the device.

  The second half is the harness: a vector of devices, a map of mutexes by device number, the
  counter of numbers. A mutex is \<open>None\<close> when it is free and otherwise names the thread that
  holds it. A call that would wait for a mutex without a timeout is \<open>Blocked\<close>; one with a
  timeout that never gets the mutex throws.
\<close>

section \<open>Reflected classes\<close>

datatype capability_type = VALUE_READONLY | VALUE_READWRITE | ACTION | STREAM | CONSTRUCT

record ('d, 'v, 't) reflected_property =
  prop_name :: string
  prop_readonly :: bool
  prop_type :: 't
  prop_get :: "('d, 'v) prog"
  prop_set :: "'v \<Rightarrow> ('d, bool) prog"

record ('d, 'v, 't) reflected_method =
  meth_name :: string
  meth_valid :: bool
  meth_streaming :: bool
  meth_params :: "(string \<times> 't) list"
  meth_return :: 't
  meth_invoke :: "'v list \<Rightarrow> ('d, 'v option) prog"

record ('d, 'v, 't) reflected_type =
  properties :: "('d, 'v, 't) reflected_property list"
  methods :: "('d, 'v, 't) reflected_method list"
  get_property :: "string \<Rightarrow> ('d, 'v, 't) reflected_property option"
  get_method :: "string \<Rightarrow> ('d, 'v, 't) reflected_method option"

record ('v, 't) variant_ops =
  v_is_valid :: "'v \<Rightarrow> bool"
  v_type :: "'v \<Rightarrow> 't"
  v_can_convert :: "'v \<Rightarrow> 't \<Rightarrow> bool"
  v_convert :: "'v \<Rightarrow> 't \<Rightarrow> 'v option"
  t_is_wrapper :: "'t \<Rightarrow> bool"
  v_extract_wrapped :: "'v \<Rightarrow> 'v"
  v_void :: 'v
  t_name :: "'t \<Rightarrow> string"

type_synonym ('d, 'v, 't) invokable_tp =
  "('d, 'v, 't) reflected_property + ('d, 'v, 't) reflected_method"

section \<open>Capabilities\<close>

record ('d, 'v, 't) capability =
  cap_type :: capability_type
  CapabilityName :: string
  Argnames :: "string list"
  Argtypes :: "'t list"
  Returntype :: 't
  invokable :: "('d, 'v, 't) invokable_tp option"

definition capability_of_property ::
  "('v, 't) variant_ops \<Rightarrow> ('d, 'v, 't) reflected_property \<Rightarrow> ('d, 'v, 't) capability" where
  "capability_of_property ops p =
     \<lparr>cap_type = (if prop_readonly p then VALUE_READONLY else VALUE_READWRITE),
      CapabilityName = prop_name p,
      Argnames = (if prop_readonly p then [] else [t_name ops (prop_type p)]),
      Argtypes = (if prop_readonly p then [] else [prop_type p]),
      Returntype = prop_type p,
      invokable = Some (Inl p)\<rparr>"

definition capability_of_method :: "('d, 'v, 't) reflected_method \<Rightarrow> ('d, 'v, 't) capability" where
  "capability_of_method m =
     \<lparr>cap_type = (if meth_streaming m then STREAM else ACTION),
      CapabilityName = meth_name m,
      Argnames = map fst (meth_params m),
      Argtypes = map snd (meth_params m),
      Returntype = meth_return m,
      invokable = Some (Inr m)\<rparr>"

definition GetCapability ::
  "('v, 't) variant_ops \<Rightarrow> ('d, 'v, 't) reflected_type \<Rightarrow> string \<Rightarrow>
   ('d, 'v, 't) capability result" where
  "GetCapability ops tp capname = (case get_property tp capname of
     Some p \<Rightarrow> Inr (capability_of_property ops p)
   | None \<Rightarrow> (case get_method tp capname of
       Some m \<Rightarrow> Inr (capability_of_method m)
     | None \<Rightarrow> Inl (Out_of_range ''requested capability doesn't seem to exist!'')))"

definition GetCapabilityNames :: "('d, 'v, 't) reflected_type \<Rightarrow> string list" where
  "GetCapabilityNames tp = map prop_name (properties tp) @ map meth_name (methods tp)"

text \<open>\<open>operator==\<close> walks the lists of the left operand and advances an iterator of the
  right one beside it, without looking at the length of the right one.\<close>

fun walk_equal :: "'a list \<Rightarrow> 'a list \<Rightarrow> bool result" where
  "walk_equal [] ys = Inr True"
| "walk_equal (x # xs) [] = Inl (UB ''dereferencing end()'')"
| "walk_equal (x # xs) (y # ys) = (if x \<noteq> y then Inr False else walk_equal xs ys)"

definition capability_eq ::
  "('d, 'v, 't) capability \<Rightarrow> ('d, 'v, 't) capability \<Rightarrow> bool result" where
  "capability_eq a b =
     (if cap_type a \<noteq> cap_type b then Inr False
      else if Returntype a \<noteq> Returntype b then Inr False
      else rbind (walk_equal (Argtypes a) (Argtypes b)) (\<lambda>eq.
        if \<not> eq then Inr False
        else if CapabilityName a \<noteq> CapabilityName b then Inr False
        else walk_equal (Argnames a) (Argnames b)))"

section \<open>Invoking a capability\<close>

definition sanitize_arg :: "('v, 't) variant_ops \<Rightarrow> 't \<Rightarrow> 'v \<Rightarrow> 'v result" where
  "sanitize_arg ops target v =
     (if \<not> v_is_valid ops v
      then Inl (Logic_error ''argument variant is not valid! This should not happen'')
      else if \<not> v_can_convert ops v target
      then Inl (Logic_error ''argument cannot be converted to needed type'')
      else if v_type ops v \<noteq> target
      then (case v_convert ops v target of
              None \<Rightarrow> Inl (Runtime_error ''failed to convert argument'')
            | Some v' \<Rightarrow> Inr v')
      else Inr v)"

fun sanitize_args :: "('v, 't) variant_ops \<Rightarrow> 't list \<Rightarrow> 'v list \<Rightarrow> 'v list result" where
  "sanitize_args ops (t # ts) (v # vs) =
     rbind (sanitize_arg ops t
       (if t_is_wrapper ops (v_type ops v) then v_extract_wrapped ops v else v)) (\<lambda>v'.
     rbind (sanitize_args ops ts vs) (\<lambda>vs'. Inr (v' # vs')))"
| "sanitize_args ops _ _ = Inr []"

definition invoke_property ::
  "('v, 't) variant_ops \<Rightarrow> ('d, 'v, 't) reflected_property \<Rightarrow> 'v list \<Rightarrow> ('d, 'v) prog" where
  "invoke_property ops p args =
     (if prop_readonly p then prop_get p
      else case args of
        [] \<Rightarrow> prop_get p
      | [a] \<Rightarrow> andthen (lifts (sanitize_arg ops (prop_type p) a)) (\<lambda>v.
               andthen (prop_set p v) (\<lambda>success.
               if \<not> success then throws (Runtime_error ''failed to set property!'')
               else returns (v_void ops)))
      | _ \<Rightarrow> throws (Logic_error ''require only 1 argument to writable property''))"

definition invoke_method ::
  "('v, 't) variant_ops \<Rightarrow> ('d, 'v, 't) reflected_method \<Rightarrow> 'v list \<Rightarrow> ('d, 'v) prog" where
  "invoke_method ops m args =
     (if \<not> meth_valid m then throws (Logic_error ''invalid method!'')
      else if length args \<noteq> length (meth_params m)
      then throws (Runtime_error ''wrong number of arguments provided'')
      else andthen (lifts (sanitize_args ops (map snd (meth_params m)) args)) (\<lambda>vs.
           andthen (meth_invoke m vs) (\<lambda>out. case out of
             None \<Rightarrow> throws (Logic_error ''failed to invoke method!'')
           | Some v \<Rightarrow> returns v)))"

definition Invoke_invokable ::
  "('v, 't) variant_ops \<Rightarrow> ('d, 'v, 't) invokable_tp \<Rightarrow> 'v list \<Rightarrow> ('d, 'v) prog" where
  "Invoke_invokable ops pm args = (case pm of
     Inl p \<Rightarrow> invoke_property ops p args | Inr m \<Rightarrow> invoke_method ops m args)"

section \<open>A device and its registry\<close>

text \<open>The virtual functions \<open>hasLockImplementation\<close> and \<open>obtain_lock\<close> are two booleans:
  False and False for a plain \<open>Device\<close>, True and True for a \<open>GlobalDeviceLock\<close>.
  \<open>dev_ptr\<close> is the identity of the object.\<close>

record ('d, 'v, 't) device =
  dev_ptr :: nat
  dev_type :: "('d, 'v, 't) reflected_type"
  has_lock_implementation :: bool
  obtain_lock_gives :: bool
  own_mutex :: "nat option"
  registry_is_loaded :: bool
  cap_registry :: "(16 word \<times> ('d, 'v, 't) capability) list"
  cap_string_registry :: "(string \<times> 16 word) list"

definition register_capability ::
  "('d, 'v, 't) capability \<Rightarrow>
   16 word \<times> (16 word \<times> ('d, 'v, 't) capability) list \<times> (string \<times> 16 word) list \<Rightarrow>
   16 word \<times> (16 word \<times> ('d, 'v, 't) capability) list \<times> (string \<times> 16 word) list" where
  "register_capability cap r = (case r of (idx, caps, names) \<Rightarrow>
     (idx + 1, map_insert idx cap caps, map_insert (CapabilityName cap) idx names))"

definition all_capabilities ::
  "('v, 't) variant_ops \<Rightarrow> ('d, 'v, 't) reflected_type \<Rightarrow> ('d, 'v, 't) capability list" where
  "all_capabilities ops tp =
     map (capability_of_property ops) (properties tp) @ map capability_of_method (methods tp)"

definition load_capability_map ::
  "('v, 't) variant_ops \<Rightarrow> bool \<Rightarrow> ('d, 'v, 't) device \<Rightarrow> ('d, 'v, 't) device" where
  "load_capability_map ops force_reload dev =
     (if \<not> registry_is_loaded dev \<or> force_reload
      then (case fold register_capability (all_capabilities ops (dev_type dev)) (0, [], []) of
              (_, caps, names) \<Rightarrow> dev\<lparr>cap_registry := caps, cap_string_registry := names\<rparr>)
      else dev)"

definition Invoke_capid ::
  "('v, 't) variant_ops \<Rightarrow> ('d, 'v, 't) device \<Rightarrow> 16 word \<Rightarrow> 'v list \<Rightarrow> ('d, 'v) prog" where
  "Invoke_capid ops dev capid args = (case map_of (cap_registry dev) capid of
     None \<Rightarrow> throws (Out_of_range ''map::at'')
   | Some cap \<Rightarrow> (case invokable cap of
       None \<Rightarrow> throws (Logic_error ''invokable in table has no value! This should NEVER happen'')
     | Some pm \<Rightarrow> Invoke_invokable ops pm args))"

definition Invoke_name ::
  "('v, 't) variant_ops \<Rightarrow> ('d, 'v, 't) device \<Rightarrow> string \<Rightarrow> 'v list \<Rightarrow> ('d, 'v) prog" where
  "Invoke_name ops dev capname args = (case map_of (cap_string_registry dev) capname of
     None \<Rightarrow> throws (Out_of_range ''map::at'')
   | Some capid \<Rightarrow> Invoke_capid ops dev capid args)"

definition Invoke_capability ::
  "('v, 't) variant_ops \<Rightarrow> ('d, 'v, 't) device \<Rightarrow> ('d, 'v, 't) capability \<Rightarrow> 'v list \<Rightarrow>
   ('d, 'v) prog" where
  "Invoke_capability ops dev cap args = (case invokable cap of
     Some pm \<Rightarrow> Invoke_invokable ops pm args
   | None \<Rightarrow> Invoke_name ops dev (CapabilityName cap) args)"

subsection \<open>What the registry holds\<close>

lemma register_capability_step:
  "register_capability cap (idx, caps, names) =
     (idx + 1, map_insert idx cap caps, map_insert (CapabilityName cap) idx names)"
  by (simp add: register_capability_def)

lemma register_all:
  assumes "length caps + n \<le> 2 ^ 16"
    and "\<And>i. map_of reg i \<noteq> None \<longleftrightarrow> unat i < n"
    and "fold register_capability caps (of_nat n, reg, names) = (idx, reg', names')"
  shows "(\<forall>i. unat i < n \<longrightarrow> map_of reg' i = map_of reg i) \<and>
    (\<forall>j < length caps. map_of reg' (of_nat (n + j)) = Some (caps ! j)) \<and>
    (\<forall>s. map_of names' s = (case map_of names s of Some i \<Rightarrow> Some i
       | None \<Rightarrow> map_option (\<lambda>j. of_nat (n + j)) (map_of (zip (map CapabilityName caps) [0..<length caps]) s)))"
  using assms
proof (induction caps arbitrary: n reg names)
  case Nil
  then show ?case by (auto split: option.split)
next
  case (Cons c cs)
  have n: "n < 2 ^ 16" using Cons.prems(1) by simp
  then have un: "unat (of_nat n :: 16 word) = n" by (simp add: unat_of_nat)
  have fresh: "map_of reg (of_nat n) = None" using Cons.prems(2) [of "of_nat n"] un by simp
  let ?reg = "map_insert (of_nat n) c reg" and ?names = "map_insert (CapabilityName c) (of_nat n) names"
  have dom: "map_of ?reg i \<noteq> None \<longleftrightarrow> unat i < Suc n" for i
    using Cons.prems(2) [of i] fresh un
    by (auto simp: map_of_map_insert less_Suc_eq word_unat_eq_iff)
  have run: "fold register_capability cs (of_nat (Suc n), ?reg, ?names) = (idx, reg', names')"
    using Cons.prems(3) by (simp add: register_capability_step add.commute)
  note IH = Cons.IH [OF _ dom run, simplified]
  have len: "length cs + Suc n \<le> 2 ^ 16" using Cons.prems(1) by simp
  have z: "map_of (zip (map CapabilityName cs) [Suc 0..<Suc (length cs)]) s =
      map_option Suc (map_of (zip (map CapabilityName cs) [0..<length cs]) s)" for s
  proof -
    have "zip (map CapabilityName cs) [Suc 0..<Suc (length cs)] =
        map (\<lambda>(k, i). (k, Suc i)) (zip (map CapabilityName cs) [0..<length cs])"
      by (simp add: map_Suc_upt [symmetric] zip_map2 split_def del: upt_Suc)
    then show ?thesis by (simp only: map_of_map comp_apply)
  qed
  have a: "\<forall>i. unat i < n \<longrightarrow> map_of reg' i = map_of reg i"
    using IH len fresh un by (auto simp: map_of_map_insert)
  have b: "map_of reg' (of_nat (n + j)) = Some ((c # cs) ! j)" if "j < Suc (length cs)" for j
  proof (cases j)
    case 0
    then show ?thesis using IH len fresh un by (auto simp: map_of_map_insert)
  next
    case (Suc k)
    then show ?thesis using IH len that by (auto simp: algebra_simps)
  qed
  have c: "map_of names' s = (case map_of names s of Some i \<Rightarrow> Some i
       | None \<Rightarrow> map_option (\<lambda>j. of_nat (n + j))
           (map_of (zip (map CapabilityName (c # cs)) [0..<length (c # cs)]) s))" for s
  proof -
    have "map_of names' s = (case map_of ?names s of Some i \<Rightarrow> Some i
       | None \<Rightarrow> map_option (\<lambda>j. of_nat (Suc n + j)) (map_of (zip (map CapabilityName cs) [0..<length cs]) s))"
      using IH len by simp
    then show ?thesis
      by (simp add: map_of_map_insert upt_conv_Cons z option.map_comp comp_def ac_simps del: upt_Suc
          split: option.split)
  qed
  from a b c show ?case by simp
qed

lemma find_by_index:
  "map_option (\<lambda>j. xs ! j) (map_of (zip (map f xs) [0..<length xs]) s) = find (\<lambda>x. f x = s) xs"
proof (induction xs)
  case (Cons x xs)
  have "zip (map f xs) [Suc 0..<Suc (length xs)] = map (\<lambda>(k, i). (k, Suc i)) (zip (map f xs) [0..<length xs])"
    by (simp add: map_Suc_upt [symmetric] zip_map2 split_def del: upt_Suc)
  then have "map_of (zip (map f xs) [Suc 0..<Suc (length xs)]) s =
      map_option Suc (map_of (zip (map f xs) [0..<length xs]) s)"
    by (simp only: map_of_map comp_apply)
  with Cons show ?case
    by (simp add: upt_conv_Cons option.map_comp comp_def del: upt_Suc)
qed simp

text \<open>The documented behaviour of the two lookups of the reflection library: the first property
  (method) of the class with the name.\<close>

definition lookups_agree :: "('d, 'v, 't) reflected_type \<Rightarrow> bool" where
  "lookups_agree tp \<longleftrightarrow>
     (\<forall>n. get_property tp n = find (\<lambda>p. prop_name p = n) (properties tp)) \<and>
     (\<forall>n. get_method tp n = find (\<lambda>m. meth_name m = n) (methods tp))"

lemma find_append: "find P (xs @ ys) = (case find P xs of None \<Rightarrow> find P ys | Some x \<Rightarrow> Some x)"
  by (induction xs) auto

lemma find_map: "find P (map f xs) = map_option f (find (\<lambda>x. P (f x)) xs)"
  by (induction xs) auto

lemma find_all_capabilities:
  assumes "lookups_agree tp"
  shows "find (\<lambda>c. CapabilityName c = n) (all_capabilities ops tp) =
    (case GetCapability ops tp n of Inl _ \<Rightarrow> None | Inr cap \<Rightarrow> Some cap)"
  using assms
  by (simp add: lookups_agree_def GetCapability_def all_capabilities_def find_append find_map
      capability_of_property_def capability_of_method_def split: option.split)

lemma map_of_zip_index:
  assumes "map_of (zip ks [0..<length ks]) s = Some j"
  shows "j < length ks"
  using map_of_SomeD [OF assms] by (auto dest: set_zip_rightD)

lemma Invoke_name_loaded:
  assumes "lookups_agree (dev_type dev)"
    and "length (all_capabilities ops (dev_type dev)) \<le> 2 ^ 16"
  shows "Invoke_name ops (load_capability_map ops True dev) n args =
    (case GetCapability ops (dev_type dev) n of
       Inl _ \<Rightarrow> throws (Out_of_range ''map::at'')
     | Inr cap \<Rightarrow> Invoke_capability ops dev cap args)"
proof -
  let ?caps = "all_capabilities ops (dev_type dev)"
  obtain idx reg names where run: "fold register_capability ?caps (0, [], []) = (idx, reg, names)"
    by (cases "fold register_capability ?caps (0, [], [])") auto
  have reg: "\<forall>j < length ?caps. map_of reg (of_nat j) = Some (?caps ! j)"
    and names: "\<forall>s. map_of names s = map_option (\<lambda>j. of_nat j)
      (map_of (zip (map CapabilityName ?caps) [0..<length ?caps]) s)"
    using register_all [of ?caps 0 "[]" "[]" idx reg names] assms(2) run by auto
  have f: "find (\<lambda>c. CapabilityName c = n) ?caps =
      map_option (\<lambda>j. ?caps ! j) (map_of (zip (map CapabilityName ?caps) [0..<length ?caps]) n)"
    by (simp add: find_by_index)
  have inv: "c \<in> set ?caps \<Longrightarrow> invokable c \<noteq> None" for c
    by (auto simp: all_capabilities_def capability_of_property_def capability_of_method_def)
  show ?thesis
  proof (cases "map_of (zip (map CapabilityName ?caps) [0..<length ?caps]) n")
    case None
    then have "map_of names n = None" using names by (simp only: option.map)
    moreover from None f have "find (\<lambda>c. CapabilityName c = n) ?caps = None"
      by (simp only: option.map)
    with find_all_capabilities [OF assms(1), of n ops]
    obtain e where "GetCapability ops (dev_type dev) n = Inl e"
      by (cases "GetCapability ops (dev_type dev) n") simp_all
    ultimately show ?thesis using run by (simp add: Invoke_name_def load_capability_map_def)
  next
    case (Some j)
    then have j: "j < length ?caps" using map_of_zip_index [of "map CapabilityName ?caps" n j] by simp
    with Some f find_all_capabilities [OF assms(1), of n ops]
    have g: "GetCapability ops (dev_type dev) n = Inr (?caps ! j)" by (auto split: sum.splits)
    from inv [OF nth_mem [OF j]] obtain pm where "invokable (?caps ! j) = Some pm" by auto
    with Some j names reg run g show ?thesis
      by (simp add: Invoke_name_def Invoke_capid_def Invoke_capability_def load_capability_map_def)
  qed
qed

subsection \<open>Only sanitized arguments reach a device\<close>




section \<open>The harness\<close>



datatype lock_id = Harness_lock int | Own_lock nat

record ('d, 'v, 't) harness =
  devvec :: "('d, 'v, 't) device list"
  devmutexes :: "(int \<times> nat option) list"
  next_id :: int

definition new_harness :: "('d, 'v, 't) harness" where
  "new_harness = \<lparr>devvec = [], devmutexes = [], next_id = 0\<rparr>"

definition AddDevice ::
  "('v, 't) variant_ops \<Rightarrow> ('d, 'v, 't) device \<Rightarrow> (('d, 'v, 't) harness, int) prog" where
  "AddDevice ops dev h =
     (let thisid = next_id h;
          hA = h\<lparr>next_id := thisid + 1\<rparr>;
          hB = (if \<not> has_lock_implementation dev
                then hA\<lparr>devmutexes := map_insert thisid None (devmutexes hA)\<rparr> else hA)
      in (Inr thisid, hB\<lparr>devvec := devvec hB @ [load_capability_map ops True dev]\<rparr>))"

text \<open>\<open>vector::at\<close> with an \<open>int\<close> converted to the unsigned size type.\<close>

definition GetDevice :: "int \<Rightarrow> ('d, 'v, 't) harness \<Rightarrow> ('d, 'v, 't) device result" where
  "GetDevice i h =
     (if 0 \<le> i \<and> nat i < length (devvec h) then Inr (devvec h ! nat i)
      else Inl (Out_of_range ''vector::at''))"

text \<open>\<open>GetDevMap\<close> numbers the devices by their place in the vector.\<close>

definition GetDevMap :: "('d, 'v, 't) harness \<Rightarrow> (int \<times> ('d, 'v, 't) device) list" where
  "GetDevMap h = zip (map int [0..<length (devvec h)]) (devvec h)"

definition take_mutex ::
  "nat \<Rightarrow> int \<Rightarrow> nat \<Rightarrow> nat option \<Rightarrow> bool waiting result" where
  "take_mutex tid devid timeout mutex = (case mutex of
     None \<Rightarrow> Inr (Done True)
   | Some _ \<Rightarrow> if timeout = 0 then Inr Blocked
               else Inl (Contention_error ''couldn't lock device''))"

definition lock_device_contentious ::
  "nat \<Rightarrow> int \<Rightarrow> nat \<Rightarrow> (('d, 'v, 't) harness, lock_id waiting) prog" where
  "lock_device_contentious tid devid timeout h = (case GetDevice devid h of
     Inl e \<Rightarrow> (Inl e, h)
   | Inr dev \<Rightarrow>
     if has_lock_implementation dev
     then (if \<not> obtain_lock_gives dev
           then (Inl (Logic_error ''lock function returned null optional''), h)
           else (case take_mutex tid devid timeout (own_mutex dev) of
               Inl e \<Rightarrow> (Inl e, h)
             | Inr Blocked \<Rightarrow> (Inr Blocked, h)
             | Inr (Done _) \<Rightarrow> (Inr (Done (Own_lock (dev_ptr dev))),
                 h\<lparr>devvec := (devvec h)[nat devid := dev\<lparr>own_mutex := Some tid\<rparr>]\<rparr>)))
     else (let hA = h\<lparr>devmutexes := map_insert devid None (devmutexes h)\<rparr>
           in case take_mutex tid devid timeout (the (map_of (devmutexes hA) devid)) of
               Inl e \<Rightarrow> (Inl e, hA)
             | Inr Blocked \<Rightarrow> (Inr Blocked, hA)
             | Inr (Done _) \<Rightarrow> (Inr (Done (Harness_lock devid)),
                 hA\<lparr>devmutexes := um_set devid (Some tid) (devmutexes hA)\<rparr>)))"

text \<open>The destructor of a \<open>unique_lock\<close>. The mutex it refers to must still exist.\<close>

definition unlock :: "lock_id \<Rightarrow> (('d, 'v, 't) harness, unit) prog" where
  "unlock l h = (case l of
     Harness_lock i \<Rightarrow> (case map_of (devmutexes h) i of
         None \<Rightarrow> (Inl (UB ''unlocking a destroyed mutex''), h)
       | Some _ \<Rightarrow> (Inr (), h\<lparr>devmutexes := um_set i None (devmutexes h)\<rparr>))
   | Own_lock p \<Rightarrow>
       (if \<exists>d\<in>set (devvec h). dev_ptr d = p
        then (Inr (), h\<lparr>devvec := map (\<lambda>d. if dev_ptr d = p then d\<lparr>own_mutex := None\<rparr> else d) (devvec h)\<rparr>)
        else (Inl (UB ''unlocking a destroyed mutex''), h)))"

fun unlock_all :: "lock_id list \<Rightarrow> (('d, 'v, 't) harness, unit) prog" where
  "unlock_all [] = returns ()"
| "unlock_all (l # ls) = andthen (unlock l) (\<lambda>_. unlock_all ls)"

text \<open>\<open>ClearDevices\<close> takes the locks one after the other. An exception unwinds the vector of
  locks; a mutex that is never freed leaves the call waiting with the earlier locks held. The
  vector of locks is destroyed at the end of the function, after the devices.\<close>

fun lock_devices ::
  "nat \<Rightarrow> int list \<Rightarrow> nat \<Rightarrow> lock_id list \<Rightarrow> (('d, 'v, 't) harness, lock_id list waiting) prog" where
  "lock_devices tid [] timeout held h = (Inr (Done held), h)"
| "lock_devices tid (i # is) timeout held h =
     (case lock_device_contentious tid i timeout h of
        (Inl e, h') \<Rightarrow> (case unlock_all held h' of
            (Inl u, h'') \<Rightarrow> (Inl u, h'') | (Inr _, h'') \<Rightarrow> (Inl e, h''))
      | (Inr Blocked, h') \<Rightarrow> (Inr Blocked, h')
      | (Inr (Done l), h') \<Rightarrow> lock_devices tid is timeout (held @ [l]) h')"

definition ClearDevices :: "nat \<Rightarrow> nat \<Rightarrow> (('d, 'v, 't) harness, unit waiting) prog" where
  "ClearDevices tid timeout h =
     (case lock_devices tid (map int [0..<length (devvec h)]) timeout [] h of
        (Inl e, h') \<Rightarrow> (Inl e, h')
      | (Inr Blocked, h') \<Rightarrow> (Inr Blocked, h')
      | (Inr (Done ls), h') \<Rightarrow>
          andthen (unlock_all ls) (\<lambda>_. returns (Done ())) (h'\<lparr>devvec := []\<rparr>))"

text \<open>\<open>RemoveDevice\<close>. \<open>_devvec[id]\<close> is not checked. Destroying a mutex that a thread
  holds has no defined behaviour.\<close>

definition erase_mutex :: "int \<Rightarrow> (('d, 'v, 't) harness, unit) prog" where
  "erase_mutex i h = (case map_of (devmutexes h) i of
     Some (Some _) \<Rightarrow> (Inl (UB ''destroying a locked mutex''), h)
   | _ \<Rightarrow> (Inr (), h\<lparr>devmutexes := um_erase i (devmutexes h)\<rparr>))"

definition erase_device :: "int \<Rightarrow> ('d, 'v, 't) harness \<Rightarrow> ('d, 'v, 't) harness" where
  "erase_device i h = h\<lparr>devvec := take (nat i) (devvec h) @ drop (Suc (nat i)) (devvec h)\<rparr>"

definition RemoveDevice :: "nat \<Rightarrow> int \<Rightarrow> (('d, 'v, 't) harness, unit waiting) prog" where
  "RemoveDevice tid i h =
     (if i < 0 \<or> length (devvec h) \<le> nat i then (Inl (UB ''vector index out of range''), h)
      else if \<not> has_lock_implementation (devvec h ! nat i)
      then andthen (erase_mutex i) (\<lambda>_. returns (Done ())) (erase_device i h)
      else (case map_of (devmutexes h) i of
          None \<Rightarrow> (Inl (Out_of_range ''map::at''), h)
        | Some (Some _) \<Rightarrow> (Inr Blocked, h)
        | Some None \<Rightarrow> andthen (erase_mutex i) (\<lambda>_. returns (Done ())) (erase_device i h)))"

subsection \<open>Locks and numbers\<close>

lemma GetDevice_cases [consumes 1, case_names found]:
  assumes "GetDevice i h = Inr dev"
  obtains "0 \<le> i" "nat i < length (devvec h)" "dev = devvec h ! nat i"
  using assms by (auto simp: GetDevice_def split: if_splits)

lemma GetDevice_cong: "devvec h' = devvec h \<Longrightarrow> GetDevice i h' = GetDevice i h"
  by (simp add: GetDevice_def)

lemma AddDevice_eq:
  "AddDevice ops dev h = (Inr (next_id h),
     h\<lparr>next_id := next_id h + 1,
       devmutexes := (if has_lock_implementation dev then devmutexes h
                      else map_insert (next_id h) None (devmutexes h)),
       devvec := devvec h @ [load_capability_map ops True dev]\<rparr>)"
  by (simp add: AddDevice_def Let_def)

lemma take_mutex_simps [simp]:
  "take_mutex tid i t None = Inr (Done True)"
  "take_mutex tid i t (Some x) =
     (if t = 0 then Inr Blocked else Inl (Contention_error ''couldn't lock device''))"
  by (simp_all add: take_mutex_def)

lemma take_mutex_Done: "take_mutex tid i t m = Inr (Done b) \<longleftrightarrow> m = None \<and> b"
  by (cases m) auto

lemma lock_device_Done:
  assumes "lock_device_contentious tid i t h = (Inr (Done l), h')"
  obtains (own) dev where "GetDevice i h = Inr dev" "has_lock_implementation dev"
      "obtain_lock_gives dev" "own_mutex dev = None" "l = Own_lock (dev_ptr dev)"
      "h' = h\<lparr>devvec := (devvec h)[nat i := dev\<lparr>own_mutex := Some tid\<rparr>]\<rparr>"
  | (harness) dev where "GetDevice i h = Inr dev" "\<not> has_lock_implementation dev"
      "the (map_of (map_insert i None (devmutexes h)) i) = None" "l = Harness_lock i"
      "h' = h\<lparr>devmutexes := um_set i (Some tid) (map_insert i None (devmutexes h))\<rparr>"
  using assms
  by (auto simp: lock_device_contentious_def Let_def take_mutex_Done split: sum.splits if_splits waiting.splits)

lemma lock_device_next_id: "lock_device_contentious tid i t h = (r, h') \<Longrightarrow> next_id h' = next_id h"
  by (auto simp: lock_device_contentious_def Let_def split: sum.splits if_splits waiting.splits)

lemma unlock_next_id: "unlock l h = (r, h') \<Longrightarrow> next_id h' = next_id h \<and> length (devvec h') = length (devvec h)"
  by (auto simp: unlock_def split: lock_id.splits option.splits if_splits)

lemma unlock_all_next_id:
  "unlock_all ls h = (r, h') \<Longrightarrow> next_id h' = next_id h \<and> length (devvec h') = length (devvec h)"
  by (induction ls arbitrary: h)
    (auto simp: andthen_def returns_def dest: unlock_next_id split: sum.splits prod.splits)

lemma lock_devices_next_id:
  "lock_devices tid is t held h = (r, h') \<Longrightarrow> next_id h' = next_id h"
  by (induction tid "is" t held h rule: lock_devices.induct)
    (auto dest!: lock_device_next_id unlock_all_next_id split: prod.splits sum.splits waiting.splits)

lemma ClearDevices_Done:
  assumes "ClearDevices tid t h = (Inr (Done ()), h')"
  shows "devvec h' = [] \<and> next_id h' = next_id h"
  using assms
  by (auto simp: ClearDevices_def andthen_def returns_def dest!: lock_devices_next_id unlock_all_next_id
      split: prod.splits sum.splits waiting.splits)

text \<open>\<open>ClearDevices\<close> destroys a device that has a lock of its own while it holds the
  lock; the lock is released after that.\<close>

lemma clear_own_lock_device:
  assumes "has_lock_implementation dev" "obtain_lock_gives dev" "own_mutex dev = None"
  shows "fst (ClearDevices tid t (h\<lparr>devvec := [dev]\<rparr>)) = Inl (UB ''unlocking a destroyed mutex'')"
  using assms
  by (simp add: ClearDevices_def lock_device_contentious_def GetDevice_def andthen_def unlock_def)

section \<open>A small device class\<close>

text \<open>A device with a writable property \<open>setpoint\<close> and a method \<open>reset\<close> whose state is the
  set point; variants are numbers, all of one type.\<close>

definition nat_ops :: "(nat, nat) variant_ops" where
  "nat_ops = \<lparr>v_is_valid = (\<lambda>_. True), v_type = (\<lambda>v. if v < 100 then 0 else 1),
     v_can_convert = (\<lambda>_ t. t \<le> 1),
     v_convert = (\<lambda>v t. if t = 0 then Some (v mod 100) else if t = 1 then Some (v + 100) else None),
     t_is_wrapper = (\<lambda>_. False), v_extract_wrapped = (\<lambda>v. v), v_void = 0, t_name = (\<lambda>_. ''num'')\<rparr>"

definition setpoint :: "(nat, nat, nat) reflected_property" where
  "setpoint = \<lparr>prop_name = ''setpoint'', prop_readonly = False, prop_type = 0,
     prop_get = gets (\<lambda>s. s), prop_set = (\<lambda>v s. (Inr True, v))\<rparr>"

definition ramp :: "(nat, nat, nat) reflected_method" where
  "ramp = \<lparr>meth_name = ''ramp'', meth_valid = True, meth_streaming = False,
     meth_params = [(''to'', 0), (''rate'', 1)], meth_return = 0,
     meth_invoke = (\<lambda>vs s. (Inr (Some s), hd vs))\<rparr>"

definition cooler :: "nat \<Rightarrow> bool \<Rightarrow> (nat, nat, nat) device" where
  "cooler p lockable = \<lparr>dev_ptr = p,
     dev_type = \<lparr>properties = [setpoint], methods = [ramp],
       get_property = (\<lambda>n. if n = ''setpoint'' then Some setpoint else None),
       get_method = (\<lambda>n. if n = ''ramp'' then Some ramp else None)\<rparr>,
     has_lock_implementation = lockable, obtain_lock_gives = lockable, own_mutex = None,
     registry_is_loaded = False, cap_registry = [], cap_string_registry = []\<rparr>"

lemma cooler_lookups: "lookups_agree (dev_type (cooler p l))"
  by (simp add: lookups_agree_def cooler_def setpoint_def ramp_def)


definition two_coolers :: "(nat, nat, nat) harness" where
  "two_coolers = snd (AddDevice nat_ops (cooler 2 False)
     (snd (AddDevice nat_ops (cooler 1 False) new_harness)))"

lemma two_coolers_eval:
  "two_coolers = \<lparr>devvec = [load_capability_map nat_ops True (cooler 1 False),
       load_capability_map nat_ops True (cooler 2 False)],
     devmutexes = [(0, None), (1, None)], next_id = 2\<rparr>"
  by (simp add: two_coolers_def AddDevice_def new_harness_def map_insert_def cooler_def)

lemma load_has_lock [simp]:
  "has_lock_implementation (load_capability_map ops b d) = has_lock_implementation d"
  "own_mutex (load_capability_map ops b d) = own_mutex d"
  "dev_ptr (load_capability_map ops b d) = dev_ptr d"
  "dev_type (load_capability_map ops b d) = dev_type d"
  by (simp_all add: load_capability_map_def split: prod.split)

section \<open>Properties\<close>

text \<open>
  C11. Invoking by name. On a device whose registry is loaded, invoking a name runs exactly the
  property or method that \<open>GetCapability\<close> describes for that name, properties first, and a
  name that is not described throws and leaves the device alone. The hypothesis on the
  reflection library is its documented lookup; the bound is that of the 16 bit capability number.
\<close>

theorem invoke_by_name_matches_description:
  assumes "lookups_agree (dev_type dev)"
    and "length (all_capabilities ops (dev_type dev)) \<le> 2 ^ 16"
  shows "Invoke_name ops (load_capability_map ops True dev) n args s =
    (case GetCapability ops (dev_type dev) n of
       Inl _ \<Rightarrow> (Inl (Out_of_range ''map::at''), s)
     | Inr cap \<Rightarrow> Invoke_capability ops dev cap args s)"
  using Invoke_name_loaded [OF assms] by (simp add: throws_def split: sum.split)

theorem invoke_by_name_matches_description_witness:
  "Invoke_name nat_ops (load_capability_map nat_ops True (cooler 1 False)) ''setpoint'' [42] 7 =
    (case GetCapability nat_ops (dev_type (cooler 1 False)) ''setpoint'' of
       Inl _ \<Rightarrow> (Inl (Out_of_range ''map::at''), 7)
     | Inr cap \<Rightarrow> Invoke_capability nat_ops (cooler 1 False) cap [42] 7)"
  by (rule invoke_by_name_matches_description [OF cooler_lookups])
    (simp add: all_capabilities_def cooler_def)



text \<open>
  The lock of a device excludes. While one thread holds the lock of a device, another one
  that asks without a timeout waits and one that asks with a timeout throws the contention
  error; the harness is unchanged. Once the lock is released the next thread gets it.
\<close>

theorem device_lock_exclusive:
  assumes "lock_device_contentious tid i t h = (Inr (Done l), h')"
  shows "lock_device_contentious tidB i tB h' =
      (if tB = 0 then Inr Blocked else Inl (Contention_error ''couldn't lock device''), h') \<and>
    (\<exists>hA hB. unlock l h' = (Inr (), hA) \<and> lock_device_contentious tidB i tB hA = (Inr (Done l), hB))"
  using assms
proof (cases rule: lock_device_Done)
  case (own dev)
  from own(1) show ?thesis
  proof (cases rule: GetDevice_cases)
    case found
    let ?d = "dev\<lparr>own_mutex := Some tid\<rparr>"
    let ?hA = "h'\<lparr>devvec := map (\<lambda>d. if dev_ptr d = dev_ptr dev then d\<lparr>own_mutex := None\<rparr> else d) (devvec h')\<rparr>"
    have g: "GetDevice i h' = Inr ?d" using own found by (simp add: GetDevice_def)
    then have a: "lock_device_contentious tidB i tB h' =
      (if tB = 0 then Inr Blocked else Inl (Contention_error ''couldn't lock device''), h')"
      using own by (simp add: lock_device_contentious_def)
    have "?d \<in> set (devvec h')" using own found by (simp add: set_update_memI)
    then have "\<exists>d\<in>set (devvec h'). dev_ptr d = dev_ptr dev" by (intro bexI [of _ ?d]) simp_all
    then have u: "unlock l h' = (Inr (), ?hA)" using own by (simp add: unlock_def)
    have "GetDevice i ?hA = Inr (dev\<lparr>own_mutex := None\<rparr>)"
      using own found by (simp add: GetDevice_def)
    then have "\<exists>hB. lock_device_contentious tidB i tB ?hA = (Inr (Done l), hB)"
      using own by (simp add: lock_device_contentious_def)
    with a u show ?thesis by blast
  qed
next
  case (harness dev)
  let ?m = "um_set i (Some tid) (map_insert i None (devmutexes h))"
  have m: "map_of (devmutexes h') i = Some (Some tid)" using harness by simp
  have g: "GetDevice i h' = Inr dev" using harness GetDevice_cong [of h' h i] by simp
  have "map_insert i None (devmutexes h') = devmutexes h'" using m by (simp add: map_insert_def)
  then have a: "lock_device_contentious tidB i tB h' =
      (if tB = 0 then Inr Blocked else Inl (Contention_error ''couldn't lock device''), h')"
    using harness g m by (simp add: lock_device_contentious_def Let_def)
  let ?hA = "h'\<lparr>devmutexes := um_set i None (devmutexes h')\<rparr>"
  have u: "unlock l h' = (Inr (), ?hA)" using harness m by (simp add: unlock_def)
  have "map_insert i None (devmutexes ?hA) = devmutexes ?hA" by (simp add: map_insert_def)
  moreover have "GetDevice i ?hA = Inr dev" using g GetDevice_cong [of ?hA h' i] by simp
  ultimately have "\<exists>hB. lock_device_contentious tidB i tB ?hA = (Inr (Done l), hB)"
    using harness by (simp add: lock_device_contentious_def Let_def)
  with a u show ?thesis by blast
qed

theorem device_lock_exclusive_witness:
  "lock_device_contentious 2 1 50 (two_coolers\<lparr>devmutexes := [(0, None), (1, Some 1)]\<rparr>) =
      (if (50::nat) = 0 then Inr Blocked else Inl (Contention_error ''couldn't lock device''),
       two_coolers\<lparr>devmutexes := [(0, None), (1, Some 1)]\<rparr>) \<and>
    (\<exists>hA hB. unlock (Harness_lock 1) (two_coolers\<lparr>devmutexes := [(0, None), (1, Some 1)]\<rparr>) = (Inr (), hA) \<and>
       lock_device_contentious 2 1 50 hA = (Inr (Done (Harness_lock 1)), hB))"
  by (rule device_lock_exclusive [where tid = 1 and h = two_coolers and t = 0])
    (simp add: two_coolers_eval lock_device_contentious_def GetDevice_def map_insert_def um_set_def
      Let_def cooler_def)

text \<open>
  Adding. As long as the counter of numbers is the number of devices, the number that
  \<open>AddDevice\<close> returns is the number under which \<open>GetDevice\<close> finds the device with its
  capabilities loaded, the numbers of the other devices are untouched, and the counter keeps in
  step.
\<close>

theorem added_device_is_found:
  assumes "next_id h = int (length (devvec h))" and "AddDevice ops dev h = (Inr i, h')"
  shows "GetDevice i h' = Inr (load_capability_map ops True dev) \<and>
    (j \<noteq> i \<longrightarrow> GetDevice j h' = GetDevice j h) \<and> next_id h' = int (length (devvec h'))"
  using assms by (auto simp: AddDevice_eq GetDevice_def nth_append)

theorem added_device_is_found_witness:
  "GetDevice 2 (snd (AddDevice nat_ops (cooler 3 True) two_coolers)) =
     Inr (load_capability_map nat_ops True (cooler 3 True)) \<and>
   GetDevice 1 (snd (AddDevice nat_ops (cooler 3 True) two_coolers)) = GetDevice 1 two_coolers \<and>
   next_id (snd (AddDevice nat_ops (cooler 3 True) two_coolers)) =
     int (length (devvec (snd (AddDevice nat_ops (cooler 3 True) two_coolers))))"
proof -
  have "AddDevice nat_ops (cooler 3 True) two_coolers = (Inr 2, snd (AddDevice nat_ops (cooler 3 True) two_coolers))"
    by (simp add: AddDevice_def Let_def two_coolers_eval)
  from added_device_is_found [OF _ this, of 1] show ?thesis by (simp add: two_coolers_eval)
qed

text \<open>
  Numbers after \<open>ClearDevices\<close>. Clearing a harness that had handed out a number empties
  the vector and leaves the counter alone: the number returned for the next device that is added
  finds no device.
\<close>

theorem device_number_after_clear:
  assumes "0 < next_id h" and "ClearDevices tid t h = (Inr (Done ()), hA)"
    and "AddDevice ops dev hA = (Inr i, hB)"
  shows "GetDevice i hB = Inl (Out_of_range ''vector::at'') \<and> length (devvec hB) = 1"
  using assms ClearDevices_Done [OF assms(2)]
  by (auto simp: AddDevice_eq GetDevice_def)

theorem device_number_after_clear_witness:
  "GetDevice 2 (snd (AddDevice nat_ops (cooler 3 False) (two_coolers\<lparr>devvec := []\<rparr>))) =
     Inl (Out_of_range ''vector::at'') \<and>
   length (devvec (snd (AddDevice nat_ops (cooler 3 False) (two_coolers\<lparr>devvec := []\<rparr>)))) = 1"
  by (rule device_number_after_clear [where h = two_coolers and tid = 1 and t = 0 and ops = nat_ops
        and dev = "cooler 3 False" and hA = "two_coolers\<lparr>devvec := []\<rparr>"])
    (simp_all add: two_coolers_eval AddDevice_def Let_def ClearDevices_def upt_rec
      lock_device_contentious_def GetDevice_def map_insert_def um_set_def unlock_def andthen_def
      returns_def cooler_def)

text \<open>
  Removing. On a harness whose counter is in step, removing device \<open>i\<close> makes every later
  device answer to the number one below its own, and the last number finds nothing: numbers that
  clients hold do not survive a removal. (Its own mutex goes with it; the mutexes of the others
  keep their old numbers.)
\<close>

theorem remove_device_shifts_numbers:
  assumes "RemoveDevice tid i h = (Inr (Done ()), h')" and "GetDevice j h = Inr dev" and "i < j"
  shows "GetDevice (j - 1) h' = Inr dev \<and>
    GetDevice (int (length (devvec h)) - 1) h' = Inl (Out_of_range ''vector::at'') \<and>
    map_of (devmutexes h') i = None \<and> map_of (devmutexes h') j = map_of (devmutexes h) j"
proof -
  from assms(1) have i: "0 \<le> i" "nat i < length (devvec h)"
    by (auto simp: RemoveDevice_def split: if_splits)
  from assms(1) i have h': "h' = (erase_device i h)\<lparr>devmutexes := um_erase i (devmutexes h)\<rparr>"
    by (auto simp: RemoveDevice_def erase_mutex_def erase_device_def andthen_def returns_def
        split: if_splits option.splits)
  from assms(2) show ?thesis
  proof (cases rule: GetDevice_cases)
    case found
    then have "nat (j - 1) - nat i = nat j - Suc (nat i)" "nat i \<le> nat (j - 1)" "nat (j - 1) < length (devvec h) - Suc 0"
      "Suc (nat i) + (nat j - Suc (nat i)) = nat j"
      using i assms(3) by auto
    moreover have "GetDevice (int (length (devvec h)) - 1) h' = Inl (Out_of_range ''vector::at'')"
      using i by (auto simp: h' GetDevice_def erase_device_def)
    ultimately show ?thesis
      using i found assms(3)
      by (auto simp: h' GetDevice_def erase_device_def nth_append min_def)
  qed
qed

theorem remove_device_shifts_numbers_witness:
  "GetDevice (1 - 1) (snd (RemoveDevice 1 0 two_coolers)) =
     Inr (load_capability_map nat_ops True (cooler 2 False)) \<and>
   GetDevice (int (length (devvec two_coolers)) - 1) (snd (RemoveDevice 1 0 two_coolers)) =
     Inl (Out_of_range ''vector::at'') \<and>
   map_of (devmutexes (snd (RemoveDevice 1 0 two_coolers))) 0 = None \<and>
   map_of (devmutexes (snd (RemoveDevice 1 0 two_coolers))) 1 = map_of (devmutexes two_coolers) 1"
  by (rule remove_device_shifts_numbers [where tid = 1 and i = 0 and h = two_coolers])
    (simp_all add: two_coolers_eval RemoveDevice_def GetDevice_def erase_mutex_def erase_device_def
      andthen_def returns_def cooler_def um_erase_def)

text \<open>
  A device with a lock of its own. \<open>RemoveDevice\<close> never removes it: it asks for a mutex
  of the harness, which \<open>AddDevice\<close> made only for the other devices, and throws.
\<close>

theorem own_lock_device_not_removable:
  assumes "next_id h = int (length (devvec h))" and "has_lock_implementation dev"
    and "map_of (devmutexes h) (next_id h) = None"
    and "AddDevice ops dev h = (Inr i, h')"
  shows "RemoveDevice tid i h' = (Inl (Out_of_range ''map::at''), h')"
proof -
  have h': "h' = h\<lparr>next_id := next_id h + 1, devvec := devvec h @ [load_capability_map ops True dev]\<rparr>"
    and i: "i = int (length (devvec h))"
    using assms by (auto simp: AddDevice_eq)
  then show ?thesis using assms(1-3) by (simp add: RemoveDevice_def)
qed

theorem own_lock_device_not_removable_witness:
  "RemoveDevice 1 2 (snd (AddDevice nat_ops (cooler 3 True) two_coolers)) =
     (Inl (Out_of_range ''map::at''), snd (AddDevice nat_ops (cooler 3 True) two_coolers))"
  by (rule own_lock_device_not_removable [where h = two_coolers and ops = nat_ops and dev = "cooler 3 True"])
    (simp_all add: two_coolers_eval AddDevice_def Let_def cooler_def)

end
