(* ===== verification/Invoke.thy ===== *)
theory Invoke
  imports Session_Handlers Device_Core
begin

text \<open>
  Calling a device over the wire: server/include/foxtrot/server/SessionHandlerMixin.hh and
  server/src/InvokeCapabilityImpl.cpp.

  The state of the server is the session manager, the harness and the state of the devices
  themselves. The conversion between wire values and variants (core/src/typeUtil.cpp) is an
  argument, and so is the number of the thread that runs the handler.
\<close>

section \<open>State and messages\<close>

record ('d, 'v, 't) exptserve =
  sesman :: session_manager
  devharness :: "('d, 'v, 't) harness"
  world :: 'd

record ('w, 'v, 't) wire_ops =
  wire_type_to_variant :: "'w \<Rightarrow> 't \<Rightarrow> 'v result"
  get_variant_wire_type :: "'v \<Rightarrow> 'w result"
  w_empty :: 'w

record 'w capability_request =
  cr_msgid :: "32 word"
  cr_devid :: "32 word"
  cr_capname :: string
  cr_args :: "'w list"
  cr_contention_timeout :: "32 word"

record 'w capability_response =
  cp_msgid :: "32 word"
  cp_devid :: "32 word"
  cp_capname :: string
  cp_returnval :: "'w option"
  cp_err :: "errstatus option"

definition set_cap_err :: "errstatus \<Rightarrow> 'w capability_response \<Rightarrow> 'w capability_response" where
  "set_cap_err e r = r\<lparr>cp_err := Some e\<rparr>"

definition on_harness ::
  "(('d, 'v, 't) harness, 'a) prog \<Rightarrow> ((('d, 'v, 't, 'z) exptserve_scheme, 'repl) call, 'a) prog" where
  "on_harness m = on_server (\<lambda>s. case m (devharness s) of (r, h) \<Rightarrow> (r, s\<lparr>devharness := h\<rparr>))"

definition on_world :: "('d, 'a) prog \<Rightarrow> ((('d, 'v, 't, 'z) exptserve_scheme, 'repl) call, 'a) prog" where
  "on_world m = on_server (\<lambda>s. case m (world s) of (r, w) \<Rightarrow> (r, s\<lparr>world := w\<rparr>))"

section \<open>The session check\<close>

definition check_session_needed ::
  "('v, 't) variant_ops \<Rightarrow> 'w capability_request \<Rightarrow> ('d, 'v, 't) exptserve \<Rightarrow> bool result" where
  "check_session_needed ops req s =
     rbind (GetDevice (sint (cr_devid req)) (devharness s)) (\<lambda>dev.
     rbind (GetCapability ops (dev_type dev) (cr_capname req)) (\<lambda>cap.
     rbind (who_owns_device (sesman s) (cr_devid req)) (\<lambda>owner.
     Inr (owner \<noteq> None))))"

definition get_request_session_id :: "metadata \<Rightarrow> sessionid result" where
  "get_request_session_id md = (case map_of md ''session_secret-bin'' of
     None \<Rightarrow> Inl (Server_error ''request locked by user session, but no secret provided'')
   | Some s \<Rightarrow> if length s \<noteq> SESSION_ID_BYTES
               then Inl (Out_of_range ''invalid session secret array size'') else Inr s)"

definition session_check_metadata ::
  "('v, 't) variant_ops \<Rightarrow> metadata \<Rightarrow> 'w capability_request \<Rightarrow> (('d, 'v, 't) exptserve, bool) prog" where
  "session_check_metadata ops md req s =
     (rbind (check_session_needed ops req s) (\<lambda>needed.
      if needed
      then rbind (get_request_session_id md) (\<lambda>i.
           rbind (session_auth_check_device (sesman s) i (cr_devid req)) (\<lambda>ok.
           if \<not> ok then Inl (Server_error ''invalid session secret'') else Inr True))
      else Inr True), s)"

section \<open>The call\<close>

text \<open>The arguments are converted one by one; the first one without a type throws, the first one
  that does not convert is answered.\<close>

datatype 'v arguments = Converted "'v list" | Too_many | Not_converted error

fun convert_arguments :: "('w, 'v, 't) wire_ops \<Rightarrow> 'w list \<Rightarrow> 't list \<Rightarrow> 'v arguments" where
  "convert_arguments wops [] ts = Converted []"
| "convert_arguments wops (a # as) [] = Too_many"
| "convert_arguments wops (a # as) (t # ts) = (case wire_type_to_variant wops a t of
     Inl e \<Rightarrow> Not_converted e
   | Inr v \<Rightarrow> (case convert_arguments wops as ts of
       Converted vs \<Rightarrow> Converted (v # vs) | r \<Rightarrow> r))"

text \<open>\<open>set_retval_from_variant\<close> makes the field before it converts the value.\<close>

definition set_retval_from_variant ::
  "('w, 'v, 't) wire_ops \<Rightarrow> 'v \<Rightarrow>
   ((('d, 'v, 't) exptserve, 'w capability_response) call, unit) prog" where
  "set_retval_from_variant wops v =
     andthen (on_repl (\<lambda>r. r\<lparr>cp_returnval := Some (w_empty wops)\<rparr>)) (\<lambda>_.
     andthen (lifts (get_variant_wire_type wops v)) (\<lambda>w.
     on_repl (\<lambda>r. r\<lparr>cp_returnval := Some w\<rparr>)))"

text \<open>A scope that holds a lock: the lock is released however the scope is left.\<close>

definition with_lock ::
  "lock_id \<Rightarrow> ((('d, 'v, 't, 'z) exptserve_scheme, 'repl) call, 'a) prog \<Rightarrow>
   ((('d, 'v, 't, 'z) exptserve_scheme, 'repl) call, 'a) prog" where
  "with_lock l m c = (case m c of (r, c') \<Rightarrow> (case on_harness (unlock l) c' of
     (Inl u, c'') \<Rightarrow> (Inl u, c'') | (Inr _, c'') \<Rightarrow> (r, c'')))"

definition locked_invoke ::
  "nat \<Rightarrow> ('v, 't) variant_ops \<Rightarrow> ('w, 'v, 't) wire_ops \<Rightarrow> 'w capability_request \<Rightarrow>
   ('d, 'v, 't) device \<Rightarrow> 'v list \<Rightarrow>
   ((('d, 'v, 't) exptserve, 'w capability_response) call, bool waiting) prog" where
  "locked_invoke tid ops wops req dev vargs =
     catches
       (andthen (on_harness (lock_device_contentious tid (sint (cr_devid req))
          (unat (cr_contention_timeout req)))) (\<lambda>w. case w of
          Blocked \<Rightarrow> returns Blocked
        | Done l \<Rightarrow> with_lock l
            (andthen (on_world (Invoke_name ops dev (cr_capname req) vargs)) (\<lambda>ret.
             andthen (set_retval_from_variant wops ret) (\<lambda>_.
             andthen respond_finish (\<lambda>_. returns (Done True)))))))
       (\<lambda>e. andthen (rpc_error_handling set_cap_err e) (\<lambda>_. returns (Done True)))"

definition InvokeCapability_HandleRequest ::
  "nat \<Rightarrow> ('v, 't) variant_ops \<Rightarrow> ('w, 'v, 't) wire_ops \<Rightarrow> 'w capability_request \<Rightarrow>
   ((('d, 'v, 't) exptserve, 'w capability_response) call, bool waiting) prog" where
  "InvokeCapability_HandleRequest tid ops wops req =
     andthen (on_repl (\<lambda>r. r\<lparr>cp_msgid := cr_msgid req, cp_devid := cr_devid req,
       cp_capname := cr_capname req\<rparr>)) (\<lambda>_.
     andthen (on_server (gets (\<lambda>s. GetDevice (sint (cr_devid req)) (devharness s)))) (\<lambda>found. case found of
       Inl _ \<Rightarrow> andthen (server_specific_error set_cap_err ''invalid device id supplied'' out_of_range)
                 (\<lambda>_. returns (Done True))
     | Inr dev \<Rightarrow> andthen (lifts (GetCapability ops (dev_type dev) (cr_capname req))) (\<lambda>cap.
         if cap_type cap = STREAM
         then andthen (server_specific_error set_cap_err
                ''tried to call Invoke on a streaming method'' ft_ServerError) (\<lambda>_. returns (Done True))
         else (case convert_arguments wops (cr_args req) (Argtypes cap) of
             Too_many \<Rightarrow> throws (Out_of_range ''ran out of arg types to deduce'')
           | Not_converted e \<Rightarrow> andthen (rpc_error_handling set_cap_err e) (\<lambda>_. returns (Done True))
           | Converted vargs \<Rightarrow> locked_invoke tid ops wops req dev vargs))))"

definition InvokeCapabilityLogic ::
  "nat \<Rightarrow> ('v, 't) variant_ops \<Rightarrow> ('w, 'v, 't) wire_ops \<Rightarrow>
   (('d, 'v, 't) exptserve, 'w capability_request, 'w capability_response) logic" where
  "InvokeCapabilityLogic tid ops wops = \<lparr>check_metadata = (\<lambda>_ _. returns True),
     handle_request = InvokeCapability_HandleRequest tid ops wops, set_err = set_cap_err\<rparr>"

text \<open>The logic that the server installs: \<open>SessionHandlerMixin\<close> over the one above.\<close>

definition InvokeCapabilityWithSession ::
  "nat \<Rightarrow> ('v, 't) variant_ops \<Rightarrow> ('w, 'v, 't) wire_ops \<Rightarrow>
   (('d, 'v, 't) exptserve, 'w capability_request, 'w capability_response) logic" where
  "InvokeCapabilityWithSession tid ops wops =
     (InvokeCapabilityLogic tid ops wops)\<lparr>check_metadata := session_check_metadata ops\<rparr>"

section \<open>Every call is answered once\<close>

lemma quiet_on_harness [answers_intros]: "quiet (on_harness m)" "quiet (on_world w)"
  by (simp_all add: on_harness_def on_world_def answers_intros)

lemma unlock_UB: "unlock l h = (Inl e, h') \<Longrightarrow> is_UB e"
  by (auto simp: unlock_def split: lock_id.splits option.splits if_splits)

lemma answers_with_lock [answers_intros]:
  assumes "answers m"
  shows "answers (with_lock l m)"
  unfolding answers_def
proof
  fix c
  obtain r c' where mc: "m c = (r, c')" by fastforce
  obtain u h where un: "unlock l (devharness (server c')) = (u, h)" by fastforce
  show "answered_from (finished c) (with_lock l m c)"
  proof (cases u)
    case (Inl e)
    with unlock_UB un mc show ?thesis
      by (auto simp: with_lock_def on_harness_def on_server_def answered_from_def)
  next
    case (Inr x)
    with un mc answersD [OF assms, of c] show ?thesis
      by (auto simp: with_lock_def on_harness_def on_server_def answered_from_def
          split: sum.splits waiting.splits)
  qed
qed

lemma answers_waiting [answers_intros]:
  "answers m \<Longrightarrow> (\<And>x. answers (k x)) \<Longrightarrow> answers (case r of Blocked \<Rightarrow> m | Done x \<Rightarrow> k x)"
  by (cases r) simp_all

lemma answers_result [answers_intros]:
  "(\<And>e. answers (m e)) \<Longrightarrow> (\<And>x. answers (k x)) \<Longrightarrow> answers (case r of Inl e \<Rightarrow> m e | Inr x \<Rightarrow> k x)"
  by (cases r) simp_all

lemma answers_arguments [answers_intros]:
  "answers m \<Longrightarrow> (\<And>e. answers (n e)) \<Longrightarrow> (\<And>vs. answers (k vs)) \<Longrightarrow>
   answers (case r of Too_many \<Rightarrow> m | Not_converted e \<Rightarrow> n e | Converted vs \<Rightarrow> k vs)"
  by (cases r) simp_all

lemma quiet_set_retval [answers_intros]: "quiet (set_retval_from_variant wops v)"
  unfolding set_retval_from_variant_def by (intro answers_intros)

lemma answers_invoke: "answers (InvokeCapability_HandleRequest tid ops wops req)"
  unfolding InvokeCapability_HandleRequest_def locked_invoke_def by (intro answers_intros)

interpretation invoke_rpc: unary_logic "InvokeCapabilityLogic tid ops wops"
  by unfold_locales (auto simp: InvokeCapabilityLogic_def returns_def intro: answers_invoke)

interpretation guarded_invoke_rpc: unary_logic "InvokeCapabilityWithSession tid ops wops"
proof
  show "\<And>ctxt req s b s'. check_metadata (InvokeCapabilityWithSession tid ops wops) ctxt req s = (Inr b, s') \<Longrightarrow> b"
    by (auto simp: InvokeCapabilityWithSession_def session_check_metadata_def rbind_eq_Inr split: if_splits)
  show "\<And>req. answers (handle_request (InvokeCapabilityWithSession tid ops wops) req)"
    by (simp add: InvokeCapabilityWithSession_def InvokeCapabilityLogic_def answers_invoke)
qed

section \<open>Who may call\<close>

lemma GetDevice_Inl: "GetDevice i h = Inl e \<Longrightarrow> \<not> is_UB e"
  by (auto simp: GetDevice_def split: if_splits)

lemma GetCapability_Inl: "GetCapability ops tp n = Inl e \<Longrightarrow> \<not> is_UB e"
  by (auto simp: GetCapability_def split: option.splits)

lemma get_request_session_id_Inl: "get_request_session_id md = Inl e \<Longrightarrow> \<not> is_UB e"
  by (auto simp: get_request_session_id_def split: option.splits if_splits)

text \<open>A call for a leased device by someone else fails the check.\<close>

lemma leased_check_fails:
  assumes inv: "sm_inv (sesman s)" and lease: "leases (sesman s) secret = Some info"
    and d: "cr_devid req \<in> set (devices info)" and md: "map_of md ''session_secret-bin'' \<noteq> Some secret"
  shows "\<exists>e. \<not> is_UB e \<and> session_check_metadata ops md req s = (Inl e, s)"
proof (cases "GetDevice (sint (cr_devid req)) (devharness s)")
  case (Inl e)
  then show ?thesis
    by (auto simp: session_check_metadata_def check_session_needed_def dest: GetDevice_Inl)
next
  case dev: (Inr dev)
  show ?thesis
  proof (cases "GetCapability ops (dev_type dev) (cr_capname req)")
    case (Inl e)
    with dev show ?thesis
      by (auto simp: session_check_metadata_def check_session_needed_def dest: GetCapability_Inl)
  next
    case cap: (Inr cap)
    with dev who_owns_leased_device [OF inv lease d]
    have need: "check_session_needed ops req s = Inr True" by (simp add: check_session_needed_def)
    show ?thesis
    proof (cases "get_request_session_id md")
      case (Inl e)
      with need show ?thesis
        by (auto simp: session_check_metadata_def dest: get_request_session_id_Inl)
    next
      case (Inr k)
      then have "map_of md ''session_secret-bin'' = Some k"
        by (auto simp: get_request_session_id_def split: option.splits if_splits)
      with md have "k \<noteq> secret" by auto
      have "\<not> (\<exists>x. leases (sesman s) k = Some x \<and> cr_devid req \<in> set (devices x))"
      proof
        assume "\<exists>x. leases (sesman s) k = Some x \<and> cr_devid req \<in> set (devices x)"
        then obtain x where "leases (sesman s) k = Some x" "cr_devid req \<in> set (devices x)" by blast
        with device_owner.exclusive [OF inv lease, of k x "ucast (cr_devid req)"] d \<open>k \<noteq> secret\<close>
        show False by (auto simp: device_keys_def)
      qed
      with need Inr auth_check_device [OF inv, of k "cr_devid req"] show ?thesis
        by (simp add: session_check_metadata_def)
    qed
  qed
qed

lemma failed_check_answer:
  assumes "check_metadata lg md req (server c) = (Inl e, server c)" and "\<not> is_UB e"
  shows "process_request lg md req c = (Inr (Done FINISH),
    c\<lparr>repl := set_err lg (error_reply e) (repl c),
      finished := finished c @ [set_err lg (error_reply e) (repl c)]\<rparr>)"
  using assms
  by (simp add: process_request_def catches_def on_server_def andthen_def returns_def
      rpc_error_handling_not_ub)

section \<open>Locks are given back\<close>

definition holds :: "nat \<Rightarrow> ('d, 'v, 't) harness \<Rightarrow> bool" where
  "holds tid h \<longleftrightarrow> (\<exists>i. map_of (devmutexes h) i = Some (Some tid)) \<or>
     (\<exists>d\<in>set (devvec h). own_mutex d = Some tid)"

lemma holds_map_insert: "holds tid (h\<lparr>devmutexes := map_insert i None (devmutexes h)\<rparr>) = holds tid h"
  by (auto simp: holds_def map_of_map_insert) (metis option.distinct(1))+

lemma lock_not_Done_holds:
  assumes "lock_device_contentious tid i t h = (r, h')" and "\<And>l. r \<noteq> Inr (Done l)"
  shows "holds tid h' = holds tid h"
proof -
  from assms have "h' = h \<or> h' = h\<lparr>devmutexes := map_insert i None (devmutexes h)\<rparr>"
    by (auto simp: lock_device_contentious_def Let_def split: sum.splits if_splits waiting.splits)
  then show ?thesis using holds_map_insert by metis
qed

lemma lock_unlock_holds:
  assumes free: "\<not> holds tid h" and lock: "lock_device_contentious tid i t h = (Inr (Done l), hA)"
    and un: "unlock l hA = (Inr u, hB)"
  shows "\<not> holds tid hB"
  using lock
proof (cases rule: lock_device_Done)
  case (own dev)
  then have "set (devvec hA) \<subseteq> insert (dev\<lparr>own_mutex := Some tid\<rparr>) (set (devvec h))"
    by (simp add: set_update_subset_insert)
  moreover from own un have "hB = hA\<lparr>devvec := map (\<lambda>d. if dev_ptr d = dev_ptr dev
      then d\<lparr>own_mutex := None\<rparr> else d) (devvec hA)\<rparr>"
    by (auto simp: unlock_def split: if_splits)
  ultimately show ?thesis using free own by (auto simp: holds_def)
next
  case (harness dev)
  with un free show ?thesis
    by (auto simp: unlock_def holds_def map_of_map_insert split: option.splits if_splits)
qed

definition keeps_harness :: "((('d, 'v, 't) exptserve, 'repl) call, 'a) prog \<Rightarrow> bool" where
  "keeps_harness m \<longleftrightarrow> (\<forall>c. devharness (server (snd (m c))) = devharness (server c))"

lemma keeps_harness_basic:
  "keeps_harness (on_world w)" "keeps_harness (on_repl f)" "keeps_harness respond_finish"
  "keeps_harness (returns x)" "keeps_harness (throws e)" "keeps_harness (lifts r)"
  "keeps_harness (server_specific_error g msg tp)" "keeps_harness (on_server (gets k))"
  by (auto simp: keeps_harness_def on_world_def call_simps split: prod.split)

lemma keeps_harness_rpc: "keeps_harness (rpc_error_handling f e)"
  by (cases e) (auto simp: keeps_harness_def rpc_error_handling_def call_simps)

lemma keeps_harness_andthen:
  "keeps_harness m \<Longrightarrow> (\<And>x. keeps_harness (k x)) \<Longrightarrow> keeps_harness (andthen m k)"
  by (auto simp: keeps_harness_def andthen_def split: prod.splits sum.splits) (metis snd_conv)+

text \<open>Programs after which the thread holds no lock if it held none before.\<close>

definition gives_back :: "nat \<Rightarrow> ((('d, 'v, 't) exptserve, 'repl) call, 'a) prog \<Rightarrow> bool" where
  "gives_back tid m \<longleftrightarrow> (\<forall>c r c'. m c = (r, c') \<and> \<not> is_ub r \<and> \<not> holds tid (devharness (server c)) \<longrightarrow>
     \<not> holds tid (devharness (server c')))"

lemma gives_backD:
  "gives_back tid m \<Longrightarrow> m c = (r, c') \<Longrightarrow> \<not> is_ub r \<Longrightarrow> \<not> holds tid (devharness (server c)) \<Longrightarrow>
   \<not> holds tid (devharness (server c'))"
  unfolding gives_back_def by blast

lemma gives_back_keeps: "keeps_harness m \<Longrightarrow> gives_back tid m"
  by (auto simp: gives_back_def keeps_harness_def) (metis snd_conv)

lemma gives_back_andthen:
  assumes m: "gives_back tid m" and k: "\<And>x. gives_back tid (k x)"
  shows "gives_back tid (andthen m k)"
  unfolding gives_back_def
proof (intro allI impI, elim conjE)
  fix c r c'
  assume run: "andthen m k c = (r, c')" and ub: "\<not> is_ub r" and free: "\<not> holds tid (devharness (server c))"
  obtain q cA where mc: "m c = (q, cA)" by fastforce
  show "\<not> holds tid (devharness (server c'))"
  proof (cases q)
    case (Inl e)
    with mc run have "c' = cA" "\<not> is_ub q" using ub by (auto simp: andthen_def)
    with gives_backD [OF m mc _ free] show ?thesis by simp
  next
    case (Inr x)
    with gives_backD [OF m mc _ free] have "\<not> holds tid (devharness (server cA))" by simp
    with Inr mc run ub k [of x] show ?thesis by (auto simp: andthen_def gives_back_def)
  qed
qed

lemma gives_back_catches:
  assumes m: "gives_back tid m" and h: "\<And>e. gives_back tid (h e)"
  shows "gives_back tid (catches m h)"
  unfolding gives_back_def
proof (intro allI impI, elim conjE)
  fix c r c'
  assume run: "catches m h c = (r, c')" and ub: "\<not> is_ub r" and free: "\<not> holds tid (devharness (server c))"
  obtain q cA where mc: "m c = (q, cA)" by fastforce
  show "\<not> holds tid (devharness (server c'))"
  proof (cases "\<exists>e. q = Inl e \<and> \<not> is_UB e")
    case True
    then obtain e where e: "q = Inl e" "\<not> is_UB e" by blast
    with gives_backD [OF m mc _ free] have "\<not> holds tid (devharness (server cA))" by simp
    with e mc run ub gives_backD [OF h] show ?thesis by (auto simp: catches_def)
  next
    case False
    with mc run ub have "c' = cA" "\<not> is_ub q" by (auto simp: catches_def split: sum.splits if_splits)
    with gives_backD [OF m mc _ free] show ?thesis by simp
  qed
qed

lemma gives_back_lock:
  assumes body: "\<And>l. keeps_harness (body l)"
  shows "gives_back tid (andthen (on_harness (lock_device_contentious tid i t)) (\<lambda>w. case w of
     Blocked \<Rightarrow> returns Blocked | Done l \<Rightarrow> with_lock l (body l)))"
  unfolding gives_back_def
proof (intro allI impI, elim conjE)
  fix c r c'
  assume run: "andthen (on_harness (lock_device_contentious tid i t)) (\<lambda>w. case w of
     Blocked \<Rightarrow> returns Blocked | Done l \<Rightarrow> with_lock l (body l)) c = (r, c')"
    and ub: "\<not> is_ub r" and free: "\<not> holds tid (devharness (server c))"
  obtain q hA where lock: "lock_device_contentious tid i t (devharness (server c)) = (q, hA)" by fastforce
  show "\<not> holds tid (devharness (server c'))"
  proof (cases "\<exists>l. q = Inr (Done l)")
    case False
    then have "\<not> holds tid hA" using lock_not_Done_holds [OF lock] free by blast
    moreover have "devharness (server c') = hA"
      using run lock False
      by (auto simp: andthen_def on_harness_def on_server_def returns_def split: sum.splits waiting.splits)
    ultimately show ?thesis by simp
  next
    case True
    then obtain l where l: "q = Inr (Done l)" by blast
    let ?cA = "c\<lparr>server := (server c)\<lparr>devharness := hA\<rparr>\<rparr>"
    obtain b cB where bc: "body l ?cA = (b, cB)" by fastforce
    with body [of l] have hB: "devharness (server cB) = hA"
      by (metis (no_types, lifting) call.select_convs(1) call.simps(5) exptserve.select_convs(2)
          exptserve.simps(6) keeps_harness_def snd_conv call.surjective call.update_convs(1)
          exptserve.surjective exptserve.update_convs(2))
    obtain u hC where un: "unlock l hA = (u, hC)" by fastforce
    from run lock l bc un hB
    have "(case u of Inl e \<Rightarrow> (Inl e, cB\<lparr>server := (server cB)\<lparr>devharness := hC\<rparr>\<rparr>)
        | Inr _ \<Rightarrow> (b, cB\<lparr>server := (server cB)\<lparr>devharness := hC\<rparr>\<rparr>)) = (r, c')"
      by (auto simp: andthen_def on_harness_def on_server_def with_lock_def split: sum.splits)
    with ub unlock_UB [of l hA _ hC] un obtain x where "u = Inr x" "devharness (server c') = hC"
      by (auto split: sum.splits)
    with lock_unlock_holds [OF free _ un [unfolded \<open>u = Inr x\<close>]] lock l show ?thesis by simp
  qed
qed

lemma keeps_harness_set_retval: "keeps_harness (set_retval_from_variant wops v)"
  unfolding set_retval_from_variant_def by (intro keeps_harness_andthen keeps_harness_basic)

lemma gives_back_answer:
  "gives_back tid (andthen (rpc_error_handling f e) (\<lambda>_. returns x))"
  "gives_back tid (andthen (server_specific_error f msg tp) (\<lambda>_. returns (Done True)))"
  by (intro gives_back_keeps keeps_harness_andthen keeps_harness_rpc keeps_harness_basic)+

lemma gives_back_result:
  "(\<And>e. gives_back tid (m e)) \<Longrightarrow> (\<And>x. gives_back tid (k x)) \<Longrightarrow>
   gives_back tid (case r of Inl e \<Rightarrow> m e | Inr x \<Rightarrow> k x)"
  by (cases r) simp_all

lemma locked_invoke_gives_back: "gives_back tid (locked_invoke tid ops wops req dev vargs)"
  unfolding locked_invoke_def
  by (intro gives_back_catches gives_back_lock gives_back_answer keeps_harness_andthen
      keeps_harness_basic keeps_harness_set_retval)

lemma invoke_gives_back: "gives_back tid (InvokeCapability_HandleRequest tid ops wops req)"
proof -
  have call: "gives_back tid (if cap_type cap = STREAM
      then andthen (server_specific_error set_cap_err ''tried to call Invoke on a streaming method''
        ft_ServerError) (\<lambda>_. returns (Done True))
      else (case convert_arguments wops (cr_args req) (Argtypes cap) of
          Too_many \<Rightarrow> throws (Out_of_range ''ran out of arg types to deduce'')
        | Not_converted e \<Rightarrow> andthen (rpc_error_handling set_cap_err e) (\<lambda>_. returns (Done True))
        | Converted vargs \<Rightarrow> locked_invoke tid ops wops req dev vargs))" for dev cap
    by (auto split: arguments.split intro: gives_back_answer locked_invoke_gives_back
        gives_back_keeps [OF keeps_harness_basic(5)])
  show ?thesis
    unfolding InvokeCapability_HandleRequest_def
    by (rule gives_back_andthen [OF gives_back_keeps [OF keeps_harness_basic(2)]],
        rule gives_back_andthen [OF gives_back_keeps [OF keeps_harness_basic(8)]], rule gives_back_result,
        rule gives_back_answer,
        rule gives_back_andthen [OF gives_back_keeps [OF keeps_harness_basic(6)]], rule call)
qed

lemma guarded_invoke_gives_back:
  "gives_back tid (process_request (InvokeCapabilityWithSession tid ops wops) md req)"
proof -
  have check: "keeps_harness (on_server (session_check_metadata ops md req))"
    by (simp add: keeps_harness_def on_server_def session_check_metadata_def)
  have ended: "gives_back tid (case d of Blocked \<Rightarrow> returns Blocked
      | Done fin \<Rightarrow> returns (Done (if fin then FINISH else PROCESS)))" for d
    by (cases d) (simp_all add: gives_back_keeps keeps_harness_basic)
  have body: "gives_back tid (if ok then andthen (InvokeCapability_HandleRequest tid ops wops req) (\<lambda>d. case d of
       Blocked \<Rightarrow> returns Blocked | Done fin \<Rightarrow> returns (Done (if fin then FINISH else PROCESS)))
     else returns (Done FINISH))" for ok
    by (cases ok) (simp_all add: gives_back_andthen [OF invoke_gives_back ended] gives_back_keeps
        keeps_harness_basic)
  show ?thesis
    unfolding process_request_def InvokeCapabilityWithSession_def InvokeCapabilityLogic_def logic.simps
    by (rule gives_back_catches, rule gives_back_andthen [OF gives_back_keeps [OF check] body],
        rule gives_back_answer)
qed

section \<open>An example server\<close>

definition nat_wire :: "(nat, nat, nat) wire_ops" where
  "nat_wire = \<lparr>wire_type_to_variant = (\<lambda>w t. Inr w), get_variant_wire_type = (\<lambda>v. Inr v), w_empty = 0\<rparr>"

text \<open>Four coolers, and \<open>desk_state\<close>, in which the holder of \<open>secretA\<close> leases device 3.\<close>

definition lab :: "(nat, nat, nat) exptserve" where
  "lab = \<lparr>sesman = desk_state,
     devharness = \<lparr>devvec = map (\<lambda>i. load_capability_map nat_ops True (cooler i False)) [1, 2, 3, 4],
       devmutexes = [(0, None), (1, None), (2, None), (3, None)], next_id = 4\<rparr>,
     world = 7\<rparr>"

definition set_cooler :: "nat capability_request" where
  "set_cooler = \<lparr>cr_msgid = 1, cr_devid = 3, cr_capname = ''setpoint'', cr_args = [42],
     cr_contention_timeout = 0\<rparr>"

definition empty_response :: "nat capability_response" where
  "empty_response = \<lparr>cp_msgid = 0, cp_devid = 0, cp_capname = '''', cp_returnval = None, cp_err = None\<rparr>"

definition lab_call :: "((nat, nat, nat) exptserve, nat capability_response) call" where
  "lab_call = \<lparr>server = lab, repl = empty_response, finished = []\<rparr>"

lemma desk_lease: "leases desk_state secretA = Some
   \<lparr>internal_session_id = 0, user_identifier = ''dan'', comment = ''camera'', devices = [3],
    flags = [''shutter''], expiry = 3700\<rparr>"
  by (simp add: desk_state_def session_eval camera_request_def)

section \<open>Properties\<close>

text \<open>
  C8. A leased device is protected. On a consistent session manager, a call for a device that is
  leased, with metadata that do not carry the secret of the lease, is answered exactly once with
  an error; the device, the harness and the manager are untouched.
\<close>

theorem leased_device_protected:
  assumes "sm_inv (sesman (server c))" and "leases (sesman (server c)) secret = Some info"
    and "cr_devid req \<in> set (devices info)" and "map_of md ''session_secret-bin'' \<noteq> Some secret"
  shows "\<exists>c' r. process_request (InvokeCapabilityWithSession tid ops wops) md req c =
      (Inr (Done FINISH), c') \<and> server c' = server c \<and> finished c' = finished c @ [r] \<and> cp_err r \<noteq> None"
proof -
  from leased_check_fails [OF assms, of ops] obtain e where e: "\<not> is_UB e"
    "check_metadata (InvokeCapabilityWithSession tid ops wops) md req (server c) = (Inl e, server c)"
    by (auto simp: InvokeCapabilityWithSession_def)
  show ?thesis
    using failed_check_answer [OF e(2,1)]
    by (auto simp: InvokeCapabilityWithSession_def InvokeCapabilityLogic_def set_cap_err_def)
qed

theorem leased_device_protected_witness:
  "\<exists>c' r. process_request (InvokeCapabilityWithSession 1 nat_ops nat_wire)
        [(''session_secret-bin'', replicate 32 8)] set_cooler lab_call =
      (Inr (Done FINISH), c') \<and> server c' = server lab_call \<and>
      finished c' = finished lab_call @ [r] \<and> cp_err r \<noteq> None"
proof (rule leased_device_protected)
  show "sm_inv (sesman (server lab_call))" by (simp add: lab_call_def lab_def desk_state_inv)
  show "leases (sesman (server lab_call)) secretA = Some
     \<lparr>internal_session_id = 0, user_identifier = ''dan'', comment = ''camera'', devices = [3],
      flags = [''shutter''], expiry = 3700\<rparr>"
    by (simp add: lab_call_def lab_def desk_lease)
qed (simp_all add: set_cooler_def secretA_def)

text \<open>
  C9. The holder is not hindered. When the device and the capability exist and the metadata carry
  the secret of the session that leases the device, the guarded call does exactly what the
  unguarded one does.
\<close>

theorem holder_call_passes:
  assumes "sm_inv (sesman (server c))" and "leases (sesman (server c)) secret = Some info"
    and "cr_devid req \<in> set (devices info)" and "map_of md ''session_secret-bin'' = Some secret"
    and "length secret = SESSION_ID_BYTES"
    and "GetDevice (sint (cr_devid req)) (devharness (server c)) = Inr dev"
    and "GetCapability ops (dev_type dev) (cr_capname req) = Inr cap"
  shows "process_request (InvokeCapabilityWithSession tid ops wops) md req c =
    process_request (InvokeCapabilityLogic tid ops wops) md req c"
proof -
  have "session_check_metadata ops md req (server c) = (Inr True, server c)"
    using assms who_owns_leased_device [OF assms(1-3)] auth_check_device [OF assms(1), of secret "cr_devid req"]
    by (simp add: session_check_metadata_def check_session_needed_def get_request_session_id_def)
  then show ?thesis
    by (simp add: process_request_def catches_def andthen_def on_server_def returns_def
        InvokeCapabilityWithSession_def InvokeCapabilityLogic_def)
qed

theorem holder_call_passes_witness:
  "process_request (InvokeCapabilityWithSession 1 nat_ops nat_wire)
      [(''session_secret-bin'', secretA)] set_cooler lab_call =
   process_request (InvokeCapabilityLogic 1 nat_ops nat_wire)
      [(''session_secret-bin'', secretA)] set_cooler lab_call"
proof (rule holder_call_passes)
  show "sm_inv (sesman (server lab_call))" by (simp add: lab_call_def lab_def desk_state_inv)
  show "leases (sesman (server lab_call)) secretA = Some
     \<lparr>internal_session_id = 0, user_identifier = ''dan'', comment = ''camera'', devices = [3],
      flags = [''shutter''], expiry = 3700\<rparr>"
    by (simp add: lab_call_def lab_def desk_lease)
  show "GetDevice (sint (cr_devid set_cooler)) (devharness (server lab_call)) =
      Inr (load_capability_map nat_ops True (cooler 4 False))"
    by (simp add: GetDevice_def set_cooler_def lab_call_def lab_def numeral_3_eq_3)
  show "GetCapability nat_ops (dev_type (load_capability_map nat_ops True (cooler 4 False)))
      (cr_capname set_cooler) = Inr (capability_of_property nat_ops setpoint)"
    by (simp add: GetCapability_def cooler_def set_cooler_def)
qed (simp_all add: set_cooler_def secretA_def SESSION_ID_BYTES_def)

text \<open>
  C10. No lock is left behind. A thread that holds no lock before a call holds none after it,
  whether the call succeeds, fails in the device, times out on the lock or does not convert.
\<close>

theorem invoke_leaves_no_lock:
  assumes "\<not> holds tid (devharness (server c))"
    and "process_request (InvokeCapabilityWithSession tid ops wops) md req c = (Inr st, c')"
  shows "\<not> holds tid (devharness (server c'))"
  using gives_backD [OF guarded_invoke_gives_back assms(2) _ assms(1)] by simp

lemma lab_call_run:
  "\<exists>c'. process_request (InvokeCapabilityWithSession 1 nat_ops nat_wire)
     [(''session_secret-bin'', replicate 32 8)] set_cooler lab_call = (Inr (Done FINISH), c')"
  using leased_check_fails [of "server lab_call" secretA _ set_cooler
      "[(''session_secret-bin'', replicate 32 8)]" nat_ops] desk_state_inv desk_lease
    failed_check_answer [of "InvokeCapabilityWithSession 1 nat_ops nat_wire"]
  by (fastforce simp: lab_call_def lab_def set_cooler_def secretA_def InvokeCapabilityWithSession_def)

theorem invoke_leaves_no_lock_witness:
  "\<not> holds 1 (devharness (server (snd (process_request (InvokeCapabilityWithSession 1 nat_ops nat_wire)
     [(''session_secret-bin'', replicate 32 8)] set_cooler lab_call))))"
proof -
  obtain c' where run: "process_request (InvokeCapabilityWithSession 1 nat_ops nat_wire)
     [(''session_secret-bin'', replicate 32 8)] set_cooler lab_call = (Inr (Done FINISH), c')"
    using lab_call_run by blast
  have "\<not> holds 1 (devharness (server lab_call))"
    by (auto simp: holds_def lab_call_def lab_def cooler_def split: if_splits)
  from invoke_leaves_no_lock [OF this run] run show ?thesis by simp
qed

end
