(* ===== verification/Fetch_Data.thy ===== *)
theory Fetch_Data
  imports Invoke
begin

text \<open>
  Fetching an array in chunks: server/src/FetchDataImpl.cpp and \<open>byte\_view\_data\<close> of
  server/src/ServerUtil.cpp.

  The object \<open>FetchDataLogic\<close> keeps the state of a transfer in its own fields, and the one
  object serves every request of the server. A call of \<open>HandleRequest\<close> writes one chunk; the
  handler calls it again when the chunk has been sent. The field \<open>finished\<close> of a call holds
  what was written to the stream, in order; \<open>stream_ended\<close> tells whether it was finished.
\<close>

section \<open>State\<close>

record fetch_logic =
  thischunk :: "32 word"
  num_full_chunks :: "32 word"
  extra_chunk :: bool
  csize :: "32 word"
  byte_size :: "32 word"
  fdata :: "8 word list"
  currval :: nat

record ('d, 'v, 't) fetch_server = "('d, 'v, 't) exptserve" +
  flogic :: fetch_logic
  stream_ended :: bool

record 'w chunk_request =
  ck_msgid :: "32 word"
  ck_devid :: "32 word"
  ck_capname :: string
  ck_args :: "'w list"
  ck_chunksize :: "32 word"
  ck_contention_timeout :: "32 word"

record 'dt datachunk =
  dc_data :: "8 word list"
  dc_msgid :: "32 word"
  dc_devid :: "32 word"
  dc_capname :: string
  dc_err :: "errstatus option"
  dc_dtp :: "'dt option"

definition set_chunk_err :: "errstatus \<Rightarrow> 'dt datachunk \<Rightarrow> 'dt datachunk" where
  "set_chunk_err e r = r\<lparr>dc_err := Some e\<rparr>"

definition init_chunk :: "'w chunk_request \<Rightarrow> 'dt datachunk" where
  "init_chunk req = \<lparr>dc_data = [], dc_msgid = ck_msgid req, dc_devid = ck_devid req,
     dc_capname = ck_capname req, dc_err = None, dc_dtp = None\<rparr>"

section \<open>Bytes of a variant\<close>

record ('v, 't, 'dt) byte_ops =
  is_sequential_container :: "'v \<Rightarrow> bool"
  view_rank :: "'v \<Rightarrow> nat"
  get_byte_data_type :: "'v \<Rightarrow> 'dt result"
  variant_to_bytes :: "'v \<Rightarrow> 8 word list result"

definition byte_view_data ::
  "('v, 't, 'dt) byte_ops \<Rightarrow> 'v \<Rightarrow> (8 word list \<times> 'dt) result" where
  "byte_view_data bops arr =
     (if \<not> is_sequential_container bops arr
      then Inl (Logic_error ''type not a sequential container!'')
      else if view_rank bops arr > 1
      then Inl (Runtime_error ''unable to deal with arrays of rank > 1'')
      else rbind (get_byte_data_type bops arr) (\<lambda>dt.
           rbind (variant_to_bytes bops arr) (\<lambda>bytes. Inr (bytes, dt))))"

section \<open>The first call of a transfer\<close>

definition on_flogic ::
  "(fetch_logic \<Rightarrow> fetch_logic) \<Rightarrow> ((('d, 'v, 't) fetch_server, 'repl) call, unit) prog" where
  "on_flogic f = on_server (modifies (\<lambda>s. s\<lparr>flogic := f (flogic s)\<rparr>))"

fun fetch_arguments :: "('w, 'v, 't) wire_ops \<Rightarrow> 'w list \<Rightarrow> 't list \<Rightarrow> 'v list result" where
  "fetch_arguments wops [] ts = Inr []"
| "fetch_arguments wops (a # as) [] =
     Inl (Runtime_error ''invalid length of arguments caught in fetchdata'')"
| "fetch_arguments wops (a # as) (t # ts) =
     rbind (wire_type_to_variant wops a t) (\<lambda>v.
     rbind (fetch_arguments wops as ts) (\<lambda>vs. Inr (v # vs)))"

text \<open>Dividing by a chunk size of zero has no defined result. The size is kept in 32 bits.\<close>

definition start_transfer ::
  "'w chunk_request \<Rightarrow> 8 word list \<Rightarrow> 'dt \<Rightarrow> ((('d, 'v, 't) fetch_server, 'dt datachunk) call, bool waiting) prog" where
  "start_transfer req bytes dt =
     andthen (on_repl (\<lambda>r. r\<lparr>dc_dtp := Some dt\<rparr>)) (\<lambda>_.
     if ck_chunksize req = 0 then throws (UB ''division by zero'')
     else andthen (on_flogic (\<lambda>f. let n = (word_of_int (int (length bytes)) :: 32 word) in
            f\<lparr>fdata := bytes, byte_size := n, csize := ck_chunksize req,
              num_full_chunks := n div ck_chunksize req, extra_chunk := (n mod ck_chunksize req \<noteq> 0),
              currval := 0\<rparr>)) (\<lambda>_. returns (Done False)))"

definition fetch_locked ::
  "nat \<Rightarrow> ('v, 't) variant_ops \<Rightarrow> ('v, 't, 'dt) byte_ops \<Rightarrow> 'w chunk_request \<Rightarrow>
   ('d, 'v, 't) device \<Rightarrow> 'v list \<Rightarrow>
   ((('d, 'v, 't) fetch_server, 'dt datachunk) call, bool waiting) prog" where
  "fetch_locked tid ops bops req dev vargs =
     andthen (on_harness (lock_device_contentious tid (sint (ck_devid req))
       (unat (ck_contention_timeout req)))) (\<lambda>w. case w of
       Blocked \<Rightarrow> returns Blocked
     | Done l \<Rightarrow> with_lock l
         (andthen (on_world (Invoke_name ops dev (ck_capname req) vargs)) (\<lambda>ret.
          if \<not> is_sequential_container bops ret
          then andthen (server_specific_error set_chunk_err ''return type is not an array type'' ft_Error)
                 (\<lambda>_. returns (Done True))
          else andthen (lifts (byte_view_data bops ret)) (\<lambda>(bytes, dt). start_transfer req bytes dt))))"

definition initial_request ::
  "nat \<Rightarrow> ('v, 't) variant_ops \<Rightarrow> ('w, 'v, 't) wire_ops \<Rightarrow> ('v, 't, 'dt) byte_ops \<Rightarrow> 'w chunk_request \<Rightarrow>
   ((('d, 'v, 't) fetch_server, 'dt datachunk) call, bool waiting) prog" where
  "initial_request tid ops wops bops req =
     andthen (on_repl (\<lambda>_. init_chunk req)) (\<lambda>_.
     andthen (on_server (gets (\<lambda>s. GetDevice (sint (ck_devid req)) (devharness s)))) (\<lambda>found. case found of
       Inl _ \<Rightarrow> andthen (server_specific_error set_chunk_err ''invalid device'' out_of_range)
                 (\<lambda>_. returns (Done True))
     | Inr dev \<Rightarrow> andthen (lifts (GetCapability ops (dev_type dev) (ck_capname req))) (\<lambda>cap.
         if cap_type cap \<noteq> STREAM
         then andthen (server_specific_error set_chunk_err
                ''tried to FetchData on a non streaming method'' ft_ServerError) (\<lambda>_. returns (Done True))
         else andthen (lifts (fetch_arguments wops (ck_args req) (Argtypes cap))) (\<lambda>vargs.
              fetch_locked tid ops bops req dev vargs))))"

section \<open>One chunk\<close>

text \<open>\<open>assign\<close> from a range that leaves the array has no defined result.\<close>

definition write_chunk ::
  "nat \<Rightarrow> nat \<Rightarrow> fetch_logic \<Rightarrow> ((('d, 'v, 't) fetch_server, 'dt datachunk) call, unit) prog" where
  "write_chunk a b f =
     (if b < a \<or> length (fdata f) < b then throws (UB ''range outside the array'')
      else andthen (on_repl (\<lambda>r. r\<lparr>dc_data := take (b - a) (drop a (fdata f))\<rparr>)) (\<lambda>_. respond_finish))"

definition serve_chunk ::
  "((('d, 'v, 't) fetch_server, 'dt datachunk) call, bool waiting) prog" where
  "serve_chunk =
     andthen (on_server (gets flogic)) (\<lambda>f.
     if thischunk f < num_full_chunks f
     then andthen (write_chunk (currval f) (currval f + unat (csize f)) f) (\<lambda>_.
          andthen (on_flogic (\<lambda>f. f\<lparr>currval := currval f + unat (csize f), thischunk := thischunk f + 1\<rparr>)) (\<lambda>_.
          returns (Done False)))
     else if extra_chunk f
     then andthen (write_chunk (currval f) (unat (byte_size f)) f) (\<lambda>_.
          andthen (on_flogic (\<lambda>f. f\<lparr>extra_chunk := False, thischunk := thischunk f + 1\<rparr>)) (\<lambda>_.
          returns (Done False)))
     else andthen (on_server (modifies (\<lambda>s. s\<lparr>stream_ended := True\<rparr>))) (\<lambda>_.
          andthen (on_flogic (\<lambda>f. f\<lparr>thischunk := 0\<rparr>)) (\<lambda>_. returns (Done True))))"

definition FetchData_HandleRequest ::
  "nat \<Rightarrow> ('v, 't) variant_ops \<Rightarrow> ('w, 'v, 't) wire_ops \<Rightarrow> ('v, 't, 'dt) byte_ops \<Rightarrow> 'w chunk_request \<Rightarrow>
   ((('d, 'v, 't) fetch_server, 'dt datachunk) call, bool waiting) prog" where
  "FetchData_HandleRequest tid ops wops bops req =
     andthen (on_server (gets (\<lambda>s. thischunk (flogic s)))) (\<lambda>n.
     andthen (if n = 0 then initial_request tid ops wops bops req else returns (Done False)) (\<lambda>w. case w of
       Blocked \<Rightarrow> returns Blocked
     | Done answered \<Rightarrow> if answered then returns (Done True) else serve_chunk))"

text \<open>The handler calls \<open>HandleRequest\<close> until it returns True, at most \<open>fuel\<close> times.\<close>

fun fetch_loop ::
  "nat \<Rightarrow> ((('d, 'v, 't) fetch_server, 'dt datachunk) call, bool waiting) prog \<Rightarrow>
   ((('d, 'v, 't) fetch_server, 'dt datachunk) call, bool) prog" where
  "fetch_loop 0 handle = returns False"
| "fetch_loop (Suc fuel) handle = andthen handle (\<lambda>w. case w of
     Blocked \<Rightarrow> returns False
   | Done finish \<Rightarrow> if finish then returns True else fetch_loop fuel handle)"

section \<open>A transfer\<close>

text \<open>\<open>i\<close> full chunks of \<open>bs\<close> have been sent, in chunks of \<open>n\<close> bytes.\<close>

definition transfer :: "8 word list \<Rightarrow> nat \<Rightarrow> nat \<Rightarrow> fetch_logic \<Rightarrow> bool" where
  "transfer bs n i f \<longleftrightarrow> 0 < n \<and> length bs < 2 ^ 32 \<and> i \<le> length bs div n \<and>
     fdata f = bs \<and> unat (csize f) = n \<and> unat (byte_size f) = length bs \<and>
     unat (num_full_chunks f) = length bs div n \<and> (extra_chunk f \<longleftrightarrow> length bs mod n \<noteq> 0) \<and>
     unat (thischunk f) = i \<and> currval f = i * n"

lemma unat_succ_less: "x < y \<Longrightarrow> unat (x + 1) = Suc (unat x)" for x y :: "32 word"
proof -
  assume "x < y"
  then have "x \<noteq> - 1" by (metis word_order.extremum leD)
  then have "1 + x \<noteq> 0" by (metis add.inverse_unique add.commute)
  then show ?thesis by (metis unatSuc add.commute)
qed

lemma transfer_fits:
  assumes "transfer bs n i f" and "i < length bs div n"
  shows "i * n + n \<le> length bs"
proof -
  from assms have "Suc i * n \<le> (length bs div n) * n" by (intro mult_le_mono1) simp
  also have "\<dots> \<le> length bs" by simp
  finally show ?thesis by simp
qed

lemma serve_full_chunk:
  assumes t: "transfer bs n i (flogic (server c))" and i: "i < length bs div n"
  obtains c' r where "serve_chunk c = (Inr (Done False), c')" "finished c' = finished c @ [r]"
    "dc_data r = take n (drop (i * n) bs)" "transfer bs n (Suc i) (flogic (server c'))"
    "r = (repl c)\<lparr>dc_data := take n (drop (i * n) bs)\<rparr>" "repl c' = r"
proof -
  let ?f = "flogic (server c)"
  have fits: "i * n + n \<le> length bs" using t i by (rule transfer_fits)
  have lt: "thischunk ?f < num_full_chunks ?f" using t i by (simp add: transfer_def word_less_nat_alt)
  let ?r = "(repl c)\<lparr>dc_data := take n (drop (i * n) bs)\<rparr>"
  let ?g = "?f\<lparr>currval := i * n + n, thischunk := thischunk ?f + 1\<rparr>"
  let ?c = "c\<lparr>repl := ?r, finished := finished c @ [?r], server := (server c)\<lparr>flogic := ?g\<rparr>\<rparr>"
  have "serve_chunk c = (Inr (Done False), ?c)"
    using t lt fits
    by (simp add: serve_chunk_def write_chunk_def on_flogic_def call_simps transfer_def)
  moreover have "transfer bs n (Suc i) ?g"
    using t i unat_succ_less [OF lt] by (simp add: transfer_def)
  ultimately show ?thesis by (intro that [of ?c ?r]) simp_all
qed

lemma serve_end:
  assumes "\<not> thischunk (flogic (server c)) < num_full_chunks (flogic (server c))"
    and "\<not> extra_chunk (flogic (server c))"
  shows "serve_chunk c = (Inr (Done True), c\<lparr>server := (server c)\<lparr>flogic :=
      (flogic (server c))\<lparr>thischunk := 0\<rparr>, stream_ended := True\<rparr>\<rparr>)"
  using assms by (simp add: serve_chunk_def on_flogic_def call_simps)

lemma serve_extra_chunk:
  assumes t: "transfer bs n i (flogic (server c))" and i: "i = length bs div n"
    and e: "length bs mod n \<noteq> 0"
  obtains c' r where "serve_chunk c = (Inr (Done False), c')" "finished c' = finished c @ [r]"
    "dc_data r = drop (i * n) bs" "length (dc_data r) \<le> n"
    "r = (repl c)\<lparr>dc_data := drop (i * n) bs\<rparr>" "drop (i * n) bs \<noteq> []"
    "\<not> thischunk (flogic (server c')) < num_full_chunks (flogic (server c'))"
    "thischunk (flogic (server c')) \<noteq> 0" "\<not> extra_chunk (flogic (server c'))"
proof -
  let ?f = "flogic (server c)"
  have ge: "\<not> thischunk ?f < num_full_chunks ?f" using t i by (simp add: transfer_def word_less_nat_alt)
  have le: "i * n \<le> length bs" using i by simp
  have len: "length bs - i * n = length bs mod n" using i by (simp add: minus_div_mult_eq_mod)
  have n2: "2 \<le> n" using e t by (cases "n = 1") (auto simp: transfer_def)
  then have "length bs div n \<le> length bs div 2" by (intro div_le_mono2) simp_all
  moreover have "length bs div 2 < 2 ^ 31" using t by (simp add: transfer_def) linarith
  ultimately have small: "unat (thischunk ?f) < 2 ^ 31" using t i by (simp add: transfer_def)
  have succ: "unat (thischunk ?f + 1) = Suc (unat (thischunk ?f))"
    using small by (intro unat_succ_less [of _ 2147483648]) (simp add: word_less_nat_alt)
  let ?r = "(repl c)\<lparr>dc_data := drop (i * n) bs\<rparr>"
  let ?g = "?f\<lparr>extra_chunk := False, thischunk := thischunk ?f + 1\<rparr>"
  let ?c = "c\<lparr>repl := ?r, finished := finished c @ [?r], server := (server c)\<lparr>flogic := ?g\<rparr>\<rparr>"
  have "serve_chunk c = (Inr (Done False), ?c)"
    using t ge e le
    by (simp add: serve_chunk_def write_chunk_def on_flogic_def call_simps transfer_def)
  moreover have "\<not> thischunk ?g < num_full_chunks ?g"
    using t i succ by (simp add: transfer_def word_less_nat_alt)
  moreover have "thischunk ?g \<noteq> 0"
    using succ by (simp add: unat_eq_0 [symmetric])
  moreover have "length bs mod n \<le> n" using t by (simp add: transfer_def less_imp_le)
  moreover have "drop (i * n) bs \<noteq> []" using len e by (metis length_0_conv length_drop)
  ultimately show ?thesis using len by (intro that [of ?c ?r]) simp_all
qed

text \<open>The chunks that are written: copies of one message, with the pieces of the array as their data.\<close>

fun sends :: "'dt datachunk \<Rightarrow> nat \<Rightarrow> 8 word list \<Rightarrow> 'dt datachunk list \<Rightarrow> bool" where
  "sends r0 n bs [] = (bs = [])"
| "sends r0 n bs (r # rs) = (bs \<noteq> [] \<and> r = r0\<lparr>dc_data := take n bs\<rparr> \<and> sends r0 n (drop n bs) rs)"

lemma sends_update [simp]: "sends (r0\<lparr>dc_data := x\<rparr>) n bs rs = sends r0 n bs rs"
  by (induction rs arbitrary: bs) simp_all

lemma sends_concat: "sends r0 n bs rs \<Longrightarrow> concat (map dc_data rs) = bs"
  by (induction rs arbitrary: bs) auto

lemma sends_sizes: "sends r0 n bs rs \<Longrightarrow> \<forall>r\<in>set rs. length (dc_data r) \<le> n"
  by (induction rs arbitrary: bs) auto

text \<open>The rest of a transfer, once a chunk has been sent: the handler calls nothing but
  \<open>serve_chunk\<close>.\<close>

definition resumes ::
  "((('d, 'v, 't) fetch_server, 'dt datachunk) call, bool waiting) prog \<Rightarrow> bool" where
  "resumes h \<longleftrightarrow> (\<forall>c. thischunk (flogic (server c)) \<noteq> 0 \<longrightarrow> h c = serve_chunk c)"

lemma fetch_resumes: "resumes (FetchData_HandleRequest tid ops wops bops req)"
  by (simp add: resumes_def FetchData_HandleRequest_def call_simps)

lemma fetch_resumes_eq:
  "thischunk (flogic (server c)) \<noteq> 0 \<Longrightarrow> FetchData_HandleRequest tid ops wops bops req c = serve_chunk c"
  by (simp add: FetchData_HandleRequest_def call_simps)

lemma fetch_loop_step:
  "h c = (Inr (Done False), c') \<Longrightarrow> fetch_loop (Suc k) h c = fetch_loop k h c'"
  "h c = (Inr (Done True), c') \<Longrightarrow> fetch_loop (Suc k) h c = (Inr True, c')"
  by (simp_all add: andthen_def returns_def)

lemma fetch_loop_rest:
  assumes "resumes h" and "transfer bs n i (flogic (server c))" and "0 < i"
    and "length bs div n - i + 2 \<le> fuel"
  shows "\<exists>c' rs. fetch_loop fuel h c = (Inr True, c') \<and> finished c' = finished c @ rs \<and>
    sends (repl c) n (drop (i * n) bs) rs \<and> stream_ended (server c') \<and> thischunk (flogic (server c')) = 0"
  using assms(2-)
proof (induction fuel arbitrary: i c)
  case 0
  then show ?case by simp
next
  case (Suc fuel)
  note t = Suc.prems(1)
  have h: "h c = serve_chunk c"
  proof -
    have "unat (thischunk (flogic (server c))) \<noteq> 0" using t Suc.prems(2) by (simp add: transfer_def)
    then have "thischunk (flogic (server c)) \<noteq> 0" by auto
    with assms(1) show ?thesis by (simp add: resumes_def)
  qed
  show ?case
  proof (cases "i < length bs div n")
    case True
    obtain cA r where s: "serve_chunk c = (Inr (Done False), cA)" "finished cA = finished c @ [r]"
      "dc_data r = take n (drop (i * n) bs)" "transfer bs n (Suc i) (flogic (server cA))"
      "r = (repl c)\<lparr>dc_data := take n (drop (i * n) bs)\<rparr>" "repl cA = r"
      using serve_full_chunk [OF t True] by blast
    have "length bs div n - Suc i + 2 \<le> fuel" using Suc.prems(3) True by simp
    from Suc.IH [OF s(4) _ this] obtain c' rs where run: "fetch_loop fuel h cA = (Inr True, c')"
      "finished c' = finished cA @ rs" "sends (repl cA) n (drop (Suc i * n) bs) rs"
      "stream_ended (server c')" "thischunk (flogic (server c')) = 0"
      by auto
    have "drop n (drop (i * n) bs) = drop (Suc i * n) bs" by (simp add: add.commute)
    moreover have "drop (i * n) bs \<noteq> []" using transfer_fits [OF t True] t by (simp add: transfer_def)
    ultimately have "sends (repl c) n (drop (i * n) bs) (r # rs)" using run(3) s(5,6) by simp
    with s run h show ?thesis
      by (intro exI [of _ c'] exI [of _ "r # rs"]) (simp add: fetch_loop_step del: sends.simps)
  next
    case False
    with t have i: "i = length bs div n" by (simp add: transfer_def)
    from Suc.prems(3) obtain k where fuel: "fuel = Suc k" by (cases fuel) auto
    show ?thesis
    proof (cases "length bs mod n = 0")
      case True
      have "\<not> thischunk (flogic (server c)) < num_full_chunks (flogic (server c))"
        "\<not> extra_chunk (flogic (server c))"
        using t i True by (simp_all add: transfer_def word_less_nat_alt)
      from serve_end [OF this] h fetch_loop_step(2) [of h c]
      have "fetch_loop (Suc fuel) h c = (Inr True, c\<lparr>server := (server c)\<lparr>flogic :=
          (flogic (server c))\<lparr>thischunk := 0\<rparr>, stream_ended := True\<rparr>\<rparr>)" by simp
      moreover have "drop (i * n) bs = []" using True i by (simp add: mod_eq_0_iff_dvd)
      ultimately show ?thesis by (intro exI [of _ _] exI [of _ "[]"]) (auto simp del: fetch_loop.simps)
    next
      case extra: False
      obtain cA r where s: "serve_chunk c = (Inr (Done False), cA)" "finished cA = finished c @ [r]"
        "dc_data r = drop (i * n) bs" "length (dc_data r) \<le> n"
        and r: "r = (repl c)\<lparr>dc_data := drop (i * n) bs\<rparr>" "drop (i * n) bs \<noteq> []"
        and e: "\<not> thischunk (flogic (server cA)) < num_full_chunks (flogic (server cA))"
        "\<not> extra_chunk (flogic (server cA))" and nz: "thischunk (flogic (server cA)) \<noteq> 0"
        using serve_extra_chunk [OF t i extra] by blast
      let ?c = "cA\<lparr>server := (server cA)\<lparr>flogic := (flogic (server cA))\<lparr>thischunk := 0\<rparr>, stream_ended := True\<rparr>\<rparr>"
      have "h cA = (Inr (Done True), ?c)"
        using assms(1) nz serve_end [OF e] by (simp add: resumes_def)
      then have "fetch_loop (Suc k) h cA = (Inr True, ?c)" by (rule fetch_loop_step(2))
      with h s(1) fuel have "fetch_loop (Suc fuel) h c = (Inr True, ?c)"
        by (simp add: fetch_loop_step(1) del: fetch_loop.simps)
      moreover have "sends (repl c) n (drop (i * n) bs) [r]" using r s(3,4) by simp
      ultimately show ?thesis
        using s(2) by (intro exI [of _ ?c] exI [of _ "[r]"]) (simp del: fetch_loop.simps sends.simps)
    qed
  qed
qed

section \<open>What the first call sets up\<close>

definition begin_transfer :: "'w chunk_request \<Rightarrow> 8 word list \<Rightarrow> fetch_logic \<Rightarrow> fetch_logic" where
  "begin_transfer req bytes f = (let n = (word_of_int (int (length bytes)) :: 32 word) in
     f\<lparr>fdata := bytes, byte_size := n, csize := ck_chunksize req,
       num_full_chunks := n div ck_chunksize req, extra_chunk := (n mod ck_chunksize req \<noteq> 0),
       currval := 0\<rparr>)"

definition silent :: "((('d, 'v, 't) fetch_server, 'repl) call, 'a) prog \<Rightarrow> bool" where
  "silent m \<longleftrightarrow> (\<forall>c. finished (snd (m c)) = finished c \<and> flogic (server (snd (m c))) = flogic (server c))"

definition prepares ::
  "'w chunk_request \<Rightarrow> ((('d, 'v, 't) fetch_server, 'repl) call, bool waiting) prog \<Rightarrow> bool" where
  "prepares req m \<longleftrightarrow> (\<forall>c c'. m c = (Inr (Done False), c') \<longrightarrow> finished c' = finished c \<and>
     ck_chunksize req \<noteq> 0 \<and> (\<exists>bs. flogic (server c') = begin_transfer req bs (flogic (server c))))"

lemma silent_basic:
  "silent (on_repl f)" "silent (lifts r)" "silent (on_world w)" "silent (on_harness h)"
  "silent (on_server (gets g))"
  by (auto simp: silent_def call_simps on_world_def on_harness_def split: prod.split)

lemma prepares_andthen:
  assumes m: "silent m" and k: "\<And>x. prepares req (k x)"
  shows "prepares req (andthen m k)"
  unfolding prepares_def
proof (intro allI impI)
  fix c c'
  assume "andthen m k c = (Inr (Done False), c')"
  then obtain x cA where mc: "m c = (Inr x, cA)" and kc: "k x cA = (Inr (Done False), c')"
    by (auto simp: andthen_eq_Inr)
  from m [unfolded silent_def, rule_format, of c] mc
  have "finished cA = finished c" "flogic (server cA) = flogic (server c)" by simp_all
  with k [of x, unfolded prepares_def, rule_format, OF kc]
  show "finished c' = finished c \<and> ck_chunksize req \<noteq> 0 \<and>
      (\<exists>bs. flogic (server c') = begin_transfer req bs (flogic (server c)))" by simp
qed

lemma prepares_basic:
  "prepares req (returns Blocked)"
  "prepares req (andthen (server_specific_error f msg tp) (\<lambda>_. returns (Done True)))"
  by (simp_all add: prepares_def call_simps)

lemma prepares_cases:
  "(b \<Longrightarrow> prepares req m) \<Longrightarrow> (\<not> b \<Longrightarrow> prepares req n) \<Longrightarrow> prepares req (if b then m else n)"
  "(\<And>e. prepares req (p e)) \<Longrightarrow> (\<And>x. prepares req (q x)) \<Longrightarrow>
     prepares req (case r of Inl e \<Rightarrow> p e | Inr x \<Rightarrow> q x)"
  "prepares req u \<Longrightarrow> (\<And>l. prepares req (v l)) \<Longrightarrow> prepares req (case w of Blocked \<Rightarrow> u | Done l \<Rightarrow> v l)"
  by (simp, cases r, simp_all, cases w, simp_all)

lemma prepares_start: "prepares req (start_transfer req bytes dt)"
  by (auto simp: prepares_def start_transfer_def on_flogic_def call_simps begin_transfer_def)

lemma prepares_with_lock:
  assumes "prepares req m"
  shows "prepares req (with_lock l m)"
  unfolding prepares_def
proof (intro allI impI)
  fix c c'
  assume "with_lock l m c = (Inr (Done False), c')"
  then obtain cA h where mc: "m c = (Inr (Done False), cA)"
    and c': "c' = cA\<lparr>server := (server cA)\<lparr>devharness := h\<rparr>\<rparr>"
    by (auto simp: with_lock_def on_harness_def on_server_def split: prod.splits sum.splits)
  from assms [unfolded prepares_def, rule_format, OF mc] c'
  show "finished c' = finished c \<and> ck_chunksize req \<noteq> 0 \<and>
      (\<exists>bs. flogic (server c') = begin_transfer req bs (flogic (server c)))" by simp
qed

lemma initial_prepares: "prepares req (initial_request tid ops wops bops req)"
  unfolding initial_request_def fetch_locked_def
  by (intro prepares_andthen prepares_cases prepares_with_lock prepares_basic silent_basic)
    (simp add: prepares_start split: prod.split)

lemma begin_transfer_transfer:
  assumes "length bs < 2 ^ 32" and "ck_chunksize req \<noteq> 0" and "thischunk f = 0"
  shows "transfer bs (unat (ck_chunksize req)) 0 (begin_transfer req bs f)"
proof -
  have n: "unat (word_of_int (int (length bs)) :: 32 word) = length bs"
    using assms(1) by (simp add: unat_of_nat)
  have "0 < unat (ck_chunksize req)" using assms(2) by (simp add: unat_gt_0)
  moreover have "extra_chunk (begin_transfer req bs f) = (length bs mod unat (ck_chunksize req) \<noteq> 0)"
    using n by (simp add: begin_transfer_def Let_def word_unat_eq_iff unat_mod_distrib)
  ultimately show ?thesis
    using assms n by (simp add: transfer_def begin_transfer_def Let_def unat_div_distrib)
qed

section \<open>A camera\<close>

definition frames :: "(nat, nat, nat) reflected_method" where
  "frames = \<lparr>meth_name = ''frames'', meth_valid = True, meth_streaming = True, meth_params = [],
     meth_return = 0, meth_invoke = (\<lambda>vs s. (Inr (Some s), s))\<rparr>"

definition camera :: "(nat, nat, nat) device" where
  "camera = \<lparr>dev_ptr = 1,
     dev_type = \<lparr>properties = [], methods = [frames], get_property = (\<lambda>_. None),
       get_method = (\<lambda>n. if n = ''frames'' then Some frames else None)\<rparr>,
     has_lock_implementation = False, obtain_lock_gives = False, own_mutex = None,
     registry_is_loaded = False, cap_registry = [], cap_string_registry = []\<rparr>"

text \<open>A frame of \<open>v\<close> bytes.\<close>

definition frame_ops :: "(nat, nat, nat) byte_ops" where
  "frame_ops = \<lparr>is_sequential_container = (\<lambda>_. True), view_rank = (\<lambda>_. 1),
     get_byte_data_type = (\<lambda>_. Inr 0), variant_to_bytes = (\<lambda>v. Inr (map of_nat [0..<v]))\<rparr>"

definition idle :: fetch_logic where
  "idle = \<lparr>thischunk = 0, num_full_chunks = 0, extra_chunk = False, csize = 0, byte_size = 0,
     fdata = [], currval = 0\<rparr>"

definition frame_request :: "nat chunk_request" where
  "frame_request = \<lparr>ck_msgid = 1, ck_devid = 0, ck_capname = ''frames'', ck_args = [],
     ck_chunksize = 4, ck_contention_timeout = 0\<rparr>"

definition camera_call :: "((nat, nat, nat) fetch_server, nat datachunk) call" where
  "camera_call = \<lparr>server = \<lparr>sesman = new_session_manager 3600,
      devharness = \<lparr>devvec = [load_capability_map nat_ops True camera], devmutexes = [(0, None)], next_id = 1\<rparr>,
      world = 10, flogic = idle, stream_ended = False\<rparr>,
    repl = init_chunk frame_request, finished = []\<rparr>"

section \<open>Properties\<close>

lemma fetch_sends:
  assumes idle: "thischunk (flogic (server c)) = 0"
    and init: "initial_request tid ops wops bops req c = (Inr (Done False), cA)"
    and len: "length (fdata (flogic (server cA))) < 2 ^ 32"
    and fuel: "length (fdata (flogic (server cA))) div unat (ck_chunksize req) + 2 \<le> fuel"
  shows "\<exists>c' rs. fetch_loop fuel (FetchData_HandleRequest tid ops wops bops req) c = (Inr True, c') \<and>
    finished c' = finished c @ rs \<and> sends (repl cA) (unat (ck_chunksize req)) (fdata (flogic (server cA))) rs \<and>
    stream_ended (server c') \<and> thischunk (flogic (server c')) = 0"
proof -
  let ?h = "FetchData_HandleRequest tid ops wops bops req" and ?n = "unat (ck_chunksize req)"
  obtain bs where p: "finished cA = finished c" "ck_chunksize req \<noteq> 0"
    "flogic (server cA) = begin_transfer req bs (flogic (server c))"
    using initial_prepares [unfolded prepares_def, rule_format, OF init] by blast
  have bs: "fdata (flogic (server cA)) = bs" using p(3) by (simp add: begin_transfer_def Let_def)
  have t: "transfer bs ?n 0 (flogic (server cA))"
    using begin_transfer_transfer [of bs req] len bs p idle by simp
  have h: "?h c = serve_chunk cA"
    using idle init by (simp add: FetchData_HandleRequest_def call_simps)
  obtain k where k: "fuel = Suc (Suc k)" using fuel by (metis add_2_eq_Suc' le_iff_add add_Suc)
  show ?thesis
  proof (cases "0 < length bs div ?n")
    case True
    obtain cB r where s: "serve_chunk cA = (Inr (Done False), cB)" "finished cB = finished cA @ [r]"
      "dc_data r = take ?n (drop (0 * ?n) bs)" "transfer bs ?n (Suc 0) (flogic (server cB))"
      "r = (repl cA)\<lparr>dc_data := take ?n (drop (0 * ?n) bs)\<rparr>" "repl cB = r"
      using serve_full_chunk [OF t True] by blast
    have "length bs div ?n - Suc 0 + 2 \<le> Suc k" using fuel k bs True by simp
    from fetch_loop_rest [OF fetch_resumes s(4) _ this, of tid ops wops bops req]
    obtain c' rs where run: "fetch_loop (Suc k) ?h cB = (Inr True, c')" "finished c' = finished cB @ rs"
      "sends (repl cB) ?n (drop (Suc 0 * ?n) bs) rs"
      "stream_ended (server c')" "thischunk (flogic (server c')) = 0" by auto
    moreover have "bs \<noteq> []" using True by auto
    ultimately show ?thesis
      using s h k p bs fetch_loop_step(1) [of ?h c cB "Suc k"]
      by (intro exI [of _ c'] exI [of _ "r # rs"]) (simp del: fetch_loop.simps)
  next
    case False
    then have q: "0 = length bs div ?n" by simp
    show ?thesis
    proof (cases "length bs mod ?n = 0")
      case True
      then have "bs = []" using q by (metis div_mult_mod_eq add.right_neutral length_0_conv mult_0)
      have "\<not> thischunk (flogic (server cA)) < num_full_chunks (flogic (server cA))"
        "\<not> extra_chunk (flogic (server cA))"
        using t q True by (simp_all add: transfer_def word_less_nat_alt)
      from serve_end [OF this] h fetch_loop_step(2) [of ?h c _ "Suc k"] p bs k \<open>bs = []\<close>
      show ?thesis by (intro exI [of _ _] exI [of _ "[]"]) (auto simp del: fetch_loop.simps)
    next
      case extra: False
      obtain cB r where s: "serve_chunk cA = (Inr (Done False), cB)" "finished cB = finished cA @ [r]"
        "dc_data r = drop (0 * ?n) bs" "length (dc_data r) \<le> ?n"
        and r: "r = (repl cA)\<lparr>dc_data := drop (0 * ?n) bs\<rparr>" "drop (0 * ?n) bs \<noteq> []"
        and e: "\<not> thischunk (flogic (server cB)) < num_full_chunks (flogic (server cB))"
        "\<not> extra_chunk (flogic (server cB))" and nz: "thischunk (flogic (server cB)) \<noteq> 0"
        using serve_extra_chunk [OF t q extra] by blast
      let ?c = "cB\<lparr>server := (server cB)\<lparr>flogic := (flogic (server cB))\<lparr>thischunk := 0\<rparr>, stream_ended := True\<rparr>\<rparr>"
      have "?h cB = (Inr (Done True), ?c)"
        by (simp only: fetch_resumes_eq [OF nz] serve_end [OF e])
      then have "fetch_loop fuel ?h c = (Inr True, ?c)"
        using h s(1) k by (simp add: fetch_loop_step del: fetch_loop.simps)
      with s p bs r show ?thesis by (intro exI [of _ ?c] exI [of _ "[r]"]) (simp del: fetch_loop.simps)
    qed
  qed
qed

text \<open>
  C19. A fetch delivers the array. When no transfer is running and the first call has read the
  array from the device, the calls that the handler makes, one more than the number of chunks,
  write chunks of at most the requested size whose concatenation is the array, finish the
  stream and leave the logic idle. The array has to be smaller than 4 GiB, since its size is
  kept in 32 bits.
\<close>

theorem fetch_delivers_array:
  assumes idle: "thischunk (flogic (server c)) = 0"
    and init: "initial_request tid ops wops bops req c = (Inr (Done False), cA)"
    and len: "length (fdata (flogic (server cA))) < 2 ^ 32"
    and fuel: "length (fdata (flogic (server cA))) div unat (ck_chunksize req) + 2 \<le> fuel"
  shows "\<exists>c' rs. fetch_loop fuel (FetchData_HandleRequest tid ops wops bops req) c = (Inr True, c') \<and>
    finished c' = finished c @ rs \<and> concat (map dc_data rs) = fdata (flogic (server cA)) \<and>
    list_all (\<lambda>r. length (dc_data r) \<le> unat (ck_chunksize req)) rs \<and>
    stream_ended (server c') \<and> thischunk (flogic (server c')) = 0"
proof -
  obtain c' rs where "fetch_loop fuel (FetchData_HandleRequest tid ops wops bops req) c = (Inr True, c')"
    "finished c' = finished c @ rs" "sends (repl cA) (unat (ck_chunksize req)) (fdata (flogic (server cA))) rs"
    "stream_ended (server c')" "thischunk (flogic (server c')) = 0"
    using fetch_sends [OF assms] by blast
  moreover from this(3) have "concat (map dc_data rs) = fdata (flogic (server cA))"
    "list_all (\<lambda>r. length (dc_data r) \<le> unat (ck_chunksize req)) rs"
    by (auto simp: list_all_iff dest: sends_concat sends_sizes)
  ultimately show ?thesis by blast
qed

lemma camera_initial:
  "\<exists>cA. initial_request 1 nat_ops nat_wire frame_ops frame_request camera_call = (Inr (Done False), cA) \<and>
     fdata (flogic (server cA)) = map of_nat [0..<10]"
  by (simp add: initial_request_def camera_call_def frame_request_def GetDevice_def camera_def call_simps
      GetCapability_def capability_of_method_def frames_def fetch_locked_def with_lock_def on_harness_def
      on_world_def lock_device_contentious_def map_insert_def um_set_def Let_def unlock_def frame_ops_def
      byte_view_data_def start_transfer_def on_flogic_def Invoke_name_def Invoke_capid_def
      load_capability_map_def all_capabilities_def register_capability_def Invoke_invokable_def
      invoke_method_def)

theorem fetch_delivers_array_witness:
  "\<exists>c' rs. fetch_loop 4 (FetchData_HandleRequest 1 nat_ops nat_wire frame_ops frame_request) camera_call =
      (Inr True, c') \<and> finished c' = finished camera_call @ rs \<and>
    concat (map dc_data rs) = map of_nat [0..<10] \<and>
    list_all (\<lambda>r. length (dc_data r) \<le> unat (ck_chunksize frame_request)) rs \<and>
    stream_ended (server c') \<and> thischunk (flogic (server c')) = 0"
proof -
  obtain cA where init: "initial_request 1 nat_ops nat_wire frame_ops frame_request camera_call =
      (Inr (Done False), cA)" and bs: "fdata (flogic (server cA)) = map of_nat [0..<10]"
    using camera_initial by blast
  show ?thesis
    using fetch_delivers_array [OF _ init, of 4]
    by (simp add: bs camera_call_def idle_def frame_request_def del: fetch_loop.simps)
qed

text \<open>
  C20. Two fetches at once. The logic object is shared: while a transfer is running, a request of
  another client, whatever device and capability it names, is answered with the next chunk of
  the running transfer, and the transfer goes on without that chunk.
\<close>

theorem running_transfer_answers_others:
  assumes "transfer bs n i (flogic (server c))" and "0 < i" and "i < length bs div n"
  shows "\<exists>c' r. FetchData_HandleRequest tid ops wops bops other c = (Inr (Done False), c') \<and>
    finished c' = finished c @ [r] \<and> dc_data r = take n (drop (i * n) bs) \<and>
    transfer bs n (Suc i) (flogic (server c'))"
proof -
  have "thischunk (flogic (server c)) \<noteq> 0"
    using assms by (auto simp: transfer_def)
  then have "FetchData_HandleRequest tid ops wops bops other c = serve_chunk c"
    by (rule fetch_resumes_eq)
  with serve_full_chunk [OF assms(1,3)] show ?thesis by metis
qed

theorem running_transfer_answers_others_witness:
  "\<exists>c' r. FetchData_HandleRequest 2 nat_ops nat_wire frame_ops (frame_request\<lparr>ck_devid := 9\<rparr>)
      (camera_call\<lparr>server := (server camera_call)\<lparr>flogic :=
        \<lparr>thischunk = 1, num_full_chunks = 2, extra_chunk = True, csize = 4, byte_size = 10,
         fdata = map of_nat [0..<10], currval = 4\<rparr>\<rparr>\<rparr>) = (Inr (Done False), c') \<and>
    finished c' = finished (camera_call\<lparr>server := (server camera_call)\<lparr>flogic :=
        \<lparr>thischunk = 1, num_full_chunks = 2, extra_chunk = True, csize = 4, byte_size = 10,
         fdata = map of_nat [0..<10], currval = 4\<rparr>\<rparr>\<rparr>) @ [r] \<and>
    dc_data r = take 4 (drop (1 * 4) (map of_nat [0..<10])) \<and>
    transfer (map of_nat [0..<10]) 4 (Suc 1) (flogic (server c'))"
  by (rule running_transfer_answers_others) (simp_all add: transfer_def)

end
