(* ===== verification/Auth_Handler.thy ===== *)
theory Auth_Handler
  imports Server_Core
begin

text \<open>
  Challenge and response authentication: server/src/AuthHandler.cpp, its handlers
  AuthRequestImpl.cpp and AuthRespondImpl.cpp.

  The cryptography (libsodium) is an argument: \<open>vf sig challenge key\<close> tells whether a signature
  verifies. Random numbers and the time of expiry are arguments too. Challenges are kept in a map
  by number and, in the order of issue, in a queue that decides which one is dropped when
  \<open>MAX_CHALLENGES\<close> are open.
\<close>

section \<open>State\<close>

definition MAX_CHALLENGES :: nat where
  "MAX_CHALLENGES = 4096"

type_synonym bytes = "8 word list"
type_synonym key_info = "string \<times> bytes"
type_synonym credentialsmap = "(string \<times> key_info list \<times> int) list"
type_synonym login_info = "string \<times> int \<times> int"

record auth_handler =
  creds :: credentialsmap
  challenges :: "(32 word \<times> string \<times> bytes) list"
  sessionkeys :: "(bytes \<times> login_info) list"
  challenge_order :: "32 word list"

definition new_auth_handler :: "credentialsmap \<Rightarrow> auth_handler" where
  "new_auth_handler cr = \<lparr>creds = cr, challenges = [], sessionkeys = [], challenge_order = []\<rparr>"

section \<open>Credentials\<close>

text \<open>The parsed file: a user with the keys, in base 64, and the level, as far as present. A key is
  copied into an array of 32 bytes without a check of its length.\<close>

definition PUBLICKEYBYTES :: nat where "PUBLICKEYBYTES = 32"

fun load_keys :: "(string \<Rightarrow> bytes result) \<Rightarrow> (string \<times> string) list \<Rightarrow> key_info list result" where
  "load_keys base642bin [] = Inr []"
| "load_keys base642bin ((name, txt) # ks) =
     rbind (base642bin txt) (\<lambda>key.
     if PUBLICKEYBYTES < length key then Inl (UB ''key longer than the array'')
     else rbind (load_keys base642bin ks) (\<lambda>keys. Inr ((name, key) # keys)))"

fun load_creds ::
  "(string \<Rightarrow> bytes result) \<Rightarrow> (string \<times> (string \<times> string) list option \<times> int option) list \<Rightarrow>
   credentialsmap \<Rightarrow> credentialsmap result" where
  "load_creds base642bin [] cr = Inr cr"
| "load_creds base642bin ((userid, keytree, level) # items) cr = (case keytree of
     None \<Rightarrow> Inl (Runtime_error ''No such node (keys)'')
   | Some ks \<Rightarrow> rbind (load_keys base642bin ks) (\<lambda>keys. case level of
       None \<Rightarrow> Inl (Runtime_error ''No such node (authlevel)'')
     | Some lv \<Rightarrow> load_creds base642bin items (map_insert userid (keys, lv) cr)))"

definition load_creds_from_file ::
  "(string \<Rightarrow> bytes result) \<Rightarrow> (string \<times> (string \<times> string) list option \<times> int option) list option \<Rightarrow>
   credentialsmap result" where
  "load_creds_from_file base642bin file = (case file of
     None \<Rightarrow> Inl (Out_of_range ''credentials file couldn't be found!'')
   | Some tree \<Rightarrow> load_creds base642bin tree [])"

section \<open>Challenges\<close>

definition drop_oldest :: "(auth_handler, unit) prog" where
  "drop_oldest st = (case challenge_order st of
     [] \<Rightarrow> (Inl (UB ''front of an empty deque''), st)
   | i # is \<Rightarrow> (case map_of (challenges st) i of
       None \<Rightarrow> (Inl (UB ''map::erase(end())''), st)
     | Some _ \<Rightarrow> (Inr (), st\<lparr>challenges := um_erase i (challenges st), challenge_order := is\<rparr>)))"

definition get_challenge_binary ::
  "bytes \<Rightarrow> 32 word \<Rightarrow> string \<Rightarrow> (auth_handler, bytes \<times> 32 word) prog" where
  "get_challenge_binary bytes challengeid userid st =
     (if map_of (creds st) userid = None then (Inl (Out_of_range ''invalid userid''), st)
      else andthen (if length (challenges st) = MAX_CHALLENGES then drop_oldest else returns ()) (\<lambda>_.
           andthen (modifies (\<lambda>s. s\<lparr>challenges := map_insert challengeid (userid, bytes) (challenges s),
             challenge_order := challenge_order s @ [challengeid]\<rparr>)) (\<lambda>_.
           returns (bytes, challengeid))) st)"

text \<open>\<open>pop_front\<close> drops the oldest number, whichever challenge was answered.\<close>

definition consume_challenge :: "32 word \<Rightarrow> (auth_handler, string \<times> bytes) prog" where
  "consume_challenge i st = (case map_of (challenges st) i of
     None \<Rightarrow> (Inl (Out_of_range ''invalid challenge id''), st)
   | Some c \<Rightarrow> (if challenge_order st = []
       then (Inl (UB ''pop_front on an empty deque''), st\<lparr>challenges := um_erase i (challenges st)\<rparr>)
       else (Inr c, st\<lparr>challenges := um_erase i (challenges st),
               challenge_order := tl (challenge_order st)\<rparr>)))"

definition verify_response ::
  "(bytes \<Rightarrow> bytes \<Rightarrow> bytes \<Rightarrow> bool) \<Rightarrow> bytes \<Rightarrow> int \<Rightarrow> string \<Rightarrow> 32 word \<Rightarrow> bytes \<Rightarrow>
   (auth_handler, (int \<times> int \<times> bytes) option) prog" where
  "verify_response vf newkey expiry_time userid challenge_id sig st = (case map_of (creds st) userid of
     None \<Rightarrow> (Inl (Out_of_range ''invalid userid''), st)
   | Some (keys, level) \<Rightarrow>
       andthen (consume_challenge challenge_id) (\<lambda>(origuserid, origchallenge).
       if userid \<noteq> origuserid then throws (Runtime_error ''mismatched user id!'')
       else if \<exists>k\<in>set keys. vf sig origchallenge (snd k)
       then andthen (modifies (\<lambda>s. s\<lparr>sessionkeys := map_insert newkey (userid, level, expiry_time) (sessionkeys s)\<rparr>))
              (\<lambda>_. returns (Some (level, expiry_time, newkey)))
       else returns None) st)"

section \<open>The handlers\<close>

record auth_challenge =
  ac_err :: "errstatus option"
  ac_challengeid :: "32 word"
  ac_challenge :: bytes

record auth_confirm =
  af_err :: "errstatus option"
  af_sessionkey :: bytes
  af_expiry :: int
  af_authlevel :: int

text \<open>The pointer to the handler may be null; the state is then \<open>None\<close>.\<close>

definition on_auth :: "(auth_handler, 'a) prog \<Rightarrow> ((auth_handler option, 'repl) call, 'a) prog" where
  "on_auth m = on_server (\<lambda>s. case s of
     None \<Rightarrow> (Inl (UB ''null pointer''), None)
   | Some h \<Rightarrow> (case m h of (r, h') \<Rightarrow> (r, Some h')))"

definition AuthRequest_HandleRequest ::
  "bytes \<Rightarrow> 32 word \<Rightarrow> string \<Rightarrow> ((auth_handler option, auth_challenge) call, bool waiting) prog" where
  "AuthRequest_HandleRequest bytes i userid =
     andthen (on_server (gets (\<lambda>s. s = None))) (\<lambda>null.
     if null
     then andthen (server_specific_error (\<lambda>e r. r\<lparr>ac_err := Some e\<rparr>)
            ''authentication not configured on this server'' ft_AuthError) (\<lambda>_. returns (Done True))
     else andthen (on_auth (get_challenge_binary bytes i userid)) (\<lambda>c.
          andthen (on_repl (\<lambda>r. r\<lparr>ac_challenge := fst c, ac_challengeid := snd c\<rparr>)) (\<lambda>_.
          andthen respond_finish (\<lambda>_. returns (Done True)))))"

definition SIGNBYTES :: nat where "SIGNBYTES = 64"

text \<open>The signature is copied from the request into an array of 64 bytes, whatever the request
  holds.\<close>

definition AuthRespond_HandleRequest ::
  "(bytes \<Rightarrow> bytes \<Rightarrow> bytes \<Rightarrow> bool) \<Rightarrow> bytes \<Rightarrow> int \<Rightarrow> 32 word \<times> string \<times> bytes \<Rightarrow>
   ((auth_handler option, auth_confirm) call, bool waiting) prog" where
  "AuthRespond_HandleRequest vf newkey expiry_time req = (case req of (challengeid, userid, sig) \<Rightarrow>
     andthen (on_server (gets (\<lambda>s. s = None))) (\<lambda>null.
     if null
     then andthen (server_specific_error (\<lambda>e r. r\<lparr>af_err := Some e\<rparr>)
            ''authentication not configured on this server'' ft_AuthError) (\<lambda>_. returns (Done True))
     else if length sig < SIGNBYTES then throws (UB ''range outside the string'')
     else andthen (on_auth (verify_response vf newkey expiry_time userid challengeid (take SIGNBYTES sig))) (\<lambda>ok.
       case ok of
         None \<Rightarrow> andthen (server_specific_error (\<lambda>e r. r\<lparr>af_err := Some e\<rparr>)
           ''failed to authenticate user'' ft_AuthError) (\<lambda>_. returns (Done True))
       | Some (level, expiry, key) \<Rightarrow>
           andthen (on_repl (\<lambda>r. r\<lparr>af_sessionkey := key, af_authlevel := level, af_expiry := expiry\<rparr>)) (\<lambda>_.
           andthen respond_finish (\<lambda>_. returns (Done True))))))"

definition AuthRequestLogic :: "bytes \<Rightarrow> 32 word \<Rightarrow> (auth_handler option, string, auth_challenge) logic" where
  "AuthRequestLogic bytes i = \<lparr>check_metadata = (\<lambda>_ _. returns True),
     handle_request = AuthRequest_HandleRequest bytes i, set_err = (\<lambda>e r. r\<lparr>ac_err := Some e\<rparr>)\<rparr>"

definition AuthRespondLogic ::
  "(bytes \<Rightarrow> bytes \<Rightarrow> bytes \<Rightarrow> bool) \<Rightarrow> bytes \<Rightarrow> int \<Rightarrow>
   (auth_handler option, 32 word \<times> string \<times> bytes, auth_confirm) logic" where
  "AuthRespondLogic vf newkey expiry_time = \<lparr>check_metadata = (\<lambda>_ _. returns True),
     handle_request = AuthRespond_HandleRequest vf newkey expiry_time,
     set_err = (\<lambda>e r. r\<lparr>af_err := Some e\<rparr>)\<rparr>"

lemma quiet_on_auth [answers_intros]: "quiet (on_auth m)"
  by (simp add: on_auth_def answers_intros)

interpretation auth_request_rpc: unary_logic "AuthRequestLogic bytes i"
proof
  show "\<And>ctxt req s b s'. check_metadata (AuthRequestLogic bytes i) ctxt req s = (Inr b, s') \<Longrightarrow> b"
    by (simp add: AuthRequestLogic_def returns_def)
  show "\<And>req. answers (handle_request (AuthRequestLogic bytes i) req)"
    unfolding AuthRequestLogic_def AuthRequest_HandleRequest_def logic.simps by (intro answers_intros)
qed

interpretation auth_respond_rpc: unary_logic "AuthRespondLogic vf newkey expiry_time"
proof
  show "\<And>ctxt req s b s'. check_metadata (AuthRespondLogic vf newkey expiry_time) ctxt req s = (Inr b, s') \<Longrightarrow> b"
    by (simp add: AuthRespondLogic_def returns_def)
  show "\<And>req. answers (handle_request (AuthRespondLogic vf newkey expiry_time) req)"
  proof -
    fix req :: "32 word \<times> string \<times> bytes"
    obtain i u sig where req: "req = (i, u, sig)" by (cases req) auto
    show "answers (handle_request (AuthRespondLogic vf newkey expiry_time) req)"
      unfolding req AuthRespondLogic_def AuthRespond_HandleRequest_def logic.simps prod.case
      by (intro answers_intros) (auto intro: answers_intros split: prod.split)
  qed
qed

section \<open>The invariant\<close>

definition auth_inv :: "auth_handler \<Rightarrow> bool" where
  "auth_inv st \<longleftrightarrow> distinct (map fst (challenges st)) \<and> length (challenges st) \<le> length (challenge_order st) \<and>
     length (challenges st) \<le> MAX_CHALLENGES"

lemma auth_inv_new: "auth_inv (new_auth_handler cr)"
  by (simp add: auth_inv_def new_auth_handler_def)

lemma length_um_erase:
  "distinct (map fst xs) \<Longrightarrow> map_of xs k = Some v \<Longrightarrow> Suc (length (um_erase k xs)) = length xs"
proof (induction xs)
  case (Cons p xs)
  show ?case
  proof (cases "fst p = k")
    case True
    with Cons.prems have "\<forall>q\<in>set xs. fst q \<noteq> k" by (auto simp: image_iff)
    then have "filter (\<lambda>q. fst q \<noteq> k) xs = xs" by simp
    with True show ?thesis by (simp add: um_erase_def)
  next
    case False
    with Cons show ?thesis by (cases p) (simp add: um_erase_def)
  qed
qed simp

lemma distinct_map_insert: "distinct (map fst xs) \<Longrightarrow> distinct (map fst (map_insert k v xs))"
  by (simp add: map_insert_def map_of_eq_None_iff)

lemma length_map_insert: "length (map_insert k v xs) \<le> Suc (length xs)"
  by (simp add: map_insert_def)

lemma consume_challenge_live:
  assumes "auth_inv st" and "map_of (challenges st) i = Some c"
  obtains st' where "consume_challenge i st = (Inr c, st')" "auth_inv st'"
    "challenges st' = um_erase i (challenges st)" "creds st' = creds st" "sessionkeys st' = sessionkeys st"
proof -
  have l: "Suc (length (um_erase i (challenges st))) = length (challenges st)"
    using assms by (intro length_um_erase) (auto simp: auth_inv_def)
  then have "challenge_order st \<noteq> []" using assms(1) by (auto simp: auth_inv_def)
  with assms l show ?thesis
    by (intro that [of "st\<lparr>challenges := um_erase i (challenges st), challenge_order := tl (challenge_order st)\<rparr>"])
      (auto simp: consume_challenge_def auth_inv_def)
qed

lemma verify_response_cases:
  assumes "auth_inv st"
  obtains (refused) e where "verify_response vf nk t u i sig st = (Inl e, st)" "\<not> is_UB e"
      "map_of (creds st) u = None \<or> map_of (challenges st) i = None"
  | (answered) r st' keys lv w chal where "verify_response vf nk t u i sig st = (r, st')"
      "map_of (creds st) u = Some (keys, lv)" "map_of (challenges st) i = Some (w, chal)" "auth_inv st'"
      "challenges st' = um_erase i (challenges st)" "creds st' = creds st"
      "r = (if u \<noteq> w then Inl (Runtime_error ''mismatched user id!'')
            else if \<exists>k\<in>set keys. vf sig chal (snd k) then Inr (Some (lv, t, nk)) else Inr None)"
proof (cases "map_of (creds st) u")
  case None
  then show ?thesis by (intro refused) (auto simp: verify_response_def)
next
  case (Some kl)
  obtain keys lv where kl: "map_of (creds st) u = Some (keys, lv)" using Some by (cases kl) auto
  show ?thesis
  proof (cases "map_of (challenges st) i")
    case None
    with kl show ?thesis
      by (intro refused) (auto simp: verify_response_def consume_challenge_def andthen_def)
  next
    case (Some wc)
    obtain w chal where wc: "map_of (challenges st) i = Some (w, chal)" using Some by (cases wc) auto
    obtain stA where A: "consume_challenge i st = (Inr (w, chal), stA)" "auth_inv stA"
      "challenges stA = um_erase i (challenges st)" "creds stA = creds st"
      using consume_challenge_live [OF assms wc] by metis
    let ?ok = "\<exists>k\<in>set keys. vf sig chal (snd k)"
    let ?st = "if u = w \<and> ?ok then stA\<lparr>sessionkeys := map_insert nk (u, lv, t) (sessionkeys stA)\<rparr> else stA"
    show ?thesis
      by (rule answered [of _ ?st keys lv w chal])
        (use A kl wc in \<open>auto simp: verify_response_def andthen_def throws_def returns_def modifies_def auth_inv_def\<close>)
  qed
qed

section \<open>Issuing\<close>

definition issue :: "bytes \<Rightarrow> string \<Rightarrow> 32 word \<Rightarrow> auth_handler \<Rightarrow> auth_handler" where
  "issue b u i st = snd (get_challenge_binary b i u st)"

lemma issue_fresh:
  assumes "map_of (creds st) u \<noteq> None" "length (challenges st) < MAX_CHALLENGES"
    "map_of (challenges st) i = None"
  shows "issue b u i st = st\<lparr>challenges := challenges st @ [(i, u, b)], challenge_order := challenge_order st @ [i]\<rparr>"
  using assms
  by (simp add: issue_def get_challenge_binary_def andthen_def returns_def modifies_def map_insert_def)

lemma issue_many:
  assumes "map_of (creds st) u \<noteq> None" "length (challenges st) + length is \<le> MAX_CHALLENGES"
    "distinct is" "set is \<inter> fst ` set (challenges st) = {}"
  shows "fold (issue b u) is st = st\<lparr>challenges := challenges st @ map (\<lambda>i. (i, u, b)) is,
    challenge_order := challenge_order st @ is\<rparr>"
  using assms
proof (induction "is" arbitrary: st)
  case (Cons i js)
  then have "map_of (challenges st) i = None" by (auto simp: map_of_eq_None_iff)
  with Cons.prems have "issue b u i st =
      st\<lparr>challenges := challenges st @ [(i, u, b)], challenge_order := challenge_order st @ [i]\<rparr>"
    by (intro issue_fresh) simp_all
  with Cons show ?case by (auto simp: Cons.IH)
qed simp

section \<open>Properties\<close>

text \<open>
  C13. Authentication is sound. When a response is accepted, the user has a key under which the
  signature verifies on the challenge that was issued to this user under this number; the level
  that is returned is the user's; and the challenge is used up, so the same response is refused
  if it is sent again.
\<close>

theorem verify_response_sound:
  assumes "auth_inv st" and "verify_response vf nk t u i sig st = (Inr (Some (lv, ex, sk)), st')"
  shows "\<exists>keys chal k. map_of (creds st) u = Some (keys, lv) \<and> map_of (challenges st) i = Some (u, chal) \<and>
    k \<in> set keys \<and> vf sig chal (snd k) \<and> ex = t \<and> sk = nk \<and>
    verify_response vf nkB tB uB i sigB st' =
      (Inl (Out_of_range (if map_of (creds st) uB = None then ''invalid userid'' else ''invalid challenge id'')), st')"
  using assms(1)
proof (cases rule: verify_response_cases [of st vf nk t u i sig])
  case (refused e)
  with assms(2) show ?thesis by simp
next
  case (answered r sA keys l w chal)
  from answered(1) assms(2) have r: "r = Inr (Some (lv, ex, sk))" "sA = st'" by simp_all
  with answered(7) obtain k where k: "u = w" "k \<in> set keys" "vf sig chal (snd k)" "l = lv" "ex = t" "sk = nk"
    by (auto split: if_splits)
  have "map_of (challenges st') i = None" using answered(5) r by simp
  then have "verify_response vf nkB tB uB i sigB st' =
      (Inl (Out_of_range (if map_of (creds st) uB = None then ''invalid userid'' else ''invalid challenge id'')), st')"
    using answered(6) r by (auto simp: verify_response_def consume_challenge_def andthen_def split: option.split)
  then show ?thesis using answered(2,3) k by blast
qed

definition alice :: credentialsmap where
  "alice = [(''alice'', [(''laptop'', [1])], 2)]"

definition alice_challenged :: auth_handler where
  "alice_challenged = issue [5] ''alice'' 77 (new_auth_handler alice)"

lemma alice_challenged_eval: "alice_challenged =
   \<lparr>creds = alice, challenges = [(77, ''alice'', [5])], sessionkeys = [], challenge_order = [77]\<rparr>"
  by (simp add: alice_challenged_def issue_fresh new_auth_handler_def alice_def MAX_CHALLENGES_def)

definition toy_verify :: "bytes \<Rightarrow> bytes \<Rightarrow> bytes \<Rightarrow> bool" where
  "toy_verify s c k \<longleftrightarrow> s = c @ k"

lemma alice_challenged_inv: "auth_inv alice_challenged"
  by (simp add: alice_challenged_eval auth_inv_def MAX_CHALLENGES_def)

theorem verify_response_sound_witness:
  "\<exists>keys chal k. map_of (creds alice_challenged) ''alice'' = Some (keys, 2) \<and>
    map_of (challenges alice_challenged) 77 = Some (''alice'', chal) \<and> k \<in> set keys \<and>
    toy_verify [5, 1] chal (snd k) \<and> (100::int) = 100 \<and> [9 :: 8 word] = [9] \<and>
    verify_response toy_verify [8] 101 ''alice'' 77 [5, 1]
      (alice_challenged\<lparr>challenges := [], challenge_order := [], sessionkeys := [([9], ''alice'', 2, 100)]\<rparr>) =
      (Inl (Out_of_range (if map_of (creds alice_challenged) ''alice'' = None then ''invalid userid''
         else ''invalid challenge id'')),
       alice_challenged\<lparr>challenges := [], challenge_order := [], sessionkeys := [([9], ''alice'', 2, 100)]\<rparr>)"
  by (rule verify_response_sound [OF alice_challenged_inv, where vf = toy_verify])
    (simp add: toy_verify_def alice_challenged_eval alice_def verify_response_def consume_challenge_def andthen_def
      modifies_def returns_def um_erase_def map_insert_def)

text \<open>
  C14. A challenge is used once. Whatever the outcome, a response never runs into undefined
  behaviour, keeps the handler consistent, and uses up the challenge it names when the user is
  known, also when the challenge was issued to another user.
\<close>

theorem challenge_used_once:
  assumes "auth_inv st" and "verify_response vf nk t u i sig st = (r, st')"
  shows "\<not> is_ub r \<and> auth_inv st' \<and>
    map_of (challenges st') = (if map_of (creds st) u = None then map_of (challenges st)
      else (map_of (challenges st))(i := None))"
  using assms(1)
proof (cases rule: verify_response_cases [of st vf nk t u i sig])
  case (refused e)
  with assms show ?thesis by (auto simp: fun_eq_iff)
next
  case (answered q sA keys l w chal)
  with assms(2) have "r = q" "st' = sA" by simp_all
  with answered show ?thesis by (simp split: if_splits)
qed

theorem challenge_used_once_witness:
  "\<not> is_ub (fst (verify_response toy_verify [9] 100 ''alice'' 77 [5, 1] alice_challenged)) \<and>
   auth_inv (snd (verify_response toy_verify [9] 100 ''alice'' 77 [5, 1] alice_challenged)) \<and>
   map_of (challenges (snd (verify_response toy_verify [9] 100 ''alice'' 77 [5, 1] alice_challenged))) =
     (if map_of (creds alice_challenged) ''alice'' = None then map_of (challenges alice_challenged)
      else (map_of (challenges alice_challenged))(77 := None))"
  by (rule challenge_used_once [OF alice_challenged_inv prod.collapse [symmetric]])

text \<open>
  C15. An answer out of order breaks the queue. Two challenges are issued and the second one is
  answered; the queue then forgets the first one instead. Once the map has filled up with 4095
  further challenges, the next request erases the end iterator of the map.
\<close>

theorem out_of_order_answer_breaks_eviction:
  assumes "map_of cr u \<noteq> None" and "distinct (a # x # cs)" and "length cs = MAX_CHALLENGES - 1"
  shows "fst (get_challenge_binary b y u (fold (issue b u) cs
      (snd (verify_response vf nk t u x sig (fold (issue b u) [a, x] (new_auth_handler cr)))))) =
    Inl (UB ''map::erase(end())'')"
proof -
  obtain keys lv where kl: "map_of cr u = Some (keys, lv)" using assms(1) by auto
  let ?A = "fold (issue b u) [a, x] (new_auth_handler cr)"
  have A: "?A = \<lparr>creds = cr, challenges = [(a, u, b), (x, u, b)], sessionkeys = [], challenge_order = [a, x]\<rparr>"
    using assms by (subst issue_many) (auto simp: new_auth_handler_def MAX_CHALLENGES_def)
  define sk where "sk = (if \<exists>k\<in>set keys. vf sig b (snd k) then map_insert nk (u, lv, t) [] else [])"
  have B: "snd (verify_response vf nk t u x sig ?A) =
      \<lparr>creds = cr, challenges = [(a, u, b)], sessionkeys = sk, challenge_order = [x]\<rparr>"
    using kl assms(2) unfolding A sk_def
    by (auto simp: verify_response_def consume_challenge_def andthen_def modifies_def returns_def um_erase_def)
  have C: "fold (issue b u) cs \<lparr>creds = cr, challenges = [(a, u, b)], sessionkeys = sk, challenge_order = [x]\<rparr> =
      \<lparr>creds = cr, challenges = (a, u, b) # map (\<lambda>i. (i, u, b)) cs, sessionkeys = sk, challenge_order = x # cs\<rparr>"
    using assms by (subst issue_many) (auto simp: MAX_CHALLENGES_def)
  have "map_of ((a, u, b) # map (\<lambda>i. (i, u, b)) cs) x = None"
    using assms(2) by (auto simp: map_of_eq_None_iff)
  moreover have "length ((a, u, b) # map (\<lambda>i. (i, u, b)) cs) = MAX_CHALLENGES"
    using assms(3) by (simp add: MAX_CHALLENGES_def)
  ultimately show ?thesis
    unfolding B C using kl
    by (simp add: get_challenge_binary_def andthen_def drop_oldest_def)
qed

theorem out_of_order_answer_breaks_eviction_witness:
  "fst (get_challenge_binary [5] 9000 ''alice'' (fold (issue [5] ''alice'') (map of_nat [2..<4097])
      (snd (verify_response (\<lambda>_ _ _. True) [] 0 ''alice'' 1 [] (fold (issue [5] ''alice'') [0, 1]
        (new_auth_handler alice)))))) = Inl (UB ''map::erase(end())'')"
proof (rule out_of_order_answer_breaks_eviction)
  have z: "(of_nat 0 :: 32 word) = 0" and o: "(of_nat 1 :: 32 word) = 1" by simp_all
  have inj: "inj_on (of_nat :: nat \<Rightarrow> 32 word) {0..<4097}"
    by (rule inj_onI) (simp add: word_unat_eq_iff unat_of_nat)
  have sub: "set (0 # 1 # [2..<4097]) \<subseteq> {0..<4097::nat}"
    unfolding list.set set_upt by auto
  have dist: "distinct (0 # 1 # [2..<4097::nat])"
    unfolding distinct.simps list.set set_upt by (auto simp del: upt_rec_numeral)
  have "distinct (map (of_nat :: nat \<Rightarrow> 32 word) (0 # 1 # [2..<4097]))"
    unfolding distinct_map by (intro conjI dist inj_on_subset [OF inj sub])
  then show "distinct ((0::32 word) # 1 # map of_nat [2..<4097])"
    unfolding list.map z o .
  show "length (map (of_nat :: nat \<Rightarrow> 32 word) [2..<4097]) = MAX_CHALLENGES - 1"
    unfolding length_map length_upt MAX_CHALLENGES_def by simp
  show "map_of alice ''alice'' \<noteq> None" by (simp add: alice_def)
qed

end
