(* ===== verification/Flag_Map.thy ===== *)
theory Flag_Map
  imports Server_Core
begin

text \<open>
  The keyed stores of the server: server/src/FlagMap.cpp, the handlers on it in
  server/src/ServerFlagsImpl.cpp, server/include/foxtrot/server/GuardedContainers.hh and
  core/src/HandleManager.cpp.

  The locale \<open>kv_store\<close> is what their clients rely on: a lookup after a write and after a
  removal. It is interpreted on the flag map, on the generic guarded map and on the handles.
  The locks make each operation atomic; \<open>FlagMap::get\<close> takes none.
\<close>

section \<open>Keyed stores\<close>

locale kv_store =
  fixes lookup :: "'s \<Rightarrow> 'k \<Rightarrow> 'v option" and put :: "'k \<Rightarrow> 'v \<Rightarrow> 's \<Rightarrow> 's" and del :: "'k \<Rightarrow> 's \<Rightarrow> 's"
  assumes lookup_put: "lookup (put k v s) k' = (if k' = k then Some v else lookup s k')"
    and lookup_del: "lookup (del k s) k' = (if k' = k then None else lookup s k')"
begin

lemma last_write_wins:
  "lookup (fold (\<lambda>(k, v). put k v) kvs s) k =
     (case map_of (rev kvs) k of Some v \<Rightarrow> Some v | None \<Rightarrow> lookup s k)"
  by (induction kvs arbitrary: s) (auto simp: lookup_put map_add_def split: option.split)

lemma put_then_del: "lookup (del k (put k v s)) = lookup (del k s)"
  by (rule ext) (simp add: lookup_put lookup_del)

lemma put_commutes: "k \<noteq> k' \<Longrightarrow> lookup (put k v (put k' v' s)) = lookup (put k' v' (put k v s))"
  by (rule ext) (simp add: lookup_put)

end

section \<open>FlagMap\<close>

datatype ft_std_variant = Dblval f64 | Intval int | Boolval bool | Stringval string

type_synonym flag_map = "(string \<times> ft_std_variant) list"

definition flag_set :: "string \<Rightarrow> ft_std_variant \<Rightarrow> flag_map \<Rightarrow> flag_map" where
  "flag_set flagname val vars = um_set flagname val vars"

definition flag_drop :: "string \<Rightarrow> (flag_map, unit) prog" where
  "flag_drop flagname vars = (case map_of vars flagname of
     None \<Rightarrow> (Inl (Out_of_range ''no such flag''), vars)
   | Some _ \<Rightarrow> (Inr (), um_erase flagname vars))"

definition flag_get :: "string \<Rightarrow> flag_map \<Rightarrow> ft_std_variant result" where
  "flag_get flagname vars = (case map_of vars flagname of
     None \<Rightarrow> Inl (Out_of_range ''invalid server flag'')
   | Some v \<Rightarrow> Inr v)"

interpretation flag_store: kv_store "map_of :: flag_map \<Rightarrow> _" flag_set "\<lambda>k s. snd (flag_drop k s)"
  by unfold_locales (auto simp: flag_set_def flag_drop_def split: option.split)

section \<open>Guarded maps\<close>

definition guarded_drop :: "'k \<Rightarrow> (('k \<times> 'v) list, unit) prog" where
  "guarded_drop key var = (case map_of var key of
     None \<Rightarrow> (Inl (Out_of_range ''no such key''), var)
   | Some _ \<Rightarrow> (Inr (), um_erase key var))"

definition guarded_get :: "'k \<Rightarrow> ('k \<times> 'v) list \<Rightarrow> 'v result" where
  "guarded_get key var = (case map_of var key of
     None \<Rightarrow> Inl (Out_of_range ''no such key'') | Some v \<Rightarrow> Inr v)"

definition guarded_set :: "'k \<Rightarrow> 'v \<Rightarrow> ('k \<times> 'v) list \<Rightarrow> ('k \<times> 'v) list" where
  "guarded_set key val var = um_set key val var"

definition guarded_in :: "'k \<Rightarrow> ('k \<times> 'v) list \<Rightarrow> bool" where
  "guarded_in key var = (map_of var key \<noteq> None)"

interpretation guarded_store: kv_store map_of guarded_set "\<lambda>k s. snd (guarded_drop k s)"
  by unfold_locales (auto simp: guarded_set_def guarded_drop_def split: option.split)

section \<open>Handles\<close>

text \<open>A variant that the manager hands out holds the stored value or, after \<open>pop\<close>, the pair
  of the map: \<open>out = *it\<close> assigns the pair of handle and value. The next number of the random
  generator is an argument of \<open>add\<close>.\<close>

datatype 'v held = Held 'v | Held_pair "64 word" 'v

type_synonym 'v handles = "(64 word \<times> 'v) list"

definition handle_lookup :: "64 word \<Rightarrow> 'v handles \<Rightarrow> 'v held result" where
  "handle_lookup h vs = (case map_of vs h of
     None \<Rightarrow> Inl (Out_of_range ''unordered_map::at'') | Some v \<Rightarrow> Inr (Held v))"

definition handle_pop :: "64 word \<Rightarrow> ('v handles, 'v held) prog" where
  "handle_pop h vs = (case map_of vs h of
     None \<Rightarrow> (Inl (Out_of_range ''no such handle found!''), vs)
   | Some v \<Rightarrow> (Inr (Held_pair h v), um_erase h vs))"

definition handle_drop :: "64 word \<Rightarrow> 'v handles \<Rightarrow> 'v handles" where
  "handle_drop h vs = um_erase h vs"

definition handle_add :: "64 word \<Rightarrow> 'v \<Rightarrow> ('v handles, 64 word) prog" where
  "handle_add newkey v vs = (Inr newkey, um_set newkey v vs)"

interpretation handle_store: kv_store "map_of :: 'v handles \<Rightarrow> _" "\<lambda>h v s. snd (handle_add h v s)" handle_drop
  by unfold_locales (auto simp: handle_add_def handle_drop_def)

section \<open>The handlers on flags\<close>

record serverflag =
  sf_err :: "errstatus option"
  sf_msgid :: "32 word"
  sf_flagname :: string
  sf_arg :: "ft_std_variant option"

record serverflaglist =
  sl_flags_err :: "errstatus option"
  sl_flags :: "serverflag list"

definition empty_serverflag :: serverflag where
  "empty_serverflag = \<lparr>sf_err = None, sf_msgid = 0, sf_flagname = '''', sf_arg = None\<rparr>"

definition set_flag_err :: "errstatus \<Rightarrow> serverflag \<Rightarrow> serverflag" where
  "set_flag_err e r = r\<lparr>sf_err := Some e\<rparr>"

definition catch_rpc ::
  "(errstatus \<Rightarrow> 'repl \<Rightarrow> 'repl) \<Rightarrow> (('s, 'repl) call, unit) prog \<Rightarrow> (('s, 'repl) call, bool waiting) prog" where
  "catch_rpc f body =
     catches (andthen body (\<lambda>_. andthen respond_finish (\<lambda>_. returns (Done True))))
       (\<lambda>e. andthen (rpc_error_handling f e) (\<lambda>_. returns (Done True)))"

definition SetServerFlags_HandleRequest ::
  "serverflag \<Rightarrow> ((flag_map, serverflag) call, bool waiting) prog" where
  "SetServerFlags_HandleRequest req = catch_rpc set_flag_err
     (andthen (on_repl (\<lambda>r. r\<lparr>sf_msgid := sf_msgid req\<rparr>)) (\<lambda>_. case sf_arg req of
        None \<Rightarrow> throws (Logic_error ''invalid flag value type!'')
      | Some var \<Rightarrow> on_server (modifies (flag_set (sf_flagname req) var))))"

definition GetServerFlags_HandleRequest ::
  "serverflag \<Rightarrow> ((flag_map, serverflag) call, bool waiting) prog" where
  "GetServerFlags_HandleRequest req =
     andthen (on_repl (\<lambda>r. r\<lparr>sf_msgid := sf_msgid req\<rparr>)) (\<lambda>_.
     catch_rpc set_flag_err
       (andthen (on_server (\<lambda>vars. (flag_get (sf_flagname req) vars, vars))) (\<lambda>val.
        on_repl (\<lambda>r. r\<lparr>sf_flagname := sf_flagname req, sf_arg := Some val\<rparr>))))"

definition ListServerFlags_HandleRequest ::
  "unit \<Rightarrow> ((flag_map, serverflaglist) call, bool waiting) prog" where
  "ListServerFlags_HandleRequest req = catch_rpc (\<lambda>e r. r\<lparr>sl_flags_err := Some e\<rparr>)
     (andthen (on_server (gets id)) (\<lambda>vars.
      on_repl (\<lambda>r. r\<lparr>sl_flags := sl_flags r @
        map (\<lambda>p. empty_serverflag\<lparr>sf_flagname := fst p, sf_arg := Some (snd p)\<rparr>) vars\<rparr>)))"

definition DropServerFlag_HandleRequest ::
  "serverflag \<Rightarrow> ((flag_map, serverflag) call, bool waiting) prog" where
  "DropServerFlag_HandleRequest req = catch_rpc set_flag_err
     (andthen (on_repl (\<lambda>r. r\<lparr>sf_msgid := sf_msgid req\<rparr>)) (\<lambda>_.
      andthen (on_server (flag_drop (sf_flagname req))) (\<lambda>_.
      on_repl (\<lambda>r. r\<lparr>sf_flagname := sf_flagname req\<rparr>))))"

definition flag_logic ::
  "('req \<Rightarrow> ((flag_map, 'repl) call, bool waiting) prog) \<Rightarrow> (errstatus \<Rightarrow> 'repl \<Rightarrow> 'repl) \<Rightarrow>
   (flag_map, 'req, 'repl) logic" where
  "flag_logic h f = \<lparr>check_metadata = (\<lambda>_ _. returns True), handle_request = h, set_err = f\<rparr>"

subsection \<open>Every call is answered once\<close>

lemma answers_catch_rpc [answers_intros]:
  assumes "quiet body"
  shows "answers (catch_rpc f body)"
  unfolding catch_rpc_def using assms by (intro answers_intros)

lemma quiet_option [answers_intros]:
  "quiet m \<Longrightarrow> (\<And>x. quiet (k x)) \<Longrightarrow> quiet (case r of None \<Rightarrow> m | Some x \<Rightarrow> k x)"
  by (cases r) simp_all

lemma flag_logic_unary: "(\<And>req. answers (h req)) \<Longrightarrow> unary_logic (flag_logic h f)"
  by unfold_locales (auto simp: flag_logic_def returns_def)

interpretation set_flag_rpc: unary_logic "flag_logic SetServerFlags_HandleRequest set_flag_err"
  by (rule flag_logic_unary) (unfold SetServerFlags_HandleRequest_def, intro answers_intros)

interpretation get_flag_rpc: unary_logic "flag_logic GetServerFlags_HandleRequest set_flag_err"
  by (rule flag_logic_unary) (unfold GetServerFlags_HandleRequest_def, intro answers_intros)

interpretation list_flags_rpc: unary_logic "flag_logic ListServerFlags_HandleRequest (\<lambda>e r. r\<lparr>sl_flags_err := Some e\<rparr>)"
  by (rule flag_logic_unary) (unfold ListServerFlags_HandleRequest_def, intro answers_intros)

interpretation drop_flag_rpc: unary_logic "flag_logic DropServerFlag_HandleRequest set_flag_err"
  by (rule flag_logic_unary) (unfold DropServerFlag_HandleRequest_def, intro answers_intros)

section \<open>Properties\<close>

lemmas flag_eval = process_request_def catches_def on_server_def on_repl_def respond_finish_def
  catch_rpc_def rpc_error_handling_def andthen_def returns_def throws_def modifies_def gets_def
  flag_logic_def

text \<open>
  Flags over the wire. Setting a flag is answered exactly once. With a value the flag map
  changes at that name only, and a later request for any name is answered with the value that was
  written last, or with the out of range error when there is none. Without a value nothing
  changes and the answer is an error.
\<close>

theorem flag_set_then_get:
  assumes "repl c = empty_serverflag"
  shows "\<exists>c' r. process_request (flag_logic SetServerFlags_HandleRequest set_flag_err) m req c =
      (Inr (Done FINISH), c') \<and> finished c' = finished c @ [r] \<and>
    (case sf_arg req of
       None \<Rightarrow> server c' = server c \<and>
         sf_err r = Some \<lparr>err_tp = ft_Error, err_msg = ''invalid flag value type!''\<rparr>
     | Some v \<Rightarrow> sf_err r = None \<and> map_of (server c') = (map_of (server c))(sf_flagname req \<mapsto> v) \<and>
         finished (snd (process_request (flag_logic GetServerFlags_HandleRequest set_flag_err) mB reqB
           \<lparr>server = server c', repl = empty_serverflag, finished = []\<rparr>)) =
         [case ((map_of (server c))(sf_flagname req \<mapsto> v)) (sf_flagname reqB) of
            Some w \<Rightarrow> empty_serverflag\<lparr>sf_msgid := sf_msgid reqB, sf_flagname := sf_flagname reqB, sf_arg := Some w\<rparr>
          | None \<Rightarrow> empty_serverflag\<lparr>sf_msgid := sf_msgid reqB,
              sf_err := Some \<lparr>err_tp = out_of_range, err_msg = ''invalid server flag''\<rparr>\<rparr>])"
proof (cases "sf_arg req")
  case None
  then show ?thesis
    by (auto simp: flag_eval SetServerFlags_HandleRequest_def set_flag_err_def)
next
  case (Some v)
  let ?vars = "flag_set (sf_flagname req) v (server c)"
  have l: "map_of ?vars = (map_of (server c))(sf_flagname req \<mapsto> v)"
    by (rule ext) (simp add: flag_store.lookup_put)
  obtain c' r where set: "process_request (flag_logic SetServerFlags_HandleRequest set_flag_err) m req c =
      (Inr (Done FINISH), c')" "finished c' = finished c @ [r]" "sf_err r = None" "server c' = ?vars"
    using Some assms by (auto simp: flag_eval SetServerFlags_HandleRequest_def empty_serverflag_def)
  have get: "finished (snd (process_request (flag_logic GetServerFlags_HandleRequest set_flag_err) mB reqB
       \<lparr>server = ?vars, repl = empty_serverflag, finished = []\<rparr>)) =
     [case map_of ?vars (sf_flagname reqB) of
        Some w \<Rightarrow> empty_serverflag\<lparr>sf_msgid := sf_msgid reqB, sf_flagname := sf_flagname reqB, sf_arg := Some w\<rparr>
      | None \<Rightarrow> empty_serverflag\<lparr>sf_msgid := sf_msgid reqB,
          sf_err := Some \<lparr>err_tp = out_of_range, err_msg = ''invalid server flag''\<rparr>\<rparr>]"
    by (simp add: flag_eval GetServerFlags_HandleRequest_def flag_get_def set_flag_err_def
        split: option.split)
  show ?thesis
    by (intro exI [of _ c'] exI [of _ r]) (simp only: set Some get l option.case simp_thms)
qed

definition shutter_open :: serverflag where
  "shutter_open = empty_serverflag\<lparr>sf_flagname := ''shutter'', sf_arg := Some (Boolval True)\<rparr>"

theorem flag_set_then_get_witness:
  "\<exists>c'. process_request (flag_logic SetServerFlags_HandleRequest set_flag_err) [] shutter_open
        \<lparr>server = [], repl = empty_serverflag, finished = []\<rparr> = (Inr (Done FINISH), c') \<and>
     map_of (server c') = [''shutter'' \<mapsto> Boolval True] \<and>
     finished (snd (process_request (flag_logic GetServerFlags_HandleRequest set_flag_err) [] shutter_open
       \<lparr>server = server c', repl = empty_serverflag, finished = []\<rparr>)) = [shutter_open]"
  using flag_set_then_get [of "\<lparr>server = [], repl = empty_serverflag, finished = []\<rparr>" "[]" shutter_open "[]" shutter_open]
  by (auto simp: shutter_open_def empty_serverflag_def)

text \<open>
  A handle that is popped. A value that was added is found under its handle until it is
  popped or dropped. \<open>pop\<close> removes it but does not return it: what it returns is the pair of
  handle and value.
\<close>

theorem handle_pop_returns_pair:
  "handle_lookup h (snd (handle_add h v vs)) = Inr (Held v) \<and>
   handle_pop h (snd (handle_add h v vs)) = (Inr (Held_pair h v), um_erase h (um_set h v vs)) \<and>
   handle_lookup h (snd (handle_pop h (snd (handle_add h v vs)))) = Inl (Out_of_range ''unordered_map::at'')"
  by (simp add: handle_lookup_def handle_pop_def handle_add_def)

end
