(* ===== verification/Client.thy ===== *)
theory Client
  imports Flag_Map
begin

text \<open>
  The client library: client/include/foxtrot/client/client.h and client/src/client.cpp, with the
  handler of notifications, server/src/BroadcastNotificationImpl.cpp.

  A client calls the server of the development: a stub runs the handler of the rpc on the state
  of the server and takes the reply that the handler finished. The network is a schedule:
  \<open>links\<close> says for each call, in order, whether it goes through, is lost on the way to the
  server, or is lost on the way back after the server has acted. A status that is not OK becomes
  a \<open>std::runtime_error\<close>, as in every method of the class.

  The locale \<open>flag_service\<close> is what the programs that use server flags rely on; it is
  interpreted on the client.
\<close>

section \<open>Errors on the way back\<close>

definition check_repl_err :: "errstatus option \<Rightarrow> unit result" where
  "check_repl_err err = (case err of
     None \<Rightarrow> Inr ()
   | Some e \<Rightarrow> Inl (case err_tp e of
       ft_Error \<Rightarrow> Base_error (err_msg e)
     | ft_DeviceError \<Rightarrow> Device_error (err_msg e)
     | ft_ProtocolError \<Rightarrow> Protocol_error (err_msg e)
     | out_of_range \<Rightarrow> Out_of_range (err_msg e)
     | _ \<Rightarrow> Runtime_error (err_msg e)))"

text \<open>The reply of a flag request as a variant. A reply without a value leaves the variant as
  it is constructed, a double that is zero.\<close>

definition ft_variant_from_serverflag :: "serverflag \<Rightarrow> ft_std_variant result" where
  "ft_variant_from_serverflag r = rbind (check_repl_err (sf_err r)) (\<lambda>_.
     Inr (case sf_arg r of None \<Rightarrow> Dblval (Fin 0) | Some v \<Rightarrow> v))"

fun get_bool :: "ft_std_variant \<Rightarrow> bool result" where
  "get_bool (Boolval b) = Inr b"
| "get_bool _ = Inl Bad_variant_access"

section \<open>What the client learns from DescribeServer\<close>

record devcapability =
  capname :: string
  argnames :: "string list"

record devdescribe =
  dd_devtype :: string
  dd_devcomment :: string
  dd_caps :: "devcapability list"

type_synonym servdescribe = "(32 word \<times> devdescribe) list"

fun find_index :: "('a \<Rightarrow> bool) \<Rightarrow> 'a list \<Rightarrow> int" where
  "find_index p [] = - 1"
| "find_index p (x # xs) = (if p x then 0 else (case find_index p xs of n \<Rightarrow> if n = - 1 then - 1 else n + 1))"

definition find_devid_on_server :: "servdescribe \<Rightarrow> string \<Rightarrow> int" where
  "find_devid_on_server sd devtp =
     (case find (\<lambda>val. dd_devtype (snd val) = devtp \<or> dd_devcomment (snd val) = devtp) sd of
        None \<Rightarrow> - 1 | Some device \<Rightarrow> sint (fst device))"

text \<open>The containers of the protocol library do not throw: a key that is missing ends the
  process and an index out of range reads past the array. Both are executions without a
  meaning here.\<close>

definition dev_at :: "servdescribe \<Rightarrow> int \<Rightarrow> devdescribe result" where
  "dev_at sd devid = (case map_of sd (word_of_int devid) of
     None \<Rightarrow> Inl (UB ''key not found'') | Some d \<Rightarrow> Inr d)"

definition find_capability :: "servdescribe \<Rightarrow> int \<Rightarrow> string \<Rightarrow> int result" where
  "find_capability sd devid capability_name = rbind (dev_at sd devid) (\<lambda>d.
     Inr (find_index (\<lambda>val. capname val = capability_name) (dd_caps d)))"

definition cap_get :: "devdescribe \<Rightarrow> int \<Rightarrow> devcapability result" where
  "cap_get d capidx = (if 0 \<le> capidx \<and> nat capidx < length (dd_caps d)
     then Inr (dd_caps d ! nat capidx) else Inl (UB ''index out of range''))"

definition get_number_of_args :: "servdescribe \<Rightarrow> int \<Rightarrow> int \<Rightarrow> int result" where
  "get_number_of_args sd devid capidx = rbind (dev_at sd devid) (\<lambda>d.
     rbind (cap_get d capidx) (\<lambda>cap. Inr (int (length (argnames cap)))))"

definition get_arg_position :: "servdescribe \<Rightarrow> int \<Rightarrow> int \<Rightarrow> string \<Rightarrow> int result" where
  "get_arg_position sd devid capidx arg_name = rbind (dev_at sd devid) (\<lambda>d.
     rbind (cap_get d capidx) (\<lambda>cap. Inr (find_index (\<lambda>val. val = arg_name) (argnames cap))))"

section \<open>Calls over the network\<close>

datatype link = Link_up | Request_lost | Reply_lost

record 's client =
  cl_msgid :: int
  links :: "link list"
  remote :: 's

text \<open>\<open>_msgid++\<close> on an \<open>int\<close>.\<close>

definition take_msgid :: "('s client, 32 word) prog" where
  "take_msgid cl = (if cl_msgid cl = 2147483647 then (Inl (UB ''signed overflow''), cl)
     else (Inr (word_of_int (cl_msgid cl)), cl\<lparr>cl_msgid := cl_msgid cl + 1\<rparr>))"

text \<open>The status of a call is OK when the handler has finished a reply and the reply has come
  back. A call that ends in any other way has a status that is not OK.\<close>

definition call_stub ::
  "('s, 'req, 'repl) logic \<Rightarrow> 'repl \<Rightarrow> 'req \<Rightarrow> ('s client, 'repl) prog" where
  "call_stub lg r0 req cl =
     (let failed = Inl (Runtime_error ''GRPC Error''); ls = tl (links cl);
          link = (if links cl = [] then Link_up else hd (links cl))
      in if link = Request_lost then (failed, cl\<lparr>links := ls\<rparr>)
         else let c = snd (process_request lg [] req \<lparr>server = remote cl, repl = r0, finished = []\<rparr>);
                  cl' = cl\<lparr>links := ls, remote := server c\<rparr>
              in if link = Reply_lost \<or> finished c = [] then (failed, cl') else (Inr (hd (finished c)), cl'))"

text \<open>The server of the flags also sends notifications, when it has been given an interface to a
  service that does. Sending is the business of that service: \<open>push\<close> is what it says to a body,
  a title and a channel.\<close>

type_synonym push = "string \<Rightarrow> string option \<Rightarrow> string option \<Rightarrow> unit result"

record flag_server =
  flag_vars :: flag_map
  pushed :: "(string \<times> string option \<times> string option) list"

record broadcast_notification =
  bn_err :: "errstatus option"
  bn_msgid :: "32 word"
  bn_title :: "string option"
  bn_body :: string
  bn_channel :: "string option"

definition empty_notification :: broadcast_notification where
  "empty_notification = \<lparr>bn_err = None, bn_msgid = 0, bn_title = None, bn_body = '''', bn_channel = None\<rparr>"

definition Broadcast_HandleRequest ::
  "push option \<Rightarrow> broadcast_notification \<Rightarrow> ((flag_server, broadcast_notification) call, bool waiting) prog" where
  "Broadcast_HandleRequest api req =
     andthen (on_repl (\<lambda>r. r\<lparr>bn_msgid := bn_msgid req\<rparr>)) (\<lambda>_.
     case api of
       None \<Rightarrow> throws (Server_error ''broadcast notifications not enabled on this server'')
     | Some push \<Rightarrow>
         andthen (on_server (lifts (push (bn_body req) (bn_title req) (bn_channel req)))) (\<lambda>_.
         andthen (on_server (modifies (\<lambda>s. s\<lparr>pushed := pushed s @ [(bn_body req, bn_title req, bn_channel req)]\<rparr>))) (\<lambda>_.
         andthen respond_finish (\<lambda>_. returns (Done True)))))"

definition broadcast_logic ::
  "push option \<Rightarrow> (flag_server, broadcast_notification, broadcast_notification) logic" where
  "broadcast_logic api = \<lparr>check_metadata = (\<lambda>_ _. returns True),
     handle_request = Broadcast_HandleRequest api, set_err = (\<lambda>e r. r\<lparr>bn_err := Some e\<rparr>)\<rparr>"

interpretation broadcast_rpc: unary_logic "broadcast_logic api"
proof unfold_locales
  fix ctxt req s b s'
  show "check_metadata (broadcast_logic api) ctxt req s = (Inr b, s') \<Longrightarrow> b"
    by (simp add: broadcast_logic_def returns_def)
next
  fix req
  show "answers (handle_request (broadcast_logic api) req)"
    by (simp add: broadcast_logic_def Broadcast_HandleRequest_def) (intro answers_intros)
qed

section \<open>The methods of the client\<close>

definition set_server_flag :: "string \<Rightarrow> ft_std_variant \<Rightarrow> (flag_map client, unit) prog" where
  "set_server_flag flagname val = andthen take_msgid (\<lambda>msgid.
     andthen (call_stub (flag_logic SetServerFlags_HandleRequest set_flag_err) empty_serverflag
       \<lparr>sf_err = None, sf_msgid = msgid, sf_flagname = flagname, sf_arg = Some val\<rparr>) (\<lambda>repl.
     lifts (check_repl_err (sf_err repl))))"

definition get_server_flag :: "string \<Rightarrow> (flag_map client, ft_std_variant) prog" where
  "get_server_flag flagname = andthen take_msgid (\<lambda>msgid.
     andthen (call_stub (flag_logic GetServerFlags_HandleRequest set_flag_err) empty_serverflag
       \<lparr>sf_err = None, sf_msgid = msgid, sf_flagname = flagname, sf_arg = None\<rparr>) (\<lambda>repl.
     andthen (lifts (check_repl_err (sf_err repl))) (\<lambda>_.
     lifts (ft_variant_from_serverflag repl))))"

definition drop_server_flag :: "string \<Rightarrow> (flag_map client, unit) prog" where
  "drop_server_flag flagname = andthen take_msgid (\<lambda>msgid.
     andthen (call_stub (flag_logic DropServerFlag_HandleRequest set_flag_err) empty_serverflag
       \<lparr>sf_err = None, sf_msgid = msgid, sf_flagname = flagname, sf_arg = None\<rparr>) (\<lambda>repl.
     lifts (check_repl_err (sf_err repl))))"

definition get_flag_names :: "(flag_map client, string list) prog" where
  "get_flag_names =
     andthen (call_stub (flag_logic ListServerFlags_HandleRequest (\<lambda>e r. r\<lparr>sl_flags_err := Some e\<rparr>))
       \<lparr>sl_flags_err = None, sl_flags = []\<rparr> ()) (\<lambda>repl.
     andthen (lifts (check_repl_err (sl_flags_err repl))) (\<lambda>_.
     returns (map sf_flagname (sl_flags repl))))"

definition BroadcastNotification ::
  "push option \<Rightarrow> string \<Rightarrow> string option \<Rightarrow> string option \<Rightarrow> (flag_server client, unit) prog" where
  "BroadcastNotification api body title channel =
     andthen (call_stub (broadcast_logic api) empty_notification
       (empty_notification\<lparr>bn_body := body, bn_title := title, bn_channel := channel\<rparr>)) (\<lambda>repl.
     lifts (check_repl_err (bn_err repl)))"

text \<open>The methods on flags for a server that has more than flags.\<close>

definition on_flags :: "(flag_map client, 'a) prog \<Rightarrow> (flag_server client, 'a) prog" where
  "on_flags m cl =
     (case m \<lparr>cl_msgid = cl_msgid cl, links = links cl, remote = flag_vars (remote cl)\<rparr> of
        (r, c) \<Rightarrow> (r, \<lparr>cl_msgid = cl_msgid c, links = links c,
          remote = (remote cl)\<lparr>flag_vars := remote c\<rparr>\<rparr>))"

section \<open>What the programs that use flags rely on\<close>

text \<open>\<open>ready\<close> holds when a call can go through. A write that succeeds is what every later
  read returns; a read that finds nothing is a \<open>std::out_of_range\<close>.\<close>

locale flag_service =
  fixes ready :: "'s \<Rightarrow> bool" and contents :: "'s \<Rightarrow> string \<Rightarrow> ft_std_variant option"
    and read :: "string \<Rightarrow> ('s, ft_std_variant) prog"
    and "write" :: "string \<Rightarrow> ft_std_variant \<Rightarrow> ('s, unit) prog"
  assumes read_some: "ready s \<Longrightarrow> contents s n = Some v \<Longrightarrow>
      \<exists>s'. read n s = (Inr v, s') \<and> contents s' = contents s"
    and read_none: "ready s \<Longrightarrow> contents s n = None \<Longrightarrow>
      \<exists>m s'. read n s = (Inl (Out_of_range m), s') \<and> contents s' = contents s"
    and write_ok: "ready s \<Longrightarrow> \<exists>s'. write n v s = (Inr (), s') \<and> contents s' = (contents s)(n \<mapsto> v)"
    and read_keeps: "contents (snd (read n s)) = contents s"
    and write_only: "contents (snd (write n v s)) = contents s \<or>
      contents (snd (write n v s)) = (contents s)(n \<mapsto> v)"
begin

text \<open>Reading a flag that may not exist, and creating it with a value when it does not: the
  pattern of \<open>was_dewar_filled\<close> and \<open>is_autofill_enabled\<close>.\<close>

lemma read_or_create:
  assumes "ready s" and "\<And>m s'. h (Out_of_range m) s' = andthen (write n d) (\<lambda>_. returns d) s'"
    and "\<And>m s'. read n s = (Inl (Out_of_range m), s') \<Longrightarrow> ready s'"
  shows "\<exists>s'. catches (read n) h s = (Inr (case contents s n of Some v \<Rightarrow> v | None \<Rightarrow> d), s') \<and>
     contents s' = (case contents s n of Some v \<Rightarrow> contents s | None \<Rightarrow> (contents s)(n \<mapsto> d))"
proof (cases "contents s n")
  case (Some v)
  with read_some [OF assms(1)] obtain s' where "read n s = (Inr v, s')" "contents s' = contents s"
    by blast
  with Some show ?thesis by (simp add: catches_def)
next
  case None
  with read_none [OF assms(1)] obtain m s' where r: "read n s = (Inl (Out_of_range m), s')"
    "contents s' = contents s" by blast
  obtain t where "write n d s' = (Inr (), t)" "contents t = (contents s')(n \<mapsto> d)"
    using write_ok [OF assms(3) [OF r(1)], of n d] by blast
  with r None show ?thesis
    by (simp add: catches_def assms(2) andthen_def returns_def)
qed

end

section \<open>The client is a flag service\<close>

definition ready :: "'s client \<Rightarrow> bool" where
  "ready cl \<longleftrightarrow> cl_msgid cl \<noteq> 2147483647 \<and> (links cl = [] \<or> hd (links cl) = Link_up)"

lemmas rpc_eval = process_request_def catches_def on_server_def on_repl_def respond_finish_def
  catch_rpc_def rpc_error_handling_def andthen_def returns_def throws_def modifies_def gets_def
  flag_logic_def lifts_def

lemma serve_set:
  "snd (process_request (flag_logic SetServerFlags_HandleRequest set_flag_err) []
     \<lparr>sf_err = None, sf_msgid = i, sf_flagname = n, sf_arg = Some v\<rparr> \<lparr>server = vars, repl = empty_serverflag, finished = []\<rparr>) =
   \<lparr>server = flag_set n v vars, repl = empty_serverflag\<lparr>sf_msgid := i\<rparr>, finished = [empty_serverflag\<lparr>sf_msgid := i\<rparr>]\<rparr>"
  by (simp add: rpc_eval SetServerFlags_HandleRequest_def)

lemma serve_get:
  "snd (process_request (flag_logic GetServerFlags_HandleRequest set_flag_err) []
     \<lparr>sf_err = None, sf_msgid = i, sf_flagname = n, sf_arg = a\<rparr> \<lparr>server = vars, repl = empty_serverflag, finished = []\<rparr>) =
   (let r = (case map_of vars n of
        Some v \<Rightarrow> empty_serverflag\<lparr>sf_msgid := i, sf_flagname := n, sf_arg := Some v\<rparr>
      | None \<Rightarrow> empty_serverflag\<lparr>sf_msgid := i,
          sf_err := Some \<lparr>err_tp = out_of_range, err_msg = ''invalid server flag''\<rparr>\<rparr>)
    in \<lparr>server = vars, repl = r, finished = [r]\<rparr>)"
  by (simp add: rpc_eval GetServerFlags_HandleRequest_def flag_get_def set_flag_err_def Let_def split: option.split)

lemma empty_serverflag_err [simp]: "sf_err empty_serverflag = None"
  by (simp add: empty_serverflag_def)

lemma set_server_flag_ready:
  "ready cl \<Longrightarrow> set_server_flag n v cl =
     (Inr (), cl\<lparr>cl_msgid := cl_msgid cl + 1, links := tl (links cl), remote := flag_set n v (remote cl)\<rparr>)"
  by (auto simp: set_server_flag_def ready_def take_msgid_def andthen_def call_stub_def Let_def serve_set
      lifts_def check_repl_err_def)

lemma get_server_flag_ready:
  "ready cl \<Longrightarrow> get_server_flag n cl =
     (case map_of (remote cl) n of
        Some v \<Rightarrow> Inr v | None \<Rightarrow> Inl (Out_of_range ''invalid server flag''),
      cl\<lparr>cl_msgid := cl_msgid cl + 1, links := tl (links cl)\<rparr>)"
  by (auto simp: get_server_flag_def ready_def take_msgid_def andthen_def call_stub_def Let_def serve_get
      lifts_def check_repl_err_def ft_variant_from_serverflag_def split: option.split)

lemma set_server_flag_effect:
  "remote (snd (set_server_flag n v cl)) = remote cl \<or>
   remote (snd (set_server_flag n v cl)) = flag_set n v (remote cl)"
  by (auto simp: set_server_flag_def take_msgid_def andthen_def call_stub_def Let_def serve_set lifts_def)

lemma get_server_flag_effect: "remote (snd (get_server_flag n cl)) = remote cl"
  by (auto simp: get_server_flag_def take_msgid_def andthen_def call_stub_def Let_def serve_get lifts_def
      split: sum.split)

lemma get_server_flag_Inr:
  "get_server_flag n cl = (Inr v, cl') \<Longrightarrow> map_of (remote cl) n = Some v \<and> remote cl' = remote cl"
  by (auto simp: get_server_flag_def take_msgid_def andthen_def call_stub_def Let_def serve_get lifts_def
      check_repl_err_def ft_variant_from_serverflag_def split: sum.splits option.splits if_splits)

interpretation client_flags: flag_service ready "\<lambda>cl. map_of (remote cl)" get_server_flag set_server_flag
proof unfold_locales
  fix s :: "flag_map client" and n v
  show "map_of (remote (snd (set_server_flag n v s))) = map_of (remote s) \<or>
      map_of (remote (snd (set_server_flag n v s))) = (map_of (remote s))(n \<mapsto> v)"
    using set_server_flag_effect [of n v s] by (auto simp: flag_set_def)
qed (auto simp: get_server_flag_ready set_server_flag_ready get_server_flag_effect flag_set_def)

section \<open>Properties\<close>



text \<open>
  Flags across the network. Writing a flag and reading one, with a network that carries
  both calls, returns the value that was written for that name and what the server had for any
  other name; a name the server does not know is a \<open>std::out_of_range\<close> in the client. A call
  whose reply is lost fails with \<open>std::runtime_error\<close> although the server has done the write.
\<close>

theorem client_flag_roundtrip:
  assumes "cl_msgid cl < 2147483646"
  shows "fst (andthen (set_server_flag n v) (\<lambda>_. get_server_flag m) (cl\<lparr>links := Link_up # Link_up # ls\<rparr>)) =
      (case ((map_of (remote cl))(n \<mapsto> v)) m of
         Some w \<Rightarrow> Inr w | None \<Rightarrow> Inl (Out_of_range ''invalid server flag'')) \<and>
    fst (set_server_flag n v (cl\<lparr>links := Reply_lost # ls\<rparr>)) = Inl (Runtime_error ''GRPC Error'') \<and>
    map_of (remote (snd (set_server_flag n v (cl\<lparr>links := Reply_lost # ls\<rparr>)))) =
      (map_of (remote cl))(n \<mapsto> v)"
proof (intro conjI)
  show "fst (andthen (set_server_flag n v) (\<lambda>_. get_server_flag m) (cl\<lparr>links := Link_up # Link_up # ls\<rparr>)) =
      (case ((map_of (remote cl))(n \<mapsto> v)) m of
         Some w \<Rightarrow> Inr w | None \<Rightarrow> Inl (Out_of_range ''invalid server flag''))"
    using assms by (auto simp: set_server_flag_ready get_server_flag_ready ready_def andthen_def
        flag_set_def split: option.split)
qed (use assms in \<open>simp_all add: set_server_flag_def take_msgid_def andthen_def call_stub_def Let_def
  serve_set flag_set_def\<close>)

definition fresh_client :: "flag_map client" where
  "fresh_client = \<lparr>cl_msgid = 0, links = [], remote = []\<rparr>"

theorem client_flag_roundtrip_witness:
  "fst (andthen (set_server_flag ''shutter'' (Boolval True)) (\<lambda>_. get_server_flag ''shutter'')
     (fresh_client\<lparr>links := [Link_up, Link_up]\<rparr>)) = Inr (Boolval True)"
  using client_flag_roundtrip [of fresh_client "''shutter''" "Boolval True" "''shutter''" "[]"]
  by (simp add: fresh_client_def)

end
