(* ===== verification/Autofill.thy ===== *)
theory Autofill
  imports Client
begin

text \<open>
  The daemon that keeps the nitrogen tank of a cryostat filled: lsst/autofilld.

  \<open>autofill\<close> is the object \<open>autofill_logic\<close> together with what it talks to: the client and
  through it the server, the log, and the relay of the dewar. A fill runs in a thread of its own
  that shares two atomic flags with the tick. The threads are part of the state, each with a
  program counter, and \<open>sched\<close> says which steps of which threads happen at each point where
  the tick reads or writes what they share: every theorem about a tick that does not fix
  \<open>sched\<close> holds for every interleaving.

  The clock of the check-in is an argument. Time stamps of events are left out. A fill lasts
  0.4 hours, which the code computes in doubles as 1440 seconds; the sleep is one step.
\<close>

section \<open>The state\<close>

datatype event_types = fill_begin | fill_complete | tank_empty | Dewar_empty_event | dewar_filled

record env_data =
  tank_temp :: f64
  stage_temp :: f64
  cryostat_pressure :: f64
  pump_pressure :: f64
  heater_output :: f64
  heater_target :: f64
  cryo_gauge_enable :: bool
  pump_gauge_enable :: bool
  vac_pump_rotspeed :: int
  vac_pump_powerpercent :: int
  vac_pump_drivepower :: f64
  vac_pump_turbo :: bool
  vac_pump_onoff :: bool
  valve_relay_onoff :: bool

datatype thread_pc = T_begin | T_relay_on | T_sleep | T_relay_off | T_log | T_flag | T_progress | T_just_done | T_end

record fill_thread =
  pc :: thread_pc
  t_devid :: int
  t_relay :: int
  t_except :: "error option"
  t_result :: "error option result"

datatype future = No_state | Shared nat

record devids =
  ws_devid :: int
  tpg_devid :: int
  heater_devid :: int
  archon_devid :: int
  pump_devid :: int
  relays_devid :: int

record autofill =
  flags_client :: "flag_server client"
  push_api :: "push option"
  events :: "event_types list"
  relay_calls :: "(int \<times> int \<times> bool) list"
  relay_faults :: "error option list"
  threads :: "fill_thread list"
  sched :: "nat list list"
  empty_temp :: f64
  limit_pressure :: f64
  dryrun :: bool
  ids :: devids
  logged_tank_empty :: bool
  dewar_empty :: bool
  fill_in_progress :: bool
  fill_just_done :: bool
  running_fill :: future
  pb_enable :: bool
  pb_channel :: string

section \<open>Devices and measurements\<close>

text \<open>\<open>invoke\<close> is \<open>Client::InvokeCapability\<close>; \<open>sd\<close> is what DescribeServer answered.\<close>

definition cant_find :: "string \<Rightarrow> string" where
  "cant_find what = ''can'' @ [CHR 0x27] @ ''t find '' @ what"

definition find_or_throw :: "servdescribe \<Rightarrow> string \<Rightarrow> string \<Rightarrow> int result" where
  "find_or_throw sd devtp msg = (let devid = find_devid_on_server sd devtp
     in if devid = - 1 then Inl (Runtime_error msg) else Inr devid)"

definition register_devid :: "servdescribe \<Rightarrow> (devids, unit) prog" where
  "register_devid sd =
     andthen (lifts (find_or_throw sd ''webswitch_plus'' (cant_find ''webswitch plus on server!''))) (\<lambda>d.
     andthen (modifies (\<lambda>w. w\<lparr>ws_devid := d\<rparr>)) (\<lambda>_.
     andthen (lifts (find_or_throw sd ''TPG362'' (cant_find ''TPG362 on server!''))) (\<lambda>d.
     andthen (modifies (\<lambda>w. w\<lparr>tpg_devid := d\<rparr>)) (\<lambda>_.
     andthen (lifts (find_or_throw sd ''ArchonHeaterX'' (cant_find ''ArchonHeaterX on server''))) (\<lambda>d.
     andthen (modifies (\<lambda>w. w\<lparr>heater_devid := d\<rparr>)) (\<lambda>_.
     andthen (lifts (find_or_throw sd ''archon'' (cant_find ''archon on server''))) (\<lambda>d.
     andthen (modifies (\<lambda>w. w\<lparr>archon_devid := d\<rparr>)) (\<lambda>_.
     andthen (lifts (find_or_throw sd ''vacuum_pump'' (cant_find ''vacuump pump on server!''))) (\<lambda>d.
     andthen (modifies (\<lambda>w. w\<lparr>pump_devid := d\<rparr>)) (\<lambda>_.
     andthen (lifts (find_or_throw sd ''vacuum_relays'' (cant_find ''vacuum relays on server!''))) (\<lambda>d.
     modifies (\<lambda>w. w\<lparr>relays_devid := d\<rparr>))))))))))))"

fun get_double :: "ft_std_variant \<Rightarrow> f64 result" where
  "get_double (Dblval d) = Inr d"
| "get_double _ = Inl Bad_variant_access"

fun get_int :: "ft_std_variant \<Rightarrow> int result" where
  "get_int (Intval i) = Inr i"
| "get_int _ = Inl Bad_variant_access"

definition measure_as ::
  "(ft_std_variant \<Rightarrow> 'a result) \<Rightarrow> ('s, ft_std_variant) prog \<Rightarrow> ('s, 'a) prog" where
  "measure_as as m = andthen m (\<lambda>v. lifts (as v))"

definition measure_data ::
  "(int \<Rightarrow> string \<Rightarrow> ft_std_variant list \<Rightarrow> ('s, ft_std_variant) prog) \<Rightarrow> devids \<Rightarrow> ('s, env_data) prog" where
  "measure_data invoke d =
     andthen (invoke (archon_devid d) ''update_state'' []) (\<lambda>_.
     andthen (measure_as get_double (invoke (tpg_devid d) ''getPressure'' [Intval 1])) (\<lambda>cryo.
     andthen (measure_as get_double (invoke (tpg_devid d) ''getPressure'' [Intval 2])) (\<lambda>pump.
     andthen (measure_as get_double (invoke (heater_devid d) ''getTempA'' [])) (\<lambda>tank.
     andthen (measure_as get_double (invoke (heater_devid d) ''getTempB'' [])) (\<lambda>stage.
     andthen (measure_as get_double (invoke (heater_devid d) ''getHeaterAOutput'' [])) (\<lambda>heater.
     andthen (measure_as get_double (invoke (heater_devid d) ''getHeaterTarget'' [Intval 0])) (\<lambda>target.
     andthen (measure_as get_bool (invoke (tpg_devid d) ''getGaugeOnOff'' [Intval 1])) (\<lambda>gauge_cryo.
     andthen (measure_as get_bool (invoke (tpg_devid d) ''getGaugeOnOff'' [Intval 2])) (\<lambda>gauge_pump.
     andthen (measure_as get_int (invoke (pump_devid d) ''ActualRotSpeed'' [])) (\<lambda>speed.
     andthen (measure_as get_double (invoke (pump_devid d) ''DrivePower'' [])) (\<lambda>drive.
     andthen (measure_as get_bool (invoke (pump_devid d) ''MotorPump'' [])) (\<lambda>turbo.
     andthen (measure_as get_bool (invoke (pump_devid d) ''PumpStationOnOff'' [])) (\<lambda>onoff.
     andthen (measure_as get_int (invoke (pump_devid d) ''PowerPercent'' [])) (\<lambda>percent.
     andthen (measure_as get_bool (invoke (relays_devid d) ''getRelay'' [Intval 1])) (\<lambda>valve.
     returns \<lparr>tank_temp = tank, stage_temp = stage, cryostat_pressure = cryo, pump_pressure = pump,
       heater_output = heater, heater_target = target, cryo_gauge_enable = gauge_cryo,
       pump_gauge_enable = gauge_pump, vac_pump_rotspeed = speed, vac_pump_powerpercent = percent,
       vac_pump_drivepower = drive, vac_pump_turbo = turbo, vac_pump_onoff = onoff,
       valve_relay_onoff = valve\<rparr>)))))))))))))))"

section \<open>The parts of a tick\<close>

definition on_client :: "(flag_server client, 'a) prog \<Rightarrow> (autofill, 'a) prog" where
  "on_client m w = (case m (flags_client w) of (r, c) \<Rightarrow> (r, w\<lparr>flags_client := c\<rparr>))"

definition set_flag :: "string \<Rightarrow> ft_std_variant \<Rightarrow> (autofill, unit) prog" where
  "set_flag n v = on_client (on_flags (set_server_flag n v))"

definition get_flag :: "string \<Rightarrow> (autofill, ft_std_variant) prog" where
  "get_flag n = on_client (on_flags (get_server_flag n))"

definition LogEvent :: "event_types \<Rightarrow> (autofill, unit) prog" where
  "LogEvent e = modifies (\<lambda>w. w\<lparr>events := events w @ [e]\<rparr>)"

definition catch_out_of_range :: "('s, 'a) prog \<Rightarrow> ('s, 'a) prog \<Rightarrow> ('s, 'a) prog" where
  "catch_out_of_range m h = catches m (\<lambda>e. case e of Out_of_range _ \<Rightarrow> h | _ \<Rightarrow> throws e)"

definition was_dewar_filled :: "(autofill, bool) prog" where
  "was_dewar_filled = catch_out_of_range
     (andthen (get_flag ''autofill/dewar_filled'') (\<lambda>ret. lifts (get_bool ret)))
     (andthen (set_flag ''autofill/dewar_filled'' (Boolval False)) (\<lambda>_. returns False))"

definition clear_dewar_filled :: "(autofill, unit) prog" where
  "clear_dewar_filled = set_flag ''autofill/dewar_filled'' (Boolval False)"

definition is_autofill_enabled :: "(autofill, bool) prog" where
  "is_autofill_enabled = catch_out_of_range
     (andthen (get_flag ''autofill/autofill_enable'') (\<lambda>ret. lifts (get_bool ret)))
     (andthen (set_flag ''autofill/autofill_enable'' (Boolval False)) (\<lambda>_. returns False))"

definition checkin :: "string \<Rightarrow> (autofill, unit) prog" where
  "checkin now = set_flag ''autofill/autofill_checkin'' (Stringval now)"

definition set_tank_status :: "bool \<Rightarrow> (autofill, unit) prog" where
  "set_tank_status full = set_flag ''autofill/tank_full'' (Boolval full)"

definition set_pumpdown_status :: "bool \<Rightarrow> (autofill, unit) prog" where
  "set_pumpdown_status pumpeddown = set_flag ''autofill/pumpdown'' (Boolval pumpeddown)"

definition set_dewar_status :: "bool \<Rightarrow> (autofill, unit) prog" where
  "set_dewar_status full = set_flag ''autofill/dewarfull'' (Boolval full)"

definition broadcast_notify :: "string \<Rightarrow> string \<Rightarrow> (autofill, unit) prog" where
  "broadcast_notify title body w =
     (if pb_enable w
      then catches (on_client (BroadcastNotification (push_api w) body (Some title) (Some (pb_channel w))))
        (\<lambda>e. case e of Server_error _ \<Rightarrow> returns () | Protocol_error _ \<Rightarrow> returns ()
           | Protocol_timeout _ \<Rightarrow> returns () | _ \<Rightarrow> throws e) w
      else (Inr (), w))"

section \<open>A fill\<close>

definition set_relay :: "int \<Rightarrow> int \<Rightarrow> bool \<Rightarrow> (autofill, unit) prog" where
  "set_relay devid relay onoff w =
     (let wA = w\<lparr>relay_calls := relay_calls w @ [(devid, relay, onoff)], relay_faults := tl (relay_faults w)\<rparr>
      in case relay_faults w of Some e # _ \<Rightarrow> (Inl e, w\<lparr>relay_faults := tl (relay_faults w)\<rparr>) | _ \<Rightarrow> (Inr (), wA))"

text \<open>The steps of \<open>execute_fill\<close>: the relay is switched on, the thread sleeps, the relay is
  switched off. An exception of a switch leaves the function at once.\<close>

definition execute_fill :: "fill_thread \<Rightarrow> (autofill, thread_pc) prog" where
  "execute_fill t w = (case pc t of
     T_relay_on \<Rightarrow> andthen (if dryrun w then returns () else set_relay (t_devid t) (t_relay t) True)
        (\<lambda>_. returns T_sleep) w
   | T_sleep \<Rightarrow> (Inr T_relay_off, w)
   | _ \<Rightarrow> andthen (if dryrun w then returns () else set_relay (t_devid t) (t_relay t) False)
        (\<lambda>_. returns T_log) w)"

text \<open>One step of the thread \<open>fill_dispatch\<close>.\<close>

definition fill_dispatch :: "fill_thread \<Rightarrow> autofill \<Rightarrow> fill_thread \<times> autofill" where
  "fill_dispatch t w = (case pc t of
     T_begin \<Rightarrow> (t\<lparr>pc := T_relay_on\<rparr>, w\<lparr>fill_in_progress := True\<rparr>)
   | T_log \<Rightarrow> (t\<lparr>pc := T_flag\<rparr>, snd (LogEvent fill_complete w))
   | T_flag \<Rightarrow> (case set_flag ''autofill/fillactive'' (Boolval False) w of
        (Inl e, wA) \<Rightarrow> (t\<lparr>pc := T_end, t_result := Inl e\<rparr>, wA)
      | (Inr _, wA) \<Rightarrow> (t\<lparr>pc := T_progress\<rparr>, wA))
   | T_progress \<Rightarrow> (t\<lparr>pc := T_just_done\<rparr>, w\<lparr>fill_in_progress := False\<rparr>)
   | T_just_done \<Rightarrow> (t\<lparr>pc := T_end, t_result := Inr (t_except t)\<rparr>, w\<lparr>fill_just_done := True\<rparr>)
   | T_end \<Rightarrow> (t, w)
   | _ \<Rightarrow> (case execute_fill t w of
        (Inl e, wA) \<Rightarrow> (t\<lparr>pc := T_log, t_except := Some e\<rparr>, wA)
      | (Inr p, wA) \<Rightarrow> (t\<lparr>pc := p\<rparr>, wA)))"

definition thread_step :: "nat \<Rightarrow> autofill \<Rightarrow> autofill" where
  "thread_step i w = (if i < length (threads w)
     then (case fill_dispatch (threads w ! i) w of (t, wA) \<Rightarrow> wA\<lparr>threads := (threads w)[i := t]\<rparr>)
     else w)"

definition thread_ready :: "nat \<Rightarrow> autofill \<Rightarrow> bool" where
  "thread_ready i w \<longleftrightarrow> i < length (threads w) \<and> pc (threads w ! i) = T_end"

text \<open>What the threads do at a point where the tick looks at what they share.\<close>

definition yields :: "(autofill, unit) prog" where
  "yields w = (case sched w of
     [] \<Rightarrow> (Inr (), w)
   | is # rest \<Rightarrow> (Inr (), fold thread_step is (w\<lparr>sched := rest\<rparr>)))"

definition reads :: "(autofill \<Rightarrow> 'a) \<Rightarrow> (autofill, 'a) prog" where
  "reads f = andthen yields (\<lambda>_. gets f)"

text \<open>Assigning a future to one that still has the state of a running thread waits for that
  thread: the threads come from \<open>std::async\<close>. A thread has at most eight steps.\<close>

definition join_future :: "future \<Rightarrow> autofill \<Rightarrow> autofill" where
  "join_future f w = (case f of No_state \<Rightarrow> w | Shared i \<Rightarrow> (thread_step i ^^ 8) w)"

definition fill_tank :: "int \<Rightarrow> int \<Rightarrow> (autofill, future) prog" where
  "fill_tank devid relay =
     andthen (LogEvent fill_begin) (\<lambda>_.
     andthen (set_flag ''autofill/fillactive'' (Boolval True)) (\<lambda>_ w.
     (Inr (Shared (length (threads w))), w\<lparr>threads := threads w @
        [\<lparr>pc = T_begin, t_devid = devid, t_relay = relay, t_except = None, t_result = Inr None\<rparr>]\<rparr>)))"

definition assign_running_fill :: "future \<Rightarrow> (autofill, unit) prog" where
  "assign_running_fill f w = (Inr (), (join_future (running_fill w) w)\<lparr>running_fill := f\<rparr>)"

text \<open>\<open>get\<close> of a future without a state has no meaning; otherwise it takes the state away.\<close>

definition get_running_fill :: "(autofill, error option) prog" where
  "get_running_fill w = (case running_fill w of
     No_state \<Rightarrow> (Inl (UB ''get of a future without state''), w)
   | Shared i \<Rightarrow> (t_result (threads w ! i), w\<lparr>running_fill := No_state\<rparr>))"

section \<open>The tick\<close>

definition check_vacuum :: "env_data \<Rightarrow> (autofill, bool) prog" where
  "check_vacuum env = andthen (gets limit_pressure) (\<lambda>limit.
     if flt (cryostat_pressure env) limit
     then andthen (set_pumpdown_status True) (\<lambda>_. returns True)
     else andthen (set_pumpdown_status False) (\<lambda>_. returns False))"

definition check_dewar :: "(autofill, unit) prog" where
  "check_dewar = andthen was_dewar_filled (\<lambda>filled.
     if filled then
       andthen (broadcast_notify ''dewar'' ''LN2 Dewar was filled'') (\<lambda>_.
       andthen (set_dewar_status True) (\<lambda>_.
       andthen (modifies (\<lambda>w. w\<lparr>dewar_empty := False\<rparr>)) (\<lambda>_.
       andthen clear_dewar_filled (\<lambda>_.
       LogEvent dewar_filled))))
     else returns ())"

definition report_tank_empty :: "(autofill, unit) prog" where
  "report_tank_empty = andthen (reads fill_in_progress) (\<lambda>busy. andthen (gets logged_tank_empty) (\<lambda>logged.
     if \<not> busy \<and> \<not> logged then
       andthen (broadcast_notify ''tank'' ''cryostat tank is empty'') (\<lambda>_.
       andthen (LogEvent tank_empty) (\<lambda>_.
       modifies (\<lambda>w. w\<lparr>logged_tank_empty := True\<rparr>)))
     else returns ()))"

definition report_dewar_empty :: "(autofill, unit) prog" where
  "report_dewar_empty =
     andthen (modifies (\<lambda>w. w\<lparr>logged_tank_empty := False\<rparr>)) (\<lambda>_.
     andthen (gets dewar_empty) (\<lambda>known.
     andthen (if known then returns () else
       andthen (broadcast_notify ''dewar'' ''LN2 dewar is probably empty'') (\<lambda>_.
       andthen (set_dewar_status False) (\<lambda>_.
       LogEvent Dewar_empty_event))) (\<lambda>_.
     modifies (\<lambda>w. w\<lparr>dewar_empty := True\<rparr>))))"

definition check_tank :: "env_data \<Rightarrow> (autofill, bool) prog" where
  "check_tank env = andthen (gets empty_temp) (\<lambda>limit.
     if fgt (tank_temp env) limit then
       andthen report_tank_empty (\<lambda>_.
       andthen (set_tank_status False) (\<lambda>_.
       andthen (reads fill_just_done) (\<lambda>just.
       if just then andthen report_dewar_empty (\<lambda>_. returns False)
       else andthen (reads fill_in_progress) (\<lambda>busy. returns (\<not> busy)))))
     else andthen (set_tank_status True) (\<lambda>_. returns False))"

definition start_fill :: "bool \<Rightarrow> bool \<Rightarrow> (autofill, unit) prog" where
  "start_fill fill_needed pumpdown =
     andthen (if fill_needed \<and> pumpdown then reads fill_just_done else returns True) (\<lambda>just.
     andthen (gets dewar_empty) (\<lambda>empty.
     if \<not> just \<and> \<not> empty then
       andthen is_autofill_enabled (\<lambda>enabled.
       if enabled then
         andthen (broadcast_notify ''tank'' ''a tank autofill is starting'') (\<lambda>_.
         andthen (gets (\<lambda>w. ws_devid (ids w))) (\<lambda>devid.
         andthen (fill_tank devid 1) assign_running_fill))
       else returns ())
     else returns ()))"

definition collect_fill :: "(autofill, unit) prog" where
  "collect_fill = andthen (reads (\<lambda>w. case running_fill w of No_state \<Rightarrow> False | Shared i \<Rightarrow> thread_ready i w)) (\<lambda>finished.
     if finished then
       andthen get_running_fill (\<lambda>eptr. case eptr of
         None \<Rightarrow> returns ()
       | Some _ \<Rightarrow>
           andthen (broadcast_notify ''tank'' ''there was an error filling the tank'') (\<lambda>_.
           andthen get_running_fill (\<lambda>again. case again of
             None \<Rightarrow> throws (UB ''rethrow of a null pointer'') | Some e \<Rightarrow> throws e)))
     else returns ())"

definition tick :: "string \<Rightarrow> env_data \<Rightarrow> (autofill, unit) prog" where
  "tick now env =
     andthen (check_vacuum env) (\<lambda>pumpdown.
     andthen check_dewar (\<lambda>_.
     andthen (check_tank env) (\<lambda>fill_needed.
     andthen (checkin now) (\<lambda>_.
     andthen (start_fill fill_needed pumpdown) (\<lambda>_.
     andthen yields (\<lambda>_.
     andthen (modifies (\<lambda>w. w\<lparr>fill_just_done := False\<rparr>)) (\<lambda>_.
     collect_fill)))))))"

section \<open>What the parts leave alone\<close>

text \<open>\<open>settings\<close> is what neither a thread nor a call changes, \<open>enabled\<close> the flag of the server
  that allows fills.\<close>

definition settings :: "autofill \<Rightarrow> nat \<times> f64 \<times> f64 \<times> bool \<times> bool" where
  "settings w = (length (threads w), limit_pressure w, empty_temp w, dewar_empty w, logged_tank_empty w)"

definition flag_contents :: "autofill \<Rightarrow> string \<Rightarrow> ft_std_variant option" where
  "flag_contents w = map_of (flag_vars (remote (flags_client w)))"

definition enabled :: "autofill \<Rightarrow> ft_std_variant option" where
  "enabled w = flag_contents w ''autofill/autofill_enable''"

lemma keeps_pair: "keeps f m \<Longrightarrow> keeps g m \<Longrightarrow> keeps (\<lambda>w. (f w, g w)) m"
  by (simp add: keeps_def)

lemma keeps_on_client:
  "(\<And>w c. f (w\<lparr>flags_client := c\<rparr>) = f w) \<Longrightarrow> keeps f (on_client m)"
  by (simp add: keeps_def on_client_def split: prod.split)

lemma settings_client: "settings (w\<lparr>flags_client := c\<rparr>) = settings w"
  by (simp add: settings_def)

lemma settings_ops [keeps_intros]:
  "keeps settings (set_flag n v)" "keeps settings (get_flag n)" "keeps settings (LogEvent e)"
  "keeps settings (on_client m)"
  by (auto simp: set_flag_def get_flag_def LogEvent_def settings_client
      intro!: keeps_on_client keeps_modifies) (simp add: settings_def)

lemma set_flag_contents:
  "flag_contents (snd (set_flag n v w)) = flag_contents w \<or>
   flag_contents (snd (set_flag n v w)) = (flag_contents w)(n \<mapsto> v)"
  using set_server_flag_effect [of n v "\<lparr>cl_msgid = cl_msgid (flags_client w),
    links = links (flags_client w), remote = flag_vars (remote (flags_client w))\<rparr>"]
  by (auto simp: set_flag_def on_client_def on_flags_def flag_contents_def flag_set_def split: prod.splits)

lemma get_flag_contents: "flag_contents (snd (get_flag n w)) = flag_contents w"
  using get_server_flag_effect [of n "\<lparr>cl_msgid = cl_msgid (flags_client w),
    links = links (flags_client w), remote = flag_vars (remote (flags_client w))\<rparr>"]
  by (auto simp: get_flag_def on_client_def on_flags_def flag_contents_def split: prod.splits)

lemma enabled_set_flag [keeps_intros]:
  "n \<noteq> ''autofill/autofill_enable'' \<Longrightarrow> keeps enabled (set_flag n v)"
  unfolding keeps_def enabled_def
proof
  fix w
  assume "n \<noteq> ''autofill/autofill_enable''"
  with set_flag_contents [of n v w]
  show "flag_contents (snd (set_flag n v w)) ''autofill/autofill_enable'' =
      flag_contents w ''autofill/autofill_enable''"
    by auto
qed

lemma enabled_get_flag [keeps_intros]: "keeps enabled (get_flag n)"
  by (simp add: keeps_def enabled_def get_flag_contents)

lemma enabled_LogEvent [keeps_intros]: "keeps enabled (LogEvent e)"
  by (simp add: keeps_def LogEvent_def modifies_def enabled_def flag_contents_def)

lemma broadcast_flag_vars:
  "flag_vars (remote (snd (BroadcastNotification api body title channel cl))) = flag_vars (remote cl)"
proof -
  have "flag_vars (server (snd (process_request (broadcast_logic api) [] req c))) = flag_vars (server c)" for req c
    by (auto simp: process_request_def catches_def on_server_def andthen_def returns_def broadcast_logic_def
        Broadcast_HandleRequest_def on_repl_def modifies_def throws_def lifts_def respond_finish_def
        rpc_error_handling_def split: option.split sum.splits error.split)
  then show ?thesis
    by (simp add: BroadcastNotification_def andthen_def call_stub_def Let_def lifts_def)
qed

lemma keeps_broadcast_notify:
  assumes "\<And>api body ttl channel. keeps f (on_client (BroadcastNotification api body ttl channel))"
  shows "keeps f (broadcast_notify title body)"
  unfolding keeps_def
proof
  fix w :: autofill
  have "keeps f (catches (on_client (BroadcastNotification (push_api w) body (Some title) (Some (pb_channel w))))
        (\<lambda>e. case e of Server_error _ \<Rightarrow> returns () | Protocol_error _ \<Rightarrow> returns ()
           | Protocol_timeout _ \<Rightarrow> returns () | _ \<Rightarrow> throws e))"
    using assms by (intro keeps_catches) (auto split: error.split intro: keeps_intros)
  then show "f (snd (broadcast_notify title body w)) = f w"
    by (simp add: broadcast_notify_def keeps_def)
qed

lemma enabled_broadcast: "keeps enabled (on_client (BroadcastNotification api body title channel))"
  by (simp add: keeps_def on_client_def enabled_def flag_contents_def split: prod.split)
    (metis broadcast_flag_vars snd_conv)

lemma broadcast_ops [keeps_intros]:
  "keeps settings (broadcast_notify title body)" "keeps enabled (broadcast_notify title body)"
  by (intro keeps_broadcast_notify settings_ops enabled_broadcast)+

text \<open>A thread changes neither.\<close>

lemma set_relay_same: "settings (snd (set_relay d r b w)) = settings w" "enabled (snd (set_relay d r b w)) = enabled w"
  "threads (snd (set_relay d r b w)) = threads w"
  by (auto simp: set_relay_def Let_def settings_def enabled_def flag_contents_def split: list.split option.split)

lemma execute_fill_same:
  "settings (snd (execute_fill t w)) = settings w" "enabled (snd (execute_fill t w)) = enabled w"
  by (auto simp: execute_fill_def andthen_def returns_def set_relay_same split: thread_pc.split prod.split sum.split)
    (metis set_relay_same snd_conv)+

lemma fill_dispatch_same:
  "settings (snd (fill_dispatch t w)) = settings w \<and> enabled (snd (fill_dispatch t w)) = enabled w"
proof -
  have flag: "settings (snd (set_flag ''autofill/fillactive'' v w)) = settings w"
    "enabled (snd (set_flag ''autofill/fillactive'' v w)) = enabled w" for v
    by (intro keepsD keeps_intros; simp)+
  have log: "settings (snd (LogEvent e w)) = settings w" "enabled (snd (LogEvent e w)) = enabled w" for e
    by (intro keepsD keeps_intros)+
  have exec: "settings wA = settings w" "enabled wA = enabled w" if "execute_fill t w = (r, wA)" for r wA
    using execute_fill_same [of t w] that by simp_all
  have set: "settings wA = settings w" "enabled wA = enabled w"
    if "set_flag ''autofill/fillactive'' (Boolval False) w = (r, wA)" for r wA
    using flag [of "Boolval False"] that by simp_all
  have bits: "settings (w\<lparr>fill_in_progress := b\<rparr>) = settings w" "enabled (w\<lparr>fill_in_progress := b\<rparr>) = enabled w"
    "settings (w\<lparr>fill_just_done := b\<rparr>) = settings w" "enabled (w\<lparr>fill_just_done := b\<rparr>) = enabled w" for b
    by (simp_all add: settings_def enabled_def flag_contents_def)
  show ?thesis
    by (cases "pc t") (auto simp: fill_dispatch_def bits log dest: exec set split: prod.split sum.split)
qed

lemma thread_step_same: "settings (thread_step i w) = settings w" "enabled (thread_step i w) = enabled w"
proof -
  obtain t wA where d: "fill_dispatch (threads w ! i) w = (t, wA)" by fastforce
  then have "settings wA = settings w" "enabled wA = enabled w"
    using fill_dispatch_same [of "threads w ! i" w] by simp_all
  with d show "settings (thread_step i w) = settings w" "enabled (thread_step i w) = enabled w"
    by (auto simp: thread_step_def settings_def enabled_def flag_contents_def)
qed

lemma fold_thread_step_same:
  "settings (fold thread_step is w) = settings w" "enabled (fold thread_step is w) = enabled w"
  by (induction "is" arbitrary: w) (simp_all add: thread_step_same)

lemma yields_ops [keeps_intros]: "keeps settings yields" "keeps enabled yields"
proof -
  have "settings (w\<lparr>sched := s\<rparr>) = settings w" "enabled (w\<lparr>sched := s\<rparr>) = enabled w" for w :: autofill and s
    by (simp_all add: settings_def enabled_def flag_contents_def)
  then show "keeps settings yields" "keeps enabled yields"
    by (simp_all add: keeps_def yields_def fold_thread_step_same split: list.split)
qed

lemma reads_ops [keeps_intros]: "keeps settings (reads f)" "keeps enabled (reads f)"
  unfolding reads_def by (intro keeps_intros)+

section \<open>When a fill is started\<close>

definition sizes :: "autofill \<Rightarrow> nat \<times> f64 \<times> f64" where
  "sizes w = (length (threads w), limit_pressure w, empty_temp w)"

lemma keeps_sizes: "keeps settings m \<Longrightarrow> keeps sizes m"
  by (simp add: keeps_def settings_def sizes_def)

lemma sizes_ops [keeps_intros]:
  "keeps sizes (set_flag n v)" "keeps sizes (get_flag n)" "keeps sizes (LogEvent e)"
  "keeps sizes (broadcast_notify title body)" "keeps sizes yields" "keeps sizes (reads f)"
  by (intro keeps_sizes keeps_intros)+

lemma keeps_catch_out_of_range [keeps_intros]:
  "keeps f m \<Longrightarrow> keeps f h \<Longrightarrow> keeps f (catch_out_of_range m h)"
  unfolding catch_out_of_range_def by (intro keeps_catches) (auto split: error.split intro: keeps_intros)

lemma sizes_fields: "sizes (w\<lparr>dewar_empty := b\<rparr>) = sizes w" "sizes (w\<lparr>logged_tank_empty := b\<rparr>) = sizes w"
  "sizes (w\<lparr>fill_just_done := b\<rparr>) = sizes w"
  by (simp_all add: sizes_def)

lemma sizes_check_dewar [keeps_intros]: "keeps sizes check_dewar"
  unfolding check_dewar_def was_dewar_filled_def set_dewar_status_def clear_dewar_filled_def
  by (intro keeps_intros sizes_fields)

lemma sizes_reports [keeps_intros]: "keeps sizes report_tank_empty" "keeps sizes report_dewar_empty"
  unfolding report_tank_empty_def report_dewar_empty_def set_dewar_status_def
  by (intro keeps_intros sizes_fields)+

lemma get_flag_Inr: "get_flag n w = (Inr v, w') \<Longrightarrow> flag_contents w' n = Some v"
  by (auto simp: get_flag_def on_client_def on_flags_def flag_contents_def split: prod.splits
      dest!: get_server_flag_Inr)

text \<open>The answer of \<open>is_autofill_enabled\<close> is yes only when the flag of the server says so.\<close>

lemma is_autofill_enabled_keeps [keeps_intros]: "keeps settings is_autofill_enabled"
  unfolding is_autofill_enabled_def by (intro keeps_intros)

lemma is_autofill_enabled_yes:
  assumes "is_autofill_enabled w = (Inr True, w')"
  shows "enabled w' = Some (Boolval True)"
proof -
  obtain r t where g: "get_flag ''autofill/autofill_enable'' w = (r, t)" by fastforce
  show ?thesis
  proof (cases r)
    case (Inl e)
    with g assms show ?thesis
      by (cases e) (auto simp: is_autofill_enabled_def catch_out_of_range_def catches_def andthen_def
          throws_def returns_def split: prod.splits sum.splits)
  next
    case (Inr v)
    with g have "enabled t = Some v" by (simp add: enabled_def get_flag_Inr)
    with g Inr assms show ?thesis
      by (cases v) (auto simp: is_autofill_enabled_def catch_out_of_range_def catches_def andthen_def
          lifts_def throws_def split: sum.splits)
  qed
qed

definition started :: "nat \<Rightarrow> autofill \<Rightarrow> bool" where
  "started n w \<longleftrightarrow> length (threads w) = Suc n \<and> \<not> dewar_empty w \<and> enabled w = Some (Boolval True)"

lemma ensures_is_autofill_enabled:
  "ensures (\<lambda>w. P (settings w)) is_autofill_enabled
     (\<lambda>b w. P (settings w) \<and> (b \<longrightarrow> enabled w = Some (Boolval True))) (\<lambda>w. P (settings w))"
  unfolding ensures_def
  using keepsD [OF is_autofill_enabled_keeps] is_autofill_enabled_yes
  by (auto split: sum.split) (metis (full_types) prod.collapse)

lemma join_future_settings: "settings (join_future f w) = settings w \<and> enabled (join_future f w) = enabled w"
proof -
  have "settings ((thread_step i ^^ k) w) = settings w \<and> enabled ((thread_step i ^^ k) w) = enabled w" for i k
    by (induction k) (simp_all add: thread_step_same)
  then show ?thesis by (cases f) (simp_all add: join_future_def)
qed

definition go :: "nat \<times> f64 \<times> f64 \<Rightarrow> autofill \<Rightarrow> bool" where
  "go C w \<longleftrightarrow> sizes w = C \<and> \<not> dewar_empty w \<and> enabled w = Some (Boolval True)"

lemma ensures_go:
  assumes "keeps settings m" and "keeps enabled m"
  shows "ensures (go C) m (\<lambda>_. go C) (go C)"
    and "ensures (started n) m (\<lambda>_. started n) (started n)"
proof -
  have k: "settings (snd (m w)) = settings w" "enabled (snd (m w)) = enabled w" for w
    using assms by (auto dest: keepsD)
  show "ensures (go C) m (\<lambda>_. go C) (go C)"
    using k by (simp add: ensures_def go_def sizes_def settings_def split: sum.split)
  show "ensures (started n) m (\<lambda>_. started n) (started n)"
    using k by (simp add: ensures_def started_def settings_def split: sum.split)
qed

lemma ensures_sizes: "keeps sizes m \<Longrightarrow> ensures (\<lambda>w. sizes w = C \<and> B) m (\<lambda>_ w. sizes w = C \<and> B) (\<lambda>w. sizes w = C)"
  by (simp add: ensures_def keeps_def split: sum.split)

lemma ensures_launch:
  assumes "fst C = n"
  shows "ensures (go C) (andthen (fill_tank devid relay) assign_running_fill) (\<lambda>_. started n) (\<lambda>w. go C w)"
  unfolding fill_tank_def andthen_assoc
proof (rule ensures_andthen [where R = "\<lambda>_. go C"], goal_cases)
  case 1
  show ?case by (rule ensures_go) (intro keeps_intros)+
next
  case (2 x)
  show ?case
  proof (rule ensures_andthen [where R = "\<lambda>_. go C"], goal_cases)
    case 1
    show ?case by (rule ensures_go) (intro keeps_intros; simp)+
  next
    case (2 x)
    show ?case
      using assms join_future_settings
      by (auto simp: ensures_def andthen_def assign_running_fill_def go_def started_def settings_def
          sizes_def enabled_def flag_contents_def)
  qed
qed

lemma ensures_start_fill:
  assumes "fst C = n"
  shows "ensures (\<lambda>w. sizes w = C) (start_fill needed pumpdown)
     (\<lambda>_ w. sizes w = C \<or> (started n w \<and> needed \<and> pumpdown)) (\<lambda>w. sizes w = C)"
  unfolding start_fill_def
proof (rule ensures_andthen [where R = "\<lambda>just w. sizes w = C \<and> (just \<or> needed \<and> pumpdown)"], goal_cases)
  case 1
  have "keeps sizes (reads fill_just_done)" by (intro keeps_intros)
  then show ?case
    by (auto simp: ensures_def keeps_def returns_def split: sum.split)
next
  case (2 just)
  let ?R = "\<lambda>empty w. sizes w = C \<and> (just \<or> needed \<and> pumpdown) \<and> empty = dewar_empty w"
  show ?case
  proof (rule ensures_andthen [where R = ?R], goal_cases)
    case 1
    show ?case by (rule ensures_gets) simp
  next
    case (2 empty)
    show ?case
    proof (rule ensures_if, goal_cases)
      case 1
      have enabled: "ensures (?R empty) is_autofill_enabled
          (\<lambda>b w. sizes w = C \<and> needed \<and> pumpdown \<and> (b \<longrightarrow> go C w)) (\<lambda>w. sizes w = C)"
        by (rule ensures_weaken [OF ensures_is_autofill_enabled
            [of "\<lambda>(l, p, t, d, _). (l, p, t) = C \<and> (just \<or> needed \<and> pumpdown) \<and> empty = d"]])
          (use 1 in \<open>auto simp: settings_def sizes_def go_def\<close>)
      show ?case
      proof (rule ensures_andthen [OF enabled], rule ensures_if, goal_cases)
        case (1 b)
        have launch: "ensures (go C) (andthen (broadcast_notify ''tank'' ''a tank autofill is starting'') (\<lambda>_.
            andthen (gets (\<lambda>w. ws_devid (ids w))) (\<lambda>devid. andthen (fill_tank devid 1) assign_running_fill)))
            (\<lambda>_. started n) (go C)"
          by (rule ensures_andthen [where R = "\<lambda>_. go C"], rule ensures_go, (intro keeps_intros)+,
              rule ensures_andthen [where R = "\<lambda>_. go C"], rule ensures_gets, assumption,
              rule ensures_launch [OF assms])
        show ?case
        proof (cases "needed \<and> pumpdown")
          case True
          then show ?thesis
            by (intro ensures_weaken [OF launch]) (use 1 in \<open>auto simp: go_def\<close>)
        qed (auto simp: ensures_def)
      next
        case (2 b)
        show ?case by (rule ensures_returns) auto
      qed
    next
      case 2
      show ?case by (rule ensures_returns) auto
    qed
  qed
qed

lemma ensures_check_vacuum:
  "ensures (\<lambda>w. sizes w = (n, l, t)) (check_vacuum env)
     (\<lambda>b w. sizes w = (n, l, t) \<and> b = flt (cryostat_pressure env) l) (\<lambda>w. sizes w = (n, l, t))"
  unfolding check_vacuum_def set_pumpdown_status_def
proof (rule ensures_andthen [where R = "\<lambda>limit w. sizes w = (n, l, t) \<and> limit = l"], goal_cases)
  case 1
  show ?case by (rule ensures_gets) (simp add: sizes_def)
next
  case (2 limit)
  have flag: "ensures (\<lambda>w. sizes w = (n, l, t) \<and> limit = l) (set_flag f v)
      (\<lambda>_ w. sizes w = (n, l, t) \<and> limit = l) (\<lambda>w. sizes w = (n, l, t))" for f v
    by (rule ensures_sizes) (intro keeps_intros)
  show ?case
    by (rule ensures_if) (rule ensures_andthen [OF flag], rule ensures_returns, simp)+
qed

lemma ensures_check_tank:
  "ensures (\<lambda>w. sizes w = (n, l, t)) (check_tank env)
     (\<lambda>b w. sizes w = (n, l, t) \<and> (b \<longrightarrow> fgt (tank_temp env) t)) (\<lambda>w. sizes w = (n, l, t))"
  unfolding check_tank_def set_tank_status_def
proof (rule ensures_andthen [where R = "\<lambda>limit w. sizes w = (n, l, t) \<and> limit = t"], goal_cases)
  case 1
  show ?case by (rule ensures_gets) (simp add: sizes_def)
next
  case (2 limit)
  let ?P = "\<lambda>w. sizes w = (n, l, t) \<and> limit = t"
  have step: "ensures ?P m (\<lambda>_. ?P) (\<lambda>w. sizes w = (n, l, t))" if "keeps sizes m" for m :: "(autofill, 'a) prog"
    using that by (rule ensures_sizes)
  show ?case
  proof (rule ensures_if, goal_cases)
    case 1
    have hot: "ensures ?P (m :: (autofill, bool) prog) (\<lambda>b w. sizes w = (n, l, t) \<and> (b \<longrightarrow> fgt (tank_temp env) t))
        (\<lambda>w. sizes w = (n, l, t))" if "keeps sizes m" for m
      using that 1 by (auto simp: ensures_def keeps_def split: sum.split)
    show ?case by (rule hot) (intro keeps_intros)
  next
    case 2
    show ?case
      by (rule ensures_andthen [where R = "\<lambda>_. ?P"], rule step, intro keeps_intros, rule ensures_returns, simp)
  qed
qed

lemma keeps_get_running_fill: "keeps settings get_running_fill" "keeps enabled get_running_fill"
  by (auto simp: keeps_def get_running_fill_def settings_def enabled_def flag_contents_def split: future.split)

lemma keeps_collect_fill: "keeps settings collect_fill" "keeps enabled collect_fill"
  unfolding collect_fill_def by (intro keeps_intros keeps_get_running_fill)+

text \<open>
  C24. When a fill is started. Whatever the fill threads do in between, a tick starts at most one
  fill, and only when the pressure that was measured is below the limit, the tank that was
  measured is warmer than an empty one, the dewar is not known to be empty, and the flag
  autofill_enable of the server is true; this also holds when the tick ends with an exception.
\<close>

theorem fill_only_when_needed:
  assumes "tick now env w = (r, w')" and "length (threads w') \<noteq> length (threads w)"
  shows "length (threads w') = Suc (length (threads w)) \<and>
    flt (cryostat_pressure env) (limit_pressure w) \<and> fgt (tank_temp env) (empty_temp w) \<and>
    \<not> dewar_empty w' \<and> flag_contents w' ''autofill/autofill_enable'' = Some (Boolval True)"
proof -
  obtain n l t where C: "sizes w = (n, l, t)" by (cases "sizes w") auto
  let ?S = "\<lambda>w. sizes w = (n, l, t)"
  let ?Q = "\<lambda>w. ?S w \<or> (started n w \<and> flt (cryostat_pressure env) l \<and> fgt (tank_temp env) t)"
  have late: "ensures ?Q m (\<lambda>_. ?Q) ?Q" if "keeps settings m" "keeps enabled m" for m :: "(autofill, unit) prog"
  proof (rule ensures_disj)
    show "ensures ?S m (\<lambda>_. ?S) ?S"
      using keeps_sizes [OF that(1)] by (simp add: ensures_def keeps_def split: sum.split)
    show "ensures (\<lambda>w. started n w \<and> flt (cryostat_pressure env) l \<and> fgt (tank_temp env) t) m
        (\<lambda>_ w. started n w \<and> flt (cryostat_pressure env) l \<and> fgt (tank_temp env) t)
        (\<lambda>w. started n w \<and> flt (cryostat_pressure env) l \<and> fgt (tank_temp env) t)"
      using ensures_go(2) [OF that, of n] by (auto simp: ensures_def split: sum.splits)
  qed
  have early: "ensures (\<lambda>w. ?S w \<and> B) m (\<lambda>_ w. ?S w \<and> B) ?Q" if "keeps sizes m" for m :: "(autofill, unit) prog" and B
    by (rule ensures_weaken [OF ensures_sizes [OF that, of "(n, l, t)" B]]) auto
  have vacuum: "ensures ?S (check_vacuum env) (\<lambda>b w. ?S w \<and> b = flt (cryostat_pressure env) l) ?Q"
    by (rule ensures_weaken [OF ensures_check_vacuum]) auto
  have "ensures ?S (tick now env) (\<lambda>_. ?Q) ?Q"
    unfolding tick_def checkin_def
  proof (rule ensures_andthen [OF vacuum], goal_cases)
    case (1 pumpdown)
    show ?case
    proof (rule ensures_andthen [OF early [where B = "pumpdown = flt (cryostat_pressure env) l"]], intro keeps_intros,
        rule ensures_andthen [where R = "\<lambda>b w. ?S w \<and> pumpdown = flt (cryostat_pressure env) l \<and> (b \<longrightarrow> fgt (tank_temp env) t)"],
        goal_cases)
      case 1
      show ?case
        using ensures_check_tank [of n l t env] by (auto simp: ensures_def split: sum.splits)
    next
      case (2 _ needed)
      show ?case
      proof (rule ensures_andthen [OF early], intro keeps_intros, rule ensures_andthen [where R = "\<lambda>_. ?Q"], goal_cases)
        case 1
        show ?case
        proof (cases "pumpdown = flt (cryostat_pressure env) l \<and> (needed \<longrightarrow> fgt (tank_temp env) t)")
          case True
          then show ?thesis by (intro ensures_weaken [OF ensures_start_fill [of "(n, l, t)" n]]) auto
        qed (auto simp: ensures_def)
      next
        case (2 _ _)
        show ?case
          by (intro ensures_andthen [where R = "\<lambda>_. ?Q"] late keeps_intros keeps_collect_fill)
            (auto simp: settings_def enabled_def flag_contents_def)
      qed
    qed
  qed
  from ensuresD [OF this C assms(1)] have "?Q w'" by (cases r) auto
  with C assms(2) show ?thesis by (auto simp: sizes_def started_def enabled_def)
qed

definition measured :: "f64 \<Rightarrow> env_data" where
  "measured temp = \<lparr>tank_temp = temp, stage_temp = Fin 0, cryostat_pressure = Fin (1 / 1000000),
     pump_pressure = Fin 0, heater_output = Fin 0, heater_target = Fin 0, cryo_gauge_enable = True,
     pump_gauge_enable = True, vac_pump_rotspeed = 0, vac_pump_powerpercent = 0,
     vac_pump_drivepower = Fin 0, vac_pump_turbo = True, vac_pump_onoff = True, valve_relay_onoff = True\<rparr>"

definition daemon :: autofill where
  "daemon = \<lparr>flags_client = \<lparr>cl_msgid = 0, links = [],
       remote = \<lparr>flag_vars = [(''autofill/autofill_enable'', Boolval True)], pushed = []\<rparr>\<rparr>,
     push_api = None, events = [], relay_calls = [], relay_faults = [], threads = [], sched = [],
     empty_temp = Fin (- 195), limit_pressure = Fin (1 / 10000), dryrun = False,
     ids = \<lparr>ws_devid = 0, tpg_devid = 1, heater_devid = 2, archon_devid = 3, pump_devid = 4, relays_devid = 5\<rparr>,
     logged_tank_empty = False, dewar_empty = False, fill_in_progress = False, fill_just_done = False,
     running_fill = No_state, pb_enable = False, pb_channel = ''''\<rparr>"

theorem fill_only_when_needed_witness:
  "length (threads (snd (tick ''T'' (measured (Fin (- 100))) daemon))) = 1 \<and>
   fgt (tank_temp (measured (Fin (- 100)))) (empty_temp daemon)"
proof
  have n: "length (threads (snd (tick ''T'' (measured (Fin (- 100))) daemon))) = 1"
    by code_simp
  then have "length (threads (snd (tick ''T'' (measured (Fin (- 100))) daemon))) \<noteq> length (threads daemon)"
    by (simp add: daemon_def)
  from fill_only_when_needed [OF surjective_pairing this]
  show "fgt (tank_temp (measured (Fin (- 100)))) (empty_temp daemon)" by blast
  show "length (threads (snd (tick ''T'' (measured (Fin (- 100))) daemon))) = 1" by (rule n)
qed

section \<open>A fill that failed\<close>

text \<open>
  C25. A fill that fails. When the switch that ends a fill throws, the relay stays on: the thread
  reports the fill as complete and ends without another try. The next tick finds the exception
  in the future and tells the users, but then takes the result of the future a second time,
  which has no meaning; the exception itself never arrives.
\<close>

theorem failed_fill_is_lost:
  assumes "i < length (threads w)" and "pc (threads w ! i) = T_relay_off" and "\<not> dryrun w"
    and "relay_faults w = Some e # fs" and "ready (flags_client w)" and "running_fill w = Shared i"
    and "sched w = []" and "\<not> pb_enable w"
  shows "let wA = (thread_step i ^^ 5) w in
    relay_calls wA = relay_calls w \<and> events wA = events w @ [fill_complete] \<and>
    \<not> fill_in_progress wA \<and> t_except (threads wA ! i) = Some e \<and>
    fst (collect_fill wA) = Inl (UB ''get of a future without state'')"
proof -
  let ?t = "threads w ! i"
  define tA where "tA = ?t\<lparr>pc := T_log, t_except := Some e\<rparr>"
  define wA where "wA = w\<lparr>relay_faults := fs, threads := (threads w)[i := tA]\<rparr>"
  have A: "thread_step i w = wA"
    using assms(1-4) by (simp add: thread_step_def fill_dispatch_def execute_fill_def set_relay_def Let_def
        andthen_def wA_def tA_def)
  define wB where "wB = wA\<lparr>events := events w @ [fill_complete], threads := (threads w)[i := tA\<lparr>pc := T_flag\<rparr>]\<rparr>"
  have B: "thread_step i wA = wB"
    using assms(1) by (simp add: thread_step_def fill_dispatch_def LogEvent_def modifies_def wB_def wA_def tA_def)
  obtain c where "set_flag ''autofill/fillactive'' (Boolval False) wB = (Inr (), wB\<lparr>flags_client := c\<rparr>)"
    using assms(5) by (auto simp: set_flag_def on_client_def on_flags_def set_server_flag_ready ready_def
        wB_def wA_def)
  then have C: "thread_step i wB = wB\<lparr>flags_client := c, threads := (threads w)[i := tA\<lparr>pc := T_progress\<rparr>]\<rparr>" (is "_ = ?wC")
    using assms(1) by (simp add: thread_step_def fill_dispatch_def wB_def wA_def tA_def)
  have D: "thread_step i (thread_step i ?wC) = ?wC\<lparr>fill_in_progress := False, fill_just_done := True,
      threads := (threads w)[i := tA\<lparr>pc := T_end, t_result := Inr (Some e)\<rparr>]\<rparr>" (is "_ = ?wE")
    using assms(1) by (simp add: thread_step_def fill_dispatch_def wB_def wA_def tA_def)
  have "(thread_step i ^^ 5) w = thread_step i (thread_step i (thread_step i (thread_step i (thread_step i w))))"
    by (simp add: eval_nat_numeral)
  then have E: "(thread_step i ^^ 5) w = ?wE" by (simp only: A B C D)
  have "fst (collect_fill ?wE) = Inl (UB ''get of a future without state'')"
    using assms(1,6-8) by (simp add: collect_fill_def andthen_def reads_def yields_def gets_def
        thread_ready_def get_running_fill_def broadcast_notify_def wB_def wA_def tA_def)
  then show ?thesis
    unfolding E Let_def using assms(1) by (simp add: wB_def wA_def tA_def)
qed

definition relay_stuck :: autofill where
  "relay_stuck = daemon\<lparr>threads := [\<lparr>pc = T_relay_off, t_devid = 0, t_relay = 1, t_except = None, t_result = Inr None\<rparr>],
     relay_calls := [(0, 1, True)], relay_faults := [Some (Device_error ''timeout'')],
     fill_in_progress := True, running_fill := Shared 0\<rparr>"

theorem failed_fill_is_lost_witness:
  "relay_calls ((thread_step 0 ^^ 5) relay_stuck) = [(0, 1, True)] \<and>
   fst (collect_fill ((thread_step 0 ^^ 5) relay_stuck)) = Inl (UB ''get of a future without state'')"
  using failed_fill_is_lost [of 0 relay_stuck "Device_error ''timeout''" "[]"]
  by (simp add: relay_stuck_def daemon_def ready_def Let_def)

section \<open>After a fill\<close>

text \<open>The threads only ever set the flag that says that a fill has just ended.\<close>

lemma fill_dispatch_just_done: "fill_just_done w \<Longrightarrow> fill_just_done (snd (fill_dispatch t w))"
proof -
  assume j: "fill_just_done w"
  have set: "fill_just_done wA" if "set_flag n v w = (r, wA)" for n v r wA
    using that j by (auto simp: set_flag_def on_client_def split: prod.splits)
  have relay: "fill_just_done wA" if "set_relay d r b w = (q, wA)" for d r b q wA
    using that j by (auto simp: set_relay_def Let_def split: list.splits option.splits)
  have exec: "fill_just_done wA" if "execute_fill t w = (q, wA)" for q wA
    using that j by (cases "pc t") (auto simp: execute_fill_def andthen_def returns_def
        split: if_splits prod.splits sum.splits dest: relay)
  show ?thesis
    using j by (cases "pc t") (auto simp: fill_dispatch_def LogEvent_def modifies_def dest: exec set
        split: prod.split sum.split)
qed

lemma thread_step_just_done: "fill_just_done w \<Longrightarrow> fill_just_done (thread_step i w)"
  using fill_dispatch_just_done [of w "threads w ! i"] by (auto simp: thread_step_def split: prod.split)

definition just_done :: "nat \<times> f64 \<times> f64 \<Rightarrow> autofill \<Rightarrow> bool" where
  "just_done C w \<longleftrightarrow> fill_just_done w \<and> sizes w = C"

lemma maintains_just_done [maintains_intros]:
  "maintains (just_done C) (on_client m)" "maintains (just_done C) (set_flag n v)"
  "maintains (just_done C) (get_flag n)" "maintains (just_done C) (LogEvent e)"
  "maintains (just_done C) yields" "maintains (just_done C) (reads f)"
proof -
  show c: "maintains (just_done C) (on_client m)" for m :: "(flag_server client, 'x) prog"
    by (auto simp: maintains_def on_client_def just_done_def sizes_def split: prod.split)
  show "maintains (just_done C) (set_flag n v)" "maintains (just_done C) (get_flag n)"
    unfolding set_flag_def get_flag_def by (rule c)+
  show "maintains (just_done C) (LogEvent e)"
    by (simp add: maintains_def LogEvent_def modifies_def just_done_def sizes_def)
  have "just_done C w \<Longrightarrow> just_done C (fold thread_step is w)" for "is" w
    by (induction "is" arbitrary: w)
      (use thread_step_same(1) in \<open>auto simp: just_done_def thread_step_just_done sizes_def settings_def\<close>)
  then show y: "maintains (just_done C) yields"
    by (auto simp: maintains_def yields_def split: list.split) (auto simp: just_done_def sizes_def)
  show "maintains (just_done C) (reads f)"
    unfolding reads_def by (intro maintains_intros y)
qed

lemma maintains_broadcast_notify [maintains_intros]: "maintains (just_done C) (broadcast_notify title body)"
  unfolding maintains_def
proof (intro allI impI)
  fix w
  assume j: "just_done C w"
  have "maintains (just_done C) (catches (on_client (BroadcastNotification (push_api w) body (Some title) (Some (pb_channel w))))
        (\<lambda>e. case e of Server_error _ \<Rightarrow> returns () | Protocol_error _ \<Rightarrow> returns ()
           | Protocol_timeout _ \<Rightarrow> returns () | _ \<Rightarrow> throws e))"
    by (intro maintains_catches maintains_intros) (auto split: error.split intro: maintains_intros)
  with j show "just_done C (snd (broadcast_notify title body w))"
    by (simp add: broadcast_notify_def maintains_def)
qed

lemma maintains_parts [maintains_intros]:
  "maintains (just_done C) (check_vacuum env)" "maintains (just_done C) check_dewar"
  "maintains (just_done C) report_tank_empty"
  unfolding check_vacuum_def check_dewar_def report_tank_empty_def set_pumpdown_status_def
    set_dewar_status_def was_dewar_filled_def clear_dewar_filled_def catch_out_of_range_def
  by (intro maintains_intros; auto simp: just_done_def sizes_def split: error.split intro: maintains_intros)+

lemma ensures_just_done:
  "maintains (just_done C) m \<Longrightarrow> ensures (just_done C) m (\<lambda>_. just_done C) (\<lambda>_. True)"
  by (rule ensures_weaken [OF ensures_maintains]) auto

definition dewar_out :: "nat \<times> f64 \<times> f64 \<Rightarrow> autofill \<Rightarrow> bool" where
  "dewar_out C w \<longleftrightarrow> dewar_empty w \<and> sizes w = C"

lemma ensures_dewar_out:
  "keeps settings m \<Longrightarrow> ensures (dewar_out C) m (\<lambda>_. dewar_out C) (\<lambda>_. True)"
  by (auto simp: ensures_def keeps_def dewar_out_def sizes_def settings_def split: sum.split)

lemma report_dewar_empty_Inr:
  assumes "just_done C w" and "report_dewar_empty w = (r, w')" and "r = Inr x"
  shows "dewar_out C w'"
proof -
  have "sizes w' = sizes w"
    using assms(2) keepsD [OF sizes_reports(2), of w] by simp
  moreover have "dewar_empty w'"
    using assms(2,3) by (auto simp: report_dewar_empty_def andthen_def modifies_def gets_def
        split: prod.splits sum.splits if_splits)
  ultimately show ?thesis using assms(1) by (simp add: dewar_out_def just_done_def)
qed

lemma ensures_check_tank_after_fill:
  assumes "fgt (tank_temp env) t"
  shows "ensures (just_done (n, l, t)) (check_tank env) (\<lambda>b w. \<not> b \<and> dewar_out (n, l, t) w) (\<lambda>_. True)"
  unfolding check_tank_def set_tank_status_def
proof (rule ensures_andthen [where R = "\<lambda>limit w. just_done (n, l, t) w \<and> limit = t"], goal_cases)
  case 1
  show ?case by (rule ensures_gets) (simp add: just_done_def sizes_def)
next
  case (2 limit)
  let ?J = "just_done (n, l, t)"
  have reads: "ensures ?J (reads fill_just_done) (\<lambda>b w. b \<and> ?J w) (\<lambda>_. True)"
    using maintains_just_done(5) [of "(n, l, t)"]
    by (auto simp: reads_def ensures_def maintains_def andthen_def gets_def just_done_def
        split: prod.splits sum.splits)
  have report: "ensures ?J report_dewar_empty (\<lambda>_. dewar_out (n, l, t)) (\<lambda>_. True)"
    by (auto simp: ensures_def split: sum.split)
      (metis report_dewar_empty_Inr surjective_pairing)
  have "ensures ?J (andthen report_tank_empty (\<lambda>_.
       andthen (set_flag ''autofill/tank_full'' (Boolval False)) (\<lambda>_.
       andthen (reads fill_just_done) (\<lambda>just.
       if just then andthen report_dewar_empty (\<lambda>_. returns False)
       else andthen (reads fill_in_progress) (\<lambda>busy. returns (\<not> busy))))))
      (\<lambda>b w. \<not> b \<and> dewar_out (n, l, t) w) (\<lambda>_. True)"
  proof (rule ensures_andthen [OF ensures_just_done], rule maintains_parts,
      rule ensures_andthen [OF ensures_just_done], rule maintains_just_done,
      rule ensures_andthen [OF reads], goal_cases)
    case (1 _ _ just)
    show ?case
    proof (cases just)
      case True
      have "ensures ?J (andthen report_dewar_empty (\<lambda>_. returns False)) (\<lambda>b w. \<not> b \<and> dewar_out (n, l, t) w) (\<lambda>_. True)"
        by (rule ensures_andthen [OF report], rule ensures_returns) simp
      with True show ?thesis by simp
    qed (simp add: ensures_def)
  qed
  with assms show ?case by (cases "limit = t") (simp_all add: ensures_def)
qed

text \<open>
  After a fill that did not help. When a fill has ended and the tank is still warm, a tick
  that returns notes that the dewar is empty and starts no fill, whatever the threads do.
\<close>

theorem dewar_declared_empty:
  assumes "fill_just_done w" and "fgt (tank_temp env) (empty_temp w)" and "tick now env w = (Inr (), w')"
  shows "dewar_empty w' \<and> length (threads w') = length (threads w)"
proof -
  obtain n l t where C: "sizes w = (n, l, t)" by (cases "sizes w") auto
  with assms have J: "just_done (n, l, t) w" and hot: "fgt (tank_temp env) t"
    by (auto simp: just_done_def sizes_def)
  let ?D = "dewar_out (n, l, t)"
  have no_fill: "start_fill False pumpdown = andthen (gets dewar_empty) (\<lambda>_. returns ())" for pumpdown
    by (simp add: start_fill_def)
  have "ensures (just_done (n, l, t)) (tick now env) (\<lambda>_. ?D) (\<lambda>_. True)"
    unfolding tick_def checkin_def
  proof (rule ensures_andthen [OF ensures_just_done], rule maintains_parts,
      rule ensures_andthen [OF ensures_just_done], rule maintains_parts,
      rule ensures_andthen [OF ensures_check_tank_after_fill [OF hot]], goal_cases)
    case (1 pumpdown _ needed)
    have "ensures ?D (andthen (set_flag ''autofill/autofill_checkin'' (Stringval now)) (\<lambda>_.
        andthen (start_fill False pumpdown) (\<lambda>_. andthen yields (\<lambda>_.
        andthen (modifies (\<lambda>w. w\<lparr>fill_just_done := False\<rparr>)) (\<lambda>_. collect_fill))))) (\<lambda>_. ?D) (\<lambda>_. True)"
      unfolding no_fill
      by (intro ensures_andthen [where R = "\<lambda>_. ?D"] ensures_dewar_out keeps_intros keeps_collect_fill)
        (auto simp: settings_def)
    then show ?case by (cases needed) (simp_all add: ensures_def)
  qed
  from ensuresD [OF this J assms(3)] C show ?thesis by (simp add: dewar_out_def sizes_def)
qed

theorem dewar_declared_empty_witness:
  "dewar_empty (snd (tick ''T'' (measured (Fin (- 100))) (daemon\<lparr>fill_just_done := True\<rparr>)))"
proof -
  let ?w = "daemon\<lparr>fill_just_done := True\<rparr>"
  have "fst (tick ''T'' (measured (Fin (- 100))) ?w) = Inr ()" by code_simp
  then have "tick ''T'' (measured (Fin (- 100))) ?w = (Inr (), snd (tick ''T'' (measured (Fin (- 100))) ?w))"
    by (metis prod.collapse)
  from dewar_declared_empty [OF _ _ this] show ?thesis
    by (simp add: daemon_def measured_def fgt_def)
qed

end
