(* ===== verification/Wire_Types.thy ===== *)
theory Wire_Types
  imports Flag_Map
begin

text \<open>
  Values on the wire: core/src/typeUtil.cpp, core/include/foxtrot/device_utils.hh,
  core/src/ft_tuple_helper.cc and the messages of core/proto/ft_types.proto.

  The reflection library (rttr) is not part of the repository: what the code asks of a variant
  or a type is an argument, the record \<open>rttr\<close>. A \<open>double\<close> is its 64 bits, and \<open>std_value\<close>
  holds a \<open>float\<close> as the double of the same value.

  The conversions call themselves on the parts of a value. \<open>n\<close> bounds the depth of these calls;
  \<open>UB\<close> stands for the stack overflow of a value that is deeper than that. \<open>lg\<close> says whether a logger
  was passed. A field that a message lacks ends the process in \<open>Map::at\<close> of protobuf, and so is
  \<open>UB\<close> too.
\<close>

section \<open>Messages\<close>

datatype byte_data_types =
    UCHAR_TYPE | CHAR_TYPE | USHORT_TYPE | UINT_TYPE | ULONG_TYPE | SHORT_TYPE | IINT_TYPE | LONG_TYPE
  | BFLOAT_TYPE | BDOUBLE_TYPE | BCOMPLEX_TYPE | BDATETIME_TYPE | BOPAQUE_TYPE

datatype variant_types =
    SIMPLEVAR_TYPE | STRUCT_TYPE | ENUM_TYPE | TUPLE_TYPE | HOMOG_ARRAY_TYPE | UNION_TYPE | DYNAMIC_TYPE

datatype simplevalue_types =
    FLOAT_TYPE | INT_TYPE | UNSIGNED_TYPE | BOOL_TYPE | STRING_TYPE | VOID_TYPE | DATETIME_TYPE | REMOTE_HANDLE_TYPE

datatype simple_value =
    No_value | Dblval "64 word" | Intval int | Uintval int | Boolval bool | Stringval string | Handleval "64 word"

record ft_simplevariant =
  simple_val :: simple_value
  simple_size :: nat
  is_void :: bool

record enum_descriptor =
  enum_name :: string
  enum_map :: "(string \<times> 32 word) list"

datatype ft_variant =
    No_variant
  | Simplevar ft_simplevariant
  | Structval string "(string \<times> ft_variant) list"
  | Enumval enum_descriptor "32 word"
  | Tupleval "ft_variant list"
  | Arrayval ft_homog_array
and ft_homog_array =
    No_array
  | Arr_decoded
  | Arr_encoded byte_data_types "8 word list"
  | Arr_heavy "ft_variant list"

section \<open>What the reflection library answers\<close>

datatype scalar = K_uchar | K_char | K_ushort | K_uint | K_ulong | K_short | K_int | K_long | K_llong | K_ullong
  | K_float | K_double | K_bool

datatype std_value = Int_value scalar int | Real_value scalar "64 word" | Bool_value bool | String_value string

record ('v, 't) rttr =
  r_type :: "'v \<Rightarrow> 't"
  r_valid :: "'v \<Rightarrow> bool"
  r_of_simple :: "simple_value \<Rightarrow> 'v"
  r_of_uint :: "32 word \<Rightarrow> 'v"
  r_std :: "'v \<Rightarrow> std_value option"
  r_wrapped_std :: "'v \<Rightarrow> std_value option"
  r_to_uint32 :: "'v \<Rightarrow> 32 word option"
  r_can_convert :: "'v \<Rightarrow> 't \<Rightarrow> bool"
  r_convert :: "'v \<Rightarrow> 't \<Rightarrow> 'v option"
  r_property :: "'v \<Rightarrow> string \<Rightarrow> 'v"
  r_set_property :: "'v \<Rightarrow> string \<Rightarrow> 'v \<Rightarrow> 'v"
  r_tuple_get :: "'v \<Rightarrow> nat \<Rightarrow> 'v"
  r_union_get :: "'v \<Rightarrow> 'v"
  r_create :: "'t \<Rightarrow> 'v list \<Rightarrow> 'v"
  seq_rank :: "'v \<Rightarrow> nat"
  seq_value_type :: "'v \<Rightarrow> 't"
  seq_items :: "'v \<Rightarrow> 'v list"
  seq_bytes :: "'v \<Rightarrow> scalar \<Rightarrow> 8 word list"
  seq_dynamic :: "'v \<Rightarrow> bool"
  seq_set_size :: "'v \<Rightarrow> nat \<Rightarrow> 'v"
  ty_valid :: "'t \<Rightarrow> bool"
  ty_name :: "'t \<Rightarrow> string"
  ty_wrapped :: "'t \<Rightarrow> 't option"
  ty_ft_type :: "'t \<Rightarrow> variant_types option"
  ty_unionmeta :: "'t \<Rightarrow> bool"
  ty_is_enum :: "'t \<Rightarrow> bool"
  ty_is_seq :: "'t \<Rightarrow> bool"
  ty_is_class :: "'t \<Rightarrow> bool"
  ty_is_pointer :: "'t \<Rightarrow> bool"
  ty_is_arithmetic :: "'t \<Rightarrow> bool"
  ty_methods :: "'t \<Rightarrow> nat"
  ty_constructors :: "'t \<Rightarrow> nat"
  ty_properties :: "'t \<Rightarrow> (string \<times> 't) list"
  ty_enum_values :: "'t \<Rightarrow> (string \<times> 32 word) list"
  ty_tuple :: "'t \<Rightarrow> 't list option"
  ty_sizeof :: "'t \<Rightarrow> nat"
  ty_template_args :: "'t \<Rightarrow> 't list"
  ty_is_template :: "'t \<Rightarrow> bool"
  ty_union_get :: "'t \<Rightarrow> bool"
  ty_scalar :: "scalar \<Rightarrow> 't"
  ty_void :: 't
  ty_string :: 't
  ty_any :: 't

text \<open>The store of remote values with the numbers that its random generator will draw.\<close>

record 'v store =
  held_values :: "'v handles"
  draws :: "nat \<Rightarrow> 64 word"
  drawn :: nat

definition add_handle :: "'v \<Rightarrow> ('v store, 64 word) prog" where
  "add_handle v s = (case handle_add (draws s (drawn s)) v (held_values s) of
     (r, vs) \<Rightarrow> (r, s\<lparr>held_values := vs, drawn := drawn s + 1\<rparr>))"

fun each :: "('a \<Rightarrow> ('s, 'b) prog) \<Rightarrow> 'a list \<Rightarrow> ('s, 'b list) prog" where
  "each f [] = returns []"
| "each f (x # xs) = andthen (f x) (\<lambda>y. andthen (each f xs) (\<lambda>ys. returns (y # ys)))"

fun each_result :: "('a \<Rightarrow> 'b result) \<Rightarrow> 'a list \<Rightarrow> 'b list result" where
  "each_result f [] = Inr []"
| "each_result f (x # xs) = rbind (f x) (\<lambda>y. rbind (each_result f xs) (\<lambda>ys. Inr (y # ys)))"

section \<open>Simple values\<close>

text \<open>The table of byte types, with both kinds of \<open>short\<close> under one tag as it stands.\<close>

definition bdt_map :: "(scalar \<times> byte_data_types) list" where
  "bdt_map = [(K_uchar, UCHAR_TYPE), (K_char, CHAR_TYPE), (K_ushort, USHORT_TYPE), (K_uint, UINT_TYPE),
     (K_ulong, ULONG_TYPE), (K_short, USHORT_TYPE), (K_int, IINT_TYPE), (K_long, LONG_TYPE),
     (K_float, BFLOAT_TYPE), (K_double, BDOUBLE_TYPE)]"

definition bdt_entry :: "('v, 't) rttr \<Rightarrow> 't \<Rightarrow> (scalar \<times> byte_data_types) option" where
  "bdt_entry ops tp = find (\<lambda>(k, _). ty_scalar ops k = tp) bdt_map"

definition get_byte_data_type :: "('v, 't) rttr \<Rightarrow> 't \<Rightarrow> byte_data_types result" where
  "get_byte_data_type ops tp = (case bdt_entry ops tp of
     None \<Rightarrow> Inl (Logic_error (''couldn'' @ [CHR 0x27] @ ''t get byte data type'')) | Some (_, b) \<Rightarrow> Inr b)"
  
text \<open>For a wrapper \<open>done\<close> is set whether or not a type matched, and an unmatched value stays the
  first alternative, \<open>false\<close>. Without a wrapper and without a match it is never set.\<close>

definition rttr_to_std_variant_converter :: "('v, 't) rttr \<Rightarrow> 'v \<Rightarrow> std_value result" where
  "rttr_to_std_variant_converter ops v =
     (if ty_wrapped ops (r_type ops v) \<noteq> None
      then Inr (case r_wrapped_std ops v of Some x \<Rightarrow> x | None \<Rightarrow> Bool_value False)
      else (case r_std ops v of
         Some x \<Rightarrow> Inr x | None \<Rightarrow> Inl (UB ''flag that was never set'')))"

fun scalar_size :: "scalar \<Rightarrow> nat" where
  "scalar_size K_uchar = 1" | "scalar_size K_char = 1" | "scalar_size K_bool = 1"
| "scalar_size K_ushort = 2" | "scalar_size K_short = 2"
| "scalar_size K_uint = 4" | "scalar_size K_int = 4" | "scalar_size K_float = 4"
| "scalar_size K_ulong = 8" | "scalar_size K_long = 8" | "scalar_size K_llong = 8" | "scalar_size K_ullong = 8"
| "scalar_size K_double = 8"

definition signed_kind :: "scalar \<Rightarrow> bool" where
  "signed_kind k \<longleftrightarrow> k \<in> {K_int, K_short, K_char, K_long}"

fun wire_of_std :: "std_value \<Rightarrow> ft_simplevariant" where
  "wire_of_std (Real_value k d) = \<lparr>simple_val = Dblval d, simple_size = scalar_size k, is_void = False\<rparr>"
| "wire_of_std (Bool_value b) = \<lparr>simple_val = Boolval b, simple_size = 1, is_void = False\<rparr>"
| "wire_of_std (Int_value k i) = \<lparr>simple_val = (if signed_kind k then Intval i else Uintval i),
     simple_size = scalar_size k, is_void = False\<rparr>"
| "wire_of_std (String_value s) = \<lparr>simple_val = Stringval s, simple_size = 32, is_void = False\<rparr>"

definition void_wire :: ft_simplevariant where
  "void_wire = \<lparr>simple_val = No_value, simple_size = 0, is_void = True\<rparr>"

definition unwrapped :: "('v, 't) rttr \<Rightarrow> bool \<Rightarrow> 't \<Rightarrow> 't" where
  "unwrapped ops unwrap tp = (case ty_wrapped ops tp of Some t \<Rightarrow> if unwrap then t else tp | None \<Rightarrow> tp)"

definition get_simple_variant_wire_type :: "('v, 't) rttr \<Rightarrow> 'v \<Rightarrow> bool \<Rightarrow> ft_simplevariant result" where
  "get_simple_variant_wire_type ops v unwrap =
     (if \<not> ty_valid ops (r_type ops v)
      then Inl (Logic_error ''invalid RTTR type from variant in get_simple_variant_wire_type'')
      else if unwrapped ops unwrap (r_type ops v) = ty_void ops then Inr void_wire
      else if \<not> r_valid ops v then Inl (Logic_error ''simple_variant got invalid input!'')
      else rbind (rttr_to_std_variant_converter ops v) (\<lambda>x. Inr (wire_of_std x)))"

section \<open>From variants to messages\<close>

definition is_POD_struct :: "('v, 't) rttr \<Rightarrow> 't \<Rightarrow> bool" where
  "is_POD_struct ops tp = ((ty_is_class ops tp \<or> ty_is_enum ops tp) \<and> ty_methods ops tp = 0 \<and>
     ty_constructors ops tp \<noteq> 0)"

text \<open>The bytes of the items in order. The code notes whether the items are wrapped in an optional
  that is never engaged; its storage is written and read anyway.\<close>

definition variant_to_bytes :: "('v, 't) rttr \<Rightarrow> 'v \<Rightarrow> bool \<Rightarrow> 8 word list result" where
  "variant_to_bytes ops v check =
     (if check \<and> \<not> ty_is_seq ops (r_type ops v)
      then Inl (Logic_error (''variant is not a sequential container, can'' @ [CHR 0x27] @ ''t turn it into bytes!!!''))
      else if check \<and> seq_rank ops v = 0
      then Inl (Logic_error ''can only deal with rank 1 arrays for now!'')
      else (case bdt_entry ops (seq_value_type ops v) of
         None \<Rightarrow> Inl (Logic_error ''failed to convert array to bytes'')
       | Some (k, _) \<Rightarrow> Inr (concat (map (\<lambda>item. seq_bytes ops item k) (seq_items ops v)))))"

definition describe_enum :: "('v, 't) rttr \<Rightarrow> 't \<Rightarrow> enum_descriptor" where
  "describe_enum ops tp = \<lparr>enum_name = ty_name ops tp, enum_map = ty_enum_values ops tp\<rparr>"

definition get_enum_wire_type :: "('v, 't) rttr \<Rightarrow> 'v \<Rightarrow> ft_variant result" where
  "get_enum_wire_type ops v = (case r_to_uint32 ops v of
     None \<Rightarrow> Inl (Logic_error ''failed to convert an enum value'')
   | Some n \<Rightarrow> Inr (Enumval (describe_enum ops (r_type ops v)) n))"

definition tuple_size :: "('v, 't) rttr \<Rightarrow> 't \<Rightarrow> nat result" where
  "tuple_size ops tp = (case ty_tuple ops tp of
     None \<Rightarrow> Inl (Logic_error (''size property isn'' @ [CHR 0x27] @ ''t valid. Perhaps tuple type isn'' @ [CHR 0x27] @ ''t registered''))
   | Some ts \<Rightarrow> Inr (length ts))"

text \<open>The parts of a value are converted by \<open>rec\<close>, the conversion of variants itself.\<close>

definition get_struct_wire_type ::
  "('v, 't) rttr \<Rightarrow> ('v \<Rightarrow> bool \<Rightarrow> ('v store, ft_variant) prog) \<Rightarrow> 'v \<Rightarrow> ('v store, ft_variant) prog" where
  "get_struct_wire_type ops rec v = andthen
     (each (\<lambda>(name, _). andthen (rec (r_property ops v name) False) (\<lambda>w. returns (name, w)))
       (ty_properties ops (r_type ops v)))
     (\<lambda>fields. returns (Structval (ty_name ops (r_type ops v)) fields))"

definition get_tuple_wire_type ::
  "('v, 't) rttr \<Rightarrow> ('v \<Rightarrow> bool \<Rightarrow> ('v store, ft_variant) prog) \<Rightarrow> 'v \<Rightarrow> ('v store, ft_variant) prog" where
  "get_tuple_wire_type ops rec v = andthen (lifts (tuple_size ops (unwrapped ops True (r_type ops v)))) (\<lambda>sz.
     andthen (each (\<lambda>i. rec (r_tuple_get ops v i) False) [0..<sz]) (\<lambda>ws. returns (Tupleval ws)))"

fun is_logic_error :: "error \<Rightarrow> bool" where
  "is_logic_error (Logic_error _) = True"
| "is_logic_error (Out_of_range _) = True"
| "is_logic_error (Invalid_argument _) = True"
| "is_logic_error _ = False"

definition encoded_array :: "('v, 't) rttr \<Rightarrow> 'v \<Rightarrow> ft_homog_array result" where
  "encoded_array ops v = rbind (get_byte_data_type ops (seq_value_type ops v)) (\<lambda>bdt.
     rbind (variant_to_bytes ops v False) (\<lambda>bs. Inr (Arr_encoded bdt bs)))"

definition get_array_wire_type ::
  "('v, 't) rttr \<Rightarrow> ('v \<Rightarrow> bool \<Rightarrow> ('v store, ft_variant) prog) \<Rightarrow> 'v \<Rightarrow> ('v store, ft_variant) prog" where
  "get_array_wire_type ops rec v =
     (if seq_rank ops v > 1
      then throws (Base_error ''unable to deal with arrays of greater than rank 1'')
      else (case encoded_array ops v of
         Inr arr \<Rightarrow> returns (Arrayval arr)
       | Inl e \<Rightarrow> if is_logic_error e
           then andthen (each (\<lambda>item. rec item True) (seq_items ops v)) (\<lambda>ws. returns (Arrayval (Arr_heavy ws)))
           else throws e))"

definition variant_wire_by_shape ::
  "('v, 't) rttr \<Rightarrow> ('v \<Rightarrow> bool \<Rightarrow> ('v store, ft_variant) prog) \<Rightarrow> 'v \<Rightarrow> bool \<Rightarrow> 't \<Rightarrow> ('v store, ft_variant) prog" where
  "variant_wire_by_shape ops rec v unwrap tp =
     (if tp = ty_void ops then returns (Simplevar \<lparr>simple_val = No_value, simple_size = 0, is_void = True\<rparr>)
      else if \<not> r_valid ops v then throws (Logic_error ''get_variant_wire_type: got invalid variant to convert!'')
      else if ty_is_enum ops tp then lifts (get_enum_wire_type ops v)
      else if ty_is_seq ops tp then get_array_wire_type ops rec v
      else if ty_is_class ops tp \<and> tp \<noteq> ty_string ops \<and> is_POD_struct ops tp then get_struct_wire_type ops rec v
      else if ty_wrapped ops tp \<noteq> None \<or> tp = ty_any ops \<or> ty_is_pointer ops tp
      then andthen (add_handle v) (\<lambda>key.
        returns (Simplevar \<lparr>simple_val = Handleval key, simple_size = 0, is_void = False\<rparr>))
      else if ty_is_class ops tp \<and> tp \<noteq> ty_string ops
      then throws (Logic_error (''dont understand how to convert type: '' @ ty_name ops tp))
      else lifts (rbind (get_simple_variant_wire_type ops v unwrap) (\<lambda>w. Inr (Simplevar w))))"

primrec get_variant_wire_type :: "('v, 't) rttr \<Rightarrow> nat \<Rightarrow> 'v \<Rightarrow> bool \<Rightarrow> ('v store, ft_variant) prog" where
  "get_variant_wire_type ops 0 = (\<lambda>v unwrap. throws (UB ''recursion too deep''))"
| "get_variant_wire_type ops (Suc n) = (\<lambda>v unwrap.
     (let tp = unwrapped ops unwrap (r_type ops v); rec = get_variant_wire_type ops n
      in if \<not> ty_valid ops (r_type ops v) then throws (Logic_error ''got invalid RTTR type, this is a foxtrot bug'')
      else (case ty_ft_type ops tp of
          Some TUPLE_TYPE \<Rightarrow> get_tuple_wire_type ops rec v
        | Some UNION_TYPE \<Rightarrow> rec (r_union_get ops v) unwrap
        | _ \<Rightarrow> variant_wire_by_shape ops rec v unwrap tp)))"

section \<open>From messages to variants\<close>

definition converted :: "('v, 't) rttr \<Rightarrow> error \<Rightarrow> error \<Rightarrow> 'v \<Rightarrow> 't \<Rightarrow> 'v result" where
  "converted ops cannot failed v tp =
     (if \<not> r_can_convert ops v tp then Inl cannot
      else (case r_convert ops v tp of None \<Rightarrow> Inl failed | Some v' \<Rightarrow> Inr v'))"

definition enum_to_variant :: "('v, 't) rttr \<Rightarrow> 32 word \<Rightarrow> 't \<Rightarrow> 'v result" where
  "enum_to_variant ops x tp =
     (if \<not> ty_is_enum ops tp then Inl (Logic_error ''target type is not an enumeration!'')
      else converted ops
        (Runtime_error (''can'' @ [CHR 0x27] @ ''t convert received type: '' @ ty_name ops (r_type ops (r_of_uint ops x)) @
           ''to target type: '' @ ty_name ops tp))
        (Runtime_error ''conversion is possible, but failed for some reason'')
        (r_of_uint ops x) tp)"

definition tuple_element_type :: "('v, 't) rttr \<Rightarrow> 't \<Rightarrow> nat \<Rightarrow> 't result" where
  "tuple_element_type ops tp i = (case ty_tuple ops tp of
     None \<Rightarrow> Inl (Logic_error (''tuple doesn'' @ [CHR 0x27] @ ''t have a type method. Perhaps it isn'' @ [CHR 0x27] @ ''t registered''))
   | Some ts \<Rightarrow> if i < length ts then Inr (ts ! i)
       else Inl (Logic_error (''type of return isn'' @ [CHR 0x27] @ ''t an rttr::type... this is invalid'')))"

definition tuple_to_variant ::
  "('v, 't) rttr \<Rightarrow> (ft_variant \<Rightarrow> 't \<Rightarrow> 'v result) \<Rightarrow> ft_variant list \<Rightarrow> 't \<Rightarrow> 'v result" where
  "tuple_to_variant ops rec ws tp = rbind (tuple_size ops tp) (\<lambda>sz.
     if length ws \<noteq> sz then Inl (Runtime_error ''mismatch of target and wire type value sizes'')
     else rbind (each_result (\<lambda>(i, w). rbind (tuple_element_type ops tp i) (\<lambda>t. rec w t)) (enumerate 0 ws)) (\<lambda>args.
       if \<not> r_valid ops (r_create ops tp args)
       then Inl (Runtime_error ''failed to create tuple type with given arguments'')
       else Inr (r_create ops tp args)))"

text \<open>Whether a property could be set is not looked at.\<close>

fun set_fields ::
  "('v, 't) rttr \<Rightarrow> (ft_variant \<Rightarrow> 't \<Rightarrow> 'v result) \<Rightarrow> (string \<times> ft_variant) list \<Rightarrow>
   (string \<times> 't) list \<Rightarrow> 'v \<Rightarrow> 'v result" where
  "set_fields ops rec ws [] v = Inr v"
| "set_fields ops rec ws ((name, tp) # props) v = (case map_of ws name of
     None \<Rightarrow> Inl (UB ''Map::at of a missing key'')
   | Some w \<Rightarrow> rbind (rec w tp) (\<lambda>x. set_fields ops rec ws props (r_set_property ops v name x)))"

definition struct_to_variant ::
  "('v, 't) rttr \<Rightarrow> (ft_variant \<Rightarrow> 't \<Rightarrow> 'v result) \<Rightarrow> (string \<times> ft_variant) list \<Rightarrow> 't \<Rightarrow> 'v result" where
  "struct_to_variant ops rec ws tp =
     (if \<not> ty_is_class ops tp then Inl (Runtime_error ''target type is not a struct!'')
      else if \<not> r_valid ops (r_create ops tp [])
      then Inl (Runtime_error ''failed to construct target struct type!'')
      else set_fields ops rec ws (ty_properties ops tp) (r_create ops tp []))"

definition simple_to_variant ::
  "('v, 't) rttr \<Rightarrow> 'v handles \<Rightarrow> ft_simplevariant \<Rightarrow> 't \<Rightarrow> bool \<Rightarrow> 'v result" where
  "simple_to_variant ops hs w tp check = rbind
     (case simple_val w of
        Handleval h \<Rightarrow> rbind (handle_lookup h hs) (\<lambda>x. Inr (case x of Held v \<Rightarrow> v | Held_pair _ v \<Rightarrow> v))
      | x \<Rightarrow> Inr (r_of_simple ops x))
     (\<lambda>v. if check
       then converted ops
         (Runtime_error (''cannot convert wire type received: '' @ ty_name ops (r_type ops v) @
            '' to target type: '' @ ty_name ops tp))
         (Runtime_error ''type conversion is possible, but failed somehow'') v tp
       else Inr v)"

text \<open>The flag that the code tests has no initial value, and nothing sets it.\<close>

definition bytes_to_variant :: "('v, 't) rttr \<Rightarrow> 8 word list \<Rightarrow> 't \<Rightarrow> 'v result" where
  "bytes_to_variant ops bs tp = Inl (UB ''flag that was never set'')"

text \<open>An encoded array is refused. For any other array the code goes on with the encoded array that
  protobuf gives for a field that is not set: no data, and the first byte type.\<close>

definition sized_array :: "('v, 't) rttr \<Rightarrow> 8 word list \<Rightarrow> 't \<Rightarrow> 'v result" where
  "sized_array ops bs tp = (let out = r_create ops tp [] in
     if seq_dynamic ops out then Inr (seq_set_size ops out (length bs))
     else if length (seq_items ops out) \<noteq> length bs then Inl (Base_error ''invalid array size passed'')
     else Inr out)"

definition encoded_to_variant ::
  "('v, 't) rttr \<Rightarrow> bool \<Rightarrow> byte_data_types \<Rightarrow> 8 word list \<Rightarrow> 't \<Rightarrow> 'v result" where
  "encoded_to_variant ops lg dtp bs tp =
     (if \<not> ty_is_seq ops tp then Inl (Logic_error ''tried to create an array at non target array type'')
      else rbind (sized_array ops bs tp) (\<lambda>out.
        if seq_rank ops out \<noteq> 1 then Inl (Logic_error ''can only handle arrays of rank 1 at present!'')
        else rbind (get_byte_data_type ops (seq_value_type ops out)) (\<lambda>bdt.
          if bdt \<noteq> dtp \<and> lg then Inl (Base_error ''invalid byte data type passed!'')
          else rbind (each_result (\<lambda>_. bytes_to_variant ops bs (seq_value_type ops out)) (seq_items ops out))
            (\<lambda>_. Inr out))))"

fun wire_type_to_array :: "('v, 't) rttr \<Rightarrow> bool \<Rightarrow> ft_homog_array \<Rightarrow> 't \<Rightarrow> 'v result" where
  "wire_type_to_array ops lg (Arr_encoded dtp bs) tp =
     Inl (Logic_error (''can'' @ [CHR 0x27] @ ''t deal with decoded arrays at the moment!''))"
| "wire_type_to_array ops lg arr tp = encoded_to_variant ops lg UCHAR_TYPE [] tp"

text \<open>The variant made for a union is dropped; the value itself is converted.\<close>

definition matched :: "('v, 't) rttr \<Rightarrow> 't \<Rightarrow> 'v \<Rightarrow> 'v result" where
  "matched ops tp v =
     (if r_type ops v = tp then Inr v
      else converted ops (Runtime_error (''won'' @ [CHR 0x27] @ ''t be able to convert this type!''))
        (Runtime_error ''type conversion is possible but this one failed!'') v tp)"

definition variant_by_case ::
  "('v, 't) rttr \<Rightarrow> bool \<Rightarrow> 'v handles \<Rightarrow> (ft_variant \<Rightarrow> 't \<Rightarrow> 'v result) \<Rightarrow> ft_variant \<Rightarrow> 't \<Rightarrow> 'v result" where
  "variant_by_case ops lg hs rec w tp = (case w of
     Simplevar x \<Rightarrow> simple_to_variant ops hs x tp (\<not> ty_unionmeta ops tp)
   | Enumval _ x \<Rightarrow> enum_to_variant ops x tp
   | Arrayval arr \<Rightarrow> wire_type_to_array ops lg arr tp
   | Structval _ ws \<Rightarrow> struct_to_variant ops rec ws tp
   | Tupleval ws \<Rightarrow> tuple_to_variant ops rec ws tp
   | No_variant \<Rightarrow> Inl (Logic_error ''no variant logic has happened!''))"

primrec wire_type_to_variant ::
  "('v, 't) rttr \<Rightarrow> bool \<Rightarrow> 'v handles \<Rightarrow> nat \<Rightarrow> ft_variant \<Rightarrow> 't \<Rightarrow> 'v result" where
  "wire_type_to_variant ops lg hs 0 = (\<lambda>w tp. Inl (UB ''recursion too deep''))"
| "wire_type_to_variant ops lg hs (Suc n) = (\<lambda>w tp.
     rbind (variant_by_case ops lg hs (wire_type_to_variant ops lg hs n) w tp) (matched ops tp))"

section \<open>Descriptions of types\<close>

datatype variant_descriptor = Descriptor string variant_types type_desc
and type_desc =
    Simple_desc simplevalue_types nat
  | Struct_desc string "(string \<times> variant_descriptor) list"
  | Enum_desc enum_descriptor
  | Tuple_desc "variant_descriptor list"
  | Array_desc "nat option" variant_descriptor
  | Union_desc "variant_descriptor list"

definition scalar_of :: "('v, 't) rttr \<Rightarrow> 't \<Rightarrow> scalar list \<Rightarrow> bool" where
  "scalar_of ops tp ks = (\<exists>k \<in> set ks. ty_scalar ops k = tp)"

text \<open>The tag is read without ever being written for a type that is neither arithmetic nor one of
  the other known ones; with \<open>check_throw\<close> off that happens for an unknown arithmetic type too.
  The size is returned as an \<open>unsigned char\<close>.\<close>

definition describe_simple_type ::
  "('v, 't) rttr \<Rightarrow> 't \<Rightarrow> bool \<Rightarrow> (simplevalue_types \<times> nat) result" where
  "describe_simple_type ops tp check_throw =
     (let sized = (\<lambda>tag. Inr (tag, ty_sizeof ops tp mod 256)) in
      if \<not> ty_is_arithmetic ops tp
      then (if tp = ty_void ops then Inr (VOID_TYPE, 0)
        else if tp = ty_string ops then Inr (STRING_TYPE, 0)
        else if tp = ty_any ops \<or> ty_wrapped ops tp \<noteq> None \<or> ty_is_pointer ops tp then Inr (REMOTE_HANDLE_TYPE, 0)
        else Inl (UB ''indeterminate tag''))
      else if scalar_of ops tp [K_bool] then sized BOOL_TYPE
      else if scalar_of ops tp [K_float, K_double] then sized FLOAT_TYPE
      else if scalar_of ops tp [K_char, K_short, K_int, K_long, K_llong] then sized INT_TYPE
      else if scalar_of ops tp [K_uchar, K_ushort, K_uint, K_ulong, K_ullong] then sized UNSIGNED_TYPE
      else if check_throw
      then Inl (Logic_error (''can'' @ [CHR 0x27] @ ''t deduce appropriate descriptor for type: '' @ ty_name ops tp))
      else Inl (UB ''indeterminate tag''))"

text \<open>A struct describes its members without the logger. An array that can be created writes to the
  logger without looking whether there is one. The descriptions of the parts are made by \<open>rec\<close>.\<close>

definition describe_struct ::
  "('v, 't) rttr \<Rightarrow> (bool \<Rightarrow> 't \<Rightarrow> variant_descriptor result) \<Rightarrow> 't \<Rightarrow> type_desc result" where
  "describe_struct ops rec tp = rbind
     (each_result (\<lambda>(name, t). rbind (rec False t) (\<lambda>d. Inr (name, d))) (ty_properties ops tp))
     (\<lambda>ds. Inr (Struct_desc (ty_name ops tp) ds))"

definition array_value_type :: "('v, 't) rttr \<Rightarrow> bool \<Rightarrow> 't \<Rightarrow> ('t \<times> nat option) result" where
  "array_value_type ops lg tp = (let created = r_create ops tp [] in
     if r_valid ops created
     then (if \<not> lg then Inl (UB ''null logger'')
       else Inr (seq_value_type ops created,
         if seq_dynamic ops created then None else Some (length (seq_items ops created))))
     else if \<not> ty_is_template ops tp then Inr (ty_void ops, None)
     else (case ty_template_args ops tp of
         [] \<Rightarrow> Inl (UB ''begin of an empty range'')
       | t # _ \<Rightarrow> if ty_valid ops t then Inr (t, None) else Inl (Logic_error ''array type deduction failed!'')))"

definition describe_array ::
  "('v, 't) rttr \<Rightarrow> (bool \<Rightarrow> 't \<Rightarrow> variant_descriptor result) \<Rightarrow> bool \<Rightarrow> 't \<Rightarrow> type_desc result" where
  "describe_array ops rec lg tp = rbind (array_value_type ops lg tp) (\<lambda>(t, sz).
     rbind (rec lg t) (\<lambda>d. Inr (Array_desc sz d)))"

definition describe_tuple ::
  "('v, 't) rttr \<Rightarrow> (bool \<Rightarrow> 't \<Rightarrow> variant_descriptor result) \<Rightarrow> bool \<Rightarrow> 't \<Rightarrow> type_desc result" where
  "describe_tuple ops rec lg tp = rbind (tuple_size ops tp) (\<lambda>sz.
     rbind (each_result (\<lambda>i. rbind (tuple_element_type ops tp i) (rec lg)) [0..<sz]) (\<lambda>ds. Inr (Tuple_desc ds)))"

definition describe_union ::
  "('v, 't) rttr \<Rightarrow> (bool \<Rightarrow> 't \<Rightarrow> variant_descriptor result) \<Rightarrow> bool \<Rightarrow> 't \<Rightarrow> type_desc result" where
  "describe_union ops rec lg tp =
     (if \<not> ty_union_get ops tp
      then Inl (Logic_error (''get method on union type is invalid. Maybe this union hasn'' @ [CHR 0x27] @ ''t been registered''))
      else rbind (each_result (rec lg) (ty_template_args ops tp)) (\<lambda>ds. Inr (Union_desc ds)))"

definition describe_by_shape ::
  "('v, 't) rttr \<Rightarrow> (bool \<Rightarrow> 't \<Rightarrow> variant_descriptor result) \<Rightarrow> bool \<Rightarrow> 't \<Rightarrow> (variant_types \<times> type_desc) result" where
  "describe_by_shape ops rec lg tp =
     (if ty_is_enum ops tp then Inr (ENUM_TYPE, Enum_desc (describe_enum ops tp))
      else if ty_is_seq ops tp then rbind (describe_array ops rec lg tp) (\<lambda>d. Inr (HOMOG_ARRAY_TYPE, d))
      else if ty_is_class ops tp \<and> tp \<noteq> ty_string ops \<and> is_POD_struct ops tp
      then rbind (describe_struct ops rec tp) (\<lambda>d. Inr (STRUCT_TYPE, d))
      else rbind (describe_simple_type ops tp True) (\<lambda>(tag, sz). Inr (SIMPLEVAR_TYPE, Simple_desc tag sz)))"

primrec describe_type :: "('v, 't) rttr \<Rightarrow> nat \<Rightarrow> bool \<Rightarrow> 't \<Rightarrow> variant_descriptor result" where
  "describe_type ops 0 = (\<lambda>lg tp. Inl (UB ''recursion too deep''))"
| "describe_type ops (Suc n) = (\<lambda>lg tp. rbind
     (let rec = describe_type ops n in case ty_ft_type ops tp of
        Some TUPLE_TYPE \<Rightarrow> rbind (describe_tuple ops rec lg tp) (\<lambda>d. Inr (TUPLE_TYPE, d))
      | Some UNION_TYPE \<Rightarrow> rbind (describe_union ops rec lg tp) (\<lambda>d. Inr (UNION_TYPE, d))
      | _ \<Rightarrow> describe_by_shape ops rec lg tp)
     (\<lambda>(kind, d). Inr (Descriptor (ty_name ops tp) kind d)))"

section \<open>What gets through\<close>

text \<open>
  A value is plain when it is built of numbers, booleans, strings and enumerators in structs and
  tuples, none of them wrapped or a union, and when the reflection library keeps its documented
  promises for each part: a number converts from the widest type of its signedness, an enumerator
  from \<open>unsigned\<close>,
  a tuple type makes the tuple from its elements, and a struct is its default with its properties set.
\<close>

definition plain_enum :: "('v, 't) rttr \<Rightarrow> 'v \<Rightarrow> bool" where
  "plain_enum ops v = (case r_to_uint32 ops v of None \<Rightarrow> False
   | Some x \<Rightarrow> r_can_convert ops (r_of_uint ops x) (r_type ops v) \<and>
       r_convert ops (r_of_uint ops x) (r_type ops v) = Some v)"

fun widest :: "std_value \<Rightarrow> simple_value" where
  "widest (Int_value k i) = (if k \<in> {K_char, K_short, K_int, K_long} then Intval i else Uintval i)"
| "widest (Real_value k d) = Dblval d"
| "widest (Bool_value b) = Boolval b"
| "widest (String_value s) = Stringval s"

definition plain_simple :: "('v, 't) rttr \<Rightarrow> 'v \<Rightarrow> bool" where
  "plain_simple ops v = (case r_std ops v of None \<Rightarrow> False
   | Some x \<Rightarrow> (let u = r_of_simple ops (widest x)
       in r_can_convert ops u (r_type ops v) \<and> r_convert ops u (r_type ops v) = Some v))"

definition plain_struct :: "('v, 't) rttr \<Rightarrow> ('v \<Rightarrow> bool) \<Rightarrow> 'v \<Rightarrow> bool" where
  "plain_struct ops rec v = (let tp = r_type ops v; members = ty_properties ops tp; fresh = r_create ops tp []
     in distinct (map fst members) \<and> r_valid ops fresh \<and>
        list_all (\<lambda>(name, t). rec (r_property ops v name) \<and> r_type ops (r_property ops v name) = t) members \<and>
        foldl (\<lambda>u (name, _). r_set_property ops u name (r_property ops v name)) fresh members = v)"

definition plain_tuple :: "('v, 't) rttr \<Rightarrow> ('v \<Rightarrow> bool) \<Rightarrow> 'v \<Rightarrow> bool" where
  "plain_tuple ops rec v = (case ty_tuple ops (r_type ops v) of None \<Rightarrow> False
   | Some ts \<Rightarrow> list_all (\<lambda>i. rec (r_tuple_get ops v i) \<and> r_type ops (r_tuple_get ops v i) = ts ! i) [0..<length ts] \<and>
       r_create ops (r_type ops v) (map (r_tuple_get ops v) [0..<length ts]) = v)"

definition plain_by_shape :: "('v, 't) rttr \<Rightarrow> ('v \<Rightarrow> bool) \<Rightarrow> 'v \<Rightarrow> bool" where
  "plain_by_shape ops rec v = (let tp = r_type ops v in
     if ty_is_enum ops tp then plain_enum ops v
     else if ty_is_seq ops tp then False
     else if ty_is_class ops tp \<and> tp \<noteq> ty_string ops then is_POD_struct ops tp \<and> plain_struct ops rec v
     else tp \<noteq> ty_any ops \<and> \<not> ty_is_pointer ops tp \<and> plain_simple ops v)"

definition plain_head :: "('v, 't) rttr \<Rightarrow> 'v \<Rightarrow> bool" where
  "plain_head ops v = (let tp = r_type ops v in
     ty_valid ops tp \<and> r_valid ops v \<and> ty_wrapped ops tp = None \<and> \<not> ty_unionmeta ops tp \<and> tp \<noteq> ty_void ops)"

primrec plain_value :: "('v, 't) rttr \<Rightarrow> nat \<Rightarrow> 'v \<Rightarrow> bool" where
  "plain_value ops 0 = (\<lambda>v. False)"
| "plain_value ops (Suc n) = (\<lambda>v. plain_head ops v \<and>
     (case ty_ft_type ops (r_type ops v) of
        Some TUPLE_TYPE \<Rightarrow> plain_tuple ops (plain_value ops n) v
      | Some UNION_TYPE \<Rightarrow> False
      | _ \<Rightarrow> plain_by_shape ops (plain_value ops n) v))"

lemma each_pure:
  assumes "list_all (\<lambda>x. \<forall>s. f x s = (Inr (g x), s)) xs"
  shows "each f xs s = (Inr (map g xs), s)"
  using assms by (induction xs) (auto simp: andthen_def returns_def)

lemma each_result_map:
  "list_all (\<lambda>x. f x = Inr (g x)) xs \<Longrightarrow> each_result f xs = Inr (map g xs)"
  by (induction xs) auto

lemma set_fields_foldl:
  assumes "\<And>name t. (name, t) \<in> set members \<Longrightarrow> \<exists>w. map_of ws name = Some w \<and> rec w t = Inr (g name)"
  shows "set_fields ops rec ws members u = Inr (foldl (\<lambda>u (name, _). r_set_property ops u name (g name)) u members)"
  using assms
proof (induction members arbitrary: u)
  case (Cons a members)
  obtain name t where a: "a = (name, t)" by (cases a)
  obtain w where w: "map_of ws name = Some w" "rec w t = Inr (g name)"
    using Cons.prems [of name t] a by auto
  show ?case using Cons.IH Cons.prems a w by auto
qed simp

text \<open>\<open>w\<close> is sent for \<open>v\<close>, whatever the store, and \<open>v\<close> is made of it again.\<close>

definition crosses ::
  "('v, 't) rttr \<Rightarrow> ('v \<Rightarrow> bool \<Rightarrow> ('v store, ft_variant) prog) \<Rightarrow> (ft_variant \<Rightarrow> 't \<Rightarrow> 'v result) \<Rightarrow>
   bool \<Rightarrow> 'v \<Rightarrow> ft_variant \<Rightarrow> bool" where
  "crosses ops out into unwrap v w \<longleftrightarrow>
     (\<forall>s. out v unwrap s = (Inr w, s)) \<and> into w (r_type ops v) = Inr v"

lemma sent_of_crosses: "crosses ops out into u v w \<Longrightarrow> out v u s = (Inr w, s)"
  by (simp add: crosses_def)

lemma made_of_crosses: "crosses ops out into u v w \<Longrightarrow> into w (r_type ops v) = Inr v"
  by (simp add: crosses_def)

lemma struct_crosses:
  assumes plain: "plain_struct ops P v" and cls: "ty_is_class ops (r_type ops v)"
    and rec: "\<And>u. P u \<Longrightarrow> \<exists>w. crosses ops out into False u w"
  shows "\<exists>name ws. (\<forall>s. get_struct_wire_type ops out v s = (Inr (Structval name ws), s)) \<and>
    struct_to_variant ops into ws (r_type ops v) = Inr v"
proof -
  define members where "members = ty_properties ops (r_type ops v)"
  define fresh where "fresh = r_create ops (r_type ops v) []"
  have dist: "distinct (map fst members)" and fresh: "r_valid ops fresh"
    and parts: "list_all (\<lambda>(name, t). P (r_property ops v name) \<and> r_type ops (r_property ops v name) = t) members"
    and whole: "foldl (\<lambda>u (name, _). r_set_property ops u name (r_property ops v name)) fresh members = v"
    using plain by (auto simp: plain_struct_def Let_def members_def fresh_def)
  obtain g where g: "\<And>u. P u \<Longrightarrow> crosses ops out into False u (g u)"
    using rec by metis
  define ws where "ws = map (\<lambda>(name, _). (name, g (r_property ops v name))) members"
  have part: "crosses ops out into False (r_property ops v name) (g (r_property ops v name))"
    "r_type ops (r_property ops v name) = t" if "(name, t) \<in> set members" for name t
    using parts that g by (auto simp: list_all_iff)
  have sent: "each (\<lambda>(name, _). andthen (out (r_property ops v name) False) (\<lambda>w. returns (name, w))) members s
      = (Inr ws, s)" for s
    unfolding ws_def
    by (intro each_pure) (auto simp: list_all_iff andthen_def returns_def sent_of_crosses [OF part(1)])
  have keys: "map_of ws name = Some (g (r_property ops v name))" if "(name, t) \<in> set members" for name t
    using dist that by (auto simp: ws_def comp_def case_prod_unfold intro!: map_of_is_SomeI rev_image_eqI [of "(name, t)"])
  have "\<exists>w. map_of ws name = Some w \<and> into w t = Inr (r_property ops v name)" if "(name, t) \<in> set members" for name t
    using keys [OF that] made_of_crosses [OF part(1) [OF that]] part(2) [OF that] by auto
  then have made: "set_fields ops into ws members fresh = Inr v"
    using set_fields_foldl [of members ws into "r_property ops v" ops fresh] by (simp only: whole)
  show ?thesis
    using sent made cls fresh unfolding members_def fresh_def
    by (auto simp: get_struct_wire_type_def struct_to_variant_def andthen_def returns_def)
qed

lemma enumerate_map_upt: "enumerate 0 (map g [0..<n]) = map (\<lambda>i. (i, g i)) [0..<n]"
  by (rule nth_equalityI) (auto simp: nth_enumerate_eq)

lemma tuple_crosses:
  assumes plain: "plain_tuple ops P v" and head: "plain_head ops v"
    and rec: "\<And>u. P u \<Longrightarrow> \<exists>w. crosses ops out into False u w"
  shows "\<exists>ws. (\<forall>s. get_tuple_wire_type ops out v s = (Inr (Tupleval ws), s)) \<and>
    tuple_to_variant ops into ws (r_type ops v) = Inr v"
proof -
  have nowrap: "ty_wrapped ops (r_type ops v) = None" and valid: "r_valid ops v"
    using head by (simp_all add: plain_head_def Let_def)
  obtain ts where ts: "ty_tuple ops (r_type ops v) = Some ts"
    using plain by (auto simp: plain_tuple_def split: option.splits)
  have parts: "P (r_tuple_get ops v i)" "r_type ops (r_tuple_get ops v i) = ts ! i" if "i < length ts" for i
    using plain that by (auto simp: plain_tuple_def ts list_all_iff)
  have whole: "r_create ops (r_type ops v) (map (r_tuple_get ops v) [0..<length ts]) = v"
    using plain by (simp add: plain_tuple_def ts)
  obtain g where g: "\<And>u. P u \<Longrightarrow> crosses ops out into False u (g u)"
    using rec by metis
  define ws where "ws = map (\<lambda>i. g (r_tuple_get ops v i)) [0..<length ts]"
  have part: "crosses ops out into False (r_tuple_get ops v i) (g (r_tuple_get ops v i))" if "i < length ts" for i
    using parts(1) [OF that] g by simp
  have sent: "each (\<lambda>i. out (r_tuple_get ops v i) False) [0..<length ts] s = (Inr ws, s)" for s
    unfolding ws_def by (intro each_pure) (auto simp: list_all_iff sent_of_crosses [OF part])
  have "into (g (r_tuple_get ops v i)) (ts ! i) = Inr (r_tuple_get ops v i)" if "i < length ts" for i
    using made_of_crosses [OF part [OF that]] parts(2) [OF that] by simp
  then have "each_result (\<lambda>(i, w). rbind (tuple_element_type ops (r_type ops v) i) (\<lambda>t. into w t)) (enumerate 0 ws) =
      Inr (map (r_tuple_get ops v \<circ> fst) (enumerate 0 ws))"
    by (intro each_result_map) (auto simp: list_all_iff ws_def enumerate_map_upt tuple_element_type_def ts)
  then have made: "each_result (\<lambda>(i, w). rbind (tuple_element_type ops (r_type ops v) i) (\<lambda>t. into w t)) (enumerate 0 ws) =
      Inr (map (r_tuple_get ops v) [0..<length ts])"
    by (simp add: ws_def enumerate_map_upt comp_def)
  show ?thesis
    using sent made valid
    by (intro exI [of _ ws])
       (auto simp: get_tuple_wire_type_def tuple_to_variant_def tuple_size_def unwrapped_def nowrap ts lifts_def
         andthen_def returns_def whole, simp add: ws_def)
qed

lemma std_value_of_plain:
  assumes "plain_simple ops v" "plain_head ops v"
  obtains x where "get_simple_variant_wire_type ops v u = Inr (wire_of_std x)"
    "simple_to_variant ops hs (wire_of_std x) (r_type ops v) True = Inr v"
proof -
  obtain x where x: "r_std ops v = Some x"
    using assms(1) by (auto simp: plain_simple_def split: option.splits)
  have val: "simple_val (wire_of_std x) = widest x"
    by (cases x) (auto simp: signed_kind_def)
  have "widest x \<noteq> Handleval h" for h
    by (cases x) auto
  then have "simple_to_variant ops hs (wire_of_std x) (r_type ops v) True = Inr v"
    using assms(1) x val
    by (auto simp: plain_simple_def simple_to_variant_def converted_def Let_def split: simple_value.splits)
  moreover have "get_simple_variant_wire_type ops v u = Inr (wire_of_std x)"
    using assms(2) x by (simp add: plain_head_def Let_def get_simple_variant_wire_type_def rttr_to_std_variant_converter_def unwrapped_def)
  ultimately show ?thesis
    using that by blast
qed

lemma shape_crosses:
  assumes plain: "plain_by_shape ops P v" and head: "plain_head ops v"
    and rec: "\<And>u. P u \<Longrightarrow> \<exists>w. crosses ops out into False u w"
  shows "\<exists>w. (\<forall>s. variant_wire_by_shape ops out v u (r_type ops v) s = (Inr w, s)) \<and>
    variant_by_case ops lg hs into w (r_type ops v) = Inr v"
proof -
  let ?tp = "r_type ops v"
  have valid: "r_valid ops v" "ty_wrapped ops ?tp = None" "\<not> ty_unionmeta ops ?tp" "?tp \<noteq> ty_void ops"
    using head by (simp_all add: plain_head_def Let_def)
  consider (en) "ty_is_enum ops ?tp" "plain_enum ops v"
    | (struct) "\<not> ty_is_enum ops ?tp" "\<not> ty_is_seq ops ?tp" "ty_is_class ops ?tp" "?tp \<noteq> ty_string ops"
        "is_POD_struct ops ?tp" "plain_struct ops P v"
    | (simple) "\<not> ty_is_enum ops ?tp" "\<not> ty_is_seq ops ?tp" "\<not> (ty_is_class ops ?tp \<and> ?tp \<noteq> ty_string ops)"
        "?tp \<noteq> ty_any ops" "\<not> ty_is_pointer ops ?tp" "plain_simple ops v"
    using plain by (auto simp: plain_by_shape_def Let_def split: if_splits)
  then show ?thesis
  proof cases
    case en
    then obtain x where "r_to_uint32 ops v = Some x" "r_can_convert ops (r_of_uint ops x) ?tp"
      "r_convert ops (r_of_uint ops x) ?tp = Some v"
      by (auto simp: plain_enum_def split: option.splits)
    with en valid show ?thesis
      by (auto simp: variant_wire_by_shape_def get_enum_wire_type_def lifts_def variant_by_case_def
          enum_to_variant_def converted_def)
  next
    case struct
    obtain name ws where "\<forall>s. get_struct_wire_type ops out v s = (Inr (Structval name ws), s)"
      "struct_to_variant ops into ws ?tp = Inr v"
      using struct_crosses [OF struct(6) struct(3) rec] by blast
    with struct valid show ?thesis
      by (intro exI [of _ "Structval name ws"]) (simp add: variant_wire_by_shape_def variant_by_case_def)
  next
    case simple
    obtain x where "get_simple_variant_wire_type ops v u = Inr (wire_of_std x)"
      "simple_to_variant ops hs (wire_of_std x) ?tp True = Inr v"
      using std_value_of_plain [OF simple(6) head] by blast
    with simple valid show ?thesis
      by (intro exI [of _ "Simplevar (wire_of_std x)"])
         (auto simp: variant_wire_by_shape_def variant_by_case_def lifts_def)
  qed
qed

lemma plain_value_crosses:
  "plain_value ops n v \<Longrightarrow>
   \<exists>w. crosses ops (get_variant_wire_type ops n) (wire_type_to_variant ops lg hs n) u v w"
proof (induction n arbitrary: v u)
  case (Suc n)
  have head: "plain_head ops v"
    using Suc.prems by simp
  then have valid: "ty_valid ops (r_type ops v)" "ty_wrapped ops (r_type ops v) = None"
    by (simp_all add: plain_head_def Let_def)
  consider (tup) "ty_ft_type ops (r_type ops v) = Some TUPLE_TYPE" "plain_tuple ops (plain_value ops n) v"
    | (shape) "ty_ft_type ops (r_type ops v) \<notin> {Some TUPLE_TYPE, Some UNION_TYPE}"
        "plain_by_shape ops (plain_value ops n) v"
    using Suc.prems by (auto split: option.splits variant_types.splits)
  then show ?case
  proof cases
    case tup
    obtain ws where "\<forall>s. get_tuple_wire_type ops (get_variant_wire_type ops n) v s = (Inr (Tupleval ws), s)"
      "tuple_to_variant ops (wire_type_to_variant ops lg hs n) ws (r_type ops v) = Inr v"
      using tuple_crosses [OF tup(2) head Suc.IH] by blast
    with tup valid show ?thesis
      by (intro exI [of _ "Tupleval ws"])
         (simp add: crosses_def Let_def unwrapped_def matched_def variant_by_case_def)
  next
    case shape
    obtain w where w: "\<forall>s. variant_wire_by_shape ops (get_variant_wire_type ops n) v u (r_type ops v) s = (Inr w, s)"
      "variant_by_case ops lg hs (wire_type_to_variant ops lg hs n) w (r_type ops v) = Inr v"
      using shape_crosses [OF shape(2) head Suc.IH] by blast
    have "get_variant_wire_type ops (Suc n) v u =
        variant_wire_by_shape ops (get_variant_wire_type ops n) v u (r_type ops v)"
      using shape(1) valid by (auto simp: Let_def unwrapped_def split: option.splits variant_types.splits)
    with w show ?thesis
      by (auto simp: crosses_def matched_def)
  qed
qed simp

lemma each_result_Inr_Nil: "each_result (\<lambda>x. Inl e) xs = Inr ys \<Longrightarrow> xs = []"
  by (cases xs) auto

lemma accepted_array_is_empty:
  "wire_type_to_array ops lg arr tp = Inr u \<Longrightarrow> seq_items ops u = []"
  by (cases arr)
     (auto simp: encoded_to_variant_def bytes_to_variant_def rbind_eq_Inr split: if_splits sum.splits dest: each_result_Inr_Nil
      )

lemma array_wire_cases:
  assumes "get_array_wire_type ops out v s = (Inr w, s')"
  obtains b bs where "w = Arrayval (Arr_encoded b bs)" | ws where "w = Arrayval (Arr_heavy ws)"
  using assms
  by (auto simp: get_array_wire_type_def encoded_array_def andthen_def returns_def throws_def rbind_eq_Inr
      split: if_splits sum.splits prod.splits)

fun wire_kind :: "ft_variant \<Rightarrow> variant_types option" where
  "wire_kind No_variant = None"
| "wire_kind (Simplevar _) = Some SIMPLEVAR_TYPE"
| "wire_kind (Structval _ _) = Some STRUCT_TYPE"
| "wire_kind (Enumval _ _) = Some ENUM_TYPE"
| "wire_kind (Tupleval _) = Some TUPLE_TYPE"
| "wire_kind (Arrayval _) = Some HOMOG_ARRAY_TYPE"

lemma array_wire_kind: "get_array_wire_type ops out v s = (Inr w, s') \<Longrightarrow> wire_kind w = Some HOMOG_ARRAY_TYPE"
  by (erule array_wire_cases) auto

lemma struct_wire_kind: "get_struct_wire_type ops out v s = (Inr w, s') \<Longrightarrow> wire_kind w = Some STRUCT_TYPE"
  by (auto simp: get_struct_wire_type_def andthen_def returns_def split: sum.splits prod.splits)

lemma tuple_wire_kind: "get_tuple_wire_type ops out v s = (Inr w, s') \<Longrightarrow> wire_kind w = Some TUPLE_TYPE"
  by (auto simp: get_tuple_wire_type_def andthen_def returns_def lifts_def split: sum.splits prod.splits)

lemma enum_wire_kind: "get_enum_wire_type ops v = Inr w \<Longrightarrow> wire_kind w = Some ENUM_TYPE"
  by (auto simp: get_enum_wire_type_def split: option.splits)

text \<open>\<open>kind_of_shape\<close> is the order of the tests, which sending and describing share.\<close>

definition kind_of_shape :: "('v, 't) rttr \<Rightarrow> 't \<Rightarrow> variant_types" where
  "kind_of_shape ops tp =
     (if ty_is_enum ops tp then ENUM_TYPE else if ty_is_seq ops tp then HOMOG_ARRAY_TYPE
      else if ty_is_class ops tp \<and> tp \<noteq> ty_string ops \<and> is_POD_struct ops tp then STRUCT_TYPE else SIMPLEVAR_TYPE)"

lemma described_shape: "describe_by_shape ops rec lg tp = Inr (k, d) \<Longrightarrow> k = kind_of_shape ops tp"
  by (auto simp: describe_by_shape_def kind_of_shape_def rbind_eq_Inr split: if_splits)

lemma sent_shape:
  assumes "variant_wire_by_shape ops out v u tp s = (Inr w, s')" "tp \<noteq> ty_void ops"
  shows "wire_kind w = Some (kind_of_shape ops tp)"
  using assms
  by (auto simp: variant_wire_by_shape_def kind_of_shape_def throws_def returns_def lifts_def andthen_def
      array_wire_kind struct_wire_kind enum_wire_kind rbind_eq_Inr split: if_splits sum.splits prod.splits)




section \<open>A small world of types\<close>

text \<open>Numbers, text, one enumeration, one pair type, two struct types and one array type, with what
  the reflection library would answer about them.\<close>

datatype demo_type = T_void | T_scalar scalar | T_text | T_mode | T_pair | T_range | T_frame | T_bytes | T_any

datatype demo_value =
  D_none | D_std std_value | D_mode "32 word" | D_pair demo_value demo_value | D_range demo_value demo_value
| D_frame demo_value | D_bytes "demo_value list"

fun demo_type_of :: "demo_value \<Rightarrow> demo_type" where
  "demo_type_of D_none = T_void"
| "demo_type_of (D_std (Int_value k _)) = T_scalar k"
| "demo_type_of (D_std (Real_value k _)) = T_scalar k"
| "demo_type_of (D_std (Bool_value _)) = T_scalar K_bool"
| "demo_type_of (D_std (String_value _)) = T_text"
| "demo_type_of (D_mode _) = T_mode"
| "demo_type_of (D_pair _ _) = T_pair"
| "demo_type_of (D_range _ _) = T_range"
| "demo_type_of (D_frame _) = T_frame"
| "demo_type_of (D_bytes _) = T_bytes"

fun demo_of_simple :: "simple_value \<Rightarrow> demo_value" where
  "demo_of_simple (Dblval d) = D_std (Real_value K_double d)"
| "demo_of_simple (Intval i) = D_std (Int_value K_long i)"
| "demo_of_simple (Uintval i) = D_std (Int_value K_ulong i)"
| "demo_of_simple (Boolval b) = D_std (Bool_value b)"
| "demo_of_simple (Stringval s) = D_std (String_value s)"
| "demo_of_simple _ = D_none"

fun demo_convert :: "demo_value \<Rightarrow> demo_type \<Rightarrow> demo_value option" where
  "demo_convert (D_std (Int_value _ i)) (T_scalar k) = Some (D_std (Int_value k i))"
| "demo_convert (D_std (Int_value _ i)) T_mode = Some (D_mode (word_of_int i))"
| "demo_convert (D_std (Real_value _ d)) (T_scalar k) = Some (D_std (Real_value k d))"
| "demo_convert v t = (if demo_type_of v = t then Some v else None)"

fun demo_property :: "demo_value \<Rightarrow> string \<Rightarrow> demo_value" where
  "demo_property (D_range a b) name = (if name = ''low'' then a else if name = ''high'' then b else D_none)"
| "demo_property (D_frame a) name = (if name = ''data'' then a else D_none)"
| "demo_property _ _ = D_none"

fun demo_set_property :: "demo_value \<Rightarrow> string \<Rightarrow> demo_value \<Rightarrow> demo_value" where
  "demo_set_property (D_range a b) name v =
     (if name = ''low'' then D_range v b else if name = ''high'' then D_range a v else D_range a b)"
| "demo_set_property (D_frame a) name v = (if name = ''data'' then D_frame v else D_frame a)"
| "demo_set_property u _ _ = u"

fun demo_create :: "demo_type \<Rightarrow> demo_value list \<Rightarrow> demo_value" where
  "demo_create T_pair [a, b] = D_pair a b"
| "demo_create T_range [] = D_range (D_std (Int_value K_int 0)) (D_pair (D_std (Bool_value False)) (D_mode 0))"
| "demo_create T_frame [] = D_frame (D_bytes [])"
| "demo_create T_bytes [] = D_bytes []"
| "demo_create _ _ = D_none"

fun demo_items :: "demo_value \<Rightarrow> demo_value list" where
  "demo_items (D_bytes xs) = xs"
| "demo_items _ = []"

fun demo_byte :: "demo_value \<Rightarrow> 8 word list" where
  "demo_byte (D_std (Int_value _ i)) = [word_of_int i]"
| "demo_byte _ = []"

definition demo_ops :: "(demo_value, demo_type) rttr" where
  "demo_ops = \<lparr>r_type = demo_type_of, r_valid = (\<lambda>v. v \<noteq> D_none), r_of_simple = demo_of_simple,
     r_of_uint = (\<lambda>x. D_std (Int_value K_uint (uint x))),
     r_std = (\<lambda>v. case v of D_std x \<Rightarrow> Some x | _ \<Rightarrow> None), r_wrapped_std = (\<lambda>v. None),
     r_to_uint32 = (\<lambda>v. case v of D_mode x \<Rightarrow> Some x | _ \<Rightarrow> None),
     r_can_convert = (\<lambda>v t. demo_convert v t \<noteq> None), r_convert = demo_convert,
     r_property = demo_property, r_set_property = demo_set_property,
     r_tuple_get = (\<lambda>v i. case v of D_pair a b \<Rightarrow> if i = 0 then a else b | _ \<Rightarrow> D_none),
     r_union_get = (\<lambda>v. v), r_create = demo_create, seq_rank = (\<lambda>v. 1),
     seq_value_type = (\<lambda>v. T_scalar K_uchar), seq_items = demo_items,
     seq_bytes = (\<lambda>v k. demo_byte v), seq_dynamic = (\<lambda>v. True),
     seq_set_size = (\<lambda>v n. case v of D_bytes xs \<Rightarrow> D_bytes (take n xs) | _ \<Rightarrow> v),
     ty_valid = (\<lambda>t. True), ty_name = (\<lambda>t. if t = T_range then ''range'' else ''type''),
     ty_wrapped = (\<lambda>t. None), ty_ft_type = (\<lambda>t. if t = T_pair then Some TUPLE_TYPE else None),
     ty_unionmeta = (\<lambda>t. False), ty_is_enum = (\<lambda>t. t = T_mode), ty_is_seq = (\<lambda>t. t = T_bytes),
     ty_is_class = (\<lambda>t. t \<in> {T_text, T_pair, T_range, T_frame, T_bytes}), ty_is_pointer = (\<lambda>t. False),
     ty_is_arithmetic = (\<lambda>t. case t of T_scalar _ \<Rightarrow> True | _ \<Rightarrow> False),
     ty_methods = (\<lambda>t. 0), ty_constructors = (\<lambda>t. 1),
     ty_properties = (\<lambda>t. if t = T_range then [(''low'', T_scalar K_int), (''high'', T_pair)]
       else if t = T_frame then [(''data'', T_bytes)] else []),
     ty_enum_values = (\<lambda>t. [(''off'', 0), (''on'', 1)]),
     ty_tuple = (\<lambda>t. if t = T_pair then Some [T_scalar K_bool, T_mode] else None),
     ty_sizeof = (\<lambda>t. 4), ty_template_args = (\<lambda>t. []), ty_is_template = (\<lambda>t. False),
     ty_union_get = (\<lambda>t. False), ty_scalar = T_scalar, ty_void = T_void, ty_string = T_text, ty_any = T_any\<rparr>"

definition demo_range :: demo_value where
  "demo_range = D_range (D_std (Int_value K_int (-5))) (D_pair (D_std (Bool_value True)) (D_mode 1))"

definition demo_store :: "demo_value store" where
  "demo_store = \<lparr>held_values = [], draws = (\<lambda>_. 0), drawn = 0\<rparr>"

section \<open>Properties\<close>

text \<open>
  C16. A plain value, of whatever depth, is sent without touching the store of remote values, and
  the receiver that knows its type makes the same value of the message: signs, widths,
  enumerators, struct members by name and tuple elements by position all survive.
\<close>

theorem plain_values_round_trip:
  assumes "plain_value ops n v"
  shows "\<exists>w. get_variant_wire_type ops n v unwrap s = (Inr w, s) \<and>
    wire_type_to_variant ops lg hs n w (r_type ops v) = Inr v"
  using plain_value_crosses [OF assms, of lg hs unwrap] by (auto simp: crosses_def)

lemma plain_values_round_trip_witness:
  "\<exists>w. get_variant_wire_type demo_ops 3 demo_range False demo_store = (Inr w, demo_store) \<and>
    wire_type_to_variant demo_ops False [] 3 w T_range = Inr demo_range"
proof -
  have "plain_value demo_ops 3 demo_range" "r_type demo_ops demo_range = T_range"
    by code_simp+
  then show ?thesis
    using plain_values_round_trip [of demo_ops 3 demo_range False demo_store False "[]"] by simp
qed

text \<open>
  No array gets through with its content: whatever \<open>get_array_wire_type\<close> sends, the receiver
  either refuses it or makes an array without items of it, and the encoded arrays (those of
  numbers) are always refused.
\<close>

theorem sent_array_is_lost:
  assumes "get_array_wire_type ops rec v s = (Inr (Arrayval arr), s')"
    and "wire_type_to_array ops lg arr tp = Inr u"
  shows "seq_items ops u = [] \<and> (\<exists>ws. arr = Arr_heavy ws)"
proof
  show "seq_items ops u = []"
    by (rule accepted_array_is_empty [OF assms(2)])
  show "\<exists>ws. arr = Arr_heavy ws"
    by (rule array_wire_cases [OF assms(1)]) (use assms(2) in auto)
qed

lemma sent_array_is_lost_witness:
  "seq_items demo_ops (D_bytes []) = [] \<and> (\<exists>ws. Arr_heavy [Simplevar void_wire] = Arr_heavy ws) \<and>
   wire_type_to_array demo_ops True (Arr_heavy [Simplevar void_wire]) T_bytes = Inr (D_bytes [])"
proof -
  let ?ops = "demo_ops\<lparr>seq_value_type := \<lambda>v. case v of D_bytes [] \<Rightarrow> T_scalar K_uchar | _ \<Rightarrow> T_any\<rparr>"
  have "fst (get_array_wire_type ?ops (\<lambda>v u. returns (Simplevar void_wire)) (D_bytes [D_none]) demo_store) =
      Inr (Arrayval (Arr_heavy [Simplevar void_wire]))"
    by code_simp
  then obtain s where sent: "get_array_wire_type ?ops (\<lambda>v u. returns (Simplevar void_wire)) (D_bytes [D_none]) demo_store =
      (Inr (Arrayval (Arr_heavy [Simplevar void_wire])), s)"
    by (metis prod.collapse)
  have made: "wire_type_to_array ?ops True (Arr_heavy [Simplevar void_wire]) T_bytes = Inr (D_bytes [])"
    "wire_type_to_array demo_ops True (Arr_heavy [Simplevar void_wire]) T_bytes = Inr (D_bytes [])"
    by code_simp+
  show ?thesis
    using sent_array_is_lost [OF sent made(1)] made(2) by (simp add: demo_ops_def)
qed

text \<open>
  C17. What \<open>describe_type\<close> announces of a type is what \<open>get_variant_wire_type\<close> sends for a value of
  it: the same of the kinds simple, struct, enumeration, tuple and array. (A union is sent as the
  value it holds, a wrapper may be unwrapped, and void is always sent as a simple value.)
\<close>

theorem sent_value_has_described_kind:
  assumes "describe_type ops m lg (r_type ops v) = Inr (Descriptor name kind d)"
    and "get_variant_wire_type ops n v unwrap s = (Inr w, s')"
    and "kind \<noteq> UNION_TYPE" "r_type ops v \<noteq> ty_void ops" "ty_wrapped ops (r_type ops v) = None \<or> \<not> unwrap"
  shows "wire_kind w = Some kind"
proof -
  obtain m' n' where mn: "m = Suc m'" "n = Suc n'"
    using assms(1,2) by (cases m; cases n) (auto simp: throws_def)
  have tp: "unwrapped ops unwrap (r_type ops v) = r_type ops v"
    using assms(5) by (auto simp: unwrapped_def split: option.splits)
  show ?thesis
    using assms(1-4) tuple_wire_kind [of ops "get_variant_wire_type ops n'" v s w s']
      sent_shape [of ops "get_variant_wire_type ops n'" v unwrap "r_type ops v" s w s']
      described_shape [of ops "describe_type ops m'" lg "r_type ops v" kind d]
    by (auto simp: mn tp rbind_eq_Inr throws_def Let_def split: if_splits option.splits variant_types.splits)
qed

lemma sent_value_has_described_kind_witness:
  "\<exists>w s. get_variant_wire_type demo_ops 3 demo_range False demo_store = (Inr w, s) \<and> wire_kind w = Some STRUCT_TYPE"
proof -
  have tp: "r_type demo_ops demo_range \<noteq> ty_void demo_ops"
    "ty_wrapped demo_ops (r_type demo_ops demo_range) = None \<or> \<not> False"
    by code_simp+
  obtain name d where desc: "describe_type demo_ops 3 False (r_type demo_ops demo_range) = Inr (Descriptor name STRUCT_TYPE d)"
  proof -
    have "case describe_type demo_ops 3 False (r_type demo_ops demo_range) of
        Inr (Descriptor name STRUCT_TYPE d) \<Rightarrow> True | _ \<Rightarrow> False"
      by code_simp
    then show ?thesis
      using that by (auto split: sum.splits variant_descriptor.splits variant_types.splits)
  qed
  obtain w s where sent: "get_variant_wire_type demo_ops 3 demo_range False demo_store = (Inr w, s)"
  proof -
    have "case get_variant_wire_type demo_ops 3 demo_range False demo_store of (Inr w, s) \<Rightarrow> True | _ \<Rightarrow> False"
      by code_simp
    then show ?thesis
      using that by (auto split: sum.splits prod.splits)
  qed
  show ?thesis
    using sent_value_has_described_kind [OF desc sent _ tp] sent by simp
qed



end
