(* ===== verification/Client_Calls.thy ===== *)
theory Client_Calls
  imports Wire_Types Client Fetch_Data
begin

text \<open>
  The calls of devices in the client library: \<open>InvokeCapability\<close> and \<open>FetchData\<close> of
  client/include/foxtrot/client/client.h and the conversions they use in client/src/client.cpp, run
  against the server of the development.

  A variant of the client is a double, given by its bits, an \<open>int\<close>, a bool or a string. A stream
  arrives as a prefix of the chunks that the server has written: \<open>arriving\<close> is how many the
  connection delivers before it breaks. The client sends no metadata with a call.
\<close>

section \<open>Arguments and results\<close>

datatype client_variant = C_double "64 word" | C_int "32 word" | C_bool bool | C_string string

fun ft_variant_visitor :: "client_variant \<Rightarrow> ft_variant" where
  "ft_variant_visitor (C_double d) = Simplevar \<lparr>simple_val = simple_value.Dblval d, simple_size = 8, is_void = False\<rparr>"
| "ft_variant_visitor (C_int i) = Simplevar \<lparr>simple_val = simple_value.Intval (sint i), simple_size = 4, is_void = False\<rparr>"
| "ft_variant_visitor (C_bool b) = Simplevar \<lparr>simple_val = simple_value.Boolval b, simple_size = 1, is_void = False\<rparr>"
| "ft_variant_visitor (C_string s) = Simplevar \<lparr>simple_val = simple_value.Stringval s, simple_size = 0, is_void = False\<rparr>"

text \<open>The position of an argument is sent with it; the server takes the arguments in their order.\<close>

definition fill_args :: "client_variant list \<Rightarrow> (nat \<times> ft_variant) list" where
  "fill_args vs = enumerate 0 (map ft_variant_visitor vs)"

text \<open>A response without a value, or with a simple variant that has none, leaves the variant as it
  is made, a double that is zero. The numbers of 64 bits are cut to an \<open>int\<close>.\<close>

definition variant_of_simple :: "ft_simplevariant \<Rightarrow> client_variant" where
  "variant_of_simple sv = (case simple_val sv of
     simple_value.Dblval d \<Rightarrow> C_double d
   | simple_value.Intval i \<Rightarrow> C_int (word_of_int i)
   | simple_value.Uintval i \<Rightarrow> C_int (word_of_int i)
   | simple_value.Boolval b \<Rightarrow> C_bool b
   | simple_value.Stringval s \<Rightarrow> C_string s
   | _ \<Rightarrow> C_double 0)"

definition ft_variant_from_response :: "ft_variant capability_response \<Rightarrow> client_variant result" where
  "ft_variant_from_response r = rbind (check_repl_err (cp_err r)) (\<lambda>_. case cp_returnval r of
     Some (Simplevar sv) \<Rightarrow> Inr (variant_of_simple sv)
   | _ \<Rightarrow> Inl (Runtime_error (''can'' @ [CHR 0x27] @ ''t deal with non simplevar responses in c++ client yet!'')))"

section \<open>Arrays\<close>





section \<open>Calls\<close>

type_synonym ('d, 'v, 't) invoke_client = "('d, 'v, 't) exptserve client"

definition empty_response :: "'w capability_response" where
  "empty_response = \<lparr>cp_msgid = 0, cp_devid = 0, cp_capname = [], cp_returnval = None, cp_err = None\<rparr>"

definition InvokeCapability ::
  "nat \<Rightarrow> ('v, 't) variant_ops \<Rightarrow> (ft_variant, 'v, 't) wire_ops \<Rightarrow> int \<Rightarrow> string \<Rightarrow> client_variant list \<Rightarrow>
   (('d, 'v, 't) exptserve client, client_variant) prog" where
  "InvokeCapability tid ops wops devid cap args = andthen take_msgid (\<lambda>msgid.
     andthen (call_stub (InvokeCapabilityWithSession tid ops wops) empty_response
       \<lparr>cr_msgid = msgid, cr_devid = word_of_int devid, cr_capname = cap, cr_args = map snd (fill_args args),
        cr_contention_timeout = 0\<rparr>) (\<lambda>repl. lifts (ft_variant_from_response repl)))"

section \<open>Streams\<close>






section \<open>A leased device\<close>

lemma empty_metadata: "map_of [] ''session_secret-bin'' \<noteq> Some secret"
  by simp

text \<open>
  C22. The client library cannot call a device that is leased, whoever leases it: it sends no metadata,
  so the server refuses, the call ends in an exception and the server is left as it was.
\<close>

theorem client_cannot_call_leased_device:
  assumes "sm_inv (sesman (remote cl))" "leases (sesman (remote cl)) secret = Some info"
    and "word_of_int devid \<in> set (devices info)" "links cl = []" "cl_msgid cl < 2147483647"
  shows "\<exists>e cl'. InvokeCapability tid ops wops devid cap args cl = (Inl e, cl') \<and> remote cl' = remote cl"
proof -
  let ?req = "\<lparr>cr_msgid = word_of_int (cl_msgid cl), cr_devid = word_of_int devid, cr_capname = cap,
      cr_args = map snd (fill_args args), cr_contention_timeout = 0\<rparr>"
  let ?c = "\<lparr>server = remote cl, repl = empty_response, finished = []\<rparr> :: (_, ft_variant capability_response) call"
  let ?lg = "InvokeCapabilityWithSession tid ops wops"
  obtain e where e: "\<not> is_UB e" "session_check_metadata ops [] ?req (remote cl) = (Inl e, remote cl)"
    using leased_check_fails [OF assms(1,2), of ?req "[]" ops] assms(3) by auto
  then have chk: "check_metadata ?lg [] ?req (server ?c) = (Inl e, server ?c)" by (simp add: InvokeCapabilityWithSession_def)
  obtain c' r where c': "process_request ?lg [] ?req ?c = (Inr (Done FINISH), c')" "server c' = remote cl" "finished c' = [r]" "cp_err r \<noteq> None"
    using failed_check_answer [OF chk e(1)] by (auto simp: InvokeCapabilityWithSession_def InvokeCapabilityLogic_def set_cap_err_def)
  obtain x where "check_repl_err (cp_err r) = Inl x" using c'(4) by (auto simp: check_repl_err_def)
  then have "ft_variant_from_response r = Inl x" by (simp add: ft_variant_from_response_def rbind_def)
  then show ?thesis
    using c' assms(4,5)
    by (simp add: InvokeCapability_def take_msgid_def call_stub_def andthen_def lifts_def Let_def)
qed

section \<open>A stream that breaks\<close>





section \<open>Clients to try out\<close>

definition number_wire :: "(ft_variant, nat, nat) wire_ops" where
  "number_wire = \<lparr>wire_type_to_variant = (\<lambda>w t. Inl (Logic_error ''no arguments here'')),
     get_variant_wire_type = (\<lambda>v. Inr (ft_variant_visitor (C_int (of_nat v)))), w_empty = No_variant\<rparr>"

definition lab_client :: "(nat, nat, nat) exptserve client" where
  "lab_client = \<lparr>cl_msgid = 0, links = [], remote = lab\<rparr>"

text \<open>Device 3 of the laboratory is leased.\<close>

theorem client_cannot_call_leased_device_witness:
  "\<exists>e cl'. InvokeCapability 1 nat_ops number_wire 3 ''setpoint'' [] lab_client = (Inl e, cl') \<and> remote cl' = remote lab_client"
proof (rule client_cannot_call_leased_device)
  show "sm_inv (sesman (remote lab_client))" by (simp add: lab_client_def lab_def desk_state_inv)
  show "leases (sesman (remote lab_client)) secretA = Some
     \<lparr>internal_session_id = 0, user_identifier = ''dan'', comment = ''camera'', devices = [3], flags = [''shutter''], expiry = 3700\<rparr>"
    by (simp add: lab_client_def lab_def desk_lease)
qed (simp_all add: lab_client_def)





end
