(* ===== verification/Text_Format.thy ===== *)
theory Text_Format
  imports Foxtrot_Prelude
begin

text \<open>
  The number formatting and parsing of the C++ standard library that the drivers use: an
  \<open>ostream\<close> printing an integer in base 10 or 16, \<open>std::setw\<close> with
  \<open>std::setfill\<close>, \<open>std::stoi\<close> and \<open>std::stoul\<close>, \<open>std::string::substr\<close>,
  \<open>std::isprint\<close> and \<open>std::getline\<close>. A \<open>char\<close> is a byte; strings are lists of
  bytes. What is proved: printing and then parsing gives the number back, also with zero padding
  and with text behind it.
\<close>

section \<open>Digits\<close>

definition digit_val :: "char \<Rightarrow> nat" where
  "digit_val c = (let n = of_char c in
     if 48 \<le> n \<and> n \<le> 57 then n - 48
     else if 65 \<le> n \<and> n \<le> 90 then n - 55
     else if 97 \<le> n \<and> n \<le> 122 then n - 87
     else 255)"

definition digit_char :: "bool \<Rightarrow> nat \<Rightarrow> char" where
  "digit_char upper d = char_of (if d < 10 then 48 + d else if upper then 55 + d else 87 + d)"

definition is_digit :: "nat \<Rightarrow> char \<Rightarrow> bool" where
  "is_digit base c \<longleftrightarrow> digit_val c < base"

lemma digit_val_char [simp]: "d < 36 \<Longrightarrow> digit_val (digit_char upper d) = d"
  by (simp add: digit_val_def digit_char_def Let_def)

lemma is_digit_char [simp]: "d < base \<Longrightarrow> base \<le> 36 \<Longrightarrow> is_digit base (digit_char upper d)"
  by (simp add: is_digit_def)

function show_base :: "bool \<Rightarrow> nat \<Rightarrow> nat \<Rightarrow> string" where
  "show_base upper base n =
     (if base < 2 \<or> n < base then [digit_char upper n]
      else show_base upper base (n div base) @ [digit_char upper (n mod base)])"
  by pat_completeness auto
termination
  by (relation "measure (\<lambda>(upper, base, n). n)") auto

declare show_base.simps [simp del]

definition show_nat :: "nat \<Rightarrow> string" where
  "show_nat n = show_base False 10 n"

definition show_int :: "int \<Rightarrow> string" where
  "show_int i = (if i < 0 then CHR ''-'' # show_nat (nat (- i)) else show_nat (nat i))"

definition digits_value :: "nat \<Rightarrow> string \<Rightarrow> nat" where
  "digits_value base s = foldl (\<lambda>a c. a * base + digit_val c) 0 s"

lemma digits_value_append_one [simp]:
  "digits_value base (s @ [c]) = digits_value base s * base + digit_val c"
  by (simp add: digits_value_def)

lemma digits_value_Nil [simp]: "digits_value base [] = 0"
  by (simp add: digits_value_def)

lemma digits_value_one [simp]: "digits_value base [c] = digit_val c"
  by (simp add: digits_value_def)

lemma digits_value_zeros: "digits_value base (replicate n (CHR ''0'') @ s) = digits_value base s"
  by (induction n) (simp_all add: digits_value_def digit_val_def)

lemma digits_value_show_base:
  "2 \<le> base \<Longrightarrow> base \<le> 36 \<Longrightarrow> digits_value base (show_base upper base n) = n"
proof (induction upper base n rule: show_base.induct)
  case (1 upper base n)
  have "n mod base < base" using "1.prems" by simp
  moreover from this "1.prems" have "n mod base < 36" by linarith
  ultimately have "digit_val (digit_char upper (n mod base)) = n mod base" by simp
  with 1 show ?case by (simp add: show_base.simps [of upper base n])
qed

lemma show_base_digits:
  "2 \<le> base \<Longrightarrow> base \<le> 36 \<Longrightarrow> list_all (is_digit base) (show_base upper base n)"
proof (induction upper base n rule: show_base.induct)
  case (1 upper base n)
  have "n mod base < base" using "1.prems" by simp
  with 1 show ?case by (simp add: show_base.simps [of upper base n])
qed

lemma show_base_nonempty [simp]: "show_base upper base n \<noteq> []"
  by (simp add: show_base.simps [of upper base n])

lemma show_base_length:
  assumes "2 \<le> base" and "n < base ^ Suc k"
  shows "length (show_base upper base n) \<le> Suc k"
  using assms(2)
proof (induction k arbitrary: n)
  case 0
  then show ?case by (simp add: show_base.simps)
next
  case (Suc k)
  have "n div base < base ^ Suc k"
    using Suc.prems assms(1) by (simp add: div_less_iff_less_mult mult.commute)
  then have "length (show_base upper base (n div base)) \<le> Suc k" by (rule Suc.IH)
  then show ?case by (simp add: show_base.simps [of upper base n])
qed

lemma length_show_nat: "n < 10 ^ Suc k \<Longrightarrow> length (show_nat n) \<le> Suc k"
  unfolding show_nat_def by (rule show_base_length) simp

section \<open>Fields of a fixed width\<close>

text \<open>\<open>oss << std::setw(w) << std::setfill(c) << x\<close>: padding on the left, no truncation.\<close>

definition setw :: "nat \<Rightarrow> char \<Rightarrow> string \<Rightarrow> string" where
  "setw w fill s = replicate (w - length s) fill @ s"

lemma length_setw: "length (setw w fill s) = max w (length s)"
  by (simp add: setw_def)

lemma length_setw_base:
  "2 \<le> base \<Longrightarrow> n < base ^ Suc k \<Longrightarrow> length (setw (Suc k) fill (show_base upper base n)) = Suc k"
  using show_base_length [of base n k upper] by (simp add: length_setw)

section \<open>Parsing\<close>

definition is_space :: "char \<Rightarrow> bool" where
  "is_space c \<longleftrightarrow> c = CHR '' '' \<or> (9 \<le> (of_char c :: nat) \<and> (of_char c :: nat) \<le> 13)"

definition int_max :: int where "int_max = 2147483647"
definition int_min :: int where "int_min = - 2147483648"

text \<open>\<open>strtol\<close>: white space, a sign, \<open>0x\<close> in base 16, then digits as far as they
  go. \<open>None\<close> when there is no digit.\<close>

definition strip_sign :: "string \<Rightarrow> bool \<times> string" where
  "strip_sign s = (case s of
     c # cs \<Rightarrow> if c = CHR ''-'' then (True, cs) else if c = CHR ''+'' then (False, cs) else (False, s)
   | [] \<Rightarrow> (False, []))"

definition strip_0x :: "nat \<Rightarrow> string \<Rightarrow> string" where
  "strip_0x base s = (case s of
     a # b # c # cs \<Rightarrow>
       if base = 16 \<and> a = CHR ''0'' \<and> (b = CHR ''x'' \<or> b = CHR ''X'') \<and> is_digit 16 c then c # cs else s
   | _ \<Rightarrow> s)"

definition strtol :: "nat \<Rightarrow> string \<Rightarrow> int option" where
  "strtol base s = (let (neg, r) = strip_sign (dropWhile is_space s);
       ds = takeWhile (is_digit base) (strip_0x base r)
     in if ds = [] then None
        else Some (if neg then - int (digits_value base ds) else int (digits_value base ds)))"

definition stoi_base :: "nat \<Rightarrow> string \<Rightarrow> int result" where
  "stoi_base base s = (case strtol base s of
     None \<Rightarrow> Inl (Invalid_argument ''stoi'')
   | Some i \<Rightarrow> if int_min \<le> i \<and> i \<le> int_max then Inr i else Inl (Out_of_range ''stoi''))"

definition stoi :: "string \<Rightarrow> int result" where
  "stoi s = stoi_base 10 s"

text \<open>\<open>std::stoul\<close> in 64 bits: a minus sign negates in the unsigned type.\<close>

definition stoul_base :: "nat \<Rightarrow> string \<Rightarrow> int result" where
  "stoul_base base s = (case strtol base s of
     None \<Rightarrow> Inl (Invalid_argument ''stoul'')
   | Some i \<Rightarrow> if - (2 ^ 64) < i \<and> i < 2 ^ 64 then Inr (i mod 2 ^ 64) else Inl (Out_of_range ''stoul''))"

lemma takeWhile_digits:
  "list_all (is_digit base) ds \<Longrightarrow> (rest = [] \<or> \<not> is_digit base (hd rest)) \<Longrightarrow>
     takeWhile (is_digit base) (ds @ rest) = ds"
  by (induction ds) (auto simp: takeWhile_eq_Nil_iff)

lemma digit_facts:
  assumes "is_digit base c" "base \<le> 16"
  shows "\<not> is_space c" "c \<noteq> CHR ''-''" "c \<noteq> CHR ''+''" "c \<noteq> CHR ''x''" "c \<noteq> CHR ''X''"
  using assms by (auto simp: is_digit_def digit_val_def is_space_def Let_def split: if_splits)

lemma strtol_digits:
  assumes ds: "list_all (is_digit base) ds" "ds \<noteq> []" and base: "base \<le> 16"
    and rest: "rest = [] \<or> (\<not> is_digit base (hd rest) \<and> hd rest \<noteq> CHR ''x'' \<and> hd rest \<noteq> CHR ''X'')"
  shows "strtol base (ds @ rest) = Some (int (digits_value base ds))"
proof -
  obtain c cs where c: "ds = c # cs" "is_digit base c" using ds by (cases ds) auto
  note F = digit_facts [OF c(2) base]
  have "strip_0x base (ds @ rest) = ds @ rest"
  proof (cases cs)
    case Nil
    with c rest show ?thesis by (cases rest) (auto simp: strip_0x_def split: list.split)
  next
    case (Cons d es)
    with c ds have "is_digit base d" by simp
    from digit_facts [OF this base] Cons c show ?thesis
      by (auto simp: strip_0x_def split: list.split)
  qed
  moreover have "takeWhile (is_digit base) (ds @ rest) = ds"
    using ds rest by (intro takeWhile_digits) auto
  ultimately show ?thesis
    using c F by (simp add: strtol_def strip_sign_def)
qed

lemma is_digit_zero [simp]: "0 < base \<Longrightarrow> is_digit base (CHR ''0'')"
  by (simp add: is_digit_def digit_val_def)

lemma strtol_setw:
  assumes "2 \<le> base" "base \<le> 16"
    and "rest = [] \<or> (\<not> is_digit base (hd rest) \<and> hd rest \<noteq> CHR ''x'' \<and> hd rest \<noteq> CHR ''X'')"
  shows "strtol base (setw w (CHR ''0'') (show_base upper base n) @ rest) = Some (int n)"
proof -
  have "list_all (is_digit base) (setw w (CHR ''0'') (show_base upper base n))"
    using assms show_base_digits [of base upper n] by (auto simp: setw_def list_all_iff)
  moreover have "setw w (CHR ''0'') (show_base upper base n) \<noteq> []" by (simp add: setw_def)
  ultimately have "strtol base (setw w (CHR ''0'') (show_base upper base n) @ rest) =
      Some (int (digits_value base (setw w (CHR ''0'') (show_base upper base n))))"
    by (rule strtol_digits [OF _ _ assms(2,3)])
  also have "digits_value base (setw w (CHR ''0'') (show_base upper base n)) = n"
    using assms by (simp add: setw_def digits_value_zeros digits_value_show_base)
  finally show ?thesis .
qed

lemma stoi_setw_nat:
  assumes "int n \<le> int_max"
  shows "stoi (setw w (CHR ''0'') (show_nat n)) = Inr (int n)"
  using strtol_setw [of 10 "[]" w False n] assms
  by (simp add: stoi_def stoi_base_def show_nat_def int_min_def)

section \<open>Substrings and characters\<close>

text \<open>\<open>std::string::substr\<close>: a start past the end throws, the length is cut off.\<close>

definition substr :: "string \<Rightarrow> nat \<Rightarrow> nat \<Rightarrow> string result" where
  "substr s pos n = (if length s < pos then Inl (Out_of_range ''substr'') else Inr (take n (drop pos s)))"

definition substr_from :: "string \<Rightarrow> nat \<Rightarrow> string result" where
  "substr_from s pos = (if length s < pos then Inl (Out_of_range ''substr'') else Inr (drop pos s))"

text \<open>\<open>isprint\<close> in the C locale.\<close>

definition isprint :: "char \<Rightarrow> bool" where
  "isprint c \<longleftrightarrow> 32 \<le> (of_char c :: nat) \<and> (of_char c :: nat) \<le> 126"

text \<open>The pieces that \<open>while(std::getline(ss, item, sep))\<close> delivers: no piece after a
  trailing separator.\<close>

fun getlines :: "char \<Rightarrow> string \<Rightarrow> string \<Rightarrow> string list" where
  "getlines sep acc [] = (if acc = [] then [] else [acc])"
| "getlines sep acc (c # cs) = (if c = sep then acc # getlines sep [] cs else getlines sep (acc @ [c]) cs)"

definition split_on :: "char \<Rightarrow> string \<Rightarrow> string list" where
  "split_on sep s = getlines sep [] s"

lemma getlines_piece:
  "sep \<notin> set s \<Longrightarrow> getlines sep acc (s @ sep # rest) = (acc @ s) # getlines sep [] rest"
  by (induction s arbitrary: acc) auto

lemma getlines_last: "sep \<notin> set s \<Longrightarrow> acc @ s \<noteq> [] \<Longrightarrow> getlines sep acc s = [acc @ s]"
  by (induction s arbitrary: acc) auto

text \<open>\<open>std::string::find\<close>: the first place of a text, \<open>None\<close> for \<open>npos\<close>.\<close>

fun find_str :: "string \<Rightarrow> string \<Rightarrow> nat option" where
  "find_str p [] = (if p = [] then Some 0 else None)"
| "find_str p (c # cs) = (if take (length p) (c # cs) = p then Some 0 else map_option Suc (find_str p cs))"

section \<open>Decimal fractions\<close>

text \<open>
  \<open>std::stod\<close> on decimal notation: sign, digits with at most one point, an optional
  exponent, or \<open>inf\<close>, \<open>infinity\<close>, \<open>nan\<close> in any case. The model returns the
  number that is written; the double of the code is the nearest one. A number beyond the largest
  double throws, as \<open>strtod\<close> reports a range error. Hexadecimal floats are not modelled,
  and a range error for numbers too small is not either.
\<close>

definition lower :: "char \<Rightarrow> char" where
  "lower c = (let n = of_char c :: nat in if 65 \<le> n \<and> n \<le> 90 then char_of (n + 32) else c)"

definition has_prefix :: "string \<Rightarrow> string \<Rightarrow> bool" where
  "has_prefix p s \<longleftrightarrow> map lower (take (length p) s) = p"

text \<open>The mantissa: value, number of digits behind the point, and the rest. \<open>None\<close> when
  there is no digit.\<close>

definition strtod_mantissa :: "string \<Rightarrow> (nat \<times> nat \<times> string) option" where
  "strtod_mantissa s =
     (let a = takeWhile (is_digit 10) s; r = dropWhile (is_digit 10) s in
      case r of
        c # cs \<Rightarrow>
          if c = CHR ''.'' then
            (let b = takeWhile (is_digit 10) cs in
             if a @ b = [] then None
             else Some (digits_value 10 (a @ b), length b, dropWhile (is_digit 10) cs))
          else if a = [] then None else Some (digits_value 10 a, 0, r)
      | [] \<Rightarrow> if a = [] then None else Some (digits_value 10 a, 0, []))"

definition strtod_exponent :: "string \<Rightarrow> int" where
  "strtod_exponent s = (case s of
     c # cs \<Rightarrow> if lower c = CHR ''e'' then
        (let (neg, r) = strip_sign cs; ds = takeWhile (is_digit 10) r in
         if neg then - int (digits_value 10 ds) else int (digits_value 10 ds))
       else 0
   | [] \<Rightarrow> 0)"

definition scale10 :: "int \<Rightarrow> rat \<Rightarrow> rat" where
  "scale10 e x = (if 0 \<le> e then x * 10 ^ nat e else x / 10 ^ nat (- e))"

definition max_double :: rat where
  "max_double = 2 ^ 1024 - 2 ^ 970"

definition stod :: "string \<Rightarrow> f64 result" where
  "stod s = (let (neg, r) = strip_sign (dropWhile is_space s) in
     if has_prefix ''inf'' r then Inr (if neg then Neg_inf else Pos_inf)
     else if has_prefix ''nan'' r then Inr NaN
     else case strtod_mantissa r of
       None \<Rightarrow> Inl (Invalid_argument ''stod'')
     | Some (m, k, rest) \<Rightarrow>
        (let v = scale10 (strtod_exponent rest - int k) (of_nat m) in
         if max_double < v then Inl (Out_of_range ''stod'')
         else Inr (Fin (if neg then - v else v))))"

text \<open>C++ integer division and remainder truncate towards zero.\<close>

definition c_mod :: "int \<Rightarrow> int \<Rightarrow> int" where
  "c_mod a b = sgn a * (\<bar>a\<bar> mod \<bar>b\<bar>)"

lemma c_mod_nonneg: "0 \<le> a \<Longrightarrow> 0 < b \<Longrightarrow> c_mod a b = a mod b"
  by (auto simp: c_mod_def sgn_if)

end
