(* ===== verification/Pfeiffer.thy ===== *)
theory Pfeiffer
  imports Text_Format
begin

text \<open>
  The Pfeiffer vacuum telegrams: devices/Pfeiffer/Pfeiffer.cpp and Pfeiffer.h, and the two
  drivers on top of them, TPG362.cpp (gauges) and TC110.cpp (turbo pump).

  A telegram is \<open>aaa ww ppp ll data ccc CR\<close>: address, action, parameter, length of the data,
  data, checksum. The serial line and the device at its end are an argument \<open>line\<close> of the
  operations: what \<open>write\<close> followed by \<open>read_until_endl\<close> returns, on a state \<open>'d\<close>
  of its own. Here are the checksum as the code computes it and as the protocol defines it, the
  framing, its inverse, the answers to every error reply, and the operations of the two drivers.
\<close>

section \<open>Checksum\<close>

text \<open>
  The accumulator of \<open>std::accumulate\<close> is an \<open>int\<close>, but the lambda takes it as a
  \<open>const char&\<close>: before each addition it is converted to a signed 8 bit value.
\<close>

definition char_int :: "char \<Rightarrow> int" where
  "char_int c = s8 (int (of_char c))"

definition checksum_int :: "string \<Rightarrow> int" where
  "checksum_int msg = foldl (\<lambda>c1 c2. s8 c1 + char_int c2) 0 msg"

text \<open>\<open>str_from_number\<close> with a width, on an \<open>int\<close> and on an unsigned number.\<close>

definition str_from_int :: "int \<Rightarrow> nat \<Rightarrow> string" where
  "str_from_int i w = setw w (CHR ''0'') (show_int i)"

definition str_from_nat :: "nat \<Rightarrow> nat \<Rightarrow> string" where
  "str_from_nat n w = setw w (CHR ''0'') (show_nat n)"

definition calculate_checksum :: "string \<Rightarrow> string" where
  "calculate_checksum msg = str_from_int (c_mod (checksum_int msg) 256) 3"

text \<open>The checksum of the protocol: the sum of the bytes modulo 256, in three digits.\<close>

definition protocol_checksum :: "string \<Rightarrow> string" where
  "protocol_checksum msg = str_from_nat (sum_list (map of_char msg) mod 256) 3"

section \<open>Telegrams\<close>

datatype pfeiffer_action = Read_action | Describe_action

fun action_code :: "pfeiffer_action \<Rightarrow> nat" where
  "action_code Read_action = 0"
| "action_code Describe_action = 10"

datatype pfeiffer_data_types =
    Boolean_type | Positive_integer_long | Positive_fixed_comma_number | Symbol_chain_short
  | New_boolean | Positive_integer_short | Symbol_chain_long

text \<open>\<open>str_from_number\<close> by data type, on the text that \<open>operator<<\<close> gives for the
  number. The case \<open>symbol_chain_long\<close> has no \<open>break\<close> and falls into the default.\<close>

fun str_from_number :: "string \<Rightarrow> pfeiffer_data_types \<Rightarrow> string result" where
  "str_from_number number Boolean_type = Inr (concat (replicate 6 number))"
| "str_from_number number New_boolean = Inr (setw 1 (CHR '' '') number)"
| "str_from_number number Positive_integer_long = Inr (setw 6 (CHR ''0'') number)"
| "str_from_number number Positive_fixed_comma_number = Inr (setw 6 (CHR ''0'') number)"
| "str_from_number number Symbol_chain_short = Inr (setw 6 (CHR ''0'') number)"
| "str_from_number number Positive_integer_short = Inr (setw 3 (CHR ''0'') number)"
| "str_from_number number Symbol_chain_long = Inl (Logic_error ''invalid pfieffer data type!'')"

definition show_bool :: "bool \<Rightarrow> string" where
  "show_bool b = (if b then ''1'' else ''0'')"

definition CR :: char where "CR = CHR 0x0D"

definition cmd :: "(string \<Rightarrow> ('d, string) prog) \<Rightarrow> string \<Rightarrow> ('d, string) prog" where
  "cmd line request = line (request @ calculate_checksum request @ [CR])"

definition telegram_body ::
  "16 word \<Rightarrow> 16 word \<Rightarrow> pfeiffer_action \<Rightarrow> string option \<Rightarrow> string result" where
  "telegram_body address param readwrite data =
     (let h = str_from_nat (unat address) 3 @ str_from_nat (action_code readwrite) 2 @
              str_from_nat (unat param) 3
      in case readwrite of
           Read_action \<Rightarrow> Inr (h @ ''02=?'')
         | Describe_action \<Rightarrow> (case data of
             None \<Rightarrow> Inl (Logic_error ''must have data present for write action'')
           | Some s \<Rightarrow> Inr (h @ str_from_nat (length s) 2 @ s)))"

definition semantic_command ::
  "(string \<Rightarrow> ('d, string) prog) \<Rightarrow> 16 word \<Rightarrow> 16 word \<Rightarrow> pfeiffer_action \<Rightarrow> string option \<Rightarrow>
   ('d, string) prog" where
  "semantic_command line address param readwrite data =
     andthen (lifts (telegram_body address param readwrite data)) (cmd line)"

text \<open>
  \<open>response.size() - 4\<close> is an unsigned subtraction: for a response of less than four
  bytes it is a huge number, the first \<open>substr\<close> still returns the whole response, and the
  second one throws.
\<close>

definition interpret_response_telegram :: "string \<Rightarrow> (int \<times> int \<times> string) result" where
  "interpret_response_telegram response =
     (if length response < 4 then Inl (Out_of_range ''substr'')
      else let n = length response - 4 in
        if take 3 (drop n response) \<noteq> calculate_checksum (take n response)
        then Inl (Device_error ''got invalid checksum'')
        else rbind (stoi (take 3 response)) (\<lambda>addr.
             rbind (rbind (substr response 5 3) stoi) (\<lambda>paramno.
             rbind (rbind (substr response 8 2) stoi) (\<lambda>dlen.
             rbind (if length response < 10 then Inl (Out_of_range ''substr'')
                    else Inr (if dlen < 0 then drop 10 response
                              else take (nat dlen) (drop 10 response))) (\<lambda>data.
             Inr (addr, paramno, data))))))"

definition validate_response_telegram_parameters ::
  "16 word \<Rightarrow> 16 word \<Rightarrow> int \<times> int \<times> string \<Rightarrow> unit result" where
  "validate_response_telegram_parameters address param resp = (case resp of (addr, paramno, data) \<Rightarrow>
     if addr \<noteq> uint address then Inl (Device_error ''bad device address in reply!'')
     else if paramno \<noteq> uint param then Inl (Device_error ''mismatched parameter number in reply!'')
     else if data = ''NO_DEF'' then Inl (Device_error ''the parameter number does not exist'')
     else if data = ''_RANGE'' then Inl (Device_error ''the parameter is out of range'')
     else if data = ''_LOGIC'' then Inl (Device_error ''Logical Access Violation'')
     else Inr ())"

definition read_cmd_helper ::
  "(string \<Rightarrow> ('d, string) prog) \<Rightarrow> int \<Rightarrow> 16 word \<Rightarrow> ('d, string) prog" where
  "read_cmd_helper line addr param =
     andthen (semantic_command line (word_of_int addr) param Read_action None) (\<lambda>ret.
     andthen (lifts (interpret_response_telegram ret)) (\<lambda>resp.
     andthen (lifts (validate_response_telegram_parameters (word_of_int addr) param resp)) (\<lambda>_.
     returns (snd (snd resp)))))"

definition write_cmd_helper ::
  "(string \<Rightarrow> ('d, string) prog) \<Rightarrow> int \<Rightarrow> 16 word \<Rightarrow> string \<Rightarrow> pfeiffer_data_types \<Rightarrow>
   ('d, unit) prog" where
  "write_cmd_helper line addr param number dtype =
     andthen (lifts (str_from_number number dtype)) (\<lambda>st.
     andthen (semantic_command line (word_of_int addr) param Describe_action (Some st)) (\<lambda>ret.
     andthen (lifts (interpret_response_telegram ret)) (\<lambda>resp.
     lifts (validate_response_telegram_parameters (word_of_int addr) param resp))))"

text \<open>A pressure in the format u\_expo\_new: four digits of mantissa (in thousandths) and two of
  exponent (plus 20). The double of the code is \<open>m / 1000 * 10 ^ e\<close>; the model returns the
  two integers.\<close>

definition pfeiffer_interpret_u_expo_raw :: "string \<Rightarrow> (int \<times> int) result" where
  "pfeiffer_interpret_u_expo_raw val =
     rbind (rbind (substr val 0 4) stoi) (\<lambda>mantissa.
     rbind (rbind (substr val 4 2) stoi) (\<lambda>exponent. Inr (mantissa, exponent - 20)))"

section \<open>The checksum against the protocol\<close>

lemma char_int_mod: "char_int c mod 256 = int (of_char c) mod 256"
  by (simp add: char_int_def)

lemma checksum_int_snoc: "checksum_int (msg @ [c]) = s8 (checksum_int msg) + char_int c"
  by (simp add: checksum_int_def)

lemma checksum_int_mod: "checksum_int msg mod 256 = int (sum_list (map of_char msg)) mod 256"
proof (induction msg rule: rev_induct)
  case Nil
  then show ?case by (simp add: checksum_int_def)
next
  case (snoc c msg)
  have "checksum_int (msg @ [c]) mod 256 = (checksum_int msg + int (of_char c)) mod 256"
    by (metis checksum_int_snoc char_int_mod mod_add_eq s8_mod)
  also have "\<dots> = (int (sum_list (map of_char msg)) + int (of_char c)) mod 256"
    by (metis mod_add_left_eq snoc)
  finally show ?case by simp
qed

lemma checksum_int_bounds: "- 256 \<le> checksum_int msg \<and> checksum_int msg \<le> 254"
proof (cases msg rule: rev_cases)
  case Nil
  then show ?thesis by (simp add: checksum_int_def)
next
  case (snoc m c)
  then show ?thesis
    using s8_bounds [of "checksum_int m"] s8_bounds [of "int (of_char c)"]
    by (simp add: checksum_int_snoc char_int_def)
qed

definition printable :: "string \<Rightarrow> bool" where
  "printable s \<longleftrightarrow> list_all isprint s"

lemma printable_append [simp]: "printable (a @ b) \<longleftrightarrow> printable a \<and> printable b"
  by (simp add: printable_def)

lemma char_int_printable: "isprint c \<Longrightarrow> char_int c = int (of_char c)"
  unfolding char_int_def isprint_def by (rule s8_id) simp_all

lemma checksum_int_printable:
  assumes "printable msg"
  shows "- 96 \<le> checksum_int msg"
proof (cases msg rule: rev_cases)
  case Nil
  then show ?thesis by (simp add: checksum_int_def)
next
  case (snoc m c)
  with assms have "isprint c" by (simp add: printable_def)
  then have "32 \<le> char_int c" using char_int_printable [of c] by (simp add: isprint_def)
  then show ?thesis
    using s8_bounds [of "checksum_int m"] snoc by (simp add: checksum_int_snoc)
qed

lemma length_checksum:
  assumes "printable msg"
  shows "length (calculate_checksum msg) = 3"
proof -
  let ?c = "c_mod (checksum_int msg) 256"
  have b: "- 96 \<le> ?c" "?c < 256"
    using checksum_int_bounds [of msg] checksum_int_printable [OF assms]
    by (auto simp: c_mod_def sgn_if)
  have "length (show_int ?c) \<le> 3"
  proof (cases "?c < 0")
    case True
    with b have "nat (- ?c) < 10 ^ Suc 1" by simp
    from length_show_nat [OF this] True show ?thesis by (simp add: show_int_def)
  next
    case False
    with b have "nat ?c < 10 ^ Suc 2" by simp
    from length_show_nat [OF this] False show ?thesis by (simp add: show_int_def)
  qed
  then show ?thesis by (simp add: calculate_checksum_def str_from_int_def length_setw)
qed

lemma minus_not_in_digits: "CHR ''-'' \<notin> set (setw w (CHR ''0'') (show_nat n))"
proof -
  have "list_all (is_digit 10) (show_nat n)" unfolding show_nat_def by (rule show_base_digits) simp_all
  then show ?thesis by (auto simp: setw_def list_all_iff is_digit_def digit_val_def)
qed

section \<open>Framing\<close>

lemma telegram_nat_digits: "list_all (is_digit 10) (show_nat n)"
  unfolding show_nat_def by (rule show_base_digits) simp_all

lemma digit_isprint: "is_digit 10 c \<Longrightarrow> isprint c"
  by (auto simp: is_digit_def digit_val_def isprint_def Let_def split: if_splits)

lemma str_from_nat_printable [simp]: "printable (str_from_nat n w)"
  using telegram_nat_digits [of n] digit_isprint
  by (auto simp: printable_def str_from_nat_def setw_def list_all_iff isprint_def)

lemma length_str_from_nat: "n < 10 ^ Suc k \<Longrightarrow> length (str_from_nat n (Suc k)) = Suc k"
  using length_show_nat [of n k] by (simp add: str_from_nat_def length_setw)

lemma stoi_str_from_nat: "int n \<le> int_max \<Longrightarrow> stoi (str_from_nat n w) = Inr (int n)"
  by (simp add: str_from_nat_def stoi_setw_nat)

text \<open>The telegram by which a device answers, with the checksum computed by a function
  \<open>ck\<close>.\<close>

definition reply_telegram ::
  "(string \<Rightarrow> string) \<Rightarrow> nat \<Rightarrow> nat \<Rightarrow> nat \<Rightarrow> string \<Rightarrow> string" where
  "reply_telegram ck addr act param data =
     (let body = str_from_nat addr 3 @ str_from_nat act 2 @ str_from_nat param 3 @
                 str_from_nat (length data) 2 @ data
      in body @ ck body @ [CR])"

lemma interpret_reply:
  assumes "addr < 1000" "act < 100" "param < 1000" "length data < 100" "printable data"
  shows "interpret_response_telegram (reply_telegram calculate_checksum addr act param data) =
    Inr (int addr, int param, data)"
proof -
  let ?A = "str_from_nat addr 3" and ?W = "str_from_nat act 2" and ?P = "str_from_nat param 3"
  let ?L = "str_from_nat (length data) 2"
  let ?body = "?A @ ?W @ ?P @ ?L @ data"
  have len: "length ?A = 3" "length ?W = 2" "length ?P = 3" "length ?L = 2"
    using assms length_str_from_nat [of addr 2] length_str_from_nat [of act 1]
      length_str_from_nat [of param 2] length_str_from_nat [of "length data" 1]
    by (simp_all add: numeral_eq_Suc)
  have "printable ?body" using assms by simp
  then have ck: "length (calculate_checksum ?body) = 3" by (rule length_checksum)
  have st: "stoi ?A = Inr (int addr)" "stoi ?P = Inr (int param)" "stoi ?L = Inr (int (length data))"
    using assms by (simp_all add: stoi_str_from_nat int_max_def)
  let ?r = "?body @ calculate_checksum ?body @ [CR]"
  have n: "length ?r - 4 = length ?body" "\<not> length ?r < 4" using ck by simp_all
  have parts: "take 3 ?r = ?A" "take 3 (drop 5 ?r) = ?P" "take 2 (drop 8 ?r) = ?L"
    "take (length data) (drop 10 ?r) = data" "take 3 (drop (length ?body) ?r) = calculate_checksum ?body"
    "take (length ?body) ?r = ?body"
    using len ck by simp_all
  show ?thesis
    unfolding reply_telegram_def Let_def interpret_response_telegram_def n
    using n(2) parts st len ck by (simp add: substr_def)
qed

lemma read_cmd_helper_answers':
  assumes req: "telegram_body (word_of_int addr) param Read_action None = Inr body"
    and line: "line (body @ calculate_checksum body @ [CR]) d =
      (Inr (reply_telegram calculate_checksum a act p data), d')"
    and "a < 1000" "act < 100" "p < 1000" "length data < 100" "printable data"
  shows "read_cmd_helper line addr param d =
    (map_sum id (\<lambda>_. data)
      (validate_response_telegram_parameters (word_of_int addr) param (int a, int p, data)), d')"
proof -
  have "interpret_response_telegram (reply_telegram calculate_checksum a act p data) =
      Inr (int a, int p, data)"
    using assms(3-) by (rule interpret_reply)
  then show ?thesis
    using req line
    by (auto simp: read_cmd_helper_def semantic_command_def cmd_def andthen_def lifts_def returns_def
        split: sum.split)
qed

section \<open>Properties\<close>

text \<open>
  C39. The checksum. What the code computes is the checksum of the protocol exactly when the
  truncated remainder it prints is not negative. (The two always agree modulo 256; a negative
  remainder is printed with its minus sign.)
\<close>

theorem checksum_matches_protocol:
  "calculate_checksum msg = protocol_checksum msg \<longleftrightarrow> 0 \<le> c_mod (checksum_int msg) 256"
proof -
  let ?a = "checksum_int msg" and ?s = "sum_list (map of_char msg) mod 256 :: nat"
  have s: "int ?s = ?a mod 256" by (simp add: checksum_int_mod zmod_int)
  note b = checksum_int_bounds [of msg]
  show ?thesis
  proof (cases "c_mod ?a 256 < 0")
    case True
    then have "CHR ''-'' \<in> set (calculate_checksum msg)"
      by (simp add: calculate_checksum_def str_from_int_def show_int_def setw_def)
    then have "calculate_checksum msg \<noteq> protocol_checksum msg"
      using minus_not_in_digits [of 3 ?s] by (auto simp: protocol_checksum_def str_from_nat_def)
    with True show ?thesis by simp
  next
    case False
    have "c_mod ?a 256 = ?a mod 256"
    proof (cases "0 \<le> ?a")
      case True
      then show ?thesis by (simp add: c_mod_nonneg)
    next
      case neg: False
      with False b have "?a = - 256"
        by (auto simp: c_mod_def sgn_if split: if_splits) (smt (verit) mod_pos_pos_trivial)
      then show ?thesis by (simp add: c_mod_def)
    qed
    with s have "c_mod ?a 256 = int ?s" by simp
    then have "calculate_checksum msg = protocol_checksum msg"
      by (simp add: calculate_checksum_def protocol_checksum_def str_from_int_def str_from_nat_def
          show_int_def)
    with False show ?thesis by simp
  qed
qed

text \<open>
  A correct answer that the driver rejects: the pump at address 1 says that parameter 797
  does not exist, with the checksum of the protocol, and the driver reports an invalid checksum.
\<close>

theorem valid_telegram_rejected:
  "interpret_response_telegram (reply_telegram protocol_checksum 1 10 797 ''NO_DEF'') =
     Inl (Device_error ''got invalid checksum'')"
  by code_simp

text \<open>
  Reading a parameter. When the line answers the request with a telegram whose checksum is
  the one the driver computes, the driver returns the data of the telegram if address and
  parameter are the ones asked for and the data is no error word, and otherwise throws the error
  of the telegram; nothing else can happen.
\<close>

theorem read_cmd_helper_answers:
  assumes req: "telegram_body (word_of_int addr) param Read_action None = Inr body"
    and line: "line (body @ calculate_checksum body @ [CR]) d =
      (Inr (reply_telegram calculate_checksum a act p data), d')"
    and "a < 1000" "act < 100" "p < 1000" "length data < 100" "printable data"
  shows "read_cmd_helper line addr param d =
    (map_sum id (\<lambda>_. data)
      (validate_response_telegram_parameters (word_of_int addr) param (int a, int p, data)), d')"
  using req line assms(3-) by (rule read_cmd_helper_answers'
    [of addr param body line d a act p data d'])

theorem read_cmd_helper_answers_witness:
  "read_cmd_helper (\<lambda>q n. (Inr (reply_telegram calculate_checksum 1 10 309 ''001500''), Suc n)) 1 309 0 =
    (map_sum id (\<lambda>_. ''001500'')
      (validate_response_telegram_parameters (word_of_int 1) 309 (int 1, int 309, ''001500'')), Suc 0)"
proof -
  have "printable ''001500''" by code_simp
  then show ?thesis
    by (intro read_cmd_helper_answers [where act = 10 and addr = 1 and param = 309,
          OF telegram_body_def [of "word_of_int 1" 309 Read_action, unfolded Let_def pfeiffer_action.case]]) simp_all
qed

text \<open>
  Writing. A write of a data type with a fixed width puts the telegram of the protocol on
  the line: the value, zero padded, behind its two digit length, with the checksum at the end.
\<close>

theorem write_cmd_helper_sends:
  assumes st: "str_from_number number dtype = Inr st"
    and body: "body = str_from_nat (unat (word_of_int addr :: 16 word)) 3 @ ''10'' @
      str_from_nat (unat param) 3 @ str_from_nat (length st) 2 @ st"
  shows "write_cmd_helper line addr param number dtype d =
    (case line (body @ calculate_checksum body @ [CR]) d of
       (Inl e, d') \<Rightarrow> (Inl e, d')
     | (Inr ret, d') \<Rightarrow> (rbind (interpret_response_telegram ret)
         (validate_response_telegram_parameters (word_of_int addr) param), d'))"
proof -
  have "str_from_nat 10 2 = ''10''" by code_simp
  then have "telegram_body (word_of_int addr) param Describe_action (Some st) = Inr body"
    by (simp only: telegram_body_def body Let_def action_code.simps append_assoc
        pfeiffer_action.case option.case)
  with st show ?thesis
    by (simp add: write_cmd_helper_def semantic_command_def cmd_def andthen_def lifts_def rbind_def
        split: sum.split prod.split)
qed

theorem write_cmd_helper_sends_witness:
  "write_cmd_helper (\<lambda>q d. (Inl (Protocol_timeout q), d)) 1 23 ''1'' Boolean_type () =
    (Inl (Protocol_timeout (''0011002306111111'' @ calculate_checksum ''0011002306111111'' @ [CR])), ())"
proof -
  have st: "str_from_number ''1'' Boolean_type = Inr ''111111''" by (simp add: numeral_eq_Suc)
  have body: "''0011002306111111'' = str_from_nat (unat (word_of_int 1 :: 16 word)) 3 @ ''10'' @
      str_from_nat (unat (23 :: 16 word)) 3 @ str_from_nat (length ''111111'') 2 @ ''111111''"
    by code_simp
  show ?thesis
    by (simp only: write_cmd_helper_sends [OF st body]) simp
qed

text \<open>
  The exponential pressure format is read back exactly, for all four digit mantissas and two
  digit exponents.
\<close>

theorem u_expo_roundtrip:
  assumes "m < 10000" and "e < 100"
  shows "pfeiffer_interpret_u_expo_raw (str_from_nat m 4 @ str_from_nat e 2) = Inr (int m, int e - 20)"
proof -
  have "length (str_from_nat m 4) = 4" "length (str_from_nat e 2) = 2"
    using assms length_str_from_nat [of m 3] length_str_from_nat [of e 1]
    by (simp_all flip: numeral_2_eq_2)
  moreover have "stoi (str_from_nat m 4) = Inr (int m)" "stoi (str_from_nat e 2) = Inr (int e)"
    using assms by (simp_all add: stoi_str_from_nat int_max_def)
  ultimately show ?thesis by (simp add: pfeiffer_interpret_u_expo_raw_def substr_def)
qed

theorem u_expo_roundtrip_witness:
  "pfeiffer_interpret_u_expo_raw (str_from_nat 1234 4 @ str_from_nat 14 2) = Inr (int 1234, int 14 - 20)"
  by (rule u_expo_roundtrip) simp_all

end
