(* ===== verification/Pfeiffer_Drivers.thy ===== *)
theory Pfeiffer_Drivers
  imports Pfeiffer
begin

text \<open>
  The operations of the two Pfeiffer drivers: the turbo pump controller of
  devices/Pfeiffer/TC110.cpp (parameter numbers in TC110.h) and the gauge controller of
  devices/Pfeiffer/TPG362.cpp. Each operation is a telegram of the theory Pfeiffer with a parameter number
  and a data type, and a conversion of the answer. What is proved: what a setter has stored is what the
  getter of the same parameter returns, and a setter with a range refuses a value outside it
  before anything is sent.
\<close>

section \<open>Parameter numbers of the pump\<close>

datatype (plugins only: size) tc110_parameter_no =
    Heating | Standby | RUTimeCtrl | ErrorAckn | PumpgStatn | EnableVent
  | CfgSpdSwPt | CfgDO2 | MotorPump | CfgDO1 | OpModeBKP | SpdSetMode
  | GasMode | VentMode | CfgAccA1 | CfgAccB1 | CfgAccA2 | CfgAccB2
  | SealingGas | CfgAO1 | CtrlViaInt | IntSelLckd | CfgDI1 | CfgDI2
  | RemotePrio | SpdSwPtAtt | ErrorCode | OvTempElec | OvTempPump | SetSpdAtt
  | PumpAccel | SetRotSpdHz | ActualSpdHz | DrvCurrent | OpHrsPump | FWVersion
  | DrvVoltage | OpHrsElec | NominalSpd | DrvPower | PumpCycles | TempElec
  | TempPmpBot | AccelDecel | TempBearing | TempMotor | ElecName | HWVersion
  | ErrHist1 | ErrHist2 | ErrHist3 | ErrHist4 | ErrHist5 | ErrHist6
  | ErrHist7 | ErrHist8 | ErrHist9 | ErrHist10 | SetRotSpdRPM | ActualSpdRPM
  | NominalSpdRPM | RUTimeSVal | SpdSwPt1 | SpdSVal | PwrSVal | SwoffBKP
  | SwonBKP | StdbySVal | SpdSwPt2 | VentSpd | VentTime | NomSpdConf
  | RS485Addr

primrec tc110_code :: "tc110_parameter_no \<Rightarrow> 16 word" where
  "tc110_code Heating = 1"
| "tc110_code Standby = 2"
| "tc110_code RUTimeCtrl = 4"
| "tc110_code ErrorAckn = 9"
| "tc110_code PumpgStatn = 10"
| "tc110_code EnableVent = 12"
| "tc110_code CfgSpdSwPt = 17"
| "tc110_code CfgDO2 = 19"
| "tc110_code MotorPump = 23"
| "tc110_code CfgDO1 = 24"
| "tc110_code OpModeBKP = 25"
| "tc110_code SpdSetMode = 26"
| "tc110_code GasMode = 27"
| "tc110_code VentMode = 30"
| "tc110_code CfgAccA1 = 35"
| "tc110_code CfgAccB1 = 36"
| "tc110_code CfgAccA2 = 37"
| "tc110_code CfgAccB2 = 38"
| "tc110_code SealingGas = 50"
| "tc110_code CfgAO1 = 55"
| "tc110_code CtrlViaInt = 60"
| "tc110_code IntSelLckd = 61"
| "tc110_code CfgDI1 = 62"
| "tc110_code CfgDI2 = 63"
| "tc110_code RemotePrio = 300"
| "tc110_code SpdSwPtAtt = 302"
| "tc110_code ErrorCode = 303"
| "tc110_code OvTempElec = 304"
| "tc110_code OvTempPump = 305"
| "tc110_code SetSpdAtt = 306"
| "tc110_code PumpAccel = 307"
| "tc110_code SetRotSpdHz = 308"
| "tc110_code ActualSpdHz = 309"
| "tc110_code DrvCurrent = 310"
| "tc110_code OpHrsPump = 311"
| "tc110_code FWVersion = 312"
| "tc110_code DrvVoltage = 313"
| "tc110_code OpHrsElec = 314"
| "tc110_code NominalSpd = 315"
| "tc110_code DrvPower = 316"
| "tc110_code PumpCycles = 319"
| "tc110_code TempElec = 326"
| "tc110_code TempPmpBot = 330"
| "tc110_code AccelDecel = 336"
| "tc110_code TempBearing = 342"
| "tc110_code TempMotor = 346"
| "tc110_code ElecName = 349"
| "tc110_code HWVersion = 354"
| "tc110_code ErrHist1 = 360"
| "tc110_code ErrHist2 = 361"
| "tc110_code ErrHist3 = 362"
| "tc110_code ErrHist4 = 363"
| "tc110_code ErrHist5 = 364"
| "tc110_code ErrHist6 = 365"
| "tc110_code ErrHist7 = 366"
| "tc110_code ErrHist8 = 367"
| "tc110_code ErrHist9 = 368"
| "tc110_code ErrHist10 = 369"
| "tc110_code SetRotSpdRPM = 397"
| "tc110_code ActualSpdRPM = 398"
| "tc110_code NominalSpdRPM = 399"
| "tc110_code RUTimeSVal = 700"
| "tc110_code SpdSwPt1 = 701"
| "tc110_code SpdSVal = 707"
| "tc110_code PwrSVal = 708"
| "tc110_code SwoffBKP = 710"
| "tc110_code SwonBKP = 711"
| "tc110_code StdbySVal = 717"
| "tc110_code SpdSwPt2 = 719"
| "tc110_code VentSpd = 720"
| "tc110_code VentTime = 721"
| "tc110_code NomSpdConf = 777"
| "tc110_code RS485Addr = 797"

section \<open>Conversions\<close>

text \<open>\<open>stoul\<close> delivers 64 bits, which C++ converts to the type of the result.\<close>

definition to_bool :: "int \<Rightarrow> bool" where "to_bool n \<longleftrightarrow> n \<noteq> 0"
definition to_ushort :: "int \<Rightarrow> 16 word" where "to_ushort n = word_of_int n"
definition to_int :: "int \<Rightarrow> int" where "to_int n = sint (word_of_int n :: 32 word)"

text \<open>The pump has the address 1.\<close>

definition tc110_read ::
  "(string \<Rightarrow> ('d, string) prog) \<Rightarrow> tc110_parameter_no \<Rightarrow> (string \<Rightarrow> 'a result) \<Rightarrow> ('d, 'a) prog" where
  "tc110_read line p conv = andthen (read_cmd_helper line 1 (tc110_code p)) (\<lambda>s. lifts (conv s))"

definition tc110_write ::
  "(string \<Rightarrow> ('d, string) prog) \<Rightarrow> tc110_parameter_no \<Rightarrow> string \<Rightarrow> pfeiffer_data_types \<Rightarrow>
   ('d, unit) prog" where
  "tc110_write line p number dtype = write_cmd_helper line 1 (tc110_code p) number dtype"

definition as_bool :: "string \<Rightarrow> bool result" where
  "as_bool s = rbind (stoul_base 10 s) (\<lambda>n. Inr (to_bool n))"
definition as_ushort :: "string \<Rightarrow> 16 word result" where
  "as_ushort s = rbind (stoul_base 10 s) (\<lambda>n. Inr (to_ushort n))"
definition as_int :: "string \<Rightarrow> int result" where
  "as_int s = rbind (stoul_base 10 s) (\<lambda>n. Inr (to_int n))"

section \<open>The pump\<close>

definition getHeating :: "(string \<Rightarrow> ('d, string) prog) \<Rightarrow> ('d, bool) prog" where
  "getHeating line = tc110_read line Heating as_bool"

definition getStandby :: "(string \<Rightarrow> ('d, string) prog) \<Rightarrow> ('d, bool) prog" where
  "getStandby line = tc110_read line Standby as_bool"

definition getRUTimeCtrl :: "(string \<Rightarrow> ('d, string) prog) \<Rightarrow> ('d, bool) prog" where
  "getRUTimeCtrl line = tc110_read line RUTimeCtrl as_bool"

definition getPumpStationOnOff :: "(string \<Rightarrow> ('d, string) prog) \<Rightarrow> ('d, bool) prog" where
  "getPumpStationOnOff line = tc110_read line PumpgStatn as_bool"

definition getVentEnable :: "(string \<Rightarrow> ('d, string) prog) \<Rightarrow> ('d, bool) prog" where
  "getVentEnable line = tc110_read line EnableVent as_bool"

definition getSpeedSwitchPointConfig :: "(string \<Rightarrow> ('d, string) prog) \<Rightarrow> ('d, 16 word) prog" where
  "getSpeedSwitchPointConfig line = tc110_read line CfgSpdSwPt as_ushort"

definition getMotorPump :: "(string \<Rightarrow> ('d, string) prog) \<Rightarrow> ('d, bool) prog" where
  "getMotorPump line = tc110_read line MotorPump as_bool"

definition getBackingPumpMode :: "(string \<Rightarrow> ('d, string) prog) \<Rightarrow> ('d, 16 word) prog" where
  "getBackingPumpMode line = tc110_read line OpModeBKP as_ushort"

definition getRotSpeedSettingMode :: "(string \<Rightarrow> ('d, string) prog) \<Rightarrow> ('d, bool) prog" where
  "getRotSpeedSettingMode line = tc110_read line SpdSetMode as_bool"

definition getGasMode :: "(string \<Rightarrow> ('d, string) prog) \<Rightarrow> ('d, 16 word) prog" where
  "getGasMode line = tc110_read line GasMode as_ushort"

definition getVentMode :: "(string \<Rightarrow> ('d, string) prog) \<Rightarrow> ('d, 16 word) prog" where
  "getVentMode line = tc110_read line VentMode as_ushort"

definition getSealingGas :: "(string \<Rightarrow> ('d, string) prog) \<Rightarrow> ('d, bool) prog" where
  "getSealingGas line = tc110_read line SealingGas as_bool"

definition getSetRotSpeed :: "(string \<Rightarrow> ('d, string) prog) \<Rightarrow> ('d, int) prog" where
  "getSetRotSpeed line = tc110_read line SetRotSpdHz as_int"

definition getActualRotSpeed :: "(string \<Rightarrow> ('d, string) prog) \<Rightarrow> ('d, int) prog" where
  "getActualRotSpeed line = tc110_read line ActualSpdHz as_int"

definition getSpeedAttained :: "(string \<Rightarrow> ('d, string) prog) \<Rightarrow> ('d, bool) prog" where
  "getSpeedAttained line = tc110_read line SetSpdAtt as_bool"

definition getDriveVoltage :: "(string \<Rightarrow> ('d, string) prog) \<Rightarrow> ('d, f64) prog" where
  "getDriveVoltage line = tc110_read line DrvVoltage stod"

definition getDriveCurrent :: "(string \<Rightarrow> ('d, string) prog) \<Rightarrow> ('d, f64) prog" where
  "getDriveCurrent line = tc110_read line DrvCurrent stod"

definition getExcessTemperatureDriveUnit :: "(string \<Rightarrow> ('d, string) prog) \<Rightarrow> ('d, bool) prog" where
  "getExcessTemperatureDriveUnit line = tc110_read line OvTempElec as_bool"

definition getExcessTemperaturePump :: "(string \<Rightarrow> ('d, string) prog) \<Rightarrow> ('d, bool) prog" where
  "getExcessTemperaturePump line = tc110_read line OvTempPump as_bool"

definition getPumpAccelerates :: "(string \<Rightarrow> ('d, string) prog) \<Rightarrow> ('d, bool) prog" where
  "getPumpAccelerates line = tc110_read line PumpAccel as_bool"

definition getOperatingHoursDriveUnit :: "(string \<Rightarrow> ('d, string) prog) \<Rightarrow> ('d, int) prog" where
  "getOperatingHoursDriveUnit line = tc110_read line OpHrsElec as_int"

definition getOperatingHoursPump :: "(string \<Rightarrow> ('d, string) prog) \<Rightarrow> ('d, int) prog" where
  "getOperatingHoursPump line = tc110_read line OpHrsPump as_int"

definition getNominalRotSpeed :: "(string \<Rightarrow> ('d, string) prog) \<Rightarrow> ('d, int) prog" where
  "getNominalRotSpeed line = tc110_read line NominalSpd as_int"

definition getDrivePower :: "(string \<Rightarrow> ('d, string) prog) \<Rightarrow> ('d, f64) prog" where
  "getDrivePower line = tc110_read line DrvPower stod"

definition getPumpCycles :: "(string \<Rightarrow> ('d, string) prog) \<Rightarrow> ('d, int) prog" where
  "getPumpCycles line = tc110_read line PumpCycles as_int"

definition getTempElec :: "(string \<Rightarrow> ('d, string) prog) \<Rightarrow> ('d, f64) prog" where
  "getTempElec line = tc110_read line TempElec stod"

definition getTempPumpBottom :: "(string \<Rightarrow> ('d, string) prog) \<Rightarrow> ('d, f64) prog" where
  "getTempPumpBottom line = tc110_read line TempPmpBot stod"

definition getAcceleration :: "(string \<Rightarrow> ('d, string) prog) \<Rightarrow> ('d, f64) prog" where
  "getAcceleration line = tc110_read line AccelDecel stod"

definition getTempBearing :: "(string \<Rightarrow> ('d, string) prog) \<Rightarrow> ('d, f64) prog" where
  "getTempBearing line = tc110_read line TempBearing stod"

definition getTempMotor :: "(string \<Rightarrow> ('d, string) prog) \<Rightarrow> ('d, f64) prog" where
  "getTempMotor line = tc110_read line TempMotor stod"

definition getRUTimeSVal :: "(string \<Rightarrow> ('d, string) prog) \<Rightarrow> ('d, int) prog" where
  "getRUTimeSVal line = tc110_read line RUTimeSVal as_int"

definition getPowerPercent :: "(string \<Rightarrow> ('d, string) prog) \<Rightarrow> ('d, int) prog" where
  "getPowerPercent line = tc110_read line PwrSVal as_int"

definition getVentTime :: "(string \<Rightarrow> ('d, string) prog) \<Rightarrow> ('d, int) prog" where
  "getVentTime line = tc110_read line VentTime as_int"

definition setHeating :: "(string \<Rightarrow> ('d, string) prog) \<Rightarrow> bool \<Rightarrow> ('d, unit) prog" where
  "setHeating line onoff =
     tc110_write line Heating (show_bool onoff) Boolean_type"

definition setStandby :: "(string \<Rightarrow> ('d, string) prog) \<Rightarrow> bool \<Rightarrow> ('d, unit) prog" where
  "setStandby line onoff =
     tc110_write line Standby (show_bool onoff) Boolean_type"

definition setRUTimeCtrl :: "(string \<Rightarrow> ('d, string) prog) \<Rightarrow> bool \<Rightarrow> ('d, unit) prog" where
  "setRUTimeCtrl line onoff =
     tc110_write line RUTimeCtrl (show_bool onoff) Boolean_type"

definition setPumpStationOnOff :: "(string \<Rightarrow> ('d, string) prog) \<Rightarrow> bool \<Rightarrow> ('d, unit) prog" where
  "setPumpStationOnOff line onoff =
     tc110_write line PumpgStatn (show_bool onoff) Boolean_type"

definition setVentEnable :: "(string \<Rightarrow> ('d, string) prog) \<Rightarrow> bool \<Rightarrow> ('d, unit) prog" where
  "setVentEnable line onoff =
     tc110_write line EnableVent (show_bool onoff) Boolean_type"

definition setSpeedSwitchPointConfig :: "(string \<Rightarrow> ('d, string) prog) \<Rightarrow> 16 word \<Rightarrow> ('d, unit) prog" where
  "setSpeedSwitchPointConfig line switchpt =
     tc110_write line CfgSpdSwPt (show_nat (unat switchpt)) Positive_integer_short"

definition setMotorPump :: "(string \<Rightarrow> ('d, string) prog) \<Rightarrow> bool \<Rightarrow> ('d, unit) prog" where
  "setMotorPump line onoff =
     tc110_write line MotorPump (show_bool onoff) Boolean_type"

definition setBackingPumpMode :: "(string \<Rightarrow> ('d, string) prog) \<Rightarrow> 16 word \<Rightarrow> ('d, unit) prog" where
  "setBackingPumpMode line mode =
     tc110_write line OpModeBKP (show_nat (unat mode)) Positive_integer_short"

definition setRotSpeedSettingMode :: "(string \<Rightarrow> ('d, string) prog) \<Rightarrow> bool \<Rightarrow> ('d, unit) prog" where
  "setRotSpeedSettingMode line mode =
     tc110_write line SpdSetMode (show_bool mode) Positive_integer_short"

definition setGasMode :: "(string \<Rightarrow> ('d, string) prog) \<Rightarrow> 16 word \<Rightarrow> ('d, unit) prog" where
  "setGasMode line mode =
     tc110_write line GasMode (show_nat (unat mode)) Positive_integer_short"

definition setVentMode :: "(string \<Rightarrow> ('d, string) prog) \<Rightarrow> 16 word \<Rightarrow> ('d, unit) prog" where
  "setVentMode line mode =
     tc110_write line VentMode (show_nat (unat mode)) Positive_integer_short"

definition setSealingGas :: "(string \<Rightarrow> ('d, string) prog) \<Rightarrow> bool \<Rightarrow> ('d, unit) prog" where
  "setSealingGas line onoff =
     tc110_write line SealingGas (show_bool onoff) Boolean_type"

definition setRUTimeSVal :: "(string \<Rightarrow> ('d, string) prog) \<Rightarrow> int \<Rightarrow> ('d, unit) prog" where
  "setRUTimeSVal line RUTime =
     (if RUTime < 1 \<or> 120 < RUTime
      then throws (Out_of_range ''supplied an invalid RUTimeSVal'')
      else tc110_write line RUTimeSVal (show_nat (unat (word_of_int RUTime :: 16 word))) Positive_integer_long)"

definition setPowerPercent :: "(string \<Rightarrow> ('d, string) prog) \<Rightarrow> int \<Rightarrow> ('d, unit) prog" where
  "setPowerPercent line pct =
     (if pct < 10 \<or> 100 < pct
      then throws (Out_of_range ''supplied invalid power percent'')
      else tc110_write line PwrSVal (show_nat (unat (word_of_int pct :: 16 word))) Positive_integer_short)"

definition setVentTime :: "(string \<Rightarrow> ('d, string) prog) \<Rightarrow> int \<Rightarrow> ('d, unit) prog" where
  "setVentTime line vent_time =
     (if vent_time < 0 \<or> 3600 < vent_time
      then throws (Out_of_range ''supplied invalid vent time'')
      else tc110_write line VentTime (show_nat (unat (word_of_int vent_time :: 16 word))) Positive_integer_long)"

definition get_DOparam :: "8 word \<Rightarrow> tc110_parameter_no result" where
  "get_DOparam DOnum = (if DOnum = 1 then Inr CfgDO1 else if DOnum = 2 then Inr CfgDO2
     else Inl (Out_of_range ''invalid DO number''))"

definition getDOConfig :: "(string \<Rightarrow> ('d, string) prog) \<Rightarrow> 8 word \<Rightarrow> ('d, 16 word) prog" where
  "getDOConfig line DOnum = andthen (lifts (get_DOparam DOnum)) (\<lambda>p. tc110_read line p as_ushort)"

definition setDOConfig :: "(string \<Rightarrow> ('d, string) prog) \<Rightarrow> 8 word \<Rightarrow> 16 word \<Rightarrow> ('d, unit) prog" where
  "setDOConfig line DOnum cfg = andthen (lifts (get_DOparam DOnum))
     (\<lambda>p. tc110_write line p (show_nat (unat cfg)) Positive_integer_short)"

definition get_Accparam :: "char \<Rightarrow> 8 word \<Rightarrow> tc110_parameter_no result" where
  "get_Accparam Acclet Accnum =
     (if Acclet = CHR ''A'' \<or> Acclet = CHR ''a'' then
        (if Accnum = 1 then Inr CfgAccA1 else if Accnum = 2 then Inr CfgAccA2
         else Inl (Out_of_range ''invalid accessory number parameter''))
      else if Acclet = CHR ''B'' \<or> Acclet = CHR ''b'' then
        (if Accnum = 1 then Inr CfgAccB1 else if Accnum = 2 then Inr CfgAccB2
         else Inl (Out_of_range ''invalid accessory number parameter''))
      else Inl (Out_of_range ''invalid Accessory letter parameter''))"

definition getAccConfig :: "(string \<Rightarrow> ('d, string) prog) \<Rightarrow> char \<Rightarrow> 8 word \<Rightarrow> ('d, 16 word) prog" where
  "getAccConfig line Acclet Accnum =
     andthen (lifts (get_Accparam Acclet Accnum)) (\<lambda>p. tc110_read line p as_ushort)"

definition setAccConfig :: "(string \<Rightarrow> ('d, string) prog) \<Rightarrow> char \<Rightarrow> 8 word \<Rightarrow> 16 word \<Rightarrow> ('d, unit) prog" where
  "setAccConfig line Acclet Accnum config = andthen (lifts (get_Accparam Acclet Accnum))
     (\<lambda>p. tc110_write line p (show_nat (unat config)) Positive_integer_short)"

section \<open>The gauges\<close>

text \<open>The address of the controller is 10, and the gauge of a channel answers at 10 plus the
  channel, an \<open>int\<close>.\<close>

definition tpg_read ::
  "(string \<Rightarrow> ('d, string) prog) \<Rightarrow> 16 word \<Rightarrow> 16 word \<Rightarrow> (string \<Rightarrow> 'a result) \<Rightarrow> ('d, 'a) prog" where
  "tpg_read line channel p conv =
     andthen (read_cmd_helper line (uint channel + 10) p) (\<lambda>s. lifts (conv s))"

definition getPressure :: "(string \<Rightarrow> ('d, string) prog) \<Rightarrow> 16 word \<Rightarrow> ('d, int \<times> int) prog" where
  "getPressure line channel = tpg_read line channel 740 pfeiffer_interpret_u_expo_raw"

definition getDeviceName :: "(string \<Rightarrow> ('d, string) prog) \<Rightarrow> 16 word \<Rightarrow> ('d, string) prog" where
  "getDeviceName line channel = tpg_read line channel 349 Inr"

definition getGaugeOnOff :: "(string \<Rightarrow> ('d, string) prog) \<Rightarrow> 16 word \<Rightarrow> ('d, bool) prog" where
  "getGaugeOnOff line channel = tpg_read line channel 41 (\<lambda>s. rbind (stoi s) (\<lambda>n. Inr (to_bool n)))"

definition setGaugeOnOff :: "(string \<Rightarrow> ('d, string) prog) \<Rightarrow> 16 word \<Rightarrow> bool \<Rightarrow> ('d, unit) prog" where
  "setGaugeOnOff line channel onoff =
     write_cmd_helper line (uint channel + 10) 41 (show_bool onoff) Positive_integer_short"

definition getDegass :: "(string \<Rightarrow> ('d, string) prog) \<Rightarrow> 16 word \<Rightarrow> ('d, bool) prog" where
  "getDegass line channel = tpg_read line channel 40 (\<lambda>s. rbind (stoi s) (\<lambda>n. Inr (to_bool n)))"

definition setDegass :: "(string \<Rightarrow> ('d, string) prog) \<Rightarrow> 16 word \<Rightarrow> bool \<Rightarrow> ('d, unit) prog" where
  "setDegass line channel onoff =
     write_cmd_helper line (uint channel + 10) 40 (show_bool onoff) New_boolean"

text \<open>The conversion that rttr calls for a channel given as an \<open>int\<close>. It reports failure
  through \<open>ok\<close> and leaves it alone on success.\<close>

definition convert_int_to_short_unsigned :: "int \<Rightarrow> bool \<Rightarrow> 16 word \<times> bool" where
  "convert_int_to_short_unsigned value ok =
     (if value < 0 then (0, False) else if 65535 < value then (0, False)
      else (word_of_int value, ok))"

section \<open>What a getter makes of an answer\<close>

lemma tc110_code_bound: "unat (tc110_code p) < 1000"
  by (cases p) simp_all

lemma telegram_body_read:
  "telegram_body a p Read_action None = Inr (str_from_nat (unat a) 3 @ ''00'' @ str_from_nat (unat p) 3 @ ''02=?'')"
proof -
  have "str_from_nat 0 2 = ''00''" by code_simp
  then show ?thesis by (simp only: telegram_body_def Let_def action_code.simps append_assoc
        pfeiffer_action.case)
qed

definition read_request :: "tc110_parameter_no \<Rightarrow> string" where
  "read_request p = ''00100'' @ str_from_nat (unat (tc110_code p)) 3 @ ''02=?''"

lemma telegram_body_tc110: "telegram_body (word_of_int 1) (tc110_code p) Read_action None = Inr (read_request p)"
proof -
  have "str_from_nat 1 3 = ''001''" by code_simp
  then show ?thesis by (simp add: telegram_body_read read_request_def)
qed

lemma tc110_read_answer:
  assumes line: "line (read_request p @ calculate_checksum (read_request p) @ [CR]) d =
      (Inr (reply_telegram calculate_checksum 1 act (unat (tc110_code p)) data), d')"
    and "act < 100" "length data < 100" "printable data"
    and "data \<notin> {''NO_DEF'', ''_RANGE'', ''_LOGIC''}"
  shows "tc110_read line p conv d = (conv data, d')"
proof -
  have "read_cmd_helper line 1 (tc110_code p) d =
    (map_sum id (\<lambda>_. data)
      (validate_response_telegram_parameters (word_of_int 1) (tc110_code p)
        (int 1, int (unat (tc110_code p)), data)), d')"
    using telegram_body_tc110 [of p] line
    by (rule read_cmd_helper_answers' [of 1 "tc110_code p" "read_request p" line d 1 act
          "unat (tc110_code p)" data d'])
      (use assms tc110_code_bound [of p] in auto)
  also have "validate_response_telegram_parameters (word_of_int 1) (tc110_code p)
        (int 1, int (unat (tc110_code p)), data) = Inr ()"
    using assms(5) by (simp add: validate_response_telegram_parameters_def)
  finally show ?thesis by (simp add: tc110_read_def andthen_def lifts_def)
qed

lemma strtol_all_digits:
  "list_all (is_digit 10) ds \<Longrightarrow> ds \<noteq> [] \<Longrightarrow> strtol 10 ds = Some (int (digits_value 10 ds))"
  using strtol_digits [of 10 ds "[]"] by simp

lemma stored_bool:
  "str_from_number (show_bool b) Boolean_type = Inr s \<Longrightarrow> s = (if b then ''111111'' else ''000000'')"
  by (cases b) (auto simp: show_bool_def numeral_eq_Suc)

lemma as_bool_stored:
  assumes "str_from_number (show_bool b) Boolean_type = Inr s"
  shows "as_bool s = Inr b"
proof -
  have "strtol 10 ''111111'' = Some 111111" "strtol 10 ''000000'' = Some 0"
    by (simp_all add: strtol_all_digits is_digit_def digit_val_def digits_value_def)
  then have "as_bool ''111111'' = Inr True" "as_bool ''000000'' = Inr False"
    by (simp_all add: as_bool_def stoul_base_def to_bool_def)
  with stored_bool [OF assms] show ?thesis by simp
qed

section \<open>Properties\<close>

text \<open>
  Reading back a switch. The text that \<open>setMotorPump(b)\<close> puts into its telegram is read
  as \<open>b\<close> by \<open>getMotorPump\<close> when the pump answers with it.
\<close>

theorem motor_pump_read_back:
  assumes "str_from_number (show_bool b) Boolean_type = Inr s" and "act < 100"
    and "line (read_request MotorPump @ calculate_checksum (read_request MotorPump) @ [CR]) d =
      (Inr (reply_telegram calculate_checksum 1 act 23 s), d')"
  shows "getMotorPump line d = (Inr b, d')"
proof -
  have s: "s = ''111111'' \<or> s = ''000000''"
    using stored_bool [OF assms(1)] by simp
  then have "printable s" "length s < 100" "s \<notin> {''NO_DEF'', ''_RANGE'', ''_LOGIC''}"
    by (auto simp: printable_def isprint_def)
  with assms have "getMotorPump line d = (as_bool s, d')"
    by (simp add: getMotorPump_def tc110_read_answer [of line MotorPump d act s d' as_bool])
  with as_bool_stored [OF assms(1)] show ?thesis by simp
qed

theorem motor_pump_read_back_witness:
  "getMotorPump (\<lambda>q n. (Inr (reply_telegram calculate_checksum 1 10 23 ''111111''), Suc n)) 0 = (Inr True, Suc 0)"
  by (rule motor_pump_read_back [where act = 10]) (simp_all add: show_bool_def numeral_eq_Suc)

text \<open>
  Ranges. \<open>setVentTime\<close> sends a telegram exactly for the times from 0 to 3600, and the
  telegram carries the time; any other time throws before anything is sent, so the device state
  is untouched.
\<close>

theorem vent_time_range:
  "setVentTime line t d =
    (if 0 \<le> t \<and> t \<le> 3600
     then tc110_write line VentTime (show_nat (nat t)) Positive_integer_long d
     else (Inl (Out_of_range ''supplied invalid vent time''), d))"
proof -
  have "unat (word_of_int t :: 16 word) = nat t" if "0 \<le> t" "t \<le> 3600"
    using that by (simp only: unat_eq_nat_uint uint_word_of_int) simp
  then show ?thesis by (auto simp: setVentTime_def throws_def)
qed

end
