(* ===== verification/Serial_Port.thy ===== *)
theory Serial_Port
  imports Foxtrot_Prelude
begin

text \<open>
  The serial line: protocols/src/SerialPort.cpp, the parameter sets of
  protocols/src/CommunicationProtocol.cpp and protocols/include/foxtrot/protocols/ProtocolUtilities.h.

  The world outside is an argument of the state: \<open>incoming\<close> lists the bytes that are still to be
  read with the time in milliseconds at which each one arrives, and \<open>sys_results\<close> the outcomes of
  the system calls that can fail, in order. A device that answers commands is covered, since
  every theorem holds for every \<open>incoming\<close>. \<open>sent\<close> is what was written.

  \<open>read_all\<close> leaves its asynchronous read behind when it times out, with references to its own
  local variables; \<open>pending_read\<close> says that such a read is still queued, and a later run of the
  event loop that finds a byte for it writes into a string that is gone.

  \<open>calc_minimum_transfer_time\<close> is double arithmetic; its result is an argument where it is used.
\<close>

section \<open>Parameter sets\<close>

datatype parameter = P_int int | P_unsigned int | P_string string

type_synonym parameterset = "(string \<times> parameter) list"

text \<open>The class parameters win: \<open>insert\<close> keeps an entry that is there.\<close>

definition merge_parameters :: "parameterset \<Rightarrow> parameterset option \<Rightarrow> parameterset" where
  "merge_parameters inst cls = (case cls of
     None \<Rightarrow> inst
   | Some ps \<Rightarrow> fold (\<lambda>(k, v). map_insert k v) inst ps)"

text \<open>\<open>get\<close> is \<open>std::get\<close> at the wanted type, \<open>tname\<close> the name of that type. The result says
  whether there was a value.\<close>

fun get_int :: "parameter \<Rightarrow> int option" where
  "get_int (P_int i) = Some i"
| "get_int _ = None"

fun get_string :: "parameter \<Rightarrow> string option" where
  "get_string (P_string s) = Some s"
| "get_string _ = None"

definition extract_parameter_value ::
  "(parameter \<Rightarrow> 'a option) \<Rightarrow> string \<Rightarrow> parameterset \<Rightarrow> string \<Rightarrow> bool \<Rightarrow> 'a option result" where
  "extract_parameter_value get tname params paramname required = (case map_of params paramname of
     None \<Rightarrow> if required
       then Inl (Runtime_error (''the required parameter '' @ paramname @ '' is undefined'')) else Inr None
   | Some p \<Rightarrow> (case get p of
       None \<Rightarrow> Inl (Protocol_error (''invalid type '' @ tname @ '' specified for parameter: ''))
     | Some v \<Rightarrow> Inr (Some v)))"

definition extract_parameter_map_cast ::
  "('k \<times> 'v) list \<Rightarrow> (parameter \<Rightarrow> 'k option) \<Rightarrow> string \<Rightarrow> parameterset \<Rightarrow> string \<Rightarrow> bool \<Rightarrow> 'v option result" where
  "extract_parameter_map_cast mp get tname params paramname required =
     rbind (extract_parameter_value get tname params paramname required) (\<lambda>v. case v of
       None \<Rightarrow> Inr None
     | Some k \<Rightarrow> (case map_of mp k of
         None \<Rightarrow> Inl (Runtime_error (''invalid value for parameter: '' @ paramname))
       | Some x \<Rightarrow> Inr (Some x)))"

section \<open>The port\<close>

datatype stop_bits = Sb_one | Sb_two
datatype parity_type = Parity_none | Parity_even | Parity_odd
datatype flow_type = Flow_none | Flow_hardware | Flow_software

definition sbitmap :: "(int \<times> stop_bits) list" where
  "sbitmap = [(1, Sb_one), (2, Sb_two)]"

definition paritymap :: "(string \<times> parity_type) list" where
  "paritymap = [(''none'', Parity_none), (''even'', Parity_even), (''odd'', Parity_odd)]"

definition flowmap :: "(string \<times> flow_type) list" where
  "flowmap = [(''none'', Flow_none), (''hardware'', Flow_hardware), (''software'', Flow_software)]"

record port_settings =
  port_name :: string
  baudrate :: int
  stopbits :: stop_bits
  flowcont :: flow_type
  parity :: parity_type
  char_bits :: int
  read_timeout :: int

text \<open>The options that the operating system was told, in order.\<close>

datatype port_option = O_baud int | O_parity parity_type | O_stop stop_bits | O_size int | O_flow flow_type

type_synonym byte = "8 word"

record serial =
  settings :: port_settings
  port_params :: parameterset
  options :: "port_option list"
  wait_ms :: nat
  now_ms :: nat
  incoming :: "(nat \<times> byte) list"
  sent :: "byte list"
  sys_results :: "string option list"
  pending_read :: bool

definition sys_call :: "(string \<Rightarrow> string) \<Rightarrow> (serial, unit) prog" where
  "sys_call what s = (case sys_results s of
     Some msg # rest \<Rightarrow> (Inl (Protocol_error (what msg)), s\<lparr>sys_results := rest\<rparr>)
   | rest \<Rightarrow> (Inr (), s\<lparr>sys_results := tl rest\<rparr>))"

definition set_options :: "(serial, unit) prog" where
  "set_options = modifies (\<lambda>s. s\<lparr>options := options s @
     [O_baud (baudrate (settings s)), O_parity (parity (settings s)), O_stop (stopbits (settings s)),
      O_size (char_bits (settings s))]\<rparr>)"

definition set_if :: "('a \<Rightarrow> port_settings \<Rightarrow> port_settings) \<Rightarrow> 'a option result \<Rightarrow> (serial, unit) prog" where
  "set_if f r = andthen (lifts r) (\<lambda>v. case v of
     None \<Rightarrow> returns () | Some x \<Rightarrow> modifies (\<lambda>s. s\<lparr>settings := f x (settings s)\<rparr>))"

definition Init :: "parameterset option \<Rightarrow> (serial, unit) prog" where
  "Init class_parameters =
     andthen (modifies (\<lambda>s. s\<lparr>port_params := merge_parameters (port_params s) class_parameters\<rparr>)) (\<lambda>_.
     andthen (gets port_params) (\<lambda>ps.
     andthen (set_if (\<lambda>x c. c\<lparr>port_name := x\<rparr>) (extract_parameter_value get_string ''string'' ps ''port'' True)) (\<lambda>_.
     andthen (set_if (\<lambda>x c. c\<lparr>baudrate := x\<rparr>) (extract_parameter_value get_int ''i'' ps ''baudrate'' True)) (\<lambda>_.
     andthen (set_if (\<lambda>x c. c\<lparr>stopbits := x\<rparr>) (extract_parameter_map_cast sbitmap get_int ''i'' ps ''stopbits'' False)) (\<lambda>_.
     andthen (set_if (\<lambda>x c. c\<lparr>flowcont := x\<rparr>) (extract_parameter_map_cast flowmap get_string ''string'' ps ''flowcontrol'' False)) (\<lambda>_.
     andthen (set_if (\<lambda>x c. c\<lparr>parity := x\<rparr>) (extract_parameter_map_cast paritymap get_string ''string'' ps ''parity'' False)) (\<lambda>_.
     andthen (set_if (\<lambda>x c. c\<lparr>read_timeout := x\<rparr>) (extract_parameter_value get_int ''i'' ps ''timeout'' False)) (\<lambda>_.
     andthen (set_if (\<lambda>x c. c\<lparr>char_bits := x\<rparr>) (extract_parameter_value get_int ''i'' ps ''bits'' False)) (\<lambda>_.
     andthen (sys_call (\<lambda>msg. ''can'' @ [CHR 0x27] @ ''t open serial port: '' @ msg)) (\<lambda>_.
     set_options))))))))))"

definition reconnect :: "nat option \<Rightarrow> (serial, unit) prog" where
  "reconnect wait_before_reconnect =
     andthen (sys_call (\<lambda>_. ''error closing the serial port, see ft logs for details'')) (\<lambda>_.
     andthen (modifies (\<lambda>s. s\<lparr>now_ms := now_ms s + (case wait_before_reconnect of None \<Rightarrow> 0 | Some w \<Rightarrow> w)\<rparr>)) (\<lambda>_.
     andthen (sys_call (\<lambda>_. ''error opening the serial port, see ft logs for details'')) (\<lambda>_.
     set_options)))"

section \<open>Reading and writing\<close>

definition arrived :: "nat \<Rightarrow> (nat \<times> byte) list \<Rightarrow> (nat \<times> byte) list" where
  "arrived t inc = takeWhile (\<lambda>p. fst p \<le> t) inc"

definition bytes_available :: "(serial, nat) prog" where
  "bytes_available = andthen (sys_call (\<lambda>msg. ''ioctl failed: '' @ msg)) (\<lambda>_.
     gets (\<lambda>s. length (arrived (now_ms s) (incoming s))))"

text \<open>\<open>read_some\<close> waits for a first byte and takes what there is. What \<open>read\<close> returns is the
  whole buffer, filled up with zeros.\<close>

definition read_chars :: "nat \<Rightarrow> (serial, byte list waiting) prog" where
  "read_chars len s = (if len = 0 then (Inr (Done []), s) else
     (case incoming s of
        [] \<Rightarrow> (Inr Blocked, s)
      | (t, b) # _ \<Rightarrow>
          let s' = s\<lparr>now_ms := max (now_ms s) t\<rparr>;
              got = take len (arrived (now_ms s') (incoming s))
          in andthen (sys_call (\<lambda>msg. ''error reading from serial port: '' @ msg)) (\<lambda>_.
             andthen (modifies (\<lambda>s. s\<lparr>incoming := drop (length got) (incoming s)\<rparr>)) (\<lambda>_.
             returns (Done (map snd got @ replicate (len - length got) 0)))) s'))"

text \<open>The event loop runs until \<open>deadline\<close>. A read that was left behind takes the first byte
  that comes.\<close>

definition run_for :: "nat \<Rightarrow> (serial, unit) prog" where
  "run_for deadline s = (if pending_read s \<and> arrived deadline (incoming s) \<noteq> []
     then (Inl (UB ''asynchronous read into a destroyed string''), s) else (Inr (), s))"

text \<open>A read that fails has transferred fewer bytes than it should, so the check of the count
  throws before the error code is looked at. A failing read is taken to fail before its first
  byte. One that times out has used up the bytes that came.\<close>

definition read_definite :: "nat \<Rightarrow> nat \<Rightarrow> (serial, byte list) prog" where
  "read_definite len wait = andthen (\<lambda>s. run_for (now_ms s + wait) s) (\<lambda>_ s.
     let deadline = now_ms s + wait; here = arrived deadline (incoming s);
         failed = (case sys_results s of Some _ # _ \<Rightarrow> len \<noteq> 0 | _ \<Rightarrow> False);
         s' = s\<lparr>sys_results := tl (sys_results s)\<rparr>
     in if failed
        then (Inl (Logic_error (''actlen bytes transferred not equal to requested bytes '' @
               ''transferred, should never happen!'')), s')
        else if len \<le> length here
        then (Inr (map snd (take len here)), s'\<lparr>now_ms := fold max (map fst (take len here)) (now_ms s),
               incoming := drop len (incoming s)\<rparr>)
        else (Inl (Protocol_timeout ''serial port read timed out...''),
              s'\<lparr>now_ms := deadline, incoming := drop (length here) (incoming s)\<rparr>))"

text \<open>\<open>read_all\<close> takes whatever is there when the last byte it needs arrives. An error is only
  logged.\<close>

definition read_all :: "nat \<Rightarrow> nat \<Rightarrow> (serial, byte list) prog" where
  "read_all at_least timeout = andthen (\<lambda>s. run_for (now_ms s + timeout) s) (\<lambda>_ s.
     let deadline = now_ms s + timeout; here = arrived deadline (incoming s);
         failed = (case sys_results s of Some _ # _ \<Rightarrow> at_least \<noteq> 0 | _ \<Rightarrow> False);
         s' = s\<lparr>sys_results := tl (sys_results s)\<rparr>;
         timed_out = Protocol_timeout ''failed to transfer required bytes in time allowed''
     in if failed then (Inl timed_out, s')
        else if at_least \<le> length here
        then let t = fold max (map fst (take at_least here)) (now_ms s); got = arrived t (incoming s)
             in (Inr (map snd got), s'\<lparr>now_ms := t, incoming := drop (length got) (incoming s)\<rparr>)
        else (Inl timed_out,
              s'\<lparr>now_ms := deadline, incoming := drop (length here) (incoming s), pending_read := True\<rparr>))"

definition write_bytes :: "byte list \<Rightarrow> (serial, unit) prog" where
  "write_bytes data = andthen (sys_call (\<lambda>msg. ''error writing to serial port: '' @ msg)) (\<lambda>_.
     modifies (\<lambda>s. s\<lparr>sent := sent s @ data\<rparr>))"

definition flush :: "(serial, unit) prog" where
  "flush = andthen (sys_call (\<lambda>msg. ''failed to flush serial port: '' @ msg)) (\<lambda>_.
     modifies (\<lambda>s. s\<lparr>incoming := drop (length (arrived (now_ms s) (incoming s))) (incoming s)\<rparr>))"

definition sleep_ms :: "nat \<Rightarrow> (serial, unit) prog" where
  "sleep_ms t = modifies (\<lambda>s. s\<lparr>now_ms := now_ms s + t\<rparr>)"

text \<open>Reading up to an end of line by polling. The recursion ends because every round takes at
  least one byte off the line or throws.\<close>

lemma arrived_prefix: "arrived t inc = take (length (arrived t inc)) inc"
  unfolding arrived_def by (rule takeWhile_eq_take)

lemma length_arrived [simp]: "length (arrived t inc) \<le> length inc"
  by (simp add: arrived_def length_takeWhile_le)

lemma sys_call_incoming [simp]: "incoming (snd (sys_call f s)) = incoming s" "now_ms (snd (sys_call f s)) = now_ms s"
  "sent (snd (sys_call f s)) = sent s" "pending_read (snd (sys_call f s)) = pending_read s"
  by (auto simp: sys_call_def split: list.split option.split)

lemma sys_call_Inr: "sys_call f s = (Inr u, s') \<Longrightarrow> s' = s\<lparr>sys_results := tl (sys_results s)\<rparr>"
  by (auto simp: sys_call_def split: list.splits option.splits)

definition poll_once :: "byte list \<Rightarrow> (serial, byte list waiting) prog" where
  "poll_once ret = andthen (gets wait_ms) (\<lambda>w. andthen (sleep_ms w) (\<lambda>_.
     andthen bytes_available (\<lambda>avail.
     if avail = 0
     then throws (Protocol_error (''ran out of bytes to read in serial port! Perhaps wait_ms is not '' @
            ''configured properly or this command does not return a response''))
     else andthen bytes_available (\<lambda>n. andthen (read_chars n) (\<lambda>r. returns (case r of
       Blocked \<Rightarrow> Blocked | Done bs \<Rightarrow> Done (ret @ bs)))))))"

lemma arrived_idem: "t \<le> t' \<Longrightarrow> takeWhile (\<lambda>p. fst p \<le> t) (arrived t' inc) = arrived t inc"
  unfolding arrived_def by (induction inc) auto

lemma arrived_split: "t \<le> t' \<Longrightarrow> arrived t' inc = arrived t inc @ arrived t' (drop (length (arrived t inc)) inc)"
  unfolding arrived_def by (induction inc) auto

text \<open>A read of what is there takes exactly that.\<close>

lemma read_chars_here:
  assumes "n = length (arrived (now_ms s) (incoming s))" and "read_chars n s = (Inr r, s')"
  shows "r = Done (map snd (take n (incoming s))) \<and> incoming s' = drop n (incoming s) \<and>
    now_ms s' = now_ms s \<and> sent s' = sent s \<and> wait_ms s' = wait_ms s"
proof (cases "incoming s")
  case Nil
  with assms show ?thesis by (auto simp: read_chars_def arrived_def)
next
  case (Cons p inc)
  show ?thesis
  proof (cases "n = 0")
    case True
    with assms show ?thesis by (auto simp: read_chars_def)
  next
    case False
    with assms(1) Cons have p: "fst p \<le> now_ms s" by (auto simp: arrived_def split: if_splits)
    then have m: "max (now_ms s) (fst p) = now_ms s" by simp
    have t: "take n (arrived (now_ms s) (incoming s)) = take n (incoming s)"
      using assms(1) arrived_prefix [of "now_ms s" "incoming s"] by simp
    have l: "length (take n (incoming s)) = n"
      using assms(1) by simp
    show ?thesis
      using assms(2) False p m t l
      by (cases p) (auto simp: Cons read_chars_def Let_def andthen_def returns_def sys_call_def modifies_def
          split: list.splits option.splits)
  qed
qed

lemma poll_once_Inr:
  assumes "poll_once ret s = (Inr r, s')"
  shows "\<exists>n > 0. n \<le> length (incoming s) \<and> r = Done (ret @ map snd (take n (incoming s))) \<and>
    incoming s' = drop n (incoming s) \<and> sent s' = sent s"
proof -
  let ?sA = "s\<lparr>now_ms := now_ms s + wait_ms s, sys_results := tl (tl (sys_results s))\<rparr>"
  let ?n = "length (arrived (now_ms ?sA) (incoming ?sA))"
  have "?n \<noteq> 0" and "\<exists>q. read_chars ?n ?sA = (Inr q, s') \<and>
      r = (case q of Blocked \<Rightarrow> Blocked | Done bs \<Rightarrow> Done (ret @ bs))"
    using assms
    by (auto simp: poll_once_def andthen_def gets_def sleep_ms_def modifies_def bytes_available_def
        returns_def throws_def split: sum.splits prod.splits if_splits dest!: sys_call_Inr)
  then obtain q where q: "read_chars ?n ?sA = (Inr q, s')"
    "r = (case q of Blocked \<Rightarrow> Blocked | Done bs \<Rightarrow> Done (ret @ bs))" by blast
  from read_chars_here [OF refl q(1)] q(2) \<open>?n \<noteq> 0\<close> show ?thesis
    by (intro exI [of _ ?n]) (simp add: length_arrived)
qed

function poll_loop :: "byte \<Rightarrow> byte list \<Rightarrow> (serial, byte list waiting) prog" where
  "poll_loop endlchar ret s =
     (if endlchar \<in> set ret then (Inr (Done ret), s)
      else (case poll_once ret s of
          (Inl e, s') \<Rightarrow> (Inl e, s')
        | (Inr Blocked, s') \<Rightarrow> (Inr Blocked, s')
        | (Inr (Done ret'), s') \<Rightarrow> poll_loop endlchar ret' s'))"
  by pat_completeness auto

termination
  by (relation "measure (\<lambda>(_, _, s). length (incoming s))") (auto dest!: poll_once_Inr [OF sym])

definition read_until_endl_poll_impl :: "byte \<Rightarrow> (serial, byte list waiting) prog" where
  "read_until_endl_poll_impl endlchar =
     andthen bytes_available (\<lambda>avail. andthen (read_chars avail) (\<lambda>r. case r of
       Blocked \<Rightarrow> returns Blocked
     | Done ret \<Rightarrow> poll_loop endlchar ret))"

declare poll_loop.simps [simp del]

section \<open>What a poll takes off the line\<close>

lemma sys_call_Inl: "sys_call f s = (Inl e, s') \<Longrightarrow> s' = s\<lparr>sys_results := tl (sys_results s)\<rparr>"
  by (auto simp: sys_call_def split: list.splits option.splits)

lemma read_chars_Inl: "read_chars n s = (Inl e, s') \<Longrightarrow> incoming s' = incoming s"
  by (auto simp: read_chars_def Let_def andthen_def returns_def modifies_def
      split: list.splits if_splits sum.splits prod.splits dest!: sys_call_Inl sys_call_Inr)

lemma poll_once_Inl: "poll_once ret s = (Inl e, s') \<Longrightarrow> incoming s' = incoming s"
  by (auto simp: poll_once_def andthen_def gets_def sleep_ms_def modifies_def bytes_available_def
      returns_def throws_def split: sum.splits prod.splits if_splits
      dest!: sys_call_Inr sys_call_Inl read_chars_Inl)

lemma poll_loop_takes:
  assumes "poll_loop e ret s = (r, s')"
  shows "\<exists>n. incoming s' = drop n (incoming s) \<and> (case r of
      Inr (Done text) \<Rightarrow> e \<in> set text \<and> text = ret @ map snd (take n (incoming s))
    | Inr Blocked \<Rightarrow> False
    | Inl _ \<Rightarrow> e \<notin> set ret \<and> e \<notin> set (map snd (take n (incoming s))))"
  using assms
proof (induction e ret s arbitrary: r s' rule: poll_loop.induct)
  case (1 e ret s)
  show ?case
  proof (cases "e \<in> set ret")
    case True
    with 1(2) show ?thesis by (intro exI [of _ 0]) (auto simp: poll_loop.simps [of e ret s])
  next
    case False
    obtain q sA where q: "poll_once ret s = (q, sA)" by fastforce
    show ?thesis
    proof (cases q)
      case (Inl x)
      with False q 1(2) poll_once_Inl [of ret s x sA] show ?thesis
        by (intro exI [of _ 0]) (auto simp: poll_loop.simps [of e ret s])
    next
      case (Inr w)
      from poll_once_Inr [OF q [unfolded Inr]] obtain n where n: "n \<le> length (incoming s)"
        "w = Done (ret @ map snd (take n (incoming s)))" "incoming sA = drop n (incoming s)" by blast
      let ?ret = "ret @ map snd (take n (incoming s))"
      have "poll_loop e ?ret sA = (r, s')"
        using 1(2) False q Inr n(2) by (simp add: poll_loop.simps [of e ret s])
      from 1(1) [OF False q [symmetric] Inr n(2) this] obtain m where
        m: "incoming s' = drop m (incoming sA)" "case r of
           Inr (Done text) \<Rightarrow> e \<in> set text \<and> text = ?ret @ map snd (take m (incoming sA))
         | Inr Blocked \<Rightarrow> False
         | Inl _ \<Rightarrow> e \<notin> set ?ret \<and> e \<notin> set (map snd (take m (incoming sA)))" by blast
      have "take (n + m) (incoming s) = take n (incoming s) @ take m (drop n (incoming s))"
        by (simp add: take_add)
      with m n(3) show ?thesis
        by (intro exI [of _ "n + m"]) (auto simp: add.commute split: sum.splits waiting.splits)
    qed
  qed
qed

text \<open>
  C29. Reading a line by polling. The loop ends on every line. If it returns, the text contains
  the end of line and is exactly what was taken off the line, no byte lost or invented; if it
  throws, what it has taken contains no end of line, so no complete line is lost.
\<close>

theorem poll_reads_a_line:
  assumes "read_until_endl_poll_impl endl s = (r, s')"
  shows "\<exists>n. incoming s' = drop n (incoming s) \<and> (case r of
      Inr (Done text) \<Rightarrow> endl \<in> set text \<and> text = map snd (take n (incoming s))
    | Inr Blocked \<Rightarrow> False
    | Inl _ \<Rightarrow> endl \<notin> set (map snd (take n (incoming s))))"
proof -
  obtain a sA where a: "bytes_available s = (a, sA)" by fastforce
  show ?thesis
  proof (cases a)
    case (Inl e)
    with a assms show ?thesis
      by (intro exI [of _ 0]) (auto simp: read_until_endl_poll_impl_def bytes_available_def andthen_def
          gets_def split: sum.splits prod.splits dest!: sys_call_Inl)
  next
    case (Inr n)
    with a have n: "n = length (arrived (now_ms sA) (incoming sA))" "incoming sA = incoming s"
      by (auto simp: bytes_available_def andthen_def gets_def split: sum.splits prod.splits dest!: sys_call_Inr)
    obtain q sB where q: "read_chars n sA = (q, sB)" by fastforce
    show ?thesis
    proof (cases q)
      case (Inl e)
      with q a \<open>a = Inr n\<close> assms read_chars_Inl [of n sA e sB] n(2) show ?thesis
        by (intro exI [of _ 0]) (auto simp: read_until_endl_poll_impl_def andthen_def)
    next
      case (Inr w)
      from read_chars_here [OF n(1) q [unfolded Inr]] n(2) have w:
        "w = Done (map snd (take n (incoming s)))" "incoming sB = drop n (incoming s)" by auto
      with q Inr a \<open>a = Inr n\<close> assms have "poll_loop endl (map snd (take n (incoming s))) sB = (r, s')"
        by (simp add: read_until_endl_poll_impl_def andthen_def)
      from poll_loop_takes [OF this] obtain m where
        "incoming s' = drop m (incoming sB)" "case r of
           Inr (Done text) \<Rightarrow> endl \<in> set text \<and>
             text = map snd (take n (incoming s)) @ map snd (take m (incoming sB))
         | Inr Blocked \<Rightarrow> False
         | Inl _ \<Rightarrow> endl \<notin> set (map snd (take n (incoming s))) \<and>
             endl \<notin> set (map snd (take m (incoming sB)))" by blast
      moreover have "take (n + m) (incoming s) = take n (incoming s) @ take m (drop n (incoming s))"
        by (simp add: take_add)
      ultimately show ?thesis
        using w(2) by (intro exI [of _ "n + m"]) (auto simp: add.commute split: sum.splits waiting.splits)
    qed
  qed
qed

definition quiet_port :: serial where
  "quiet_port = \<lparr>settings = \<lparr>port_name = ''ttyS0'', baudrate = 9600, stopbits = Sb_one, flowcont = Flow_none,
     parity = Parity_none, char_bits = 8, read_timeout = 5\<rparr>, port_params = [], options = [], wait_ms = 20,
     now_ms = 0, incoming = [], sent = [], sys_results = [], pending_read = False\<rparr>"

theorem poll_reads_a_line_witness:
  "\<exists>n. incoming (snd (read_until_endl_poll_impl 10 (quiet_port\<lparr>incoming := [(0, 79), (15, 75), (15, 10)]\<rparr>))) =
      drop n [(0, 79), (15, 75), (15, 10)] \<and>
    [79, 75, 10] = map snd (take n [(0 :: nat, 79 :: byte), (15, 75), (15, 10)])"
proof -
  let ?s = "quiet_port\<lparr>incoming := [(0, 79), (15, 75), (15, 10)]\<rparr>"
  have "fst (read_until_endl_poll_impl 10 ?s) = Inr (Done [79, 75, 10])"
    by code_simp
  with poll_reads_a_line [of 10 ?s, OF surjective_pairing] show ?thesis
    by (simp add: quiet_port_def)
qed

lemma read_definite_quiet:
  assumes "\<not> pending_read s" and "sys_results s = []"
  shows "read_definite len wait s =
    (let here = arrived (now_ms s + wait) (incoming s)
     in if len \<le> length here
        then (Inr (map snd (take len (incoming s))),
              s\<lparr>now_ms := fold max (map fst (take len (incoming s))) (now_ms s), incoming := drop len (incoming s)\<rparr>)
        else (Inl (Protocol_timeout ''serial port read timed out...''),
              s\<lparr>now_ms := now_ms s + wait, incoming := drop (length here) (incoming s)\<rparr>))"
proof -
  have "take len (arrived (now_ms s + wait) (incoming s)) = take len (incoming s)"
    if "len \<le> length (arrived (now_ms s + wait) (incoming s))"
    using that arrived_prefix [of "now_ms s + wait" "incoming s"] by (metis min.absorb1 take_take)
  with assms show ?thesis
    by (simp add: read_definite_def run_for_def andthen_def Let_def)
qed

text \<open>
  A read of a fixed length. Without a failing port and without a read that was left behind,
  \<open>read_definite\<close> returns exactly the next bytes of the line when they arrive in time, and leaves
  the rest; otherwise it throws a timeout at the deadline, and the bytes of the incomplete
  message that had arrived are gone.
\<close>

theorem read_definite_exact:
  assumes "\<not> pending_read s" and "sys_results s = []"
  shows "read_definite len wait s =
    (let here = arrived (now_ms s + wait) (incoming s)
     in if len \<le> length here
        then (Inr (map snd (take len (incoming s))),
              s\<lparr>now_ms := fold max (map fst (take len (incoming s))) (now_ms s), incoming := drop len (incoming s)\<rparr>)
        else (Inl (Protocol_timeout ''serial port read timed out...''),
              s\<lparr>now_ms := now_ms s + wait, incoming := drop (length here) (incoming s)\<rparr>))"
  by (rule read_definite_quiet [OF assms])

theorem read_definite_exact_witness:
  "read_definite 2 100 (quiet_port\<lparr>incoming := [(5, 1)]\<rparr>) =
     (Inl (Protocol_timeout ''serial port read timed out...''), quiet_port\<lparr>now_ms := 100\<rparr>)"
  by (subst read_definite_exact) (simp_all add: quiet_port_def arrived_def Let_def)

text \<open>
  A timeout of \<open>read_all\<close>. A call that times out leaves its asynchronous read queued on
  variables that are gone: the next read of the port that finds a byte runs into undefined
  behaviour.
\<close>

theorem read_all_timeout_dangles:
  assumes "\<not> pending_read s" and "sys_results s = []"
    and "length (arrived (now_ms s + timeout) (incoming s)) < at_least"
    and "arrived (now_ms s + timeout + wait) (incoming s) \<noteq> arrived (now_ms s + timeout) (incoming s)"
  shows "fst (read_all at_least timeout s) =
      Inl (Protocol_timeout ''failed to transfer required bytes in time allowed'') \<and>
    fst (read_definite len wait (snd (read_all at_least timeout s))) =
      Inl (UB ''asynchronous read into a destroyed string'')"
proof -
  let ?t = "now_ms s + timeout"
  let ?s = "s\<lparr>now_ms := ?t, incoming := drop (length (arrived ?t (incoming s))) (incoming s), pending_read := True\<rparr>"
  have run: "read_all at_least timeout s =
      (Inl (Protocol_timeout ''failed to transfer required bytes in time allowed''), ?s)"
    using assms(1-3) by (simp add: read_all_def run_for_def andthen_def Let_def)
  have "arrived (?t + wait) (incoming s) = arrived ?t (incoming s) @ arrived (?t + wait) (incoming ?s)"
    using arrived_split [of ?t "?t + wait" "incoming s"] by simp
  with assms(4) have "arrived (?t + wait) (incoming ?s) \<noteq> []" by auto
  then have "fst (read_definite len wait ?s) = Inl (UB ''asynchronous read into a destroyed string'')"
    by (simp add: read_definite_def run_for_def andthen_def)
  with run show ?thesis by simp
qed

theorem read_all_timeout_dangles_witness:
  "fst (read_definite 1 100 (snd (read_all 2 50 (quiet_port\<lparr>incoming := [(70, 1)]\<rparr>)))) =
     Inl (UB ''asynchronous read into a destroyed string'')"
  by (rule conjunct2 [OF read_all_timeout_dangles]) (simp_all add: quiet_port_def arrived_def)

lemma takeWhile_drop: "n \<le> length (takeWhile P xs) \<Longrightarrow> takeWhile P (drop n xs) = drop n (takeWhile P xs)"
proof (induction xs arbitrary: n)
  case (Cons x xs)
  then show ?case by (cases n) (auto split: if_splits)
qed simp

section \<open>A port as a source of bytes\<close>

text \<open>What a driver with a binary protocol relies on. \<open>ready\<close> is what can be read at once.\<close>

locale byte_port =
  fixes good :: "'s \<Rightarrow> bool" and ready :: "'s \<Rightarrow> byte list" and written :: "'s \<Rightarrow> byte list"
    and recv :: "nat \<Rightarrow> nat \<Rightarrow> ('s, byte list) prog" and send :: "byte list \<Rightarrow> ('s, unit) prog"
  assumes recv_ready: "good s \<Longrightarrow> n \<le> length (ready s) \<Longrightarrow> \<exists>s'. recv n tm s = (Inr (take n (ready s)), s') \<and>
      good s' \<and> ready s' = drop n (ready s) \<and> written s' = written s"
    and send_good: "good s \<Longrightarrow> \<exists>s'. send bs s = (Inr (), s') \<and> good s' \<and> ready s' = ready s \<and>
      written s' = written s @ bs"
begin

text \<open>A message that is read in two pieces.\<close>

lemma recv_two:
  assumes "good s" and "ready s = xs @ ys @ zs"
  obtains sA sB where "recv (length xs) tm s = (Inr xs, sA)" "recv (length ys) tn sA = (Inr ys, sB)"
    "good sA" "good sB" "ready sA = ys @ zs" "ready sB = zs" "written sA = written s" "written sB = written s"
proof -
  obtain sA where A: "recv (length xs) tm s = (Inr xs, sA)" "good sA" "ready sA = ys @ zs" "written sA = written s"
    using recv_ready [OF assms(1), of "length xs" tm] assms(2) by auto
  obtain sB where B: "recv (length ys) tn sA = (Inr ys, sB)" "good sB" "ready sB = zs" "written sB = written s"
    using recv_ready [OF A(2), of "length ys" tn] A(3,4) by auto
  from that A B show thesis by blast
qed

end

text \<open>On a good port no call fails and everything that will come has come.\<close>

definition port_good :: "serial \<Rightarrow> bool" where
  "port_good s \<longleftrightarrow> \<not> pending_read s \<and> sys_results s = [] \<and> list_all (\<lambda>p. fst p \<le> now_ms s) (incoming s)"

definition ready_bytes :: "serial \<Rightarrow> byte list" where
  "ready_bytes s = map snd (arrived (now_ms s) (incoming s))"

lemma fold_max_le: "list_all (\<lambda>t. t \<le> (m :: nat)) ts \<Longrightarrow> fold max ts m = m"
  by (induction ts) (auto simp: max_def)

lemma read_ready:
  assumes "port_good s" and "n \<le> length (ready_bytes s)"
  shows "read_definite n tm s = (Inr (take n (ready_bytes s)), s\<lparr>incoming := drop n (incoming s)\<rparr>)"
    and "ready_bytes (s\<lparr>incoming := drop n (incoming s)\<rparr>) = drop n (ready_bytes s)"
proof -
  let ?h = "arrived (now_ms s) (incoming s)" and ?H = "arrived (now_ms s + tm) (incoming s)"
  have n: "n \<le> length ?h" using assms(2) by (simp add: ready_bytes_def)
  have H: "?H = ?h @ arrived (now_ms s + tm) (drop (length ?h) (incoming s))"
    by (rule arrived_split) simp
  have t: "take n ?h = take n (incoming s)"
    using n arrived_prefix [of "now_ms s" "incoming s"] by (metis min.absorb1 take_take)
  have "list_all (\<lambda>t. t \<le> now_ms s) (map fst (take n ?h))"
    unfolding list_all_iff arrived_def by (auto dest!: in_set_takeD set_takeWhileD)
  with fold_max_le t have "fold max (map fst (take n (incoming s))) (now_ms s) = now_ms s" by metis
  moreover have "n \<le> length ?H" using n unfolding H by simp
  ultimately show "read_definite n tm s = (Inr (take n (ready_bytes s)), s\<lparr>incoming := drop n (incoming s)\<rparr>)"
    using assms(1) t [symmetric] by (simp add: read_definite_quiet port_good_def Let_def ready_bytes_def take_map)
  have "arrived (now_ms s) (drop n (incoming s)) = drop n ?h"
    using n unfolding arrived_def
    by (rule takeWhile_drop)
  then show "ready_bytes (s\<lparr>incoming := drop n (incoming s)\<rparr>) = drop n (ready_bytes s)"
    by (simp add: ready_bytes_def drop_map)
qed

lemma write_ready:
  assumes "port_good s"
  shows "write_bytes bs s = (Inr (), s\<lparr>sent := sent s @ bs\<rparr>)"
  using assms by (simp add: write_bytes_def port_good_def sys_call_def andthen_def modifies_def)

interpretation serial_port: byte_port port_good ready_bytes sent read_definite write_bytes
proof unfold_locales
  fix s n tm assume "port_good s" "n \<le> length (ready_bytes s)"
  from read_ready(1) [OF this, of tm] read_ready(2) [OF this] \<open>port_good s\<close>
  show "\<exists>s'. read_definite n tm s = (Inr (take n (ready_bytes s)), s') \<and>
      port_good s' \<and> ready_bytes s' = drop n (ready_bytes s) \<and> sent s' = sent s"
    by (auto simp: port_good_def list_all_iff dest: in_set_dropD)
next
  fix s bs assume "port_good s"
  with write_ready [OF this, of bs]
  show "\<exists>s'. write_bytes bs s = (Inr (), s') \<and> port_good s' \<and> ready_bytes s' = ready_bytes s \<and> sent s' = sent s @ bs"
    by (simp add: port_good_def ready_bytes_def)
qed

lemma arrived_all: "list_all (\<lambda>p. fst p \<le> t) inc \<Longrightarrow> t \<le> t' \<Longrightarrow> arrived t' inc = inc"
  unfolding arrived_def by (induction inc) auto

lemma port_good_arrived:
  assumes "port_good s" and "now_ms s \<le> t"
  shows "arrived t (incoming s) = incoming s" and "list_all (\<lambda>p. fst p \<le> t) (incoming s)"
  using assms arrived_all [of "now_ms s" "incoming s" t] by (auto simp: port_good_def list_all_iff)

lemma ready_is_incoming: "port_good s \<Longrightarrow> ready_bytes s = map snd (incoming s)"
  by (simp add: ready_bytes_def port_good_arrived)

lemma sleep_good:
  assumes "port_good s"
  shows "\<exists>s'. sleep_ms t s = (Inr (), s') \<and> port_good s' \<and> ready_bytes s' = ready_bytes s \<and> sent s' = sent s"
proof -
  let ?s = "s\<lparr>now_ms := now_ms s + t\<rparr>"
  have g: "port_good ?s"
    using assms port_good_arrived(2) [OF assms, of "now_ms s + t"] by (simp add: port_good_def)
  then have "ready_bytes ?s = ready_bytes s" using assms by (simp add: ready_is_incoming)
  with g show ?thesis by (simp add: sleep_ms_def modifies_def)
qed

lemma flush_good:
  assumes "port_good s"
  shows "\<exists>s'. flush s = (Inr (), s') \<and> port_good s' \<and> ready_bytes s' = [] \<and> sent s' = sent s"
proof -
  let ?s = "s\<lparr>sys_results := [], incoming := []\<rparr>"
  have "flush s = (Inr (), ?s)"
    using assms port_good_arrived(1) [OF assms order_refl]
    by (simp add: flush_def sys_call_def andthen_def modifies_def port_good_def)
  moreover have "port_good ?s" "ready_bytes ?s = []"
    using assms by (simp_all add: port_good_def ready_bytes_def arrived_def)
  ultimately show ?thesis by simp
qed

end
