(* ===== verification/APT_Protocol.thy ===== *)
theory APT_Protocol
  imports Serial_Port
begin

text \<open>
  The messages of the Thorlabs motor controllers: devices/Thorlabs_APT/APT_defs.hh, the message
  functions of APT.h and APT.cpp, and the getters and setters of APT.cpp.

  A message is a header of six bytes, with two parameters or, when the top bit of the destination
  is set, with the length of the data that follow. The structs are packed and little endian, so
  the bytes of a struct are the bytes of its fields in order. \<open>char\<close> is signed, as on the machines
  the program is built for.
\<close>

section \<open>Numbers as bytes\<close>

definition le16 :: "16 word \<Rightarrow> byte list" where
  "le16 w = [ucast w, ucast (drop_bit 8 w)]"

definition le32 :: "32 word \<Rightarrow> byte list" where
  "le32 w = [ucast w, ucast (drop_bit 8 w), ucast (drop_bit 16 w), ucast (drop_bit 24 w)]"

definition of16 :: "byte list \<Rightarrow> 16 word" where
  "of16 bs = or (ucast (bs ! 0)) (push_bit 8 (ucast (bs ! 1)))"

definition of32 :: "byte list \<Rightarrow> 32 word" where
  "of32 bs = or (ucast (bs ! 0)) (or (push_bit 8 (ucast (bs ! 1)))
     (or (push_bit 16 (ucast (bs ! 2))) (push_bit 24 (ucast (bs ! 3)))))"

lemma length_le [simp]: "length (le16 w) = 2" "length (le32 v) = 4"
  by (simp_all add: le16_def le32_def)

lemma of16_le16 [simp]: "of16 (le16 w @ bs) = w"
  by (rule bit_word_eqI) (auto simp: of16_def le16_def bit_simps)

lemma of32_le32 [simp]: "of32 (le32 w @ bs) = w"
proof (rule bit_word_eqI)
  fix n
  show "bit (of32 (le32 w @ bs)) n = bit w n" if "n < LENGTH(32)"
    using that by (cases "n < 16"; cases "n < 24") (auto simp: of32_def le32_def bit_simps)
qed

section \<open>Opcodes, addresses and structs\<close>

datatype (plugins only: size) bsc203_opcodes =
    MGMSG_MOD_IDENTIFY
  | MGMSG_MOD_SET_CHANENABLESTATE
  | MGMSG_MOD_REQ_CHANENABLESTATE
  | MGMSG_MOD_GET_CHANENABLESTATE
  | MGMSG_MOD_START_UPDATEMSGS
  | MGMSG_MOD_STOP_UPDATEMSGS
  | MGMSG_MOD_REQ_HWINFO
  | MGMSG_MOD_GET_HWINFO
  | MGMSG_HW_NO_FLASH_PROGRAMMING
  | MGMSG_RACK_REQ_BAYUSED
  | MGMSG_RACK_GET_BAYUSED
  | MGMSG_RACK_REQ_STATUSBITS
  | MGMSG_RACK_GET_STATUSBITS
  | MGMSG_RACK_SET_DIGOUTPUTS
  | MGMSG_RACK_REQ_DIGOUTPUTS
  | MGMSG_RACK_GET_DIGOUTPUTS
  | MGMSG_MOT_SET_POSCOUNTER
  | MGMSG_MOT_REQ_POSCOUNTER
  | MGMSG_MOT_GET_POSCOUNTER
  | MGMSG_MOT_SET_ENCCOUNTER
  | MGMSG_MOT_REQ_ENCCOUNTER
  | MGMSG_MOT_GET_ENCCOUNTER
  | MGMSG_MOT_SET_VELPARAMS
  | MGMSG_MOT_REQ_VELPARAMS
  | MGMSG_MOT_GET_VELPARAMS
  | MGMSG_MOT_SET_JOGPARAMS
  | MGMSG_MOT_REQ_JOGPARAMS
  | MGMSG_MOT_GET_JOGPARAMS
  | MGMSG_MOT_REQ_ADCINPUTS
  | MGMSG_MOT_GET_ADCINPUTS
  | MGMSG_MOT_SET_POWERPARAMS
  | MGMSG_MOT_REQ_POWERPARAMS
  | MGMSG_MOT_GET_POWERPARAMS
  | MGMSG_MOT_SET_GENMOVEPARAMS
  | MGMSG_MOT_REQ_GENMOVEPARAMS
  | MGMSG_MOT_GET_GENMOVEPARAMS
  | MGMSG_MOT_SET_MOVERELPARAMS
  | MGMSG_MOT_REQ_MOVERELPARAMS
  | MGMSG_MOT_GET_MOVERELPARAMS
  | MGMSG_MOT_SET_MOVEABSPARAMS
  | MGMSG_MOT_REQ_MOVEABSPARAMS
  | MGMSG_MOT_GET_MOVEABSPARAMS
  | MGMSG_MOT_SET_HOMEPARAMS
  | MGMSG_MOT_REQ_HOMEPARAMS
  | MGMSG_MOT_GET_HOMEPARAMS
  | MGMSG_MOT_SET_LIMSWITCHPARAMS
  | MGMSG_MOT_REQ_LIMSWITCHPARAMS
  | MGMSG_MOT_GET_LIMSWITCHPARAMS
  | MGMSG_MOT_MOVE_HOME
  | MGMSG_MOT_MOVE_HOMED
  | MGMSG_MOT_MOVE_RELATIVE
  | MGMSG_MOT_MOVE_COMPLETED
  | MGMSG_PZMOT_MOVE_COMPLETED
  | MGMSG_MOT_MOVE_ABSOLUTE
  | MGMSG_PZMOT_MOVE_ABSOLUTE
  | MGMSG_MOT_MOVE_JOG
  | MGMSG_PZMOT_MOVE_JOG
  | MGMSG_MOT_MOVE_VELOCITY
  | MGMSG_MOT_MOVE_STOP
  | MGMSG_MOT_MOVE_STOPPED
  | MGMSG_MOT_SET_BOWINDEX
  | MGMSG_MOT_REQ_BOWINDEX
  | MGMSG_MOT_GET_BOWINDEX
  | MGMSG_MOT_SET_DCPIDPARAMS
  | MGMSG_MOT_REQ_DCPIDPARAMS
  | MGMSG_MOT_GET_DCPIDPARAMS
  | MGMSG_MOT_GET_STATUSUPDATE
  | MGMSG_MOT_REQ_STATUSUPDATE
  | MGMSG_MOT_REQ_DCSTATUSUPDATE
  | MGMSG_MOT_GET_DCSTATUSUPDATE
  | MGMSG_MOT_ACK_STATUSUPDATE
  | MGMSG_MOT_REQ_STATUSBITS
  | MGMSG_MOT_GET_STATUSBITS
  | MGMSG_PZMOT_SET_PARAMS
  | MGMSG_PZMOT_REQ_PARAMS
  | MGMSG_PZMOT_GET_PARAMS
  | MGMSG_HW_START_UPDATEMSGS
  | MGMSG_HW_STOP_UPDATEMSGS
  | MGMSG_PZMOT_GET_STATUSUPDATE
  | MGMSG_MOD_SET_DIGOUTPUTS
  | MGMSG_MOD_REQ_DIGOUTPUTS
  | MGMSG_MOD_GET_DIGOUTPUTS
  | MGMSG_MOT_SET_PMDJOYSTICKPARAMS
  | MGMSG_MOT_SUSPEND_ENDOFMOVEMSGS
  | MGMSG_MOT_RESUME_ENDOFMOVEMSGS
  | MGMSG_HW_RICHRESPONSE
  | MGMSG_HW_RESPONSE

primrec opcode :: "bsc203_opcodes \<Rightarrow> 16 word" where
  "opcode MGMSG_MOD_IDENTIFY = 0x0223"
| "opcode MGMSG_MOD_SET_CHANENABLESTATE = 0x0210"
| "opcode MGMSG_MOD_REQ_CHANENABLESTATE = 0x0211"
| "opcode MGMSG_MOD_GET_CHANENABLESTATE = 0x0212"
| "opcode MGMSG_MOD_START_UPDATEMSGS = 0x0011"
| "opcode MGMSG_MOD_STOP_UPDATEMSGS = 0x0012"
| "opcode MGMSG_MOD_REQ_HWINFO = 0x0005"
| "opcode MGMSG_MOD_GET_HWINFO = 0x0006"
| "opcode MGMSG_HW_NO_FLASH_PROGRAMMING = 0x0018"
| "opcode MGMSG_RACK_REQ_BAYUSED = 0x0060"
| "opcode MGMSG_RACK_GET_BAYUSED = 0x0061"
| "opcode MGMSG_RACK_REQ_STATUSBITS = 0x0226"
| "opcode MGMSG_RACK_GET_STATUSBITS = 0x0227"
| "opcode MGMSG_RACK_SET_DIGOUTPUTS = 0x0228"
| "opcode MGMSG_RACK_REQ_DIGOUTPUTS = 0x0229"
| "opcode MGMSG_RACK_GET_DIGOUTPUTS = 0x0230"
| "opcode MGMSG_MOT_SET_POSCOUNTER = 0x0410"
| "opcode MGMSG_MOT_REQ_POSCOUNTER = 0x0411"
| "opcode MGMSG_MOT_GET_POSCOUNTER = 0x0412"
| "opcode MGMSG_MOT_SET_ENCCOUNTER = 0x0409"
| "opcode MGMSG_MOT_REQ_ENCCOUNTER = 0x040A"
| "opcode MGMSG_MOT_GET_ENCCOUNTER = 0x040B"
| "opcode MGMSG_MOT_SET_VELPARAMS = 0x0413"
| "opcode MGMSG_MOT_REQ_VELPARAMS = 0x0414"
| "opcode MGMSG_MOT_GET_VELPARAMS = 0x0415"
| "opcode MGMSG_MOT_SET_JOGPARAMS = 0x0416"
| "opcode MGMSG_MOT_REQ_JOGPARAMS = 0x0417"
| "opcode MGMSG_MOT_GET_JOGPARAMS = 0x0418"
| "opcode MGMSG_MOT_REQ_ADCINPUTS = 0x042B"
| "opcode MGMSG_MOT_GET_ADCINPUTS = 0x042C"
| "opcode MGMSG_MOT_SET_POWERPARAMS = 0x0426"
| "opcode MGMSG_MOT_REQ_POWERPARAMS = 0x0427"
| "opcode MGMSG_MOT_GET_POWERPARAMS = 0x0428"
| "opcode MGMSG_MOT_SET_GENMOVEPARAMS = 0x043A"
| "opcode MGMSG_MOT_REQ_GENMOVEPARAMS = 0x043B"
| "opcode MGMSG_MOT_GET_GENMOVEPARAMS = 0x043C"
| "opcode MGMSG_MOT_SET_MOVERELPARAMS = 0x0445"
| "opcode MGMSG_MOT_REQ_MOVERELPARAMS = 0x0446"
| "opcode MGMSG_MOT_GET_MOVERELPARAMS = 0x0447"
| "opcode MGMSG_MOT_SET_MOVEABSPARAMS = 0x0450"
| "opcode MGMSG_MOT_REQ_MOVEABSPARAMS = 0x0451"
| "opcode MGMSG_MOT_GET_MOVEABSPARAMS = 0x0452"
| "opcode MGMSG_MOT_SET_HOMEPARAMS = 0x0440"
| "opcode MGMSG_MOT_REQ_HOMEPARAMS = 0x0441"
| "opcode MGMSG_MOT_GET_HOMEPARAMS = 0x0442"
| "opcode MGMSG_MOT_SET_LIMSWITCHPARAMS = 0x0423"
| "opcode MGMSG_MOT_REQ_LIMSWITCHPARAMS = 0x0424"
| "opcode MGMSG_MOT_GET_LIMSWITCHPARAMS = 0x0425"
| "opcode MGMSG_MOT_MOVE_HOME = 0x0443"
| "opcode MGMSG_MOT_MOVE_HOMED = 0x0444"
| "opcode MGMSG_MOT_MOVE_RELATIVE = 0x0448"
| "opcode MGMSG_MOT_MOVE_COMPLETED = 0x0464"
| "opcode MGMSG_PZMOT_MOVE_COMPLETED = 0x08D6"
| "opcode MGMSG_MOT_MOVE_ABSOLUTE = 0x0453"
| "opcode MGMSG_PZMOT_MOVE_ABSOLUTE = 0x08D4"
| "opcode MGMSG_MOT_MOVE_JOG = 0x046A"
| "opcode MGMSG_PZMOT_MOVE_JOG = 0x08D9"
| "opcode MGMSG_MOT_MOVE_VELOCITY = 0x0457"
| "opcode MGMSG_MOT_MOVE_STOP = 0x0465"
| "opcode MGMSG_MOT_MOVE_STOPPED = 0x0466"
| "opcode MGMSG_MOT_SET_BOWINDEX = 0x04F4"
| "opcode MGMSG_MOT_REQ_BOWINDEX = 0x04F5"
| "opcode MGMSG_MOT_GET_BOWINDEX = 0x04F6"
| "opcode MGMSG_MOT_SET_DCPIDPARAMS = 0x04A0"
| "opcode MGMSG_MOT_REQ_DCPIDPARAMS = 0x04A1"
| "opcode MGMSG_MOT_GET_DCPIDPARAMS = 0x04A2"
| "opcode MGMSG_MOT_GET_STATUSUPDATE = 0x0481"
| "opcode MGMSG_MOT_REQ_STATUSUPDATE = 0x0480"
| "opcode MGMSG_MOT_REQ_DCSTATUSUPDATE = 0x0490"
| "opcode MGMSG_MOT_GET_DCSTATUSUPDATE = 0x0491"
| "opcode MGMSG_MOT_ACK_STATUSUPDATE = 0x0492"
| "opcode MGMSG_MOT_REQ_STATUSBITS = 0x0429"
| "opcode MGMSG_MOT_GET_STATUSBITS = 0x042A"
| "opcode MGMSG_PZMOT_SET_PARAMS = 0x08C0"
| "opcode MGMSG_PZMOT_REQ_PARAMS = 0x08C1"
| "opcode MGMSG_PZMOT_GET_PARAMS = 0x08C2"
| "opcode MGMSG_HW_START_UPDATEMSGS = 0x0011"
| "opcode MGMSG_HW_STOP_UPDATEMSGS = 0x0012"
| "opcode MGMSG_PZMOT_GET_STATUSUPDATE = 0x08E1"
| "opcode MGMSG_MOD_SET_DIGOUTPUTS = 0x0213"
| "opcode MGMSG_MOD_REQ_DIGOUTPUTS = 0x0214"
| "opcode MGMSG_MOD_GET_DIGOUTPUTS = 0x0215"
| "opcode MGMSG_MOT_SET_PMDJOYSTICKPARAMS = 0x04E6"
| "opcode MGMSG_MOT_SUSPEND_ENDOFMOVEMSGS = 0x046B"
| "opcode MGMSG_MOT_RESUME_ENDOFMOVEMSGS = 0x046C"
| "opcode MGMSG_HW_RICHRESPONSE = 0x0081"
| "opcode MGMSG_HW_RESPONSE = 0x0080"

datatype destination = host | rack | genericUSB | bay1 | bay2 | bay3

fun dest_val :: "destination \<Rightarrow> byte" where
  "dest_val host = 0x01"
| "dest_val rack = 0x11"
| "dest_val genericUSB = 0x50"
| "dest_val bay1 = 0x21"
| "dest_val bay2 = 0x22"
| "dest_val bay3 = 0x23"

datatype motor_channel_idents = channel_1 | channel_2 | channel_3 | channel_4

fun chan_val :: "motor_channel_idents \<Rightarrow> byte" where
  "chan_val channel_1 = 0x01"
| "chan_val channel_2 = 0x02"
| "chan_val channel_3 = 0x04"
| "chan_val channel_4 = 0x08"

record apt_reply =
  p1 :: byte
  p2 :: byte
  rdata :: "byte list option"

record hwinfo =
  serno :: "32 word"
  modelno :: "byte list"
  hw_type :: "16 word"
  fwvers :: "32 word"
  hw_notes :: "byte list"
  emptyspace :: "byte list"
  HWvers :: "16 word"
  modstate :: "16 word"
  nchans :: "16 word"

record channel_status =
  cs_chan_ident :: "16 word"
  cs_position :: "32 word"
  cs_enccount :: "32 word"
  cs_statusbits :: "32 word"

record dcstatus =
  dc_chan_ident :: "16 word"
  dc_position :: "32 word"
  dc_velocity :: "16 word"
  dc_motorcurrent :: "16 word"
  dc_statusbits :: "32 word"

record velocity_params =
  vp_chan_ident :: "16 word"
  minvel :: "32 word"
  acceleration :: "32 word"
  maxvel :: "32 word"

record homeparams =
  hp_chan_ident :: "16 word"
  homeDir :: "16 word"
  limitSwitch :: "16 word"
  homeVelocity :: "32 word"
  offsetDistance :: "32 word"

record limitswitchparams =
  ls_chan_ident :: "16 word"
  CWhard :: "16 word"
  CCWhard :: "16 word"
  CWsoft :: "32 word"
  CCWsoft :: "32 word"
  limitMode :: "16 word"

record poscounter =
  pc_chan_ident :: "16 word"
  position_counter_value :: "32 word"

text \<open>The bytes of a struct and the struct of its bytes. The size is that of the packed struct.\<close>

definition velocity_bytes :: "velocity_params \<Rightarrow> byte list" where
  "velocity_bytes v = le16 (vp_chan_ident v) @ le32 (minvel v) @ le32 (acceleration v) @ le32 (maxvel v)"

definition bytes_velocity :: "byte list \<Rightarrow> velocity_params" where
  "bytes_velocity bs = \<lparr>vp_chan_ident = of16 bs, minvel = of32 (drop 2 bs),
     acceleration = of32 (drop 6 bs), maxvel = of32 (drop 10 bs)\<rparr>"

definition home_bytes :: "homeparams \<Rightarrow> byte list" where
  "home_bytes h = le16 (hp_chan_ident h) @ le16 (homeDir h) @ le16 (limitSwitch h) @
     le32 (homeVelocity h) @ le32 (offsetDistance h)"

definition bytes_home :: "byte list \<Rightarrow> homeparams" where
  "bytes_home bs = \<lparr>hp_chan_ident = of16 bs, homeDir = of16 (drop 2 bs), limitSwitch = of16 (drop 4 bs),
     homeVelocity = of32 (drop 6 bs), offsetDistance = of32 (drop 10 bs)\<rparr>"

definition limit_bytes :: "limitswitchparams \<Rightarrow> byte list" where
  "limit_bytes l = le16 (ls_chan_ident l) @ le16 (CWhard l) @ le16 (CCWhard l) @
     le32 (CWsoft l) @ le32 (CCWsoft l) @ le16 (limitMode l)"

definition bytes_limit :: "byte list \<Rightarrow> limitswitchparams" where
  "bytes_limit bs = \<lparr>ls_chan_ident = of16 bs, CWhard = of16 (drop 2 bs), CCWhard = of16 (drop 4 bs),
     CWsoft = of32 (drop 6 bs), CCWsoft = of32 (drop 10 bs), limitMode = of16 (drop 14 bs)\<rparr>"

definition poscounter_bytes :: "poscounter \<Rightarrow> byte list" where
  "poscounter_bytes c = le16 (pc_chan_ident c) @ le32 (position_counter_value c)"

definition bytes_poscounter :: "byte list \<Rightarrow> poscounter" where
  "bytes_poscounter bs = \<lparr>pc_chan_ident = of16 bs, position_counter_value = of32 (drop 2 bs)\<rparr>"

definition bytes_channel_status :: "byte list \<Rightarrow> channel_status" where
  "bytes_channel_status bs = \<lparr>cs_chan_ident = of16 bs, cs_position = of32 (drop 2 bs),
     cs_enccount = of32 (drop 6 bs), cs_statusbits = of32 (drop 10 bs)\<rparr>"

definition bytes_dcstatus :: "byte list \<Rightarrow> dcstatus" where
  "bytes_dcstatus bs = \<lparr>dc_chan_ident = of16 bs, dc_position = of32 (drop 2 bs), dc_velocity = of16 (drop 6 bs),
     dc_motorcurrent = of16 (drop 8 bs), dc_statusbits = of32 (drop 10 bs)\<rparr>"

definition bytes_hwinfo :: "byte list \<Rightarrow> hwinfo" where
  "bytes_hwinfo bs = \<lparr>serno = of32 bs, modelno = take 8 (drop 4 bs), hw_type = of16 (drop 12 bs),
     fwvers = of32 (drop 14 bs), hw_notes = take 48 (drop 18 bs), emptyspace = take 12 (drop 66 bs),
     HWvers = of16 (drop 78 bs), modstate = of16 (drop 80 bs), nchans = of16 (drop 82 bs)\<rparr>"

section \<open>Sending\<close>

definition transmit_message :: "bsc203_opcodes \<Rightarrow> byte \<Rightarrow> byte \<Rightarrow> destination \<Rightarrow> (serial, unit) prog" where
  "transmit_message op a b dest =
     andthen (write_bytes (le16 (opcode op) @ [a, b, dest_val dest, dest_val host])) (\<lambda>_.
     sleep_ms 50)"

definition data_header :: "bsc203_opcodes \<Rightarrow> nat \<Rightarrow> destination \<Rightarrow> destination \<Rightarrow> byte list" where
  "data_header op n dest src =
     le16 (opcode op) @ le16 (word_of_nat n) @ [or (dest_val dest) 0x80, dest_val src]"

definition transmit_data :: "bsc203_opcodes \<Rightarrow> byte list \<Rightarrow> destination \<Rightarrow> (serial, unit) prog" where
  "transmit_data op dat dest =
     andthen (write_bytes (data_header op (length dat) dest host)) (\<lambda>_. write_bytes dat)"

section \<open>Receiving\<close>

text \<open>The opcode and the length as the code computes them from signed characters.\<close>

definition header_opcode :: "byte list \<Rightarrow> 16 word" where
  "header_opcode h = ucast (or (push_bit 8 (scast (h ! 1) :: 32 word)) (ucast (h ! 0)))"

definition header_length :: "byte list \<Rightarrow> 16 word" where
  "header_length h = or (push_bit 8 (scast (h ! 3))) (scast (h ! 2))"

definition fail_flushed :: "string \<Rightarrow> (serial, 'a) prog" where
  "fail_flushed msg = andthen flush (\<lambda>_. throws (Device_error msg))"

text \<open>\<open>tmo\<close> is the time out for the header, by default five times the minimal transfer time.\<close>

definition receive_sync_common :: "destination \<Rightarrow> nat \<Rightarrow> (serial, apt_reply \<times> 16 word) prog" where
  "receive_sync_common src tmo = andthen (read_definite 6 tmo) (\<lambda>h.
     if h ! 4 = 0 then fail_flushed ''received null destination''
     else if list_all (\<lambda>c. c = 0) h then fail_flushed ''received all zeros''
     else if h ! 5 \<noteq> dest_val src then fail_flushed ''received unexpected source''
     else andthen (if and (h ! 4) 0x80 = 0x80
          then andthen (read_definite (unat (header_length h)) 1000) (\<lambda>bs. returns (Some bs))
          else returns None) (\<lambda>dat.
        returns (\<lparr>p1 = h ! 2, p2 = h ! 3, rdata = dat\<rparr>, header_opcode h)))"

definition motor_status_messages :: "bsc203_opcodes list" where
  "motor_status_messages = [MGMSG_MOT_MOVE_COMPLETED, MGMSG_MOT_MOVE_HOMED, MGMSG_MOT_MOVE_STOPPED,
     MGMSG_MOT_GET_STATUSUPDATE]"

text \<open>The version that expects one opcode; it may pass over one motor status.\<close>

function receive_message_sync_check ::
  "bsc203_opcodes \<Rightarrow> destination \<Rightarrow> nat \<Rightarrow> bool \<Rightarrow> (serial, apt_reply) prog" where
  "receive_message_sync_check op src tmo discard_motor_status =
     andthen (receive_sync_common src tmo) (\<lambda>(reply, code).
     if code = opcode op then returns reply
     else if discard_motor_status \<and> code \<in> opcode ` set motor_status_messages
     then receive_message_sync_check op src tmo False
     else throws (Device_error ''unexpected opcode received in message!''))"
  by pat_completeness auto

termination
  by (relation "measure (\<lambda>(_, _, _, discard). if discard then 1 else 0)") auto

declare receive_message_sync_check.simps [simp del]

text \<open>The version that expects one of several opcodes only logs one that is not among them.\<close>

definition receive_message_of :: "destination \<Rightarrow> nat \<Rightarrow> (serial, apt_reply \<times> 16 word) prog" where
  "receive_message_of src tmo = receive_sync_common src tmo"

definition response_struct_common ::
  "nat \<Rightarrow> (byte list \<Rightarrow> 'a) \<Rightarrow> bsc203_opcodes \<Rightarrow> destination \<Rightarrow> nat \<Rightarrow> (serial, 'a) prog" where
  "response_struct_common sz dec op src tmo =
     andthen (receive_message_sync_check op src tmo True) (\<lambda>r. case rdata r of
       None \<Rightarrow> throws (Device_error (''expected struct data in response but didn'' @ [CHR 0x27] @ ''t get any!''))
     | Some bs \<Rightarrow> if length bs \<noteq> sz
         then throws (Logic_error ''mismatch between received data size and struct size!'')
         else returns (dec bs))"

definition request_response_struct ::
  "nat \<Rightarrow> (byte list \<Rightarrow> 'a) \<Rightarrow> bsc203_opcodes \<Rightarrow> bsc203_opcodes \<Rightarrow> destination \<Rightarrow> byte \<Rightarrow> byte \<Rightarrow>
   destination option \<Rightarrow> nat \<Rightarrow> (serial, 'a) prog" where
  "request_response_struct sz dec op_send op_recv dest a b expd_src tmo =
     andthen (transmit_message op_send a b dest) (\<lambda>_.
     response_struct_common sz dec op_recv (case expd_src of None \<Rightarrow> dest | Some src \<Rightarrow> src) tmo)"

section \<open>Getters and setters\<close>

definition get_position_counter :: "destination \<Rightarrow> motor_channel_idents \<Rightarrow> nat \<Rightarrow> (serial, int) prog" where
  "get_position_counter dest chan tmo = andthen
     (request_response_struct 6 bytes_poscounter MGMSG_MOT_REQ_POSCOUNTER MGMSG_MOT_GET_POSCOUNTER
        dest 0 0 None tmo) (\<lambda>r. returns (sint (position_counter_value r)))"

definition set_position_counter :: "destination \<Rightarrow> motor_channel_idents \<Rightarrow> int \<Rightarrow> (serial, unit) prog" where
  "set_position_counter dest chan val = transmit_data MGMSG_MOT_SET_POSCOUNTER
     (poscounter_bytes \<lparr>pc_chan_ident = ucast (chan_val chan), position_counter_value = word_of_int val\<rparr>) dest"

definition get_homeparams :: "destination \<Rightarrow> motor_channel_idents \<Rightarrow> nat \<Rightarrow> (serial, homeparams) prog" where
  "get_homeparams dest chan tmo = request_response_struct 14 bytes_home MGMSG_MOT_REQ_HOMEPARAMS
     MGMSG_MOT_GET_HOMEPARAMS dest (chan_val chan) 0 None tmo"

definition set_homeparams :: "destination \<Rightarrow> homeparams \<Rightarrow> (serial, unit) prog" where
  "set_homeparams dest params = transmit_data MGMSG_MOT_SET_HOMEPARAMS (home_bytes params) dest"

definition get_limitswitchparams ::
  "destination \<Rightarrow> motor_channel_idents \<Rightarrow> nat \<Rightarrow> (serial, limitswitchparams) prog" where
  "get_limitswitchparams dest chan tmo = request_response_struct 16 bytes_limit
     MGMSG_MOT_REQ_LIMSWITCHPARAMS MGMSG_MOT_GET_LIMSWITCHPARAMS dest (chan_val chan) 0 None tmo"

definition set_limitswitchparams :: "destination \<Rightarrow> limitswitchparams \<Rightarrow> (serial, unit) prog" where
  "set_limitswitchparams dest params = transmit_data MGMSG_MOT_SET_LIMSWITCHPARAMS (limit_bytes params) dest"

definition get_velocity_params ::
  "destination \<Rightarrow> motor_channel_idents \<Rightarrow> nat \<Rightarrow> (serial, velocity_params) prog" where
  "get_velocity_params dest chan tmo = request_response_struct 14 bytes_velocity
     MGMSG_MOT_REQ_VELPARAMS MGMSG_MOT_GET_VELPARAMS dest (chan_val chan) 0 None tmo"

definition set_velocity_params :: "destination \<Rightarrow> velocity_params \<Rightarrow> (serial, unit) prog" where
  "set_velocity_params dest velpar = transmit_data MGMSG_MOT_SET_VELPARAMS (velocity_bytes velpar) dest"

definition get_channelenable :: "destination \<Rightarrow> motor_channel_idents \<Rightarrow> nat \<Rightarrow> (serial, bool) prog" where
  "get_channelenable dest chan tmo =
     andthen (transmit_message MGMSG_MOD_REQ_CHANENABLESTATE (chan_val chan) 0 dest) (\<lambda>_.
     andthen (receive_message_sync_check MGMSG_MOD_GET_CHANENABLESTATE dest tmo True) (\<lambda>r.
     returns (p2 r = 0x01)))"

definition set_channelenable :: "destination \<Rightarrow> motor_channel_idents \<Rightarrow> bool \<Rightarrow> (serial, unit) prog" where
  "set_channelenable dest chan onoff =
     transmit_message MGMSG_MOD_SET_CHANENABLESTATE (chan_val chan) (if onoff then 0x01 else 0x02) dest"

definition get_hwinfo :: "destination \<Rightarrow> destination option \<Rightarrow> nat \<Rightarrow> (serial, hwinfo) prog" where
  "get_hwinfo dest expd_src tmo = request_response_struct 84 bytes_hwinfo MGMSG_MOD_REQ_HWINFO
     MGMSG_MOD_GET_HWINFO dest 0 0 expd_src tmo"

section \<open>Frames\<close>

text \<open>The two kinds of message as a device with the address \<open>src\<close> sends them to the host.\<close>

definition short_frame :: "16 word \<Rightarrow> byte \<Rightarrow> byte \<Rightarrow> destination \<Rightarrow> byte list" where
  "short_frame code a b src = le16 code @ [a, b, dest_val host, dest_val src]"

definition data_frame :: "16 word \<Rightarrow> byte list \<Rightarrow> destination \<Rightarrow> byte list" where
  "data_frame code bs src =
     le16 code @ le16 (word_of_nat (length bs)) @ [or (dest_val host) 0x80, dest_val src] @ bs"

lemma data_header_frame: "data_header op (length bs) host src @ bs = data_frame (opcode op) bs src"
  by (simp add: data_header_def data_frame_def)

lemma header_opcode_le16 [simp]: "header_opcode (le16 w @ bs) = w"
  by (rule bit_word_eqI) (auto simp: header_opcode_def le16_def bit_simps)

lemma header_length_short:
  assumes "n < 128"
  shows "header_length (le16 c @ le16 (word_of_nat n) @ bs) = word_of_nat n"
proof -
  have z: "\<not> bit n k" if "7 \<le> k" for k
  proof -
    have "(2 :: nat) ^ 7 \<le> 2 ^ k" using that by (rule power_increasing) simp
    with assms have "n < 2 ^ k" by simp
    then show ?thesis by (simp add: bit_iff_odd)
  qed
  show ?thesis
  proof (rule bit_word_eqI)
    fix k assume "k < LENGTH(16)"
    with z [of k] z [of 7] show "bit (header_length (le16 c @ le16 (word_of_nat n) @ bs)) k = bit (word_of_nat n :: 16 word) k"
      by (cases "k < 7") (auto simp: header_length_def le16_def bit_simps)
  qed
qed

lemma header_length_long:
  assumes "bit n 7"
  shows "0xFF00 \<le> unat (header_length (le16 c @ le16 (word_of_nat n) @ bs))"
proof -
  let ?l = "header_length (le16 c @ le16 (word_of_nat n) @ bs)"
  have "?l = or ?l 0xFF00"
  proof (rule bit_word_eqI)
    fix k assume "k < LENGTH(16)"
    moreover have "\<not> bit (0xFF00 :: 16 word) k" if "k < 8"
    proof -
      have "k \<in> set [0..<8]" using that by simp
      then show ?thesis by (auto simp: upt_rec)
    qed
    moreover have "8 \<le> k \<Longrightarrow> bit ?l k"
      using assms \<open>k < LENGTH(16)\<close> by (auto simp: header_length_def le16_def bit_simps)
    ultimately show "bit ?l k = bit (or ?l 0xFF00) k"
      by (cases "k < 8") (auto simp: bit_or_iff)
  qed
  then have "0xFF00 \<le> ?l" by (metis le_word_or1 le_word_or2)
  then show ?thesis by (simp add: word_le_nat_alt)
qed


text \<open>What the two kinds of message are received as.\<close>

definition good_with :: "byte list \<Rightarrow> byte list \<Rightarrow> serial \<Rightarrow> bool" where
  "good_with inp outp s \<longleftrightarrow> port_good s \<and> ready_bytes s = inp \<and> sent s = outp"

lemma good_withI: "port_good s \<Longrightarrow> good_with (ready_bytes s) (sent s) s"
  by (simp add: good_with_def)

lemma read_good:
  assumes "good_with (xs @ ys) out s"
  obtains s' where "read_definite (length xs) tm s = (Inr xs, s')" "good_with ys out s'"
  using serial_port.recv_ready [of s "length xs" tm] assms by (auto simp: good_with_def)

lemma write_good:
  assumes "good_with inp out s"
  obtains s' where "write_bytes bs s = (Inr (), s')" "good_with inp (out @ bs) s'"
  using serial_port.send_good [of s bs] assms by (auto simp: good_with_def)

lemma pause_good:
  assumes "good_with inp out s"
  obtains s' where "sleep_ms t s = (Inr (), s')" "good_with inp out s'"
  using sleep_good [of s t] assms by (auto simp: good_with_def)

lemma flushed_good:
  assumes "good_with inp out s"
  obtains s' where "flush s = (Inr (), s')" "good_with [] out s'"
  using flush_good [of s] assms by (auto simp: good_with_def)

lemma length_short_frame [simp]: "length (short_frame c a b src) = 6"
  by (simp add: short_frame_def)

lemma host_flag [simp]: "or (dest_val host) 0x80 = 0x81" "dest_val src \<noteq> 0" "dest_val host = 1"
  by (cases src; simp)+

lemma nth_after_le16 [simp]:
  "(le16 c @ bs) ! Suc (Suc n) = bs ! n" "(le16 c @ bs) ! 2 = bs ! 0" "(le16 c @ bs) ! 3 = bs ! 1"
  "(le16 c @ bs) ! 4 = bs ! 2" "(le16 c @ bs) ! 5 = bs ! 3"
  by (simp_all add: le16_def numeral_2_eq_2 numeral_3_eq_3 eval_nat_numeral)

lemma receive_short:
  assumes "good_with (short_frame code a b src @ rest) out s"
  obtains s' where "receive_sync_common src tmo s = (Inr (\<lparr>p1 = a, p2 = b, rdata = None\<rparr>, code), s')"
    "good_with rest out s'"
proof -
  let ?h = "short_frame code a b src"
  from read_good [OF assms, of tmo] obtain s' where s': "read_definite 6 tmo s = (Inr ?h, s')" "good_with rest out s'"
    by auto
  have "receive_sync_common src tmo s = (Inr (\<lparr>p1 = a, p2 = b, rdata = None\<rparr>, code), s')"
    using s'(1) by (simp add: receive_sync_common_def short_frame_def returns_def)
  with s'(2) that show thesis by blast
qed

lemma le16_small:
  assumes "n < 128"
  shows "le16 (word_of_nat n) = [word_of_nat n, 0]"
proof -
  have "drop_bit 8 (word_of_nat n :: 16 word) = 0"
    using assms by (simp add: drop_bit_eq_div unat_div unat_of_nat take_bit_eq_mod flip: unat_eq_0)
  moreover have "(ucast (word_of_nat n :: 16 word) :: byte) = word_of_nat n"
    by (rule bit_word_eqI) (auto simp: bit_simps)
  ultimately show ?thesis by (simp add: le16_def)
qed

lemma receive_data:
  assumes "good_with (data_frame code bs src @ rest) out s" "length bs < 128"
  obtains s' where "receive_sync_common src tmo s =
      (Inr (\<lparr>p1 = word_of_nat (length bs), p2 = 0, rdata = Some bs\<rparr>, code), s')" "good_with rest out s'"
proof -
  let ?h = "le16 code @ le16 (word_of_nat (length bs)) @ [0x81, dest_val src]"
  from assms(1) have "good_with (?h @ bs @ rest) out s" by (simp add: data_frame_def)
  from read_good [OF this, of tmo] obtain sA where sA: "read_definite 6 tmo s = (Inr ?h, sA)" "good_with (bs @ rest) out sA"
    by auto
  from read_good [OF sA(2), of 1000] obtain sB where sB:
    "read_definite (length bs) 1000 sA = (Inr bs, sB)" "good_with rest out sB" by auto
  have len: "unat (header_length ?h) = length bs"
    using assms(2) by (simp add: header_length_short unat_of_nat take_bit_eq_mod)
  have p: "le16 (word_of_nat (length bs)) = [word_of_nat (length bs), 0]"
    using assms(2) by (rule le16_small)
  have "receive_sync_common src tmo s =
      (Inr (\<lparr>p1 = word_of_nat (length bs), p2 = 0, rdata = Some bs\<rparr>, code), sB)"
    using sA(1) sB(1) len p by (simp add: receive_sync_common_def andthen_def returns_def nth_append)
  with sB(2) that show thesis by blast
qed


text \<open>A line with nothing on it times out.\<close>

definition header_timeout :: error where
  "header_timeout = Protocol_timeout ''serial port read timed out...''"

lemma receive_nothing:
  assumes "good_with [] out s"
  obtains s' where "receive_sync_common src tmo s = (Inl header_timeout, s')" "good_with [] out s'"
proof -
  from assms have g: "port_good s" and i: "incoming s = []"
    by (auto simp: good_with_def ready_is_incoming)
  let ?s = "s\<lparr>now_ms := now_ms s + tmo, incoming := []\<rparr>"
  have "read_definite 6 tmo s = (Inl header_timeout, ?s)"
    using g i by (simp add: read_definite_quiet port_good_def arrived_def header_timeout_def Let_def)
  then have "receive_sync_common src tmo s = (Inl header_timeout, ?s)"
    by (simp add: receive_sync_common_def)
  moreover have "good_with [] out ?s"
    using assms by (simp add: good_with_def port_good_def ready_bytes_def arrived_def)
  ultimately show thesis using that by blast
qed

text \<open>A sequence of messages on the line.\<close>

datatype frame = Short "16 word" byte byte | Data "16 word" "byte list"

fun frame_code :: "frame \<Rightarrow> 16 word" where
  "frame_code (Short c a b) = c"
| "frame_code (Data c bs) = c"

fun frame_bytes :: "destination \<Rightarrow> frame \<Rightarrow> byte list" where
  "frame_bytes src (Short c a b) = short_frame c a b src"
| "frame_bytes src (Data c bs) = data_frame c bs src"

fun frame_reply :: "frame \<Rightarrow> apt_reply" where
  "frame_reply (Short c a b) = \<lparr>p1 = a, p2 = b, rdata = None\<rparr>"
| "frame_reply (Data c bs) = \<lparr>p1 = word_of_nat (length bs), p2 = 0, rdata = Some bs\<rparr>"

fun frame_ok :: "frame \<Rightarrow> bool" where
  "frame_ok (Short c a b) = True"
| "frame_ok (Data c bs) = (length bs < 128)"

definition line_holds :: "destination \<Rightarrow> frame list \<Rightarrow> byte list \<Rightarrow> serial \<Rightarrow> bool" where
  "line_holds src fs out s \<longleftrightarrow> list_all frame_ok fs \<and> good_with (concat (map (frame_bytes src) fs)) out s"

lemma receive_frame:
  assumes "line_holds src (f # fs) out s"
  obtains s' where "receive_sync_common src tmo s = (Inr (frame_reply f, frame_code f), s')"
    "line_holds src fs out s'"
proof (cases f)
  case (Short c a b)
  with assms receive_short [of c a b src "concat (map (frame_bytes src) fs)" out s tmo] that show thesis
    by (auto simp: line_holds_def)
next
  case (Data c bs)
  with assms receive_data [of c bs src "concat (map (frame_bytes src) fs)" out s tmo] that show thesis
    by (auto simp: line_holds_def)
qed

lemma receive_silence:
  assumes "line_holds src [] out s"
  obtains s' where "receive_sync_common src tmo s = (Inl header_timeout, s')" "line_holds src [] out s'"
  using receive_nothing [of out s src tmo] assms by (auto simp: line_holds_def)

text \<open>What a call that expects the opcode \<open>code\<close> makes of the messages on the line.\<close>

fun answer_in :: "16 word \<Rightarrow> bool \<Rightarrow> frame list \<Rightarrow> apt_reply result" where
  "answer_in code tolerant [] = Inl header_timeout"
| "answer_in code tolerant (f # fs) =
     (if frame_code f = code then Inr (frame_reply f)
      else if tolerant \<and> frame_code f \<in> opcode ` set motor_status_messages then answer_in code False fs
      else Inl (Device_error ''unexpected opcode received in message!''))"

fun answer_rest :: "16 word \<Rightarrow> bool \<Rightarrow> frame list \<Rightarrow> frame list" where
  "answer_rest code tolerant [] = []"
| "answer_rest code tolerant (f # fs) =
     (if frame_code f \<noteq> code \<and> tolerant \<and> frame_code f \<in> opcode ` set motor_status_messages
      then answer_rest code False fs else fs)"

lemma expect_on_line:
  assumes "line_holds src fs out s"
  shows "\<exists>s'. receive_message_sync_check op src tmo b s = (answer_in (opcode op) b fs, s') \<and>
    line_holds src (answer_rest (opcode op) b fs) out s'"
  using assms
proof (induction "opcode op" b fs arbitrary: s rule: answer_in.induct)
  case (1 b)
  then obtain s' where "receive_sync_common src tmo s = (Inl header_timeout, s')" "line_holds src [] out s'"
    by (rule receive_silence)
  then show ?case by (simp add: receive_message_sync_check.simps [of op src tmo b])
next
  case (2 b f fs)
  from 2(2) obtain s' where s': "receive_sync_common src tmo s = (Inr (frame_reply f, frame_code f), s')"
    "line_holds src fs out s'"
    by (rule receive_frame)
  then have step: "receive_message_sync_check op src tmo b s =
      (if frame_code f = opcode op then returns (frame_reply f)
       else if b \<and> frame_code f \<in> opcode ` set motor_status_messages
       then receive_message_sync_check op src tmo False
       else throws (Device_error ''unexpected opcode received in message!'')) s'"
    by (simp add: receive_message_sync_check.simps [of op src tmo b])
  show ?case
  proof (cases "frame_code f \<noteq> opcode op \<and> b \<and> frame_code f \<in> opcode ` set motor_status_messages")
    case True
    with 2(1) [OF _ _ s'(2)] step show ?thesis by auto
  next
    case False
    with s'(2) step show ?thesis by (auto simp: returns_def throws_def)
  qed
qed

lemma transmit_good:
  assumes "line_holds src fs out s"
  obtains s' where "transmit_message op a b dest s = (Inr (), s')"
    "line_holds src fs (out @ le16 (opcode op) @ [a, b, dest_val dest, dest_val host]) s'"
proof -
  let ?m = "le16 (opcode op) @ [a, b, dest_val dest, dest_val host]"
  from assms have g: "good_with (concat (map (frame_bytes src) fs)) out s" by (simp add: line_holds_def)
  obtain sA where sA: "write_bytes ?m s = (Inr (), sA)"
    "good_with (concat (map (frame_bytes src) fs)) (out @ ?m) sA"
    by (rule write_good [OF g, of ?m])
  obtain sB where sB: "sleep_ms 50 sA = (Inr (), sB)"
    "good_with (concat (map (frame_bytes src) fs)) (out @ ?m) sB"
    by (rule pause_good [OF sA(2), of 50])
  have "transmit_message op a b dest s = (Inr (), sB)"
    using sA(1) sB(1) by (simp add: transmit_message_def)
  moreover have "line_holds src fs (out @ ?m) sB"
    using assms sB(2) by (simp add: line_holds_def)
  ultimately show thesis by (rule that)
qed

lemma transmit_data_good:
  assumes "line_holds src fs out s"
  obtains s' where "transmit_data op bs dest s = (Inr (), s')"
    "line_holds src fs (out @ data_header op (length bs) dest host @ bs) s'"
proof -
  let ?h = "data_header op (length bs) dest host"
  from assms have g: "good_with (concat (map (frame_bytes src) fs)) out s" by (simp add: line_holds_def)
  obtain sA where sA: "write_bytes ?h s = (Inr (), sA)"
    "good_with (concat (map (frame_bytes src) fs)) (out @ ?h) sA"
    by (rule write_good [OF g, of ?h])
  obtain sB where sB: "write_bytes bs sA = (Inr (), sB)"
    "good_with (concat (map (frame_bytes src) fs)) ((out @ ?h) @ bs) sB"
    by (rule write_good [OF sA(2), of bs])
  have "transmit_data op bs dest s = (Inr (), sB)"
    using sA(1) sB(1) by (simp add: transmit_data_def)
  moreover have "line_holds src fs (out @ ?h @ bs) sB"
    using assms sB(2) by (simp add: line_holds_def)
  ultimately show thesis by (rule that)
qed

text \<open>A request whose answer carries a struct.\<close>

fun struct_in :: "nat \<Rightarrow> (byte list \<Rightarrow> 'a) \<Rightarrow> apt_reply result \<Rightarrow> 'a result" where
  "struct_in sz dec (Inl e) = Inl e"
| "struct_in sz dec (Inr r) = (case rdata r of
     None \<Rightarrow> Inl (Device_error (''expected struct data in response but didn'' @ [CHR 0x27] @ ''t get any!''))
   | Some bs \<Rightarrow> if length bs = sz then Inr (dec bs)
       else Inl (Logic_error ''mismatch between received data size and struct size!''))"

lemma request_on_line:
  assumes "line_holds src fs out s" and "src = (case expd_src of None \<Rightarrow> dest | Some d \<Rightarrow> d)"
  shows "\<exists>s'. request_response_struct sz dec op_send op_recv dest a b expd_src tmo s =
      (struct_in sz dec (answer_in (opcode op_recv) True fs), s') \<and>
    line_holds src (answer_rest (opcode op_recv) True fs)
      (out @ le16 (opcode op_send) @ [a, b, dest_val dest, dest_val host]) s'"
proof -
  let ?out = "out @ le16 (opcode op_send) @ [a, b, dest_val dest, dest_val host]"
  obtain sA where sA: "transmit_message op_send a b dest s = (Inr (), sA)" "line_holds src fs ?out sA"
    by (rule transmit_good [OF assms(1)])
  from expect_on_line [OF sA(2), of op_recv tmo True] obtain sB where
    sB: "receive_message_sync_check op_recv src tmo True sA = (answer_in (opcode op_recv) True fs, sB)"
      "line_holds src (answer_rest (opcode op_recv) True fs) ?out sB" by blast
  have "request_response_struct sz dec op_send op_recv dest a b expd_src tmo s =
      (struct_in sz dec (answer_in (opcode op_recv) True fs), sB)"
    using sA(1) sB(1) assms(2)
    by (cases "answer_in (opcode op_recv) True fs")
      (auto simp: request_response_struct_def response_struct_common_def andthen_def returns_def throws_def
        split: option.split)
  with sB(2) show ?thesis by blast
qed


section \<open>Structs\<close>

lemma drop_le [simp]:
  "drop 2 (le16 w @ bs) = bs" "drop 4 (le32 v @ bs) = bs"
  "drop (Suc (Suc (Suc (Suc n)))) (le16 w @ bs) = drop (Suc (Suc n)) bs"
  by (simp_all add: le16_def le32_def eval_nat_numeral)

lemma drop_le_more [simp]:
  "drop 4 (le16 w @ bs) = drop 2 bs" "drop 6 (le16 w @ bs) = drop 4 bs" "drop 8 (le16 w @ bs) = drop 6 bs"
  "drop 10 (le16 w @ bs) = drop 8 bs" "drop 12 (le16 w @ bs) = drop 10 bs" "drop 14 (le16 w @ bs) = drop 12 bs"
  "drop 6 (le32 v @ bs) = drop 2 bs" "drop 8 (le32 v @ bs) = drop 4 bs" "drop 10 (le32 v @ bs) = drop 6 bs"
  by (simp_all add: le16_def le32_def eval_nat_numeral)

lemma of_le_alone [simp]: "of16 (le16 w) = w" "of32 (le32 v) = v"
  using of16_le16 [of w "[]"] of32_le32 [of v "[]"] by simp_all

lemma struct_roundtrips [simp]:
  "bytes_velocity (velocity_bytes v) = v" "length (velocity_bytes v) = 14"
  "bytes_home (home_bytes h) = h" "length (home_bytes h) = 14"
  "bytes_limit (limit_bytes l) = l" "length (limit_bytes l) = 16"
  "bytes_poscounter (poscounter_bytes c) = c" "length (poscounter_bytes c) = 6"
  by (simp_all add: bytes_velocity_def velocity_bytes_def bytes_home_def home_bytes_def
      bytes_limit_def limit_bytes_def bytes_poscounter_def poscounter_bytes_def)

text \<open>A device that sends back what it was told: the payload of the last message that was written.\<close>

definition payload_sent :: "serial \<Rightarrow> serial \<Rightarrow> byte list" where
  "payload_sent s s' = drop 6 (drop (length (sent s)) (sent s'))"

lemma payload_of_transmit:
  assumes "line_holds src fs out s"
  shows "payload_sent s (snd (transmit_data op bs dest s)) = bs"
proof -
  obtain s' where "transmit_data op bs dest s = (Inr (), s')"
    "line_holds src fs (out @ data_header op (length bs) dest host @ bs) s'"
    by (rule transmit_data_good [OF assms])
  with assms show ?thesis by (simp add: line_holds_def good_with_def payload_sent_def data_header_def)
qed

lemma request_own_answer:
  assumes "line_holds dest [Data (opcode op_recv) bs] out s" and "length bs = sz"
  shows "fst (request_response_struct sz dec op_send op_recv dest a b None tmo s) = Inr (dec bs)"
  using request_on_line [OF assms(1), of dest None sz dec op_send op_recv a b tmo] assms(2) by auto

text \<open>
  C28. Settings survive the round trip. Whatever parameters are set on a channel, a controller
  that answers the request with the payload it was sent makes the getter return exactly these
  parameters: home parameters, limit switches and velocities.
\<close>

theorem parameters_round_trip:
  assumes "line_holds d fs out s"
    and "line_holds dest [Data (opcode MGMSG_MOT_GET_HOMEPARAMS) (payload_sent s (snd (set_homeparams dest h s)))] o1 t1"
    and "line_holds dest [Data (opcode MGMSG_MOT_GET_LIMSWITCHPARAMS) (payload_sent s (snd (set_limitswitchparams dest l s)))] o2 t2"
    and "line_holds dest [Data (opcode MGMSG_MOT_GET_VELPARAMS) (payload_sent s (snd (set_velocity_params dest v s)))] o3 t3"
  shows "fst (get_homeparams dest chan tmo t1) = Inr h \<and> fst (get_limitswitchparams dest chan tmo t2) = Inr l \<and>
    fst (get_velocity_params dest chan tmo t3) = Inr v"
  using assms(2-4) unfolding set_homeparams_def set_limitswitchparams_def set_velocity_params_def
    get_homeparams_def get_limitswitchparams_def get_velocity_params_def payload_of_transmit [OF assms(1)]
  by (simp add: request_own_answer)

definition port_with :: "byte list \<Rightarrow> serial" where
  "port_with bs = quiet_port\<lparr>incoming := map (Pair 0) bs\<rparr>"

lemma port_with_good: "good_with bs [] (port_with bs)"
proof -
  have "list_all (\<lambda>p. fst p \<le> 0) (map (Pair (0 :: nat)) bs)" by (simp add: list_all_iff)
  then have "port_good (port_with bs)" by (simp add: port_with_def quiet_port_def port_good_def)
  then show ?thesis by (simp add: good_with_def ready_is_incoming) (simp add: port_with_def quiet_port_def comp_def)
qed

lemma line_of_port: "list_all frame_ok fs \<Longrightarrow> line_holds d fs [] (port_with (concat (map (frame_bytes d) fs)))"
  by (simp add: line_holds_def port_with_good)

definition some_home :: homeparams where
  "some_home = \<lparr>hp_chan_ident = 1, homeDir = 2, limitSwitch = 1, homeVelocity = 0x12345678, offsetDistance = 0xFFFFFFFF\<rparr>"

definition some_limit :: limitswitchparams where
  "some_limit = \<lparr>ls_chan_ident = 1, CWhard = 3, CCWhard = 3, CWsoft = 0x80000000, CCWsoft = 7, limitMode = 0x8001\<rparr>"

definition some_velocity :: velocity_params where
  "some_velocity = \<lparr>vp_chan_ident = 1, minvel = 0, acceleration = 4506, maxvel = 0x01020304\<rparr>"

theorem parameters_round_trip_witness:
  "fst (get_homeparams bay1 channel_1 100 (port_with (data_frame 0x0442 (home_bytes some_home) bay1))) = Inr some_home \<and>
   fst (get_limitswitchparams bay1 channel_1 100 (port_with (data_frame 0x0425 (limit_bytes some_limit) bay1))) = Inr some_limit \<and>
   fst (get_velocity_params bay1 channel_1 100 (port_with (data_frame 0x0415 (velocity_bytes some_velocity) bay1))) = Inr some_velocity"
proof (rule parameters_round_trip)
  show l: "line_holds bay1 [] [] (port_with [])" using line_of_port [of "[]" bay1] by simp
  show "line_holds bay1 [Data (opcode MGMSG_MOT_GET_HOMEPARAMS)
      (payload_sent (port_with []) (snd (set_homeparams bay1 some_home (port_with []))))] []
      (port_with (data_frame 0x0442 (home_bytes some_home) bay1))"
    using line_of_port [of "[Data 0x0442 (home_bytes some_home)]" bay1]
    by (simp add: set_homeparams_def payload_of_transmit [OF l])
  show "line_holds bay1 [Data (opcode MGMSG_MOT_GET_LIMSWITCHPARAMS)
      (payload_sent (port_with []) (snd (set_limitswitchparams bay1 some_limit (port_with []))))] []
      (port_with (data_frame 0x0425 (limit_bytes some_limit) bay1))"
    using line_of_port [of "[Data 0x0425 (limit_bytes some_limit)]" bay1]
    by (simp add: set_limitswitchparams_def payload_of_transmit [OF l])
  show "line_holds bay1 [Data (opcode MGMSG_MOT_GET_VELPARAMS)
      (payload_sent (port_with []) (snd (set_velocity_params bay1 some_velocity (port_with []))))] []
      (port_with (data_frame 0x0415 (velocity_bytes some_velocity) bay1))"
    using line_of_port [of "[Data 0x0415 (velocity_bytes some_velocity)]" bay1]
    by (simp add: set_velocity_params_def payload_of_transmit [OF l])
qed

text \<open>
  A message that expects one opcode. On a line that holds whole messages the call takes the
  first one if it has the opcode. It passes over one motor status and then insists on the
  opcode; any other message is a device error, and it takes no more of the line than it looked at.
\<close>

theorem expected_message:
  assumes "line_holds src fs out s"
  shows "fst (receive_message_sync_check op src tmo True s) = answer_in (opcode op) True fs \<and>
    ready_bytes (snd (receive_message_sync_check op src tmo True s)) =
      concat (map (frame_bytes src) (answer_rest (opcode op) True fs))"
  using expect_on_line [OF assms, of op tmo True] by (auto simp: line_holds_def good_with_def)

theorem expected_message_witness:
  "fst (receive_message_sync_check MGMSG_MOD_GET_CHANENABLESTATE bay1 100 True
     (port_with (short_frame 0x0464 1 0 bay1 @ short_frame 0x0212 1 1 bay1))) =
   Inr \<lparr>p1 = 1, p2 = 1, rdata = None\<rparr>"
proof -
  have "line_holds bay1 [Short 0x0464 1 0, Short 0x0212 1 1] []
      (port_with (short_frame 0x0464 1 0 bay1 @ short_frame 0x0212 1 1 bay1))"
    using line_of_port [of "[Short 0x0464 1 0, Short 0x0212 1 1]" bay1] by simp
  from conjunct1 [OF expected_message [OF this]] show ?thesis
    by (simp add: motor_status_messages_def)
qed

text \<open>
  The length of a long message. The length byte is a signed character, so a message of 128 to
  255 bytes is read as one of at least 65280 bytes: the call throws a timeout and the whole line
  is lost, the messages behind it too.
\<close>

theorem long_message_is_lost:
  assumes "good_with (data_frame code bs src @ rest) out s"
    and "128 \<le> length bs" "length bs < 256" "length bs + length rest < 65280"
  shows "fst (receive_sync_common src tmo s) = Inl header_timeout \<and>
    ready_bytes (snd (receive_sync_common src tmo s)) = []"
proof -
  let ?h = "le16 code @ le16 (word_of_nat (length bs)) @ [0x81, dest_val src]"
  from assms(1) have "good_with (?h @ bs @ rest) out s" by (simp add: data_frame_def)
  from read_good [OF this, of tmo] obtain sA where sA: "read_definite 6 tmo s = (Inr ?h, sA)" "good_with (bs @ rest) out sA"
    by auto
  have "length bs div 2 ^ 7 = 1" using assms(2,3) by simp
  then have "bit (length bs) 7" unfolding bit_iff_odd by simp
  from header_length_long [OF this] have n: "0xFF00 \<le> unat (header_length ?h)" by simp
  from sA(2) have g: "port_good sA" and i: "length (incoming sA) = length bs + length rest"
    by (auto simp: good_with_def ready_is_incoming dest: arg_cong [of _ _ length])
  let ?sB = "sA\<lparr>now_ms := now_ms sA + 1000, incoming := []\<rparr>"
  have "arrived (now_ms sA + 1000) (incoming sA) = incoming sA"
    by (rule port_good_arrived(1) [OF g]) simp
  then have "read_definite (unat (header_length ?h)) 1000 sA = (Inl header_timeout, ?sB)"
    using g i n assms(4) by (simp add: read_definite_quiet port_good_def header_timeout_def Let_def)
  then have "receive_sync_common src tmo s = (Inl header_timeout, ?sB)"
    using sA(1) by (simp add: receive_sync_common_def)
  then show ?thesis by (simp add: ready_bytes_def arrived_def)
qed

theorem long_message_is_lost_witness:
  "fst (receive_sync_common bay1 100 (port_with (data_frame 0x0442 (replicate 128 7) bay1 @ short_frame 0x0464 1 0 bay1))) =
     Inl header_timeout"
  by (rule conjunct1 [OF long_message_is_lost [OF port_with_good]]) simp_all

end
