(* ===== verification/APT_Motor.thy ===== *)
theory APT_Motor
  imports APT_Protocol
begin

text \<open>
  Moves of the Thorlabs motors: status, the scope guard of the update messages and the blocking
  moves of devices/Thorlabs_APT/APT.cpp. The traits of the device are an argument, since only
  its constructor sets them. \<open>tmo\<close> is the default time out of a header, five times the minimal
  transfer time.

  \<open>estimate_abs_move_time\<close> and \<open>estimate_rel_move_time\<close> ask the device for its position and
  velocity; their result is only logged. Here they return nothing, the double arithmetic is left
  out, and the overflows of their integer arithmetic are kept.

  A destructor that throws ends the program. No handler sees it, so it is among the executions
  \<open>UB\<close>.
\<close>

section \<open>Traits and status\<close>

record apt_traits =
  status_request_code :: bsc203_opcodes
  status_get_code :: bsc203_opcodes
  complete_success_code :: bsc203_opcodes
  traits_status_messages :: "bsc203_opcodes list"
  n_ignore_failed_motor_msgs :: int
  require_enable_updates_for_status :: bool

definition APTDeviceTraits :: apt_traits where
  "APTDeviceTraits = \<lparr>status_request_code = MGMSG_MOT_REQ_STATUSUPDATE, status_get_code = MGMSG_MOT_GET_STATUSUPDATE,
     complete_success_code = MGMSG_MOT_MOVE_COMPLETED,
     traits_status_messages = [MGMSG_MOT_MOVE_COMPLETED, MGMSG_MOT_MOVE_HOMED, MGMSG_MOT_MOVE_STOPPED,
       MGMSG_MOT_GET_STATUSUPDATE],
     n_ignore_failed_motor_msgs = 10, require_enable_updates_for_status = False\<rparr>"

datatype allstatus = Channel_status channel_status | Dc_status dcstatus

fun status_word :: "allstatus \<Rightarrow> 32 word" where
  "status_word (Channel_status c) = cs_statusbits c"
| "status_word (Dc_status d) = dc_statusbits d"

fun status_position :: "allstatus \<Rightarrow> 32 word" where
  "status_position (Channel_status c) = cs_position c"
| "status_position (Dc_status d) = dc_position d"

definition extract_status_bit :: "allstatus \<Rightarrow> nat \<Rightarrow> bool" where
  "extract_status_bit st n = bit (status_word st) n"

definition is_homing :: nat where
  "is_homing = 9"

definition limit_bits :: "allstatus \<Rightarrow> bool" where
  "limit_bits st = (extract_status_bit st 0 \<or> extract_status_bit st 1 \<or> extract_status_bit st 2 \<or>
     extract_status_bit st 3)"

definition check_status_bits :: "allstatus \<Rightarrow> bool \<Rightarrow> bool \<Rightarrow> bool" where
  "check_status_bits st check_limitswitch require_moving =
     (if check_limitswitch \<and> limit_bits st then False
      else if require_moving \<and> \<not> (extract_status_bit st 4 \<or> extract_status_bit st 5 \<or>
        extract_status_bit st 6 \<or> extract_status_bit st 7) then False
      else True)"

text \<open>The bytes are copied into the struct whatever their number is. Both structs have 14 bytes.\<close>

definition extract_status_from_data :: "apt_traits \<Rightarrow> byte list \<Rightarrow> allstatus result" where
  "extract_status_from_data tr bs = (
     if status_request_code tr = MGMSG_MOT_REQ_DCSTATUSUPDATE
     then if length bs = 14 then Inr (Dc_status (bytes_dcstatus bs)) else Inl (UB ''status of a wrong size'')
     else if status_request_code tr = MGMSG_MOT_REQ_STATUSUPDATE
     then if length bs = 14 then Inr (Channel_status (bytes_channel_status bs)) else Inl (UB ''status of a wrong size'')
     else Inl (Logic_error ''APT Traits class does not have valid status request code''))"

section \<open>Messages\<close>

definition start_update_messages :: "destination \<Rightarrow> (serial, unit) prog" where
  "start_update_messages dest = transmit_message MGMSG_HW_START_UPDATEMSGS 0x0A 0 dest"

definition stop_update_messages :: "destination \<Rightarrow> (serial, unit) prog" where
  "stop_update_messages dest = transmit_message MGMSG_HW_STOP_UPDATEMSGS 0 0 dest"

definition start_motor_messages :: "destination \<Rightarrow> (serial, unit) prog" where
  "start_motor_messages dest = transmit_message MGMSG_MOT_RESUME_ENDOFMOVEMSGS 0 0 dest"

definition stop_motor_messages :: "destination \<Rightarrow> (serial, unit) prog" where
  "stop_motor_messages dest = transmit_message MGMSG_MOT_SUSPEND_ENDOFMOVEMSGS 0 0 dest"

definition get_move_request_header_data :: "32 word \<Rightarrow> motor_channel_idents \<Rightarrow> byte list" where
  "get_move_request_header_data distance chan = [chan_val chan, 0] @ le32 distance"

definition start_absolute_move :: "destination \<Rightarrow> motor_channel_idents \<Rightarrow> 32 word \<Rightarrow> (serial, unit) prog" where
  "start_absolute_move dest chan target =
     transmit_data MGMSG_MOT_MOVE_ABSOLUTE (get_move_request_header_data target chan) dest"

definition start_relative_move :: "destination \<Rightarrow> motor_channel_idents \<Rightarrow> 32 word \<Rightarrow> (serial, unit) prog" where
  "start_relative_move dest chan movedist =
     transmit_data MGMSG_MOT_MOVE_RELATIVE (get_move_request_header_data movedist chan) dest"

definition start_home_channel :: "destination \<Rightarrow> motor_channel_idents \<Rightarrow> (serial, unit) prog" where
  "start_home_channel dest chan = transmit_message MGMSG_MOT_MOVE_HOME (chan_val chan) 0 dest"

definition stop_move :: "destination \<Rightarrow> motor_channel_idents \<Rightarrow> bool \<Rightarrow> (serial, unit) prog" where
  "stop_move dest chan immediate =
     transmit_message MGMSG_MOT_MOVE_STOP (chan_val chan) (if immediate then 0x01 else 0x02) dest"

text \<open>The end of the scope of a guard that was started, after the body \<open>m\<close>.\<close>

definition leave_scope :: "destination \<Rightarrow> (serial, 'a) prog \<Rightarrow> (serial, 'a) prog" where
  "leave_scope dest m s = (case m s of (r, s') \<Rightarrow>
     if is_ub r then (r, s')
     else (case stop_update_messages dest s' of
         (Inl _, s'') \<Rightarrow> (Inl (UB ''exception from the destructor of the update message guard''), s'')
       | (Inr _, s'') \<Rightarrow> (r, s'')))"

definition get_status :: "apt_traits \<Rightarrow> destination \<Rightarrow> motor_channel_idents \<Rightarrow> nat \<Rightarrow> (serial, allstatus) prog" where
  "get_status tr dest chan tmo =
     (let body =
        (if status_request_code tr = MGMSG_MOT_REQ_DCSTATUSUPDATE
         then request_response_struct 14 (\<lambda>bs. Dc_status (bytes_dcstatus bs)) (status_request_code tr)
           (status_get_code tr) dest (chan_val chan) 0 (Some dest) tmo
         else if status_request_code tr = MGMSG_MOT_REQ_STATUSUPDATE
         then request_response_struct 14 (\<lambda>bs. Channel_status (bytes_channel_status bs)) (status_request_code tr)
           (status_get_code tr) dest (chan_val chan) 0 (Some dest) tmo
         else throws (Logic_error ''APT traits class does not have valid status request code''))
      in if require_enable_updates_for_status tr
         then andthen (start_update_messages dest) (\<lambda>_. leave_scope dest body)
         else body)"

definition is_limited :: "apt_traits \<Rightarrow> destination \<Rightarrow> motor_channel_idents \<Rightarrow> nat \<Rightarrow> (serial, bool) prog" where
  "is_limited tr dest chan tmo = andthen (get_status tr dest chan tmo) (\<lambda>st. returns (limit_bits st))"

section \<open>Waiting for the end of a move\<close>

lemma read_definite_takes:
  assumes "read_definite n tm s = (r, s')"
  shows "length (incoming s') \<le> length (incoming s)"
    and "r = Inr bs \<Longrightarrow> length bs = n \<and> length (incoming s') + n = length (incoming s)"
proof -
  have len: "length (arrived t inc) \<le> length inc" for t and inc :: "(nat \<times> byte) list" by simp
  from assms show "length (incoming s') \<le> length (incoming s)"
    by (auto simp: read_definite_def run_for_def andthen_def Let_def split: if_splits list.splits option.splits)
  assume "r = Inr bs"
  with assms len [of "now_ms s + tm" "incoming s"]
  show "length bs = n \<and> length (incoming s') + n = length (incoming s)"
    by (auto simp: read_definite_def run_for_def andthen_def Let_def split: if_splits list.splits option.splits
        intro!: le_add_diff_inverse2 intro: order_trans [OF _ len])
qed

lemma receive_takes:
  assumes "receive_sync_common src tmo s = (Inr r, s')"
  shows "length (incoming s') < length (incoming s)"
proof -
  obtain h sA where A: "read_definite 6 tmo s = (Inr h, sA)"
    using assms by (auto simp: receive_sync_common_def andthen_eq_Inr)
  then have a: "length (incoming sA) + 6 = length (incoming s)"
    using read_definite_takes(2) by blast
  have "length (incoming s') \<le> length (incoming sA)"
    using assms A
    by (auto simp: receive_sync_common_def andthen_eq_Inr fail_flushed_def throws_def returns_def
        split: if_splits dest: read_definite_takes(1))
  with a show ?thesis by simp
qed

function wait_loop ::
  "apt_traits \<Rightarrow> bsc203_opcodes \<Rightarrow> bsc203_opcodes \<Rightarrow> destination \<Rightarrow> motor_channel_idents \<Rightarrow> nat \<Rightarrow>
   int \<Rightarrow> bool \<Rightarrow> (serial, unit) prog" where
  "wait_loop tr statusop complop dest chan tmo retries init_limit_state s =
     (case receive_message_of dest tmo s of
        (Inl e, s') \<Rightarrow> (Inl e, s')
      | (Inr (repl, code), s') \<Rightarrow>
          if code = opcode statusop then (case rdata repl of
             None \<Rightarrow> (Inl (UB ''data of a message without data''), s')
           | Some bs \<Rightarrow> (case extract_status_from_data tr bs of
                Inl e \<Rightarrow> (Inl e, s')
              | Inr st \<Rightarrow>
                  if check_status_bits st True True
                  then wait_loop tr statusop complop dest chan tmo retries init_limit_state s'
                  else if extract_status_bit st is_homing
                  then if retries \<ge> n_ignore_failed_motor_msgs tr
                    then andthen (stop_move dest chan True) (\<lambda>_. throws (Device_error
                      (''motor status check failed. Motor crash suspected. Emergency stop issued. '' @
                       ''If this is not a crash, maybe retry number needs adjusting!''))) s'
                    else wait_loop tr statusop complop dest chan tmo (retries + 1) init_limit_state s'
                  else if limit_bits st \<and> init_limit_state
                  then wait_loop tr statusop complop dest chan tmo retries False s'
                  else andthen flush (\<lambda>_. throws (Motor_error
                    ''motor status check failed! (Maybe a limit switch has been engaged)'')) s'))
          else if code \<noteq> opcode complop
          then (Inl (Motor_error ''got unexpected type of completion message!''), s')
          else (Inr (), s'))"
  by pat_completeness auto

termination
  by (relation "measure (\<lambda>(_, _, _, _, _, _, _, _, s). length (incoming s))")
    (auto simp: receive_message_of_def dest!: receive_takes [OF sym])

declare wait_loop.simps [simp del]

definition wait_blocking_move ::
  "apt_traits \<Rightarrow> bsc203_opcodes \<Rightarrow> bsc203_opcodes \<Rightarrow> destination \<Rightarrow> motor_channel_idents \<Rightarrow> nat \<Rightarrow> bool \<Rightarrow>
   (serial, unit) prog" where
  "wait_blocking_move tr statusop complop dest chan update_timeout init_limit_state =
     andthen (start_update_messages dest) (\<lambda>_. leave_scope dest
       (andthen (wait_loop tr statusop complop dest chan update_timeout 0 init_limit_state) (\<lambda>_. flush)))"

section \<open>Blocking moves\<close>

text \<open>\<open>std::abs\<close> of a difference of two \<open>int\<close>.\<close>

definition abs_diff :: "int \<Rightarrow> int \<Rightarrow> int result" where
  "abs_diff a b = (if \<bar>a - b\<bar> \<le> 2 ^ 31 - 1 then Inr \<bar>a - b\<bar> else Inl (UB ''overflow of an int''))"

definition estimate_rel_move_time :: "destination \<Rightarrow> motor_channel_idents \<Rightarrow> int \<Rightarrow> nat \<Rightarrow> (serial, unit) prog" where
  "estimate_rel_move_time dest chan target tmo =
     andthen (lifts (abs_diff target 0)) (\<lambda>_. andthen (get_velocity_params dest chan tmo) (\<lambda>_. returns ()))"

definition estimate_abs_move_time ::
  "apt_traits \<Rightarrow> destination \<Rightarrow> motor_channel_idents \<Rightarrow> 32 word \<Rightarrow> 32 word option \<Rightarrow> nat \<Rightarrow> (serial, unit) prog" where
  "estimate_abs_move_time tr dest chan target start tmo =
     andthen (case start of
        None \<Rightarrow> andthen (get_status tr dest chan tmo) (\<lambda>st.
          lifts (abs_diff (sint target) (sint (status_position st))))
      | Some p \<Rightarrow> lifts (abs_diff (sint target) (sint p))) (\<lambda>dist.
     estimate_rel_move_time dest chan dist tmo)"

definition absolute_move_blocking ::
  "apt_traits \<Rightarrow> destination \<Rightarrow> motor_channel_idents \<Rightarrow> 32 word \<Rightarrow> nat \<Rightarrow> (serial, unit) prog" where
  "absolute_move_blocking tr dest chan target tmo =
     andthen (estimate_abs_move_time tr dest chan target None tmo) (\<lambda>_.
     andthen (is_limited tr dest chan tmo) (\<lambda>limstate.
     andthen (start_absolute_move dest chan target) (\<lambda>_.
     wait_blocking_move tr (status_get_code tr) (complete_success_code tr) dest chan 1000 limstate)))"

definition home_move_blocking :: "apt_traits \<Rightarrow> destination \<Rightarrow> motor_channel_idents \<Rightarrow> nat \<Rightarrow> (serial, unit) prog" where
  "home_move_blocking tr dest chan tmo =
     andthen (is_limited tr dest chan tmo) (\<lambda>limitstate.
     andthen (get_status tr dest chan tmo) (\<lambda>_.
     andthen (stop_move dest chan True) (\<lambda>_.
     andthen (get_status tr dest chan tmo) (\<lambda>st.
     if extract_status_bit st is_homing
     then throws (Device_error ''failed to stop a homing move before homing...'')
     else andthen (start_home_channel dest chan) (\<lambda>_.
       wait_blocking_move tr (status_get_code tr) MGMSG_MOT_MOVE_HOMED dest chan 2000 limitstate)))))"

definition relative_move_blocking ::
  "apt_traits \<Rightarrow> destination \<Rightarrow> motor_channel_idents \<Rightarrow> 32 word \<Rightarrow> nat \<Rightarrow> (serial, unit) prog" where
  "relative_move_blocking tr dest chan target tmo =
     andthen (estimate_rel_move_time dest chan (sint target) tmo) (\<lambda>_.
     andthen (is_limited tr dest chan tmo) (\<lambda>limstate.
     andthen (start_relative_move dest chan target) (\<lambda>_.
     wait_blocking_move tr (status_get_code tr) MGMSG_MOT_MOVE_COMPLETED dest chan 1000 limstate)))"

section \<open>Recovery\<close>

definition attempt_error_recover :: "(serial, unit) prog" where
  "attempt_error_recover = andthen (reconnect None) (\<lambda>_. flush)"

definition Reconnect :: "(serial, bool) prog" where
  "Reconnect = catches (andthen (reconnect None) (\<lambda>_. returns True))
     (\<lambda>e. case e of Protocol_error _ \<Rightarrow> returns False | _ \<Rightarrow> throws e)"

section \<open>What a wait does, as a monitor of messages\<close>

text \<open>What one message says about the move.\<close>

datatype move_event =
    Moving
  | Homing_trouble
  | At_limit
  | Not_moving
  | Finished
  | Other_message
  | Malformed error

definition move_event_of :: "apt_traits \<Rightarrow> bsc203_opcodes \<Rightarrow> bsc203_opcodes \<Rightarrow> frame \<Rightarrow> move_event" where
  "move_event_of tr statusop complop f =
     (if frame_code f = opcode statusop then (case rdata (frame_reply f) of
          None \<Rightarrow> Malformed (UB ''data of a message without data'')
        | Some bs \<Rightarrow> (case extract_status_from_data tr bs of
            Inl e \<Rightarrow> Malformed e
          | Inr st \<Rightarrow> if check_status_bits st True True then Moving
              else if extract_status_bit st is_homing then Homing_trouble
              else if limit_bits st then At_limit else Not_moving))
      else if frame_code f = opcode complop then Finished else Other_message)"

text \<open>How a wait ends.\<close>

datatype move_end =
    Completed
  | Silence
  | Crash_stop
  | Limit_stop
  | Wrong_completion
  | Broken error

text \<open>\<open>n\<close> is how often trouble while homing is ignored, \<open>tol\<close> whether one limit message is.\<close>

fun monitor :: "(frame \<Rightarrow> move_event) \<Rightarrow> int \<Rightarrow> bool \<Rightarrow> frame list \<Rightarrow> move_end \<times> frame list" where
  "monitor ev n tol [] = (Silence, [])"
| "monitor ev n tol (f # fs) = (case ev f of
     Moving \<Rightarrow> monitor ev n tol fs
   | Homing_trouble \<Rightarrow> if n \<le> 0 then (Crash_stop, fs) else monitor ev (n - 1) tol fs
   | At_limit \<Rightarrow> if tol then monitor ev n False fs else (Limit_stop, [])
   | Not_moving \<Rightarrow> (Limit_stop, [])
   | Finished \<Rightarrow> (Completed, fs)
   | Other_message \<Rightarrow> (Wrong_completion, fs)
   | Malformed e \<Rightarrow> (Broken e, fs))"

fun end_result :: "move_end \<Rightarrow> unit result" where
  "end_result Completed = Inr ()"
| "end_result Silence = Inl header_timeout"
| "end_result Crash_stop = Inl (Device_error
     (''motor status check failed. Motor crash suspected. Emergency stop issued. '' @
      ''If this is not a crash, maybe retry number needs adjusting!''))"
| "end_result Limit_stop = Inl (Motor_error ''motor status check failed! (Maybe a limit switch has been engaged)'')"
| "end_result Wrong_completion = Inl (Motor_error ''got unexpected type of completion message!'')"
| "end_result (Broken e) = Inl e"

definition short_message :: "bsc203_opcodes \<Rightarrow> byte \<Rightarrow> byte \<Rightarrow> destination \<Rightarrow> byte list" where
  "short_message op a b dest = le16 (opcode op) @ [a, b, dest_val dest, dest_val host]"

definition stop_now :: "move_end \<Rightarrow> destination \<Rightarrow> motor_channel_idents \<Rightarrow> byte list" where
  "stop_now e dest chan =
     (if e = Crash_stop then short_message MGMSG_MOT_MOVE_STOP (chan_val chan) 1 dest else [])"

lemma stop_move_good:
  assumes "line_holds dest fs out s"
  obtains s' where "stop_move dest chan True s = (Inr (), s')"
    "line_holds dest fs (out @ stop_now Crash_stop dest chan) s'"
  using transmit_good [OF assms, of MGMSG_MOT_MOVE_STOP "chan_val chan" 1 dest]
  by (auto simp: stop_move_def stop_now_def short_message_def)

lemma flush_line:
  assumes "line_holds dest fs out s"
  obtains s' where "flush s = (Inr (), s')" "line_holds dest [] out s'"
  using flushed_good [of "concat (map (frame_bytes dest) fs)" out s] assms by (auto simp: line_holds_def)

lemma wait_loop_monitor:
  assumes "line_holds dest fs out s"
    and "monitor (move_event_of tr statusop complop) (n_ignore_failed_motor_msgs tr - retries) tol fs = (e, rest)"
  shows "\<exists>s'. wait_loop tr statusop complop dest chan tmo retries tol s = (end_result e, s') \<and>
    line_holds dest rest (out @ stop_now e dest chan) s'"
  using assms
proof (induction fs arbitrary: s retries tol)
  case Nil
  from Nil(1) obtain s' where "receive_sync_common dest tmo s = (Inl header_timeout, s')" "line_holds dest [] out s'"
    by (rule receive_silence)
  with Nil(2) show ?case
    by (auto simp: wait_loop.simps [of tr statusop complop dest chan tmo retries tol] receive_message_of_def stop_now_def)
next
  case (Cons f fs)
  let ?ev = "move_event_of tr statusop complop"
  from Cons(2) obtain sA where sA: "receive_sync_common dest tmo s = (Inr (frame_reply f, frame_code f), sA)"
    "line_holds dest fs out sA"
    by (rule receive_frame)
  obtain sS where sS: "stop_move dest chan True sA = (Inr (), sS)"
    "line_holds dest fs (out @ stop_now Crash_stop dest chan) sS"
    by (rule stop_move_good [OF sA(2)])
  obtain sF where sF: "flush sA = (Inr (), sF)" "line_holds dest [] out sF"
    by (rule flush_line [OF sA(2)])
  note step = wait_loop.simps [of tr statusop complop dest chan tmo retries tol s]
    receive_message_of_def sA(1) move_event_of_def stop_now_def
  note IH = Cons(1) [OF sA(2)]
  show ?case
  proof (cases "?ev f")
    case Moving
    with Cons(3) IH [of retries tol] show ?thesis
      by (auto simp: step split: if_splits option.splits sum.splits)
  next
    case Homing_trouble
    with Cons(3) IH [of "retries + 1" tol] sS show ?thesis
      by (auto simp: step throws_def algebra_simps split: if_splits option.splits sum.splits)
  next
    case At_limit
    with Cons(3) IH [of retries False] sF show ?thesis
      by (auto simp: step throws_def split: if_splits option.splits sum.splits)
  next
    case Not_moving
    with Cons(3) sF show ?thesis
      by (auto simp: step throws_def split: if_splits option.splits sum.splits)
  next
    case Finished
    with Cons(3) sA(2) show ?thesis by (auto simp: step split: if_splits option.splits sum.splits)
  next
    case Other_message
    with Cons(3) sA(2) show ?thesis by (auto simp: step split: if_splits option.splits sum.splits)
  next
    case (Malformed e)
    with Cons(3) sA(2) show ?thesis by (auto simp: step split: if_splits option.splits sum.splits)
  qed
qed


lemma wait_on_line:
  assumes "line_holds dest fs out s"
    and "monitor (move_event_of tr statusop complop) (n_ignore_failed_motor_msgs tr) tol fs = (e, rest)"
  shows "\<exists>s'. wait_blocking_move tr statusop complop dest chan tmo tol s = (end_result e, s') \<and>
    line_holds dest (if e = Completed then [] else rest)
      (out @ short_message MGMSG_HW_START_UPDATEMSGS 0x0A 0 dest @ stop_now e dest chan @
       (if is_ub (end_result e) then [] else short_message MGMSG_HW_STOP_UPDATEMSGS 0 0 dest)) s'"
proof -
  let ?start = "short_message MGMSG_HW_START_UPDATEMSGS 0x0A 0 dest"
    and ?stop = "short_message MGMSG_HW_STOP_UPDATEMSGS 0 0 dest"
    and ?loop = "wait_loop tr statusop complop dest chan tmo 0 tol"
  obtain sA where A: "start_update_messages dest s = (Inr (), sA)" "line_holds dest fs (out @ ?start) sA"
    using transmit_good [OF assms(1), of MGMSG_HW_START_UPDATEMSGS "0x0A" 0 dest]
    by (auto simp: start_update_messages_def short_message_def)
  obtain sB where B: "?loop sA = (end_result e, sB)" "line_holds dest rest ((out @ ?start) @ stop_now e dest chan) sB"
    using wait_loop_monitor [OF A(2), of tr statusop complop 0 tol e rest chan tmo] assms(2) by auto
  obtain sC where C: "andthen ?loop (\<lambda>_. flush) sA = (end_result e, sC)"
    "line_holds dest (if e = Completed then [] else rest) (out @ ?start @ stop_now e dest chan) sC"
  proof (cases "e = Completed")
    case True
    obtain sF where "flush sB = (Inr (), sF)" "line_holds dest [] ((out @ ?start) @ stop_now e dest chan) sF"
      by (rule flush_line [OF B(2)])
    with True B(1) that show thesis by simp
  next
    case False
    then obtain x where "end_result e = Inl x" by (cases e) auto
    with False B that show thesis by simp
  qed
  obtain sD where D: "stop_update_messages dest sC = (Inr (), sD)"
    "line_holds dest (if e = Completed then [] else rest) ((out @ ?start @ stop_now e dest chan) @ ?stop) sD"
    using transmit_good [OF C(2), of MGMSG_HW_STOP_UPDATEMSGS 0 0 dest]
    by (auto simp: stop_update_messages_def short_message_def)
  from A(1) C(1) D(1) have "wait_blocking_move tr statusop complop dest chan tmo tol s =
      (end_result e, if is_ub (end_result e) then sC else sD)"
    by (simp add: wait_blocking_move_def leave_scope_def)
  with C(2) D(2) show ?thesis by simp
qed

text \<open>Trouble while homing that goes on longer than it is ignored.\<close>

lemma monitor_crash:
  assumes "list_all (\<lambda>f. ev f = Moving \<or> ev f = Homing_trouble) pre" and "0 \<le> n"
    and "n < int (length (filter (\<lambda>f. ev f = Homing_trouble) pre))"
  shows "fst (monitor ev n tol (pre @ fs)) = Crash_stop"
  using assms
proof (induction pre arbitrary: n)
  case (Cons f pre)
  show ?case
  proof (cases "ev f = Moving \<or> 0 < n")
    case True
    with Cons(2-4) Cons(1) [of n] Cons(1) [of "n - 1"] show ?thesis by auto
  next
    case False
    with Cons(2-4) show ?thesis by auto
  qed
qed simp

text \<open>
  C26. Waiting for a move. On a line that holds whole messages the wait ends the way the monitor
  says, on every branch: completion, silence, a crash, a limit switch, a message that does not
  belong there. The update messages are switched on before and off at the end however it ends,
  the emergency stop is sent exactly when the monitor sees a crash, and after a completed move
  the line is empty.
\<close>

theorem wait_refines_monitor:
  assumes "line_holds dest fs out s"
    and "monitor (move_event_of tr statusop complop) (n_ignore_failed_motor_msgs tr) tol fs = (e, rest)"
  shows "fst (wait_blocking_move tr statusop complop dest chan tmo tol s) = end_result e \<and>
    line_holds dest (if e = Completed then [] else rest)
      (out @ short_message MGMSG_HW_START_UPDATEMSGS 0x0A 0 dest @ stop_now e dest chan @
       (if is_ub (end_result e) then [] else short_message MGMSG_HW_STOP_UPDATEMSGS 0 0 dest))
      (snd (wait_blocking_move tr statusop complop dest chan tmo tol s))"
  using wait_on_line [OF assms, of chan tmo] by auto

text \<open>A status message with the status word \<open>w\<close>.\<close>

definition status_frame :: "32 word \<Rightarrow> frame" where
  "status_frame w = Data 0x0481 ([1, 0, 0, 0, 0, 0, 0, 0, 0, 0] @ le32 w)"

lemma status_frame_event:
  "move_event_of APTDeviceTraits MGMSG_MOT_GET_STATUSUPDATE complop (status_frame w) =
     (if bit w 0 \<or> bit w 1 \<or> bit w 2 \<or> bit w 3 then if bit w is_homing then Homing_trouble else At_limit
      else if bit w 4 \<or> bit w 5 \<or> bit w 6 \<or> bit w 7 then Moving
      else if bit w is_homing then Homing_trouble else Not_moving)"
proof -
  have "cs_statusbits (bytes_channel_status ([1, 0, 0, 0, 0, 0, 0, 0, 0, 0] @ le32 w)) = w"
    using of32_le32 [of w "[]"] by (simp add: bytes_channel_status_def)
  then show ?thesis
    by (simp add: move_event_of_def status_frame_def extract_status_from_data_def APTDeviceTraits_def length_le
        check_status_bits_def limit_bits_def extract_status_bit_def)
qed

theorem wait_refines_monitor_witness:
  "fst (wait_blocking_move APTDeviceTraits MGMSG_MOT_GET_STATUSUPDATE MGMSG_MOT_MOVE_COMPLETED bay1 channel_1 1000 True
     (port_with (concat (map (frame_bytes bay1) [status_frame 1, status_frame 0x10, Short 0x0464 1 0])))) = Inr ()"
proof -
  have l: "line_holds bay1 [status_frame 1, status_frame 0x10, Short 0x0464 1 0] []
      (port_with (concat (map (frame_bytes bay1) [status_frame 1, status_frame 0x10, Short 0x0464 1 0])))"
    by (rule line_of_port) (simp add: status_frame_def)
  have m: "monitor (move_event_of APTDeviceTraits MGMSG_MOT_GET_STATUSUPDATE MGMSG_MOT_MOVE_COMPLETED)
      (n_ignore_failed_motor_msgs APTDeviceTraits) True [status_frame 1, status_frame 0x10, Short 0x0464 1 0] =
      (Completed, [])"
    by (simp add: status_frame_event is_homing_def bit_simps) (simp add: move_event_of_def APTDeviceTraits_def)
  from conjunct1 [OF wait_refines_monitor [OF l m]] show ?thesis by simp
qed

text \<open>
  C27. A stalled motor is stopped. When the controller keeps reporting that it is homing and is
  not moving or at a limit, the message after the last ignored one ends the wait with a device
  error, and the emergency stop has been sent.
\<close>

theorem stalled_homing_is_stopped:
  assumes "line_holds dest (pre @ fs) out s" and "0 \<le> n_ignore_failed_motor_msgs tr"
    and "list_all (\<lambda>f. move_event_of tr statusop complop f \<in> {Moving, Homing_trouble}) pre"
    and "n_ignore_failed_motor_msgs tr <
      int (length (filter (\<lambda>f. move_event_of tr statusop complop f = Homing_trouble) pre))"
  shows "fst (wait_blocking_move tr statusop complop dest chan tmo tol s) = end_result Crash_stop \<and>
    sent (snd (wait_blocking_move tr statusop complop dest chan tmo tol s)) =
      out @ short_message MGMSG_HW_START_UPDATEMSGS 0x0A 0 dest @
        short_message MGMSG_MOT_MOVE_STOP (chan_val chan) 1 dest @
        short_message MGMSG_HW_STOP_UPDATEMSGS 0 0 dest"
proof -
  let ?ev = "move_event_of tr statusop complop" and ?n = "n_ignore_failed_motor_msgs tr"
  have c: "fst (monitor ?ev ?n tol (pre @ fs)) = Crash_stop"
    using assms(2-4) by (intro monitor_crash) simp_all
  obtain rest where "monitor ?ev ?n tol (pre @ fs) = (Crash_stop, rest)"
    using c by (metis prod.collapse)
  from wait_on_line [OF assms(1) this, of chan tmo] show ?thesis
    by (auto simp: line_holds_def good_with_def stop_now_def)
qed

theorem stalled_homing_is_stopped_witness:
  "fst (wait_blocking_move APTDeviceTraits MGMSG_MOT_GET_STATUSUPDATE MGMSG_MOT_MOVE_HOMED bay1 channel_1 2000 False
     (port_with (concat (map (frame_bytes bay1) (replicate 11 (status_frame 0x200) @ []))))) = end_result Crash_stop"
proof (rule conjunct1 [OF stalled_homing_is_stopped])
  let ?ev = "move_event_of APTDeviceTraits MGMSG_MOT_GET_STATUSUPDATE MGMSG_MOT_MOVE_HOMED"
  have e: "?ev (status_frame 0x200) = Homing_trouble"
    by (simp add: status_frame_event is_homing_def bit_simps)
  show "line_holds bay1 (replicate 11 (status_frame 0x200) @ []) []
      (port_with (concat (map (frame_bytes bay1) (replicate 11 (status_frame 0x200) @ []))))"
    by (rule line_of_port) (simp add: status_frame_def list_all_iff)
  show "0 \<le> n_ignore_failed_motor_msgs APTDeviceTraits" by (simp add: APTDeviceTraits_def)
  show "list_all (\<lambda>f. ?ev f \<in> {Moving, Homing_trouble}) (replicate 11 (status_frame 0x200))"
    by (simp add: list_all_iff e)
  show "n_ignore_failed_motor_msgs APTDeviceTraits <
      int (length (filter (\<lambda>f. ?ev f = Homing_trouble) (replicate 11 (status_frame 0x200))))"
    by (simp add: e) (simp add: APTDeviceTraits_def)
qed

end
