(* ===== verification/Partial_Calls.thy ===== *)
theory Partial_Calls
  imports Foxtrot_Prelude
begin

text \<open>
  Stateful operations that may throw and may also not return at all: \<open>None\<close> is the call that
  waits or loops for ever.
\<close>

section \<open>Calls that may not return\<close>

type_synonym ('s, 'a) oprog = "'s \<Rightarrow> ('a result \<times> 's) option"

definition always :: "('s, 'a) prog \<Rightarrow> ('s, 'a) oprog" where
  "always m s = Some (m s)"

definition othen :: "('s, 'a) oprog \<Rightarrow> ('a \<Rightarrow> ('s, 'b) oprog) \<Rightarrow> ('s, 'b) oprog" where
  "othen m k s = (case m s of None \<Rightarrow> None
     | Some (Inl e, s') \<Rightarrow> Some (Inl e, s') | Some (Inr x, s') \<Rightarrow> k x s')"

lemma othen_None [simp]: "m s = None \<Longrightarrow> othen m k s = None"
  by (simp add: othen_def)

lemma othen_always: "othen (always m) k s = (case m s of (Inl e, s') \<Rightarrow> Some (Inl e, s') | (Inr x, s') \<Rightarrow> k x s')"
  by (simp add: othen_def always_def split: prod.splits sum.splits)

fun oseq :: "('s, unit) oprog list \<Rightarrow> ('s, unit) oprog" where
  "oseq [] = always (returns ())"
| "oseq (m # ms) = othen m (\<lambda>_. oseq ms)"

text \<open>A call that cannot return normally: it throws or does not return at all.\<close>

definition never_returns :: "('s, 'a) oprog \<Rightarrow> bool" where
  "never_returns m \<longleftrightarrow> (\<forall>s. case m s of Some (Inr _, _) \<Rightarrow> False | _ \<Rightarrow> True)"

named_theorems never_intros \<open>rules that show that a call cannot return normally\<close>

lemma never_first [never_intros]: "never_returns m \<Longrightarrow> never_returns (othen m k)"
  unfolding never_returns_def othen_def by (fastforce split: option.splits prod.splits sum.splits)

lemma never_rest [never_intros]: "(\<And>x. never_returns (k x)) \<Longrightarrow> never_returns (othen m k)"
  unfolding never_returns_def othen_def by (fastforce split: option.splits prod.splits sum.splits)

lemma never_oseq [never_intros]: "never_returns m \<Longrightarrow> m \<in> set ms \<Longrightarrow> never_returns (oseq ms)"
  by (induction ms) (auto intro: never_intros)

lemma othen_Some [simp]: "m s = Some (Inr x, s') \<Longrightarrow> othen m k s = k x s'"
  by (simp add: othen_def)

lemma othen_Throw [simp]: "m s = Some (Inl e, s') \<Longrightarrow> othen m k s = Some (Inl e, s')"
  by (simp add: othen_def)

lemma othen_eq_return:
  "othen m k s = Some (Inr y, t) \<longleftrightarrow> (\<exists>x s'. m s = Some (Inr x, s') \<and> k x s' = Some (Inr y, t))"
  by (auto simp: othen_def split: option.splits prod.splits sum.splits)

lemma always_eq_return: "always m s = Some (r, t) \<longleftrightarrow> m s = (r, t)"
  by (simp add: always_def)

abbreviation oreturn :: "'a \<Rightarrow> ('s, 'a) oprog" where "oreturn x \<equiv> always (returns x)"
abbreviation othrow :: "error \<Rightarrow> ('s, 'a) oprog" where "othrow e \<equiv> always (throws e)"
abbreviation olift :: "'a result \<Rightarrow> ('s, 'a) oprog" where "olift r \<equiv> always (lifts r)"
abbreviation oget :: "('s \<Rightarrow> 'a) \<Rightarrow> ('s, 'a) oprog" where "oget f \<equiv> always (gets f)"
abbreviation oset :: "('s \<Rightarrow> 's) \<Rightarrow> ('s, unit) oprog" where "oset f \<equiv> always (modifies f)"

definition othrow_unless :: "bool \<Rightarrow> error \<Rightarrow> ('s, unit) oprog" where
  "othrow_unless b e = always (throw_unless b e)"

lemma othen_oreturn [simp]: "othen (oreturn x) k = k x"
  by (rule ext) (simp add: othen_def always_def returns_def)

lemma othen_othrow [simp]: "othen (othrow e) k = othrow e"
  by (rule ext) (simp add: othen_def always_def throws_def)

lemma othen_olift: "othen (olift r) k s = (case r of Inl e \<Rightarrow> Some (Inl e, s) | Inr x \<Rightarrow> k x s)"
  by (simp add: othen_def always_def lifts_def split: sum.splits)

lemma othen_oget [simp]: "othen (oget f) k s = k (f s) s"
  by (simp add: othen_def always_def gets_def)

lemma othen_oset [simp]: "othen (oset f) k s = k () (f s)"
  by (simp add: othen_def always_def modifies_def)

lemma othen_unless: "othen (othrow_unless b e) k s = (if b then k () s else Some (Inl e, s))"
  by (simp add: othen_def othrow_unless_def throw_unless_def always_def returns_def throws_def)

lemma othen_assoc: "othen (othen m f) g = othen m (\<lambda>x. othen (f x) g)"
  by (rule ext) (auto simp: othen_def split: option.splits prod.splits sum.splits)

text \<open>A \<open>catch\<close> for \<open>std::out_of_range\<close>; the handler sees the state that the block left.\<close>

definition ocatch_range :: "('s, 'a) oprog \<Rightarrow> ('s, 'a) oprog \<Rightarrow> ('s, 'a) oprog" where
  "ocatch_range m h s = (case m s of Some (Inl (Out_of_range _), s') \<Rightarrow> h s' | r \<Rightarrow> r)"

text \<open>A step over a list that stops at the first exception.\<close>

fun ofor :: "('a \<Rightarrow> ('s, unit) oprog) \<Rightarrow> 'a list \<Rightarrow> ('s, unit) oprog" where
  "ofor f [] = oreturn ()"
| "ofor f (x # xs) = othen (f x) (\<lambda>_. ofor f xs)"

fun pseq :: "('s, unit) prog list \<Rightarrow> ('s, unit) prog" where
  "pseq [] = returns ()"
| "pseq (m # ms) = andthen m (\<lambda>_. pseq ms)"

text \<open>What every step keeps, the sequence keeps.\<close>

lemma pseq_keeps:
  assumes "\<And>m s r s'. m \<in> set ms \<Longrightarrow> m s = (r, s') \<Longrightarrow> f s' = f s"
  shows "pseq ms s = (r, s') \<Longrightarrow> f s' = f s"
  using assms
proof (induction ms arbitrary: s)
  case (Cons m ms)
  obtain r1 s1 where "m s = (r1, s1)" by (cases "m s")
  with Cons show ?case by (cases r1) fastforce+
qed (simp add: returns_def)

text \<open>A result of \<open>int\<close> arithmetic; outside the range of the type it has no meaning.\<close>

definition c_int :: "int \<Rightarrow> int result" where
  "c_int i = (if - 2147483648 \<le> i \<and> i \<le> 2147483647 then Inr i else Inl (UB ''signed overflow''))"

text \<open>\<open>at\<close> of a map.\<close>

definition map_at :: "('k \<times> 'v) list \<Rightarrow> 'k \<Rightarrow> 'v result" where
  "map_at m k = (case map_of m k of None \<Rightarrow> Inl (Out_of_range ''map::at'') | Some v \<Rightarrow> Inr v)"

end
