(* ===== verification/APT_Devices.thy ===== *)
theory APT_Devices
  imports APT_Motor Partial_Calls
begin

text \<open>
  The controllers built on the motor protocol, devices/Thorlabs_APT: the base class that fixes the
  destination (APT_defaultdest.cpp), LTS300.cpp, M30X.cpp, TIM101.cpp and BSC203.cpp.

  A call that may not return has the type \<open>oprog\<close>: \<open>None\<close> is the call that does not. The loops that
  poll for a completion message are of this kind, and so is the channel switch of the BSC203.
  \<open>tmo\<close> is again the default time out of a header.
\<close>

section \<open>Construction\<close>

definition bsc203_class_params :: parameterset where
  "bsc203_class_params = [(''baudrate'', P_int 115200), (''stopbits'', P_int 1),
     (''flowcontrol'', P_string ''hardware''), (''parity'', P_string ''none'')]"

definition APT_init :: "(serial, unit) prog" where
  "APT_init = andthen (Init (Some bsc203_class_params)) (\<lambda>_. flush)"

definition LTS300_init :: "(serial, apt_traits) prog" where
  "LTS300_init = andthen APT_init (\<lambda>_. andthen (stop_update_messages genericUSB) (\<lambda>_. andthen flush (\<lambda>_.
     returns (APTDeviceTraits\<lparr>require_enable_updates_for_status := True\<rparr>))))"

definition M30X_init :: "(serial, apt_traits) prog" where
  "M30X_init = andthen APT_init (\<lambda>_. andthen (stop_update_messages genericUSB) (\<lambda>_. andthen flush (\<lambda>_.
     andthen (start_motor_messages genericUSB) (\<lambda>_. returns (APTDeviceTraits\<lparr>
       status_request_code := MGMSG_MOT_REQ_DCSTATUSUPDATE, status_get_code := MGMSG_MOT_GET_DCSTATUSUPDATE,
       traits_status_messages := [MGMSG_MOT_MOVE_COMPLETED, MGMSG_MOT_MOVE_HOMED, MGMSG_MOT_MOVE_STOPPED,
         MGMSG_MOT_GET_DCSTATUSUPDATE],
       n_ignore_failed_motor_msgs := 10\<rparr>)))))"

section \<open>The long stage LTS300, one channel behind the USB address\<close>

definition lts_get_status :: "apt_traits \<Rightarrow> nat \<Rightarrow> (serial, channel_status) prog" where
  "lts_get_status tr tmo = andthen (get_status tr genericUSB channel_1 tmo) (\<lambda>st. case st of
     Channel_status c \<Rightarrow> returns c | Dc_status _ \<Rightarrow> throws Bad_variant_access)"

definition lts_set_homeparams :: "homeparams \<Rightarrow> (serial, unit) prog" where
  "lts_set_homeparams params = set_homeparams genericUSB (params\<lparr>hp_chan_ident := ucast (chan_val channel_1)\<rparr>)"

definition lts_set_limitswitchparams :: "limitswitchparams \<Rightarrow> (serial, unit) prog" where
  "lts_set_limitswitchparams params =
     set_limitswitchparams genericUSB (params\<lparr>ls_chan_ident := ucast (chan_val channel_1)\<rparr>)"

definition lts_set_velocity_params :: "velocity_params \<Rightarrow> (serial, unit) prog" where
  "lts_set_velocity_params params =
     set_velocity_params genericUSB (params\<lparr>vp_chan_ident := ucast (chan_val channel_1)\<rparr>)"

definition lts_attempt_recover_serial_comms :: "(serial, unit) prog" where
  "lts_attempt_recover_serial_comms = andthen bytes_available (\<lambda>_. flush)"

section \<open>The stage M30X\<close>

text \<open>The moves go to bay 1, the other requests to the USB address. \<open>long\<close> has 64 bits.\<close>

definition check_soft_limits :: "bool \<Rightarrow> int \<Rightarrow> nat \<Rightarrow> (serial, bool) prog" where
  "check_soft_limits home_left required_distance tmo =
     andthen (get_limitswitchparams genericUSB channel_1 tmo) (\<lambda>p.
     returns (if home_left then uint (CWsoft p) \<ge> required_distance
              else uint (CCWsoft p) \<le> - required_distance))"

definition safe_home_move :: "apt_traits \<Rightarrow> bool \<Rightarrow> int \<Rightarrow> nat \<Rightarrow> (serial, unit) prog" where
  "safe_home_move tr home_left velocity tmo =
     andthen (check_soft_limits home_left 170000 tmo) (\<lambda>ok.
     if \<not> ok then returns ()
     else andthen (get_homeparams genericUSB channel_1 tmo) (\<lambda>h.
       let h' = (if home_left then h\<lparr>homeDir := 2, limitSwitch := 1\<rparr> else h\<lparr>homeDir := 1, limitSwitch := 4\<rparr>)
       in andthen (set_homeparams genericUSB (h'\<lparr>homeVelocity := word_of_int velocity\<rparr>)) (\<lambda>_.
          home_move_blocking tr bay1 channel_1 tmo)))"

definition set_soft_limits :: "int \<Rightarrow> int \<Rightarrow> nat \<Rightarrow> (serial, unit) prog" where
  "set_soft_limits CW_limit CCW_limit tmo =
     andthen (get_limitswitchparams genericUSB channel_1 tmo) (\<lambda>p.
     set_limitswitchparams genericUSB (p\<lparr>CWsoft := word_of_int CW_limit, CCWsoft := word_of_int CCW_limit\<rparr>))"

section \<open>Polling for an opcode\<close>

text \<open>All that has arrived is read; the opcode may start at any byte of it. One byte alone is read
  and dropped.\<close>

definition opcode_at :: "byte list \<Rightarrow> nat \<Rightarrow> 32 word" where
  "opcode_at bs i = or (push_bit 8 (scast (bs ! Suc i))) (ucast (bs ! i))"

definition check_code_serport :: "bsc203_opcodes \<Rightarrow> (serial, bool waiting) prog" where
  "check_code_serport op = andthen bytes_available (\<lambda>nbytes. andthen (read_chars nbytes) (\<lambda>r. case r of
     Blocked \<Rightarrow> returns Blocked
   | Done bs \<Rightarrow> returns (Done (if nbytes < 2 then False
       else list_ex (\<lambda>i. opcode_at bs i = ucast (opcode op)) [0..<nbytes - 1]))))"

partial_function (option) wait_for_code :: "bsc203_opcodes \<Rightarrow> (serial, unit) oprog" where
  "wait_for_code op s = (case check_code_serport op s of
     (Inl e, s') \<Rightarrow> Some (Inl e, s')
   | (Inr Blocked, s') \<Rightarrow> None
   | (Inr (Done found), s') \<Rightarrow> if found then Some (Inr (), s')
       else wait_for_code op (s'\<lparr>now_ms := now_ms s' + 100\<rparr>))"

section \<open>The piezo controller TIM101\<close>

record jogparams =
  jog_subMsgID :: "16 word"
  jog_chanIdent :: "16 word"
  jogMode :: "16 word"
  jogStepSize :: "32 word"
  jogStepRate :: "32 word"
  jogStepAccn :: "32 word"

record piezo_move_absolute_params =
  abs_subMsgID :: "16 word"
  abs_chanIdent :: "16 word"
  maxVoltage :: "16 word"
  stepRate :: "32 word"
  stepAccn :: "32 word"

record pos_counter_params =
  pos_subMsgID :: "16 word"
  pos_chanIdent :: "16 word"
  pos_position :: "32 word"
  encCount :: "32 word"

record motor_status =
  channel1 :: channel_status
  channel2 :: channel_status
  channel3 :: channel_status
  channel4 :: channel_status

definition tim_jog_bytes :: "jogparams \<Rightarrow> byte list" where
  "tim_jog_bytes j = le16 (jog_subMsgID j) @ [ucast (jog_chanIdent j), 0] @ le16 (jogMode j) @
     le32 (jogStepSize j) @ le32 (jogStepRate j) @ le32 (jogStepAccn j)"

definition bytes_tim_jog :: "byte list \<Rightarrow> jogparams" where
  "bytes_tim_jog bs = \<lparr>jog_subMsgID = of16 bs, jog_chanIdent = of16 (drop 2 bs), jogMode = of16 (drop 4 bs),
     jogStepSize = of32 (drop 6 bs), jogStepRate = of32 (drop 10 bs), jogStepAccn = of32 (drop 14 bs)\<rparr>"

definition construct_piezo_absolute_move_request_data :: "piezo_move_absolute_params \<Rightarrow> byte list" where
  "construct_piezo_absolute_move_request_data a = le16 (abs_subMsgID a) @ [ucast (abs_chanIdent a), 0] @
     le16 (maxVoltage a) @ le32 (stepRate a) @ le32 (stepAccn a)"

definition bytes_piezo_absolute :: "byte list \<Rightarrow> piezo_move_absolute_params" where
  "bytes_piezo_absolute bs = \<lparr>abs_subMsgID = of16 bs, abs_chanIdent = of16 (drop 2 bs),
     maxVoltage = of16 (drop 4 bs), stepRate = of32 (drop 6 bs), stepAccn = of32 (drop 10 bs)\<rparr>"

definition pos_counter_bytes :: "pos_counter_params \<Rightarrow> byte list" where
  "pos_counter_bytes p = le16 (pos_subMsgID p) @ le16 (pos_chanIdent p) @ le32 (pos_position p) @ le32 (encCount p)"

definition bytes_pos_counter :: "byte list \<Rightarrow> pos_counter_params" where
  "bytes_pos_counter bs = \<lparr>pos_subMsgID = of16 bs, pos_chanIdent = of16 (drop 2 bs),
     pos_position = of32 (drop 4 bs), encCount = of32 (drop 8 bs)\<rparr>"

definition bytes_motor_status :: "byte list \<Rightarrow> motor_status" where
  "bytes_motor_status bs = \<lparr>channel1 = bytes_channel_status bs, channel2 = bytes_channel_status (drop 14 bs),
     channel3 = bytes_channel_status (drop 28 bs), channel4 = bytes_channel_status (drop 42 bs)\<rparr>"

definition tim_set_jog_parameters :: "jogparams \<Rightarrow> (serial, unit) prog" where
  "tim_set_jog_parameters j = transmit_data MGMSG_PZMOT_SET_PARAMS (tim_jog_bytes j) genericUSB"

definition tim_set_move_absolute_parameters :: "piezo_move_absolute_params \<Rightarrow> (serial, unit) prog" where
  "tim_set_move_absolute_parameters a =
     transmit_data MGMSG_PZMOT_SET_PARAMS (construct_piezo_absolute_move_request_data a) genericUSB"

definition TIM101_init :: "(serial, unit) prog" where
  "TIM101_init =
     andthen APT_init (\<lambda>_.
     andthen (transmit_message MGMSG_HW_NO_FLASH_PROGRAMMING 0 0 genericUSB) (\<lambda>_.
     andthen (transmit_message MGMSG_MOD_STOP_UPDATEMSGS 0 0 genericUSB) (\<lambda>_.
     fold (\<lambda>c m. andthen m (\<lambda>_.
         andthen (tim_set_jog_parameters \<lparr>jog_subMsgID = 0x0009, jog_chanIdent = ucast (chan_val c), jogMode = 0x0002,
           jogStepSize = 250, jogStepRate = 0x000001F4, jogStepAccn = 0x000186A0\<rparr>) (\<lambda>_.
         tim_set_move_absolute_parameters \<lparr>abs_subMsgID = 0x0007, abs_chanIdent = ucast (chan_val c),
           maxVoltage = 0x006E, stepRate = 0x000000AA, stepAccn = 0x000000F0\<rparr>)))
       [channel_1, channel_2, channel_3, channel_4] (returns ()))))"

definition tim_request_jog_parameters :: "motor_channel_idents \<Rightarrow> nat \<Rightarrow> (serial, jogparams) prog" where
  "tim_request_jog_parameters chan tmo = andthen (set_channelenable genericUSB chan True) (\<lambda>_.
     request_response_struct 18 bytes_tim_jog MGMSG_PZMOT_REQ_PARAMS MGMSG_PZMOT_GET_PARAMS genericUSB
       0x09 (chan_val chan) (Some genericUSB) tmo)"

definition tim_request_move_absolute_parameters ::
  "motor_channel_idents \<Rightarrow> nat \<Rightarrow> (serial, piezo_move_absolute_params) prog" where
  "tim_request_move_absolute_parameters chan tmo =
     request_response_struct 14 bytes_piezo_absolute MGMSG_PZMOT_REQ_PARAMS MGMSG_PZMOT_GET_PARAMS genericUSB
       0x07 (chan_val chan) (Some genericUSB) tmo"

definition tim_position_counter :: "motor_channel_idents \<Rightarrow> nat \<Rightarrow> (serial, pos_counter_params) prog" where
  "tim_position_counter chan tmo =
     request_response_struct 12 bytes_pos_counter MGMSG_PZMOT_REQ_PARAMS MGMSG_PZMOT_GET_PARAMS genericUSB
       0x05 (chan_val chan) (Some genericUSB) tmo"

text \<open>This one message names the USB address as its source.\<close>

definition tim_set_position_counter :: "motor_channel_idents \<Rightarrow> int \<Rightarrow> (serial, unit) prog" where
  "tim_set_position_counter chan pos =
     (let dat = pos_counter_bytes \<lparr>pos_subMsgID = 0x05, pos_chanIdent = ucast (chan_val chan),
            pos_position = word_of_int pos, encCount = 0\<rparr>
      in andthen (write_bytes (data_header MGMSG_PZMOT_SET_PARAMS (length dat) genericUSB genericUSB)) (\<lambda>_.
         write_bytes dat))"

text \<open>The old receive function. The opcode it received is an output even when it throws.\<close>

definition receive_message_sync ::
  "bsc203_opcodes \<Rightarrow> destination \<Rightarrow> bool \<Rightarrow> nat \<Rightarrow> serial \<Rightarrow> 16 word option \<times> apt_reply result \<times> serial" where
  "receive_message_sync op src check_opcode tmo s = (case receive_sync_common src tmo s of
     (Inl e, s') \<Rightarrow> (None, Inl e, s')
   | (Inr (r, code), s') \<Rightarrow>
       (Some code, if code \<noteq> opcode op \<and> check_opcode then Inl (Device_error ''received unexpected opcode'') else Inr r, s'))"

text \<open>The loop ends since every round takes a header off the line or throws something else than
  a device error.\<close>

lemma receive_takes_Device:
  assumes "receive_sync_common src tmo s = (Inl (Device_error msg), s')"
  shows "length (incoming s') < length (incoming s)"
proof -
  obtain q sA where q: "read_definite 6 tmo s = (q, sA)" by fastforce
  have "\<not> (q = Inl (Device_error msg))" for msg
    using q by (auto simp: read_definite_def run_for_def andthen_def Let_def split: if_splits list.splits option.splits)
  with q assms obtain h where h: "q = Inr h"
    by (cases q) (auto simp: receive_sync_common_def)
  with q have a: "length (incoming sA) + 6 = length (incoming s)"
    using read_definite_takes(2) by blast
  have fl: "length (incoming s'') \<le> length (incoming t)" if "flush t = (r, s'')" for t r s''
    using that by (auto simp: flush_def sys_call_def andthen_def modifies_def split: list.splits option.splits)
  have "length (incoming s') \<le> length (incoming sA)"
    using assms q h
    by (auto simp: receive_sync_common_def fail_flushed_def throws_def returns_def andthen_def
        split: if_splits sum.splits prod.splits dest: read_definite_takes(1) fl)
  with a show ?thesis by simp
qed

definition motor_status_in :: "apt_reply result \<Rightarrow> motor_status result" where
  "motor_status_in r = rbind r (\<lambda>r. case rdata r of
     None \<Rightarrow> Inl (Device_error (''expected struct data in response but didn'' @ [CHR 0x27] @ ''t get any!''))
   | Some bs \<Rightarrow> if length bs \<noteq> 56 then Inl (Logic_error ''mismatch between received data size and struct size!'')
       else Inr (bytes_motor_status bs))"

lemma receive_message_sync_takes:
  assumes "receive_message_sync op src chk tmo s = (code, r, s')" and "motor_status_in r = Inl (Device_error msg)"
  shows "length (incoming s') < length (incoming s)"
  using assms
  by (auto simp: receive_message_sync_def motor_status_in_def rbind_def split: sum.splits prod.splits
      dest: receive_takes receive_takes_Device)

function tim_status_loop :: "nat \<Rightarrow> 16 word \<Rightarrow> (serial, motor_status) prog" where
  "tim_status_loop tmo received s =
     (if received = opcode MGMSG_PZMOT_GET_STATUSUPDATE then (Inl (UB ''motor status that was never set''), s)
      else (case receive_message_sync MGMSG_PZMOT_GET_STATUSUPDATE genericUSB True tmo (s\<lparr>now_ms := now_ms s + 100\<rparr>) of
        (code, r, s') \<Rightarrow> (case motor_status_in r of
            Inr st \<Rightarrow> andthen (stop_update_messages genericUSB) (\<lambda>_. andthen (sleep_ms 100) (\<lambda>_.
              andthen flush (\<lambda>_. returns st))) s'
          | Inl (Device_error _) \<Rightarrow> tim_status_loop tmo (case code of None \<Rightarrow> received | Some c \<Rightarrow> c) s'
          | Inl e \<Rightarrow> (Inl e, s'))))"
  by pat_completeness auto

termination
  by (relation "measure (\<lambda>(_, _, s). length (incoming s))") (auto dest!: receive_message_sync_takes [OF sym])

declare tim_status_loop.simps [simp del]

definition tim_get_status_update :: "nat \<Rightarrow> (serial, motor_status) prog" where
  "tim_get_status_update tmo = andthen (start_update_messages genericUSB) (\<lambda>_. andthen flush (\<lambda>_.
     tim_status_loop tmo 0))"

text \<open>The cases of the switch fall through: the channels after the wanted one are compared too.\<close>

definition channels_from :: "motor_channel_idents \<Rightarrow> motor_status \<Rightarrow> channel_status list" where
  "channels_from chan st = (case chan of
     channel_1 \<Rightarrow> [channel1 st, channel2 st, channel3 st, channel4 st]
   | channel_2 \<Rightarrow> [channel2 st, channel3 st, channel4 st]
   | channel_3 \<Rightarrow> [channel3 st, channel4 st]
   | channel_4 \<Rightarrow> [channel4 st])"

definition tim_absolute_move :: "motor_channel_idents \<Rightarrow> int \<Rightarrow> nat \<Rightarrow> (serial, unit) oprog" where
  "tim_absolute_move chan distance tmo =
     othen (always (set_channelenable genericUSB chan True)) (\<lambda>_.
     othen (always (tim_get_status_update tmo)) (\<lambda>st.
     if list_ex (\<lambda>c. cs_position c = word_of_int distance) (channels_from chan st) then always (returns ())
     else oseq [always (transmit_data MGMSG_PZMOT_MOVE_ABSOLUTE
         (get_move_request_header_data (word_of_int distance) chan) genericUSB),
       always (start_update_messages genericUSB),
       wait_for_code MGMSG_PZMOT_MOVE_COMPLETED,
       always (stop_update_messages genericUSB),
       always (sleep_ms 200),
       always flush,
       always (andthen (tim_get_status_update tmo) (\<lambda>_. returns ()))]))"

datatype jogdir = Jog_forward | Jog_reverse

definition tim_jog_move :: "motor_channel_idents \<Rightarrow> jogdir \<Rightarrow> nat \<Rightarrow> (serial, unit) prog" where
  "tim_jog_move chan direction tmo =
     andthen (set_channelenable genericUSB chan True) (\<lambda>_.
     andthen (transmit_message MGMSG_PZMOT_MOVE_JOG (chan_val chan)
       (case direction of Jog_forward \<Rightarrow> 0x01 | Jog_reverse \<Rightarrow> 0x02) genericUSB) (\<lambda>_.
     andthen (sleep_ms 200) (\<lambda>_. andthen flush (\<lambda>_.
     andthen (tim_get_status_update tmo) (\<lambda>_. returns ())))))"

section \<open>What the stages do\<close>

lemma check_soft_limits_right:
  assumes "line_holds genericUSB [Data (opcode MGMSG_MOT_GET_LIMSWITCHPARAMS) (limit_bytes l)] out s" and "0 < d"
  shows "\<exists>s'. check_soft_limits False d tmo s = (Inr False, s') \<and>
    line_holds genericUSB [] (out @ short_message MGMSG_MOT_REQ_LIMSWITCHPARAMS 1 0 genericUSB) s'"
proof -
  obtain sA where A: "get_limitswitchparams genericUSB channel_1 tmo s = (Inr l, sA)"
    "line_holds genericUSB [] (out @ short_message MGMSG_MOT_REQ_LIMSWITCHPARAMS 1 0 genericUSB) sA"
    using request_on_line [OF assms(1), of genericUSB None 16 bytes_limit MGMSG_MOT_REQ_LIMSWITCHPARAMS
        MGMSG_MOT_GET_LIMSWITCHPARAMS 1 0 tmo]
    by (auto simp: get_limitswitchparams_def short_message_def)
  have "\<not> uint (CCWsoft l) \<le> - d" using assms(2) uint_ge_0 [of "CCWsoft l"] by linarith
  with A show ?thesis by (simp add: check_soft_limits_def returns_def)
qed

text \<open>
  Homing a M30X to the right. The soft limit is unsigned and is compared with a negative
  number, so the check fails for every limit that is set: the call returns as if it had homed, and
  all it has sent is the request for the limits.
\<close>

theorem right_homing_is_skipped:
  assumes "line_holds genericUSB [Data (opcode MGMSG_MOT_GET_LIMSWITCHPARAMS) (limit_bytes l)] out s"
  shows "\<exists>s'. safe_home_move tr False v tmo s = (Inr (), s') \<and>
    sent s' = out @ short_message MGMSG_MOT_REQ_LIMSWITCHPARAMS 1 0 genericUSB"
proof -
  obtain s' where "check_soft_limits False 170000 tmo s = (Inr False, s')"
    "line_holds genericUSB [] (out @ short_message MGMSG_MOT_REQ_LIMSWITCHPARAMS 1 0 genericUSB) s'"
    using check_soft_limits_right [OF assms, of 170000 tmo] by auto
  then show ?thesis by (simp add: safe_home_move_def returns_def line_holds_def good_with_def andthen_def)
qed

theorem right_homing_is_skipped_witness:
  "\<exists>s'. safe_home_move APTDeviceTraits False 223749 100
     (port_with (concat (map (frame_bytes genericUSB) [Data (opcode MGMSG_MOT_GET_LIMSWITCHPARAMS) (limit_bytes some_limit)]))) =
       (Inr (), s') \<and>
    sent s' = [] @ short_message MGMSG_MOT_REQ_LIMSWITCHPARAMS 1 0 genericUSB"
  by (rule right_homing_is_skipped [OF line_of_port]) simp

text \<open>
  A status of the TIM101 without data. The call catches its own complaint that the data are
  missing, sees that the opcode is the wanted one and returns a status that was never set; the
  update messages stay on.
\<close>

theorem tim_status_without_data:
  assumes "line_holds genericUSB (Short (opcode MGMSG_PZMOT_GET_STATUSUPDATE) a b # fs) out s"
  shows "\<exists>s'. tim_status_loop tmo 0 s = (Inl (UB ''motor status that was never set''), s') \<and> sent s' = out"
proof -
  let ?s = "s\<lparr>now_ms := now_ms s + 100\<rparr>"
  have l: "line_holds genericUSB (Short (opcode MGMSG_PZMOT_GET_STATUSUPDATE) a b # fs) out ?s"
    using pause_good [of _ out s 100] assms by (fastforce simp: line_holds_def sleep_ms_def modifies_def)
  obtain sA where A: "receive_sync_common genericUSB tmo ?s =
      (Inr (\<lparr>p1 = a, p2 = b, rdata = None\<rparr>, opcode MGMSG_PZMOT_GET_STATUSUPDATE), sA)"
    "line_holds genericUSB fs out sA"
    using receive_frame [OF l, of tmo] by auto
  have set: "tim_status_loop tmo (opcode MGMSG_PZMOT_GET_STATUSUPDATE) sA = (Inl (UB ''motor status that was never set''), sA)"
    by (subst tim_status_loop.simps) simp
  have "tim_status_loop tmo 0 s = tim_status_loop tmo (opcode MGMSG_PZMOT_GET_STATUSUPDATE) sA"
    using A(1) by (simp add: tim_status_loop.simps [of tmo 0 s] receive_message_sync_def motor_status_in_def)
  then show ?thesis unfolding set using A(2) by (simp add: line_holds_def good_with_def)
qed

theorem tim_status_without_data_witness:
  "\<exists>s'. tim_status_loop 100 0 (port_with (concat (map (frame_bytes genericUSB)
      [Short (opcode MGMSG_PZMOT_GET_STATUSUPDATE) 1 0]))) = (Inl (UB ''motor status that was never set''), s') \<and> sent s' = []"
  by (rule tim_status_without_data [OF line_of_port]) simp

text \<open>
  An absolute move of the TIM101. The switch falls through, so the move is skipped as soon as
  the wanted channel or any channel behind it is at the target, wherever the wanted one is.
\<close>

theorem tim_move_is_skipped:
  assumes "set_channelenable genericUSB chan True s = (Inr (), sA)" and "tim_get_status_update tmo sA = (Inr st, sB)"
    and "cs_position (channel4 st) = word_of_int distance"
  shows "tim_absolute_move chan distance tmo s = Some (Inr (), sB)"
proof -
  have "list_ex (\<lambda>c. cs_position c = word_of_int distance) (channels_from chan st)"
    using assms(3) by (cases chan) (simp_all add: channels_from_def)
  with assms(1,2) show ?thesis by (simp add: tim_absolute_move_def othen_always always_def returns_def)
qed

lemma tim_status_answer:
  assumes "line_holds genericUSB [Data (opcode MGMSG_PZMOT_GET_STATUSUPDATE) bs] out (s\<lparr>now_ms := now_ms s + 100\<rparr>)"
    and "length bs = 56"
  shows "\<exists>s'. tim_status_loop tmo 0 s = (Inr (bytes_motor_status bs), s')"
proof -
  obtain sA where A: "receive_sync_common genericUSB tmo (s\<lparr>now_ms := now_ms s + 100\<rparr>) =
      (Inr (\<lparr>p1 = word_of_nat (length bs), p2 = 0, rdata = Some bs\<rparr>, opcode MGMSG_PZMOT_GET_STATUSUPDATE), sA)"
    "line_holds genericUSB [] out sA"
    using receive_frame [OF assms(1), of tmo] by auto
  obtain sB where B: "stop_update_messages genericUSB sA = (Inr (), sB)"
    "line_holds genericUSB [] (out @ short_message MGMSG_HW_STOP_UPDATEMSGS 0 0 genericUSB) sB"
    using transmit_good [OF A(2), of MGMSG_HW_STOP_UPDATEMSGS 0 0 genericUSB]
    by (auto simp: stop_update_messages_def short_message_def)
  from pause_good [of "[]" _ sB 100] B(2) obtain sC where C: "sleep_ms 100 sB = (Inr (), sC)"
    "line_holds genericUSB [] (out @ short_message MGMSG_HW_STOP_UPDATEMSGS 0 0 genericUSB) sC"
    by (auto simp: line_holds_def)
  obtain sD where "flush sC = (Inr (), sD)" by (rule flush_line [OF C(2)])
  with A(1) B(1) C(1) assms(2) show ?thesis
    by (simp add: tim_status_loop.simps [of tmo 0 s] receive_message_sync_def motor_status_in_def andthen_def returns_def)
qed

text \<open>A controller that answers at 150 ms: its first channel is at 0, its fourth at 70.\<close>

definition tim_status :: "byte list" where
  "tim_status = replicate 44 0 @ le32 70 @ replicate 8 0"

definition tim_port :: serial where
  "tim_port = quiet_port\<lparr>incoming := map (Pair 150) (data_frame (opcode MGMSG_PZMOT_GET_STATUSUPDATE) tim_status genericUSB)\<rparr>"

lemma tim_port_status:
  obtains sA sB where "set_channelenable genericUSB channel_1 True tim_port = (Inr (), sA)"
    "tim_get_status_update 100 sA = (Inr (bytes_motor_status tim_status), sB)"
proof -
  let ?inc = "map (Pair (150 :: nat)) (data_frame (opcode MGMSG_PZMOT_GET_STATUSUPDATE) tim_status genericUSB)"
  let ?m = "le16 (opcode MGMSG_MOD_SET_CHANENABLESTATE) @ [chan_val channel_1, 1, dest_val genericUSB, dest_val host]"
    and ?n = "le16 (opcode MGMSG_HW_START_UPDATEMSGS) @ [0x0A, 0, dest_val genericUSB, dest_val host]"
  let ?sA = "quiet_port\<lparr>incoming := ?inc, sent := ?m, now_ms := 50\<rparr>"
    and ?sB = "quiet_port\<lparr>incoming := ?inc, sent := ?m @ ?n, now_ms := 100\<rparr>"
  have no: "arrived 100 ?inc = []" by (simp add: arrived_def data_frame_def le16_def)
  have a: "set_channelenable genericUSB channel_1 True tim_port = (Inr (), ?sA)"
    by (simp add: set_channelenable_def transmit_message_def write_bytes_def sys_call_def andthen_def modifies_def
        sleep_ms_def tim_port_def quiet_port_def)
  have b: "andthen (start_update_messages genericUSB) (\<lambda>_. flush) ?sA = (Inr (), ?sB)"
    using no by (simp add: start_update_messages_def transmit_message_def write_bytes_def sys_call_def andthen_def
        modifies_def sleep_ms_def quiet_port_def flush_def)
  have "list_all (\<lambda>p. fst p \<le> 200) ?inc" by (simp add: list_all_iff)
  then have "port_good (?sB\<lparr>now_ms := now_ms ?sB + 100\<rparr>)" by (simp add: quiet_port_def port_good_def)
  then have "line_holds genericUSB [Data (opcode MGMSG_PZMOT_GET_STATUSUPDATE) tim_status] (?m @ ?n)
      (?sB\<lparr>now_ms := now_ms ?sB + 100\<rparr>)"
    by (simp add: line_holds_def good_with_def ready_is_incoming comp_def tim_status_def)
  from tim_status_answer [OF this, of 100] obtain sB where
    "tim_status_loop 100 0 ?sB = (Inr (bytes_motor_status tim_status), sB)" by (auto simp: tim_status_def)
  with b have "tim_get_status_update 100 ?sA = (Inr (bytes_motor_status tim_status), sB)"
    by (auto simp: tim_get_status_update_def andthen_def split: prod.splits sum.splits)
  with a that show thesis by blast
qed

lemma tim_status_positions:
  "cs_position (channel1 (bytes_motor_status tim_status)) = 0" "cs_position (channel4 (bytes_motor_status tim_status)) = 70"
  by code_simp+

theorem tim_move_is_skipped_witness:
  "\<exists>sA sB. tim_get_status_update 100 sA = (Inr (bytes_motor_status tim_status), sB) \<and>
    cs_position (channel1 (bytes_motor_status tim_status)) = 0 \<and>
    tim_absolute_move channel_1 70 100 tim_port = Some (Inr (), sB)"
proof -
  obtain sA sB where s: "set_channelenable genericUSB channel_1 True tim_port = (Inr (), sA)"
    "tim_get_status_update 100 sA = (Inr (bytes_motor_status tim_status), sB)"
    by (rule tim_port_status)
  have "tim_absolute_move channel_1 70 100 tim_port = Some (Inr (), sB)"
    by (rule tim_move_is_skipped [OF s]) (simp add: tim_status_positions)
  with s(2) tim_status_positions(1) show ?thesis by blast
qed

end
