(* ===== verification/BSC203.thy ===== *)
theory BSC203
  imports APT_Devices
begin

text \<open>
  The rack controller BSC203, devices/Thorlabs_APT/BSC203.cpp and BSC203.h.

  \<open>bsc_set_channelenable\<close> overrides the function of the base class and calls itself where it means
  to call that one: it never returns, so neither do the constructor and the moves.
  In \<open>bsc_get_status_update\<close> the loop declares its own reply and opcode, which hide the ones that
  the loop and the code behind it look at.
\<close>

section \<open>Structs\<close>

record move_relative_params =
  rel_chanIndent :: "16 word"
  rel_distance :: "32 word"

record position_counter =
  cnt_chanindent :: "16 word"
  cnt_position :: "32 word"

record jogparamsBSC =
  bjog_chanIndent :: "16 word"
  bjogMode :: "16 word"
  bjogStepSize :: "32 word"
  bjogMinVel :: "32 word"
  bjogAccn :: "32 word"
  bjogMaxVel :: "32 word"
  bjogStopMode :: "16 word"

record powerparams =
  pow_chanIndent :: "16 word"
  restFactor :: "16 word"
  moveFactor :: "16 word"

datatype channelID = Chan_1 | Chan_2 | Chan_3

fun channelID_val :: "channelID \<Rightarrow> byte" where
  "channelID_val Chan_1 = 0x01"
| "channelID_val Chan_2 = 0x02"
| "channelID_val Chan_3 = 0x03"

record PMDjoystickparams =
  pmd_chan_indent :: "16 word"
  lowMaxVel :: "32 word"
  highMaxVel :: "32 word"
  highLowAccn :: "32 word"
  highHighAccn :: "32 word"
  dirSense :: "16 word"

text \<open>Only the low byte of the channel is sent.\<close>

definition get_powerparams_data :: "powerparams \<Rightarrow> byte list" where
  "get_powerparams_data p = [ucast (pow_chanIndent p), 0] @ le16 (restFactor p) @ le16 (moveFactor p)"

definition get_homeparams_data :: "homeparams \<Rightarrow> byte list" where
  "get_homeparams_data h = [ucast (hp_chan_ident h), 0] @ le16 (homeDir h) @ le16 (limitSwitch h) @
     le32 (homeVelocity h) @ le32 (offsetDistance h)"

definition get_jog_set_request_data :: "jogparamsBSC \<Rightarrow> byte list" where
  "get_jog_set_request_data j = [ucast (bjog_chanIndent j), 0] @ le16 (bjogMode j) @ le32 (bjogStepSize j) @
     le32 (bjogMinVel j) @ le32 (bjogAccn j) @ le32 (bjogMaxVel j) @ le16 (bjogStopMode j)"

definition get_limitswitch_params :: "limitswitchparams \<Rightarrow> byte list" where
  "get_limitswitch_params l = [ucast (ls_chan_ident l), 0] @ le16 (CWhard l) @ le16 (CCWhard l) @
     le32 (CWsoft l) @ le32 (CCWsoft l) @ le16 (limitMode l)"

definition get_PMDjoystick_params :: "PMDjoystickparams \<Rightarrow> byte list" where
  "get_PMDjoystick_params p = [ucast (pmd_chan_indent p), 0] @ le32 (lowMaxVel p) @ le32 (highMaxVel p) @
     le32 (highLowAccn p) @ le32 (highHighAccn p) @ le16 (dirSense p)"

definition bytes_jogBSC :: "byte list \<Rightarrow> jogparamsBSC" where
  "bytes_jogBSC bs = \<lparr>bjog_chanIndent = of16 bs, bjogMode = of16 (drop 2 bs), bjogStepSize = of32 (drop 4 bs),
     bjogMinVel = of32 (drop 8 bs), bjogAccn = of32 (drop 12 bs), bjogMaxVel = of32 (drop 16 bs),
     bjogStopMode = of16 (drop 20 bs)\<rparr>"

definition bytes_relative :: "byte list \<Rightarrow> move_relative_params" where
  "bytes_relative bs = \<lparr>rel_chanIndent = of16 bs, rel_distance = of32 (drop 2 bs)\<rparr>"

definition bytes_counter :: "byte list \<Rightarrow> position_counter" where
  "bytes_counter bs = \<lparr>cnt_chanindent = of16 bs, cnt_position = of32 (drop 2 bs)\<rparr>"

definition bytes_power :: "byte list \<Rightarrow> powerparams" where
  "bytes_power bs = \<lparr>pow_chanIndent = of16 bs, restFactor = of16 (drop 2 bs), moveFactor = of16 (drop 4 bs)\<rparr>"

section \<open>Setters and getters\<close>

definition bsc_identify_module :: "destination \<Rightarrow> channelID \<Rightarrow> (serial, unit) prog" where
  "bsc_identify_module rackdest idchan = transmit_message MGMSG_MOD_IDENTIFY (channelID_val idchan) 0 rackdest"

definition require_digoutputs :: "destination \<Rightarrow> (serial, unit) prog" where
  "require_digoutputs dest = transmit_message MGMSG_MOD_REQ_DIGOUTPUTS 0x01 0 dest"

definition require_status_update :: "destination \<Rightarrow> (serial, unit) prog" where
  "require_status_update dest = transmit_message MGMSG_MOT_REQ_STATUSUPDATE 0x01 0 dest"

definition set_limit_switch_params :: "destination \<Rightarrow> limitswitchparams \<Rightarrow> (serial, unit) prog" where
  "set_limit_switch_params dest l = transmit_data MGMSG_MOT_SET_LIMSWITCHPARAMS (get_limitswitch_params l) dest"

definition get_bayused_rack :: "destination \<Rightarrow> byte \<Rightarrow> nat \<Rightarrow> (serial, bool) prog" where
  "get_bayused_rack dest bay tmo = andthen (transmit_message MGMSG_RACK_REQ_BAYUSED bay 0 dest) (\<lambda>_.
     andthen (receive_message_sync_check MGMSG_RACK_GET_BAYUSED dest tmo True) (\<lambda>ret.
     if p1 ret \<noteq> bay then throws (Device_error ''invalid bay returned...'')
     else returns (p2 ret \<noteq> 0x02)))"

definition set_number :: "bsc203_opcodes \<Rightarrow> destination \<Rightarrow> motor_channel_idents \<Rightarrow> int \<Rightarrow> (serial, unit) prog" where
  "set_number op dest chan n = transmit_data op (get_move_request_header_data (word_of_int n) chan) dest"

definition set_bowindex :: "destination \<Rightarrow> motor_channel_idents \<Rightarrow> int \<Rightarrow> (serial, unit) prog" where
  "set_bowindex = set_number MGMSG_MOT_SET_BOWINDEX"

definition set_relative_move_params :: "destination \<Rightarrow> motor_channel_idents \<Rightarrow> int \<Rightarrow> (serial, unit) prog" where
  "set_relative_move_params = set_number MGMSG_MOT_SET_MOVERELPARAMS"

definition set_absolute_move_params :: "destination \<Rightarrow> motor_channel_idents \<Rightarrow> int \<Rightarrow> (serial, unit) prog" where
  "set_absolute_move_params = set_number MGMSG_MOT_SET_MOVEABSPARAMS"

definition set_generalmove_params :: "destination \<Rightarrow> motor_channel_idents \<Rightarrow> int \<Rightarrow> (serial, unit) prog" where
  "set_generalmove_params = set_number MGMSG_MOT_SET_GENMOVEPARAMS"

definition set_PMD_params :: "destination \<Rightarrow> PMDjoystickparams \<Rightarrow> (serial, unit) prog" where
  "set_PMD_params dest p = transmit_data MGMSG_MOT_SET_PMDJOYSTICKPARAMS (get_PMDjoystick_params p) dest"

definition set_jog_params :: "destination \<Rightarrow> jogparamsBSC \<Rightarrow> (serial, unit) prog" where
  "set_jog_params dest j = transmit_data MGMSG_MOT_SET_JOGPARAMS (get_jog_set_request_data j) dest"

definition get_jog_params :: "destination \<Rightarrow> nat \<Rightarrow> (serial, jogparamsBSC) prog" where
  "get_jog_params dest tmo = request_response_struct 22 bytes_jogBSC MGMSG_MOT_REQ_JOGPARAMS
     MGMSG_MOT_GET_JOGPARAMS dest 0x01 0 None tmo"

definition get_relative_move_params :: "destination \<Rightarrow> nat \<Rightarrow> (serial, move_relative_params) prog" where
  "get_relative_move_params dest tmo = request_response_struct 6 bytes_relative MGMSG_MOT_REQ_MOVERELPARAMS
     MGMSG_MOT_GET_MOVERELPARAMS dest 0x01 0 None tmo"

definition bsc_get_poscounter :: "destination \<Rightarrow> nat \<Rightarrow> (serial, 32 word) prog" where
  "bsc_get_poscounter dest tmo =
     andthen (start_update_messages dest) (\<lambda>_. andthen (sleep_ms 100) (\<lambda>_.
     andthen (stop_update_messages dest) (\<lambda>_. andthen (sleep_ms 200) (\<lambda>_. andthen flush (\<lambda>_.
     andthen (request_response_struct 6 bytes_counter MGMSG_MOT_REQ_POSCOUNTER MGMSG_MOT_GET_POSCOUNTER
       dest 0x01 0 None tmo) (\<lambda>c. returns (cnt_position c)))))))"

definition get_enccounter :: "destination \<Rightarrow> nat \<Rightarrow> (serial, 32 word) prog" where
  "get_enccounter dest tmo = andthen (request_response_struct 6 bytes_counter MGMSG_MOT_REQ_ENCCOUNTER
     MGMSG_MOT_GET_ENCCOUNTER dest 0x01 0 None tmo) (\<lambda>c. returns (cnt_position c))"

definition bsc_set_homeparams :: "destination \<Rightarrow> homeparams \<Rightarrow> (serial, unit) prog" where
  "bsc_set_homeparams dest h = transmit_data MGMSG_MOT_SET_HOMEPARAMS (get_homeparams_data h) dest"

definition bsc_get_homeparams :: "destination \<Rightarrow> nat \<Rightarrow> (serial, homeparams) prog" where
  "bsc_get_homeparams dest tmo = request_response_struct 14 bytes_home MGMSG_MOT_REQ_HOMEPARAMS
     MGMSG_MOT_GET_HOMEPARAMS dest 0x01 0 None tmo"

definition set_power_parameters :: "destination \<Rightarrow> powerparams \<Rightarrow> (serial, unit) prog" where
  "set_power_parameters dest p = transmit_data MGMSG_MOT_SET_POWERPARAMS (get_powerparams_data p) dest"

definition get_power_parameters :: "destination \<Rightarrow> nat \<Rightarrow> (serial, powerparams) prog" where
  "get_power_parameters dest tmo = request_response_struct 6 bytes_power MGMSG_MOT_REQ_POWERPARAMS
     MGMSG_MOT_GET_POWERPARAMS dest 0x01 0 None tmo"

definition get_generalmove_params :: "destination \<Rightarrow> nat \<Rightarrow> (serial, 32 word) prog" where
  "get_generalmove_params dest tmo = andthen (request_response_struct 6 bytes_counter MGMSG_MOT_REQ_GENMOVEPARAMS
     MGMSG_MOT_GET_GENMOVEPARAMS dest 0x01 0 None tmo) (\<lambda>c. returns (cnt_position c))"

section \<open>The status\<close>

function bsc_status_retries :: "nat \<Rightarrow> destination \<Rightarrow> nat \<Rightarrow> (serial, unit) prog" where
  "bsc_status_retries retries dest tmo = andthen (receive_message_of dest tmo) (\<lambda>_.
     if retries > 10 then throws (Device_error ''did 10 retries and no motor status update message!'')
     else bsc_status_retries (retries + 1) dest tmo)"
  by pat_completeness auto

termination
  by (relation "measure (\<lambda>(retries, _, _). 11 - retries)") auto

declare bsc_status_retries.simps [simp del]

definition bsc_get_status_update :: "destination \<Rightarrow> nat \<Rightarrow> (serial, channel_status) prog" where
  "bsc_get_status_update dest tmo = andthen (start_update_messages dest) (\<lambda>_. leave_scope dest
     (andthen (receive_message_of dest tmo) (\<lambda>(ret, recv_opcode).
      andthen (if recv_opcode = opcode MGMSG_MOT_GET_STATUSUPDATE then returns ()
        else bsc_status_retries 0 dest tmo) (\<lambda>_. case rdata ret of
          None \<Rightarrow> throws (Device_error ''expected data array but none returned!'')
        | Some bs \<Rightarrow> if length bs = 14 then returns (bytes_channel_status bs)
            else throws (UB ''status of a wrong size'')))))"

section \<open>Moves\<close>

partial_function (option) bsc_set_channelenable :: "destination \<Rightarrow> motor_channel_idents \<Rightarrow> bool \<Rightarrow> (serial, unit) oprog" where
  "bsc_set_channelenable dest chan onoff s =
     Option.bind (bsc_set_channelenable dest chan onoff s) (\<lambda>(r, s'). case r of
       Inl e \<Rightarrow> Some (Inl e, s')
     | Inr _ \<Rightarrow> Some (transmit_message MGMSG_MOT_REQ_STATUSUPDATE 0x01 0 dest s'))"

text \<open>What every move does once it is started.\<close>

definition wait_for_end :: "bsc203_opcodes \<Rightarrow> destination \<Rightarrow> nat \<Rightarrow> (serial, unit) oprog" where
  "wait_for_end op dest pause = oseq [always (start_update_messages dest), wait_for_code op,
     always (stop_update_messages dest), always (sleep_ms pause), always flush]"

definition show_status :: "destination \<Rightarrow> nat \<Rightarrow> (serial, unit) oprog" where
  "show_status dest tmo = always (andthen (bsc_get_status_update dest tmo) (\<lambda>_. returns ()))"

definition bsc_relative_move :: "destination \<Rightarrow> motor_channel_idents \<Rightarrow> int \<Rightarrow> nat \<Rightarrow> (serial, unit) oprog" where
  "bsc_relative_move dest chan distance tmo = oseq [bsc_set_channelenable dest channel_1 True,
     always (set_number MGMSG_MOT_MOVE_RELATIVE dest chan distance),
     wait_for_end MGMSG_MOT_MOVE_COMPLETED dest 200, show_status dest tmo]"

definition bsc_absolute_move :: "destination \<Rightarrow> motor_channel_idents \<Rightarrow> 32 word \<Rightarrow> nat \<Rightarrow> (serial, unit) oprog" where
  "bsc_absolute_move dest chan distance tmo =
     othen (bsc_set_channelenable dest channel_1 True) (\<lambda>_.
     othen (always (bsc_get_status_update dest tmo)) (\<lambda>motorinit.
     if cs_position motorinit = distance then always (returns ())
     else oseq [always (transmit_data MGMSG_MOT_MOVE_ABSOLUTE (get_move_request_header_data distance chan) dest),
       wait_for_end MGMSG_MOT_MOVE_COMPLETED dest 200, show_status dest tmo]))"

definition bsc_jog_move :: "destination \<Rightarrow> motor_channel_idents \<Rightarrow> byte \<Rightarrow> nat \<Rightarrow> (serial, unit) oprog" where
  "bsc_jog_move dest chan direction tmo = oseq [bsc_set_channelenable dest channel_1 True,
     always (transmit_message MGMSG_MOT_MOVE_JOG (chan_val chan) direction dest),
     wait_for_end MGMSG_MOT_MOVE_COMPLETED dest 200, show_status dest tmo]"

definition homing_channel :: "destination \<Rightarrow> motor_channel_idents \<Rightarrow> (serial, unit) oprog" where
  "homing_channel dest chan = oseq [always (transmit_message MGMSG_MOT_MOVE_HOME (chan_val chan) 0 dest),
     wait_for_end MGMSG_MOT_MOVE_HOMED dest 100]"

definition bsc_set_poscounter :: "destination \<Rightarrow> motor_channel_idents \<Rightarrow> int \<Rightarrow> (serial, unit) oprog" where
  "bsc_set_poscounter dest chan pos = oseq [bsc_set_channelenable dest channel_1 True,
     always (set_number MGMSG_MOT_SET_POSCOUNTER dest chan pos)]"

definition set_enccounter :: "destination \<Rightarrow> motor_channel_idents \<Rightarrow> int \<Rightarrow> (serial, unit) oprog" where
  "set_enccounter dest chan enccount = oseq [bsc_set_channelenable dest channel_1 True,
     always (set_number MGMSG_MOT_SET_ENCCOUNTER dest chan enccount)]"

section \<open>Construction\<close>

definition open_bay :: "byte \<Rightarrow> destination \<Rightarrow> nat \<Rightarrow> (serial, unit) prog" where
  "open_bay i bay tmo = andthen (get_bayused_rack rack i tmo) (\<lambda>used.
     if used then transmit_message MGMSG_HW_NO_FLASH_PROGRAMMING 0 0 bay else returns ())"

definition prepare_bay :: "destination \<Rightarrow> (serial, unit) oprog" where
  "prepare_bay bay = oseq [bsc_set_channelenable bay channel_1 False,
     always (set_velocity_params bay \<lparr>vp_chan_ident = 0x01, minvel = 0, acceleration = 4506, maxvel = 21987328\<rparr>),
     always (set_generalmove_params bay channel_1 0x1000),
     always (set_power_parameters bay \<lparr>pow_chanIndent = 0x01, restFactor = 0, moveFactor = 0x1000\<rparr>),
     always (bsc_set_homeparams bay \<lparr>hp_chan_ident = 0x01, homeDir = 0x02, limitSwitch = 0x01,
       homeVelocity = 0x014F8B59, offsetDistance = 0x0A000\<rparr>),
     always (set_bowindex bay channel_1 0),
     always (set_limit_switch_params bay \<lparr>ls_chan_ident = 0x01, CWhard = 0x03, CCWhard = 0x03,
       CWsoft = 0x12c000, CCWsoft = 0x064000, limitMode = 0x01\<rparr>),
     always (set_jog_params bay \<lparr>bjog_chanIndent = 0x01, bjogMode = 0x02, bjogStepSize = 0x032000, bjogMinVel = 0,
       bjogAccn = 0x08cd, bjogMaxVel = 0x014f8b59, bjogStopMode = 0x02\<rparr>),
     always (set_relative_move_params bay channel_1 0xA000),
     always (set_absolute_move_params bay channel_1 0),
     always (set_PMD_params bay \<lparr>pmd_chan_indent = 0x01, lowMaxVel = 0x029f16b1, highMaxVel = 0x0d1b7176,
       highLowAccn = 0x2334, highHighAccn = 0xb005, dirSense = 0x01\<rparr>),
     always (require_status_update bay)]"

definition BSC203_init :: "nat \<Rightarrow> (serial, unit) oprog" where
  "BSC203_init tmo = oseq [always APT_init,
     always (andthen (get_hwinfo rack None tmo) (\<lambda>_. returns ())),
     always (open_bay 0 bay1 tmo), always (open_bay 1 bay2 tmo), always (open_bay 2 bay3 tmo),
     always (require_digoutputs rack),
     always (require_status_update rack), always (require_status_update bay1),
     always (require_status_update bay2), always (require_status_update bay3),
     always (transmit_message MGMSG_MOD_STOP_UPDATEMSGS 0 0 rack),
     always (transmit_message MGMSG_MOD_STOP_UPDATEMSGS 0 0 bay1),
     always (transmit_message MGMSG_MOD_STOP_UPDATEMSGS 0 0 bay2),
     always (transmit_message MGMSG_MOD_STOP_UPDATEMSGS 0 0 bay3),
     prepare_bay bay1, prepare_bay bay2, prepare_bay bay3,
     always (sleep_ms 200), always flush]"

section \<open>What the BSC203 cannot do\<close>

lemma set_channelenable_None: "bsc_set_channelenable dest chan onoff s = None"
proof -
  have "bsc_set_channelenable dest chan onoff s = Some y \<Longrightarrow> False" for y
    by (erule bsc_set_channelenable.raw_induct [where P = "\<lambda>_ _ _ _ _. False", rotated])
      (auto simp: Option.bind_eq_Some_conv)
  then show ?thesis by (cases "bsc_set_channelenable dest chan onoff s") auto
qed

lemma never_head: "never_returns m \<Longrightarrow> never_returns (oseq (m # ms))"
  by (simp add: never_first)

lemma never_channelenable [never_intros]: "never_returns (bsc_set_channelenable dest chan onoff)"
  by (simp add: never_returns_def set_channelenable_None)

lemma never_prepare: "never_returns (prepare_bay bay)"
  unfolding prepare_bay_def by (rule never_head) (rule never_channelenable)

text \<open>
  The BSC203 never comes up. Switching a channel on or off does not return on any input, so
  the constructor cannot return normally: it throws before it gets there or runs for ever. The
  same holds of the relative, absolute and jog moves and of the two counters.
\<close>

theorem bsc203_never_comes_up:
  "bsc_set_channelenable dest chan onoff s = None \<and> never_returns (BSC203_init tmo) \<and>
   never_returns (bsc_relative_move dest chan d tmo) \<and> never_returns (bsc_absolute_move dest chan w tmo) \<and>
   never_returns (bsc_jog_move dest chan b tmo) \<and> never_returns (bsc_set_poscounter dest chan d) \<and>
   never_returns (set_enccounter dest chan d)"
proof (intro conjI set_channelenable_None)
  show "never_returns (BSC203_init tmo)"
    unfolding BSC203_init_def by (rule never_oseq [OF never_prepare [of bay1]]) simp
  show "never_returns (bsc_absolute_move dest chan w tmo)"
    unfolding bsc_absolute_move_def by (rule never_first [OF never_channelenable])
qed (auto simp: bsc_relative_move_def bsc_jog_move_def bsc_set_poscounter_def set_enccounter_def
    intro: never_head never_channelenable simp del: oseq.simps)

lemma retries_never_end: "fst (bsc_status_retries k dest tmo s) \<noteq> Inr ()"
proof (induction k dest tmo arbitrary: s rule: bsc_status_retries.induct)
  case (1 k dest tmo)
  then show ?case
    by (auto simp: bsc_status_retries.simps [of k dest tmo] andthen_def throws_def split: prod.split sum.split)
qed

text \<open>
  The status of a BSC203. A status is returned only if the very first message is a status
  update: after any other message the call takes up to twelve more and throws, even when
  one of them is the status update.
\<close>

theorem bsc_status_must_come_first:
  assumes "line_holds dest (f # fs) out s" and "frame_code f \<noteq> opcode MGMSG_MOT_GET_STATUSUPDATE"
  shows "\<exists>e. fst (bsc_get_status_update dest tmo s) = Inl e"
proof -
  obtain sA where A: "start_update_messages dest s = (Inr (), sA)"
    "line_holds dest (f # fs) (out @ le16 (opcode MGMSG_HW_START_UPDATEMSGS) @ [0x0A, 0, dest_val dest, dest_val host]) sA"
    unfolding start_update_messages_def by (rule transmit_good [OF assms(1)])
  obtain sB where B: "receive_sync_common dest tmo sA = (Inr (frame_reply f, frame_code f), sB)"
    by (rule receive_frame [OF A(2)])
  obtain e sC where C: "bsc_status_retries 0 dest tmo sB = (Inl e, sC)"
    using retries_never_end [of 0 dest tmo sB] by (cases "bsc_status_retries 0 dest tmo sB", cases "fst (bsc_status_retries 0 dest tmo sB)") auto
  have "fst (bsc_get_status_update dest tmo s) = fst (leave_scope dest (\<lambda>_. (Inl e, sC)) sA)"
    using A(1) B C assms(2)
    by (simp add: bsc_get_status_update_def receive_message_of_def andthen_def leave_scope_def)
  then show ?thesis by (auto simp: leave_scope_def split: sum.splits prod.splits)
qed

theorem bsc_status_must_come_first_witness:
  "\<exists>e. fst (bsc_get_status_update bay1 100
     (port_with (concat (map (frame_bytes bay1) [Short 0x0464 1 0, status_frame 0x10])))) = Inl e"
  by (rule bsc_status_must_come_first [OF line_of_port]) (simp_all add: status_frame_def)

end
