(* ===== verification/Simple_TCP.thy ===== *)
theory Simple_TCP
  imports Serial_Port Partial_Calls
begin

text \<open>
  A TCP connection to an instrument: protocols/src/simpleTCP.cpp.

  The socket and the instrument behind it are part of the state. \<open>t_react\<close> is what the instrument
  does with the bytes that are written to it, \<open>t_peer\<close> its own state: it answers with arrivals, each
  with a delay in microseconds. \<open>t_queue\<close> are the arrivals that were not read yet, with the time of
  each, in the order of the stream. \<open>::read\<close> waits for the first one and then takes all that has
  arrived, up to the wanted length, as TCP does; without any it never returns. A connection that
  the instrument has closed reads as nothing, for ever.
\<close>

section \<open>The socket\<close>

datatype arrival = Bytes string | Hangup | Read_error string

text \<open>What the system calls of \<open>Init\<close> return.\<close>

record tcp_os =
  os_socket :: int
  os_setsockopt :: int
  os_getaddrinfo :: int
  os_connect :: int
  os_write :: int
  os_ioctl :: int

record 'd tcp =
  t_params :: parameterset
  t_port :: int
  t_addr :: string
  t_sockfd :: int
  t_chunk_size :: nat
  t_os :: tcp_os
  t_now :: nat
  t_peer :: 'd
  t_react :: "'d \<Rightarrow> string \<Rightarrow> 'd \<times> (nat \<times> arrival) list"
  t_queue :: "(nat \<times> arrival) list"

text \<open>The bytes that \<open>::read\<close> takes at the time \<open>now\<close>, and what stays behind.\<close>

fun grab :: "nat \<Rightarrow> nat \<Rightarrow> (nat \<times> arrival) list \<Rightarrow> string \<times> (nat \<times> arrival) list" where
  "grab now len [] = ([], [])"
| "grab now len ((t, a) # q) = (case a of
     Bytes s \<Rightarrow>
       if now < t then ([], (t, a) # q)
       else if len < length s then (take len s, (t, Bytes (drop len s)) # q)
       else (case grab now (len - length s) q of (got, q') \<Rightarrow> (s @ got, q'))
   | _ \<Rightarrow> ([], (t, a) # q))"

definition sys_read :: "nat \<Rightarrow> ('d tcp, string) oprog" where
  "sys_read len s = (case t_queue s of
     [] \<Rightarrow> None
   | (t, a) # q \<Rightarrow> (let s' = s\<lparr>t_now := max (t_now s) t\<rparr> in case a of
       Hangup \<Rightarrow> Some (Inr [], s')
     | Read_error msg \<Rightarrow> Some (Inl (Protocol_error (''error reading from socket: '' @ msg)), s'\<lparr>t_queue := q\<rparr>)
     | Bytes _ \<Rightarrow> (case grab (t_now s') len (t_queue s) of
         (got, q') \<Rightarrow> Some (Inr got, s'\<lparr>t_queue := q'\<rparr>))))"

fun arrived :: "nat \<Rightarrow> (nat \<times> arrival) list \<Rightarrow> nat" where
  "arrived now [] = 0"
| "arrived now ((t, a) # q) = (case a of
     Bytes s \<Rightarrow> if now < t then 0 else length s + arrived now q | _ \<Rightarrow> 0)"

section \<open>The operations\<close>

text \<open>The check of the socket is for a number below \<open>-1\<close>. When the host is not found, the pointer that
  is released was never set.\<close>

definition tcp_Init :: "parameterset option \<Rightarrow> ('d tcp, unit) prog" where
  "tcp_Init class_parameters =
     andthen (modifies (\<lambda>s. s\<lparr>t_params := merge_parameters (t_params s) class_parameters\<rparr>)) (\<lambda>_.
     andthen (gets t_params) (\<lambda>ps.
     andthen (lifts (extract_parameter_value get_int ''i'' ps ''port'' True)) (\<lambda>port.
     andthen (modifies (\<lambda>s. s\<lparr>t_port := (case port of None \<Rightarrow> t_port s | Some p \<Rightarrow> p)\<rparr>)) (\<lambda>_.
     andthen (lifts (extract_parameter_value get_string ''string'' ps ''addr'' True)) (\<lambda>addr.
     andthen (modifies (\<lambda>s. s\<lparr>t_addr := (case addr of None \<Rightarrow> t_addr s | Some a \<Rightarrow> a)\<rparr>)) (\<lambda>_.
     andthen (modifies (\<lambda>s. s\<lparr>t_sockfd := os_socket (t_os s)\<rparr>)) (\<lambda>_.
     andthen (gets t_os) (\<lambda>os.
     andthen (throw_unless (\<not> os_socket os < -1) (Protocol_error (''couldn'' @ [CHR 0x27] @ ''t open socket file descriptor. Error was:''))) (\<lambda>_.
     andthen (throw_unless (\<not> os_setsockopt os < 0) (Protocol_error ''error setting linger: '')) (\<lambda>_.
     andthen (throw_unless (\<not> os_getaddrinfo os < 0) (UB ''freeaddrinfo of a pointer that was never set'')) (\<lambda>_.
     throw_unless (\<not> os_connect os < 0) (Protocol_error (''couldn'' @ [CHR 0x27] @ ''t connect to host. Error was: '')))))))))))))"

text \<open>The result has the wanted length whatever was read, with zero bytes at the end.\<close>

definition tcp_read :: "nat \<Rightarrow> ('d tcp, string \<times> nat) oprog" where
  "tcp_read len = othen (sys_read len) (\<lambda>got.
     always (returns (got @ replicate (len - length got) (CHR 0x00), length got)))"

definition tcp_write :: "string \<Rightarrow> ('d tcp, unit) prog" where
  "tcp_write data s = (if os_write (t_os s) < 0 then (Inl (Protocol_error ''error writing to socket: ''), s)
     else (case t_react s (t_peer s) data of
       (d, arrivals) \<Rightarrow> (Inr (), s\<lparr>t_peer := d, t_queue := t_queue s @ map (\<lambda>(dt, a). (t_now s + dt, a)) arrivals\<rparr>)))"

partial_function (option) tcp_gather :: "char \<Rightarrow> string \<Rightarrow> ('d tcp, string) oprog" where
  "tcp_gather endlchar ret s =
     (if endlchar \<in> set ret then Some (Inr ret, s)
      else Option.bind (tcp_read (t_chunk_size s) s) (\<lambda>(r, s'). case r of
        Inl e \<Rightarrow> Some (Inl e, s') | Inr (got, _) \<Rightarrow> tcp_gather endlchar (ret @ got) s'))"

definition tcp_read_until_endl :: "char \<Rightarrow> ('d tcp, string) oprog" where
  "tcp_read_until_endl endlchar s = othen (tcp_read (t_chunk_size s)) (\<lambda>(got, _). tcp_gather endlchar got) s"

definition tcp_bytes_available :: "('d tcp, nat) prog" where
  "tcp_bytes_available s = (if os_ioctl (t_os s) < 0 then (Inl (Protocol_error (''couldn'' @ [CHR 0x27] @ ''t check bytes available:'')), s)
     else (Inr (arrived (t_now s) (t_queue s)), s))"

definition tcp_sleep :: "nat \<Rightarrow> ('d tcp, unit) prog" where
  "tcp_sleep us = modifies (\<lambda>s. s\<lparr>t_now := t_now s + us\<rparr>)"

definition setchunk_size :: "nat \<Rightarrow> ('d tcp, unit) prog" where
  "setchunk_size n = modifies (\<lambda>s. s\<lparr>t_chunk_size := n\<rparr>)"

section \<open>Lemmas\<close>

lemma length_tcp_read: "tcp_read len s = Some (Inr (got, n), s') \<Longrightarrow> n \<le> len \<Longrightarrow> length got = len"
  by (auto simp: tcp_read_def othen_eq_return always_def returns_def)

text \<open>A line that arrives in one piece is read whole, in as many chunks as it takes, with zero bytes
  behind it.\<close>

lemma tcp_read_bytes:
  assumes "t_queue s = [(t, Bytes l)]" "t \<le> t_now s"
  shows "tcp_read len s = Some (Inr (take len l @ replicate (len - length l) (CHR 0x00), min len (length l)),
    s\<lparr>t_queue := (if len < length l then [(t, Bytes (drop len l))] else [])\<rparr>)"
  using assms by (simp add: tcp_read_def sys_read_def othen_def always_def returns_def max_def Let_def min_def)

lemma gather_line:
  assumes "t_queue s = [(t, Bytes (b @ [c]))]" "t \<le> t_now s" "c \<notin> set b" "c \<notin> set ret" "0 < t_chunk_size s" "c \<noteq> CHR 0x00"
  shows "\<exists>k. tcp_gather c ret s = Some (Inr (ret @ b @ [c] @ replicate k (CHR 0x00)), s\<lparr>t_queue := []\<rparr>)"
  using assms
proof (induction "length b" arbitrary: b ret s rule: less_induct)
  case less
  let ?n = "t_chunk_size s"
  show ?case
  proof (cases "?n < length (b @ [c])")
    case True
    then have parts: "take ?n (b @ [c]) = take ?n b" "drop ?n (b @ [c]) = drop ?n b @ [c]" by auto
    have shorter: "length (drop ?n b) < length b" using True less.prems(5) by simp
    have "tcp_gather c ret s = tcp_gather c (ret @ take ?n b) (s\<lparr>t_queue := [(t, Bytes (drop ?n b @ [c]))]\<rparr>)"
      using less.prems tcp_read_bytes [OF less.prems(1,2), of ?n] True parts
      by (subst tcp_gather.simps) simp
    moreover note less.hyps [OF shorter, of "s\<lparr>t_queue := [(t, Bytes (drop ?n b @ [c]))]\<rparr>" "ret @ take ?n b"]
    moreover
    have "c \<notin> set (take ?n b)" "c \<notin> set (drop ?n b)" "\<And>r. take ?n b @ drop ?n b @ r = b @ r"
      using less.prems(3) by (auto dest: in_set_takeD in_set_dropD)
    ultimately show ?thesis using less.prems by simp
  next
    case False
    then have "tcp_gather c ret s = tcp_gather c (ret @ b @ [c] @ replicate (?n - Suc (length b)) (CHR 0x00)) (s\<lparr>t_queue := []\<rparr>)"
      using less.prems tcp_read_bytes [OF less.prems(1,2), of ?n]
      by (subst tcp_gather.simps) simp
    also have "\<dots> = Some (Inr (ret @ b @ [c] @ replicate (?n - Suc (length b)) (CHR 0x00)), s\<lparr>t_queue := []\<rparr>)"
      by (simp add: tcp_gather.simps)
    finally show ?thesis by blast
  qed
qed

lemma gather_from_empty:
  assumes "c \<noteq> CHR 0x00"
  shows "tcp_gather c [] s = tcp_read_until_endl c s"
  by (simp add: tcp_gather.simps [of c "[]"] tcp_read_until_endl_def othen_def Option.bind_def case_prod_unfold
      split: option.split sum.split)

lemma read_until_endl_waits:
  assumes "t_queue s = (t, Bytes l) # q"
  shows "tcp_read_until_endl c s = tcp_read_until_endl c (s\<lparr>t_now := max (t_now s) t\<rparr>)"
  using assms by (simp add: tcp_read_until_endl_def tcp_read_def othen_def sys_read_def Let_def)

lemma read_line:
  assumes "t_queue s = [(t, Bytes (b @ [c]))]" "c \<notin> set b" "0 < t_chunk_size s" "c \<noteq> CHR 0x00"
  shows "\<exists>k. tcp_read_until_endl c s =
    Some (Inr (b @ [c] @ replicate k (CHR 0x00)), s\<lparr>t_now := max (t_now s) t, t_queue := []\<rparr>)"
  using gather_line [of "s\<lparr>t_now := max (t_now s) t\<rparr>" t b c "[]"] assms
    read_until_endl_waits [OF assms(1), of c] gather_from_empty [OF assms(4), of "s\<lparr>t_now := max (t_now s) t\<rparr>"]
  by simp

lemma sys_read_hangup:
  "t_queue s = (t, Hangup) # q \<Longrightarrow> sys_read len s = Some (Inr [], s\<lparr>t_now := max (t_now s) t\<rparr>)"
  by (simp add: sys_read_def Let_def)

lemma gather_step_hangup:
  assumes "t_queue s = (t, Hangup) # q" "endlchar \<notin> set ret"
  shows "tcp_read (t_chunk_size s) s = Some (Inr (replicate (t_chunk_size s) (CHR 0x00), 0), s\<lparr>t_now := max (t_now s) t\<rparr>)"
  using assms by (simp add: tcp_read_def othen_def sys_read_hangup always_def returns_def)

lemma gather_after_hangup:
  assumes "tcp_gather endlchar ret s = Some r" "endlchar \<noteq> CHR 0x00"
  shows "endlchar \<notin> set ret \<longrightarrow> t_queue s \<noteq> (t, Hangup) # q"
  using assms(2)
proof (induction arbitrary: t q rule: tcp_gather.raw_induct [OF _ assms(1)])
  case (1 gather c ret s r)
  show ?case
  proof (intro impI notI)
    assume c: "c \<notin> set ret" and q: "t_queue s = (t, Hangup) # q"
    have "gather c (ret @ replicate (t_chunk_size s) (CHR 0x00)) (s\<lparr>t_now := max (t_now s) t\<rparr>) = Some r"
      using 1(2) c gather_step_hangup [OF q c] by simp
    from 1(1) [OF this 1(3), of t q] c q 1(3) show False
      by simp
  qed
qed

text \<open>
  C32. When the instrument closes the connection before the end of a line, \<open>read_until_endl\<close> never
  returns: every read delivers a chunk of zero bytes, and the loop goes on.
\<close>

theorem closed_connection_hangs:
  assumes "t_queue s = (t, Hangup) # q" "endlchar \<noteq> CHR 0x00"
  shows "tcp_read_until_endl endlchar s = None"
proof -
  have "tcp_read_until_endl endlchar s =
      tcp_gather endlchar (replicate (t_chunk_size s) (CHR 0x00)) (s\<lparr>t_now := max (t_now s) t\<rparr>)"
    using assms by (simp add: tcp_read_until_endl_def tcp_read_def othen_def sys_read_hangup always_def returns_def)
  then show ?thesis
    using gather_after_hangup [of endlchar "replicate (t_chunk_size s) (CHR 0x00)" "s\<lparr>t_now := max (t_now s) t\<rparr>" _ t q] assms
    by (cases "tcp_gather endlchar (replicate (t_chunk_size s) (CHR 0x00)) (s\<lparr>t_now := max (t_now s) t\<rparr>)") auto
qed

section \<open>A connection to try out\<close>

definition demo_os :: tcp_os where
  "demo_os = \<lparr>os_socket = 3, os_setsockopt = 0, os_getaddrinfo = 0, os_connect = 0, os_write = 0, os_ioctl = 0\<rparr>"

definition demo_tcp :: "'d \<Rightarrow> ('d \<Rightarrow> string \<Rightarrow> 'd \<times> (nat \<times> arrival) list) \<Rightarrow> 'd tcp" where
  "demo_tcp d react = \<lparr>t_params = [], t_port = 4242, t_addr = ''instrument'', t_sockfd = 3, t_chunk_size = 1024, t_os = demo_os,
     t_now = 0, t_peer = d, t_react = react, t_queue = []\<rparr>"

theorem closed_connection_hangs_witness:
  "tcp_read_until_endl (CHR 0x0A) (demo_tcp () (\<lambda>d _. (d, [])) \<lparr>t_queue := [(5, Hangup)]\<rparr>) = None"
  by (rule closed_connection_hangs [of _ 5 "[]"]) (simp_all add: demo_tcp_def)

end
