(* ===== verification/Float_Format.thy ===== *)
theory Float_Format
  imports Text_Format
begin

text \<open>
  How the C++ standard library prints a \<open>double\<close>: \<open>std::to_string\<close>, which is \<open>%f\<close> with six
  decimals, and an \<open>ostream\<close>, which is \<open>%g\<close> with a given number of digits. A finite double is its
  rational value (the sign of a zero is lost); both round to the nearest decimal, to the even one when
  two are as near. \<open>decade\<close> looks for the power of ten of the first digit in at most 400 steps, and
  doubles lie between 10^-324 and 10^309. What is proved: text of \<open>to_string\<close> reads back as the value
  rounded to six decimals.
\<close>

definition round_even :: "rat \<Rightarrow> int" where
  "round_even x = (let f = \<lfloor>x\<rfloor>; d = x - of_int f in
     if d < 1 / 2 then f else if d > 1 / 2 then f + 1 else if even f then f else f + 1)"

definition show_decimals :: "nat \<Rightarrow> nat \<Rightarrow> string" where
  "show_decimals k m = show_nat (m div 10 ^ k) @
     (if k = 0 then [] else CHR ''.'' # setw k (CHR ''0'') (show_nat (m mod 10 ^ k)))"

fun show_double :: "(rat \<Rightarrow> string) \<Rightarrow> f64 \<Rightarrow> string" where
  "show_double f NaN = ''nan''"
| "show_double f Pos_inf = ''inf''"
| "show_double f Neg_inf = ''-inf''"
| "show_double f (Fin v) = (if v < 0 then CHR ''-'' # f (- v) else f v)"

definition to_string_double :: "f64 \<Rightarrow> string" where
  "to_string_double = show_double (\<lambda>v. show_decimals 6 (nat (round_even (v * 10 ^ 6))))"

primrec decade :: "nat \<Rightarrow> rat \<Rightarrow> int" where
  "decade 0 v = 0"
| "decade (Suc n) v = (if 10 \<le> v then 1 + decade n (v / 10) else if v < 1 then decade n (v * 10) - 1 else 0)"

definition strip_zeros :: "string \<Rightarrow> string" where
  "strip_zeros s = (if CHR ''.'' \<in> set s
     then rev (case dropWhile (\<lambda>c. c = CHR ''0'') (rev s) of c # cs \<Rightarrow> if c = CHR ''.'' then cs else c # cs | [] \<Rightarrow> [])
     else s)"

definition show_exponent :: "int \<Rightarrow> string" where
  "show_exponent e = ''e'' @ (if e < 0 then ''-'' else ''+'') @ setw 2 (CHR ''0'') (show_nat (nat \<bar>e\<bar>))"

definition general_digits :: "nat \<Rightarrow> rat \<Rightarrow> nat \<times> int" where
  "general_digits p v = (let e = decade 400 v; m = nat (round_even (scale10 (int p - 1 - e) v))
     in if m = 10 ^ p then (10 ^ (p - 1), e + 1) else (m, e))"

definition show_general :: "nat \<Rightarrow> rat \<Rightarrow> string" where
  "show_general p v =
     (if v = 0 then ''0''
      else (case general_digits p v of (m, e) \<Rightarrow>
        if e < -4 \<or> int p \<le> e
        then strip_zeros (show_decimals (p - 1) m) @ show_exponent e
        else strip_zeros (show_decimals (nat (int p - 1 - e)) m)))"

definition ostream_double :: "nat \<Rightarrow> f64 \<Rightarrow> string" where
  "ostream_double p = show_double (show_general p)"

section \<open>Reading back\<close>

lemma not_digit_point: "\<not> is_digit 10 (CHR ''.'')"
  by (simp add: is_digit_def digit_val_def Let_def)

lemma show_nat_digits: "list_all (is_digit 10) (show_nat n)"
  by (simp add: show_nat_def show_base_digits)

lemma setw_nat_digits: "list_all (is_digit 10) (setw w (CHR ''0'') (show_nat n))"
  using show_nat_digits [of n] by (auto simp: setw_def list_all_iff)

lemma digits_value_append: "digits_value b (xs @ ys) = digits_value b xs * b ^ length ys + digits_value b ys"
proof (induction ys rule: rev_induct)
  case (snoc y ys)
  have "digits_value b (xs @ ys @ [y]) = digits_value b (xs @ ys) * b + digit_val y"
    using digits_value_append_one [of b "xs @ ys" y] by simp
  with snoc show ?case by (simp add: algebra_simps)
qed simp

lemma digits_value_show_nat: "digits_value 10 (show_nat n) = n"
  by (simp add: show_nat_def digits_value_show_base)

lemma show_decimals_mantissa:
  assumes "0 < k"
  shows "strtod_mantissa (show_decimals k m) = Some (m, k, [])"
proof -
  let ?a = "show_nat (m div 10 ^ k)" and ?b = "setw k (CHR ''0'') (show_nat (m mod 10 ^ k))"
  obtain j where k: "k = Suc j" using assms by (cases k) auto
  have b: "length ?b = k" "digits_value 10 ?b = m mod 10 ^ k"
    using length_setw_base [of 10 "m mod 10 ^ k" j "CHR ''0''" False]
    by (simp_all add: k show_nat_def setw_def digits_value_zeros digits_value_show_base)
  have whole: "takeWhile (is_digit 10) ?b = ?b" "dropWhile (is_digit 10) ?b = []"
    using setw_nat_digits [of k "m mod 10 ^ k"] by (simp_all add: takeWhile_eq_all_conv list_all_iff)
  have front: "takeWhile (is_digit 10) (?a @ CHR ''.'' # ?b) = ?a" "dropWhile (is_digit 10) (?a @ CHR ''.'' # ?b) = CHR ''.'' # ?b"
    using show_nat_digits [of "m div 10 ^ k"] not_digit_point
    by (simp_all add: takeWhile_append2 dropWhile_append2 list_all_iff)
  have "digits_value 10 (?a @ ?b) = m"
    using b by (simp add: digits_value_append digits_value_show_nat div_mult_mod_eq)
  moreover have "?a @ ?b \<noteq> []"
    by (simp add: show_nat_def)
  ultimately show ?thesis
    using assms by (simp add: strtod_mantissa_def show_decimals_def Let_def front whole b(1))
qed

lemma minus_no_space: "\<not> is_space (CHR ''-'')"
  by (simp add: is_space_def)

lemma digit_head_not_word:
  assumes "is_digit 10 c"
  shows "\<not> has_prefix ''inf'' (c # cs)" "\<not> has_prefix ''nan'' (c # cs)"
  using assms by (auto simp: has_prefix_def lower_def is_digit_def digit_val_def Let_def split: if_splits)

definition rounded6 :: "rat \<Rightarrow> rat" where
  "rounded6 v = (if v < 0 then - 1 else 1) * of_int (round_even (\<bar>v\<bar> * 10 ^ 6)) / 10 ^ 6"

lemma round_even_nonneg: "0 \<le> x \<Longrightarrow> 0 \<le> round_even x"
  by (auto simp: round_even_def Let_def)

lemma stod_to_string:
  assumes "\<bar>rounded6 v\<bar> \<le> max_double"
  shows "stod (to_string_double (Fin v)) = Inr (Fin (rounded6 v))"
proof -
  define m where "m = nat (round_even (\<bar>v\<bar> * 10 ^ 6))"
  have m: "rounded6 v = (if v < 0 then - (of_nat m / 10 ^ 6) else of_nat m / 10 ^ 6)"
    using round_even_nonneg [of "\<bar>v\<bar> * 10 ^ 6"] by (cases "v < 0") (simp_all add: rounded6_def m_def of_nat_nat)
  obtain c cs where c: "show_decimals 6 m = c # cs" "is_digit 10 c"
    using show_nat_digits [of "m div 10 ^ 6"] by (cases "show_nat (m div 10 ^ 6)") (auto simp: show_decimals_def show_nat_def)
  note F = digit_facts [OF c(2)] digit_head_not_word [OF c(2)]
  have sgn: "strip_sign (dropWhile is_space (show_decimals 6 m)) = (False, show_decimals 6 m)"
    "strip_sign (dropWhile is_space (CHR ''-'' # show_decimals 6 m)) = (True, show_decimals 6 m)"
    using F minus_no_space by (simp_all add: c strip_sign_def)
  have mant: "strtod_mantissa (show_decimals 6 m) = Some (m, 6, [])"
    by (simp add: show_decimals_mantissa)
  have lim: "\<not> max_double < of_nat m / 10 ^ 6"
    using assms by (auto simp: m split: if_splits)
  have pre: "\<not> has_prefix ''inf'' (show_decimals 6 m)" "\<not> has_prefix ''nan'' (show_decimals 6 m)"
    using F by (simp_all add: c)
  have shown: "to_string_double (Fin v) = (if v < 0 then CHR ''-'' # show_decimals 6 m else show_decimals 6 m)"
    by (cases "v < 0") (simp_all add: to_string_double_def m_def)
  have "stod (to_string_double (Fin v)) = Inr (Fin (if v < 0 then - (of_nat m / 10 ^ 6) else of_nat m / 10 ^ 6))"
    using lim pre
    by (cases "v < 0")
       (simp_all only: shown if_True if_False stod_def sgn prod.case mant option.case Let_def strtod_exponent_def list.case
         scale10_def, simp_all)
  then show ?thesis
    by (simp only: m)
qed

end
