(* ===== verification/Settings_Store.thy ===== *)
theory Settings_Store
  imports Partial_Calls Float_Format
begin

text \<open>
  What the drivers rely on when they keep settings in the memory of an instrument under text keys:
  the interface \<open>settings_store\<close>. \<open>dict\<close> is the dictionary that a state stands for, \<open>good\<close> the
  states in which the laws hold, \<open>fits\<close> says that a text can be stored under a key. The facts about
  numbers and fractions that clients need are proved once, inside the locale.
\<close>

lemma show_nat_nonempty [simp]: "show_nat n \<noteq> []"
  by (simp add: show_nat_def)

lemma stoi_show_int:
  assumes "int_min \<le> i" "i \<le> int_max"
  shows "stoi (show_int i) = Inr i"
proof (cases "i < 0")
  case False
  then show ?thesis
    using assms strtol_digits [of 10 "show_nat (nat i)" "[]"] show_nat_digits [of "nat i"]
    by (simp add: stoi_def stoi_base_def show_int_def digits_value_show_nat)
next
  case True
  have all: "takeWhile (is_digit 10) (show_nat (nat (- i))) = show_nat (nat (- i))"
    using show_nat_digits [of "nat (- i)"] by (simp add: takeWhile_eq_all_conv list_all_iff)
  have "strip_0x 10 s = s" for s
    by (auto simp: strip_0x_def split: list.split)
  then have "strtol 10 (show_int i) = Some i"
    using True by (simp add: strtol_def strip_sign_def show_int_def minus_no_space all digits_value_show_nat)
  then show ?thesis
    using assms by (simp add: stoi_def stoi_base_def)
qed

locale settings_store =
  fixes good :: "'s \<Rightarrow> bool"
    and dict :: "'s \<Rightarrow> string \<Rightarrow> string option"
    and fits :: "'s \<Rightarrow> string \<Rightarrow> string \<Rightarrow> bool"
    and put :: "string \<Rightarrow> string \<Rightarrow> ('s, unit) oprog"
    and fetch :: "string \<Rightarrow> ('s, string) oprog"
  assumes put_law: "good s \<Longrightarrow> fits s k v \<Longrightarrow>
      \<exists>s'. put k v s = Some (Inr (), s') \<and> good s' \<and> dict s' = (dict s)(k \<mapsto> v)"
    and fetch_law: "good s \<Longrightarrow> dict s k = Some v \<Longrightarrow>
      \<exists>s'. fetch k s = Some (Inr v, s') \<and> good s' \<and> dict s' = dict s"
begin

lemma put_then_fetch:
  assumes "good s" "fits s k v"
  shows "\<exists>s'. othen (put k v) (\<lambda>_. fetch k) s = Some (Inr v, s') \<and> good s' \<and> dict s' = (dict s)(k \<mapsto> v)"
proof -
  obtain s1 where s1: "put k v s = Some (Inr (), s1)" "good s1" "dict s1 = (dict s)(k \<mapsto> v)"
    using put_law [OF assms] by blast
  moreover obtain s2 where "fetch k s1 = Some (Inr v, s2)" "good s2" "dict s2 = dict s1"
    using fetch_law [of s1 k v] s1 by auto
  ultimately show ?thesis by simp
qed

lemma fetch_parsed:
  assumes "good s" "dict s k = Some v" "parse v = Inr x"
  shows "\<exists>s'. othen (fetch k) (\<lambda>v. olift (parse v)) s = Some (Inr x, s') \<and> good s' \<and> dict s' = dict s"
proof -
  obtain s1 where "fetch k s = Some (Inr v, s1)" "good s1" "dict s1 = dict s"
    using fetch_law [OF assms(1,2)] by blast
  then show ?thesis using assms(3) by (simp add: always_def lifts_def)
qed

lemma fetch_int:
  assumes "good s" "dict s k = Some (show_int i)" "int_min \<le> i" "i \<le> int_max"
  shows "\<exists>s'. othen (fetch k) (\<lambda>v. olift (stoi v)) s = Some (Inr i, s') \<and> good s' \<and> dict s' = dict s"
  using fetch_parsed [OF assms(1,2), of stoi, OF stoi_show_int [OF assms(3,4)]] .

lemma fetch_double:
  assumes "good s" "dict s k = Some (to_string_double (Fin x))" "\<bar>rounded6 x\<bar> \<le> max_double"
  shows "\<exists>s'. othen (fetch k) (\<lambda>v. olift (stod v)) s = Some (Inr (Fin (rounded6 x)), s') \<and> good s' \<and> dict s' = dict s"
  using fetch_parsed [OF assms(1,2), of stod, OF stod_to_string [OF assms(3)]] .

text \<open>Writing under one key leaves what is read under another as it was.\<close>

lemma put_keeps_others:
  assumes "good s" "fits s k v" "dict s k' = Some v'" "k \<noteq> k'"
  shows "\<exists>s'. othen (put k v) (\<lambda>_. fetch k') s = Some (Inr v', s')"
proof -
  obtain s1 where s1: "put k v s = Some (Inr (), s1)" "good s1" "dict s1 = (dict s)(k \<mapsto> v)"
    using put_law [OF assms(1,2)] by blast
  with fetch_law [of s1 k' v'] assms(3,4) show ?thesis by auto
qed

end

end
