(* ===== verification/Archon.thy ===== *)
theory Archon
  imports Simple_TCP Settings_Store
begin

text \<open>
  The Archon CCD controller, devices/archon: archon.cpp, archon.h and, of the modules in the
  controller's slots, what the constructor and \<open>update_state\<close> need of archon_modules.cpp and
  archon_module_heaterx.cpp. The operations of the modules are in \<open>Archon_Modules\<close>.

  The controller is the peer of the TCP connection. Every command carries a sequence number that
  the reply must repeat. The driver keeps a map from configuration keys to the lines of the
  controller's configuration memory. A command may never return (the connection may fall silent),
  so the operations are \<open>oprog\<close>s. The times that \<open>get_tstamp\<close> prints are the clock of the connection
  in microseconds; the boost formatting is not modelled, and neither is \<open>_framedata\<close>, which is only
  ever cleared.
\<close>

section \<open>State\<close>

type_synonym ssmap = "(string \<times> string) list"

datatype archon_module_types = Mod_driver | Mod_AD | Mod_HVXBias | Mod_LVXBias | Mod_heaterX | Mod_XVBias

record heater_values =
  heaterAOutput :: f64
  heaterBOutput :: f64
  TempA :: f64
  TempB :: f64
  TempC :: f64
  heaterAP :: int
  heaterAI :: int
  heaterAD :: int
  heaterBP :: int
  heaterBI :: int
  heaterBD :: int
  GPIO :: "bool list"

record generic_bias =
  biasnmemonic :: string
  numchans :: int
  lowlimit :: rat
  highlimit :: rat

record archon_module =
  modpos :: nat
  mod_id :: string
  mod_version :: "8 word list"
  mod_rev :: "16 word"
  mod_kind :: archon_module_types
  heater :: heater_values
  lcbias :: generic_bias
  hcbias :: generic_bias

record 'd archon =
  arch_tcp :: "'d tcp"
  arch_order :: "16 word"
  arch_system :: ssmap
  arch_status :: ssmap
  arch_frame :: ssmap
  arch_modules :: "(nat \<times> archon_module) list"
  configlinemap :: "(string \<times> int) list"
  statenames :: "string list"
  parammap :: "(string \<times> int) list"
  constantmap :: "(string \<times> int) list"
  ADtaplinemap :: "(8 word \<times> 8 word) list"
  config_lines :: int
  taplines :: int
  arch_states :: int
  arch_tmr :: int
  sys_tmr :: nat

definition on_tcp :: "('d tcp, 'a) oprog \<Rightarrow> ('d archon, 'a) oprog" where
  "on_tcp m s = (case m (arch_tcp s) of None \<Rightarrow> None | Some (r, t) \<Rightarrow> Some (r, s\<lparr>arch_tcp := t\<rparr>))"

section \<open>Commands\<close>

text \<open>\<open>oss << setw(w) << setfill('0') << uppercase << hex << i\<close> for an \<open>int\<close>, whose bits are shown
  as those of an unsigned number.\<close>

definition show_hex :: "nat \<Rightarrow> int \<Rightarrow> string" where
  "show_hex w i = setw w (CHR ''0'') (show_base True 16 (nat (i mod 2 ^ 32)))"

definition next_order :: "('d archon, 16 word) prog" where
  "next_order s = (let ord = (if arch_order s = 0xFE then 0 else arch_order s) in
     (Inr ord, s\<lparr>arch_order := ord + 1\<rparr>))"

definition request_text :: "16 word \<Rightarrow> string \<Rightarrow> string" where
  "request_text ord request = ''>'' @ show_hex 2 (uint ord) @ request @ [CHR 0x0A]"

definition check_reply :: "16 word \<Rightarrow> string \<Rightarrow> string result" where
  "check_reply ord ret = (let c = (case ret of [] \<Rightarrow> CHR 0x00 | c # _ \<Rightarrow> c) in
     if c \<noteq> CHR ''<''
     then (if c = CHR ''?'' then Inl (Device_error ''archon threw an error message! Check the logs...'')
       else Inl (Protocol_error ''invalid archon response!''))
     else rbind (substr ret 1 2) (\<lambda>h. rbind (stoul_base 16 h) (\<lambda>n.
       if n \<noteq> uint ord then Inl (Protocol_error ''mismatched order response'') else substr_from ret 3)))"

definition arch_cmd :: "string \<Rightarrow> ('d archon, string) oprog" where
  "arch_cmd request = othen (always next_order) (\<lambda>ord.
     othen (on_tcp (always (tcp_write (request_text ord request)))) (\<lambda>_.
     othen (on_tcp (tcp_read_until_endl (CHR 0x0A))) (\<lambda>ret.
     olift (check_reply ord (filter isprint ret)))))"

definition exec :: "string \<Rightarrow> ('d archon, unit) oprog" where
  "exec request = othen (arch_cmd request) (\<lambda>_. oreturn ())"

text \<open>The value is cleaned with iterators of the key, a range that is empty once the key is clean;
  nothing is erased.\<close>

definition parse_item :: "string \<Rightarrow> ssmap \<Rightarrow> ssmap" where
  "parse_item item m = (if CHR ''='' \<notin> set item then m
     else um_set (filter isprint (takeWhile (\<lambda>c. c \<noteq> CHR ''='') item)) (tl (dropWhile (\<lambda>c. c \<noteq> CHR ''='') item)) m)"

definition parse_parameter_response :: "string \<Rightarrow> ssmap" where
  "parse_parameter_response response = fold parse_item (split_on (CHR '' '') response) []"

definition parse_binary_response :: "string \<Rightarrow> string result" where
  "parse_binary_response response =
     (if response = [] then Inl (Protocol_error ''invalid archon response!'')
      else if hd response = CHR ''?'' then Inl (Device_error ''archon threw an error message! Check the logs...'')
      else if hd response \<noteq> CHR ''<'' then Inl (Protocol_error ''invalid archon response!'')
      else if length response < 4 then Inl (UB ''index past the end'')
      else if response ! 3 \<noteq> CHR '':'' then Inl (Protocol_error (''expected a binary response but didn'' @ [CHR 0x27] @ ''t get one!''))
      else Inr (drop 4 response))"

section \<open>Configuration lines\<close>

definition writeConfigLine :: "string \<Rightarrow> int \<Rightarrow> ('d archon, int) oprog" where
  "writeConfigLine line num =
     othen (oget config_lines) (\<lambda>n.
     othen (othrow_unless (\<not> 2047 \<le> n) (Device_error ''tried to write too many config lines to archon'')) (\<lambda>_.
     othen (othrow_unless (\<not> 2047 \<le> length line) (Device_error ''tried to write a config line to archon that was too long'')) (\<lambda>_.
     othen (if num < 0 then oset (\<lambda>s. s\<lparr>config_lines := n + 1\<rparr>)
       else othrow_unless (\<not> num > n) (Logic_error (''trying to overwrite a config line '' @ show_int num @ '' that doesn'' @ [CHR 0x27] @ ''t exist yet''))) (\<lambda>_.
     let num' = (if num < 0 then n else num) in
     othen (arch_cmd (''WCONFIG'' @ show_hex 4 num' @ line)) (\<lambda>_. oreturn num')))))"

definition readConfigLine :: "int \<Rightarrow> bool \<Rightarrow> ('d archon, string) oprog" where
  "readConfigLine num override_existing = othen (oget config_lines) (\<lambda>n.
     othen (othrow_unless (\<not> (num > n \<and> \<not> override_existing))
       (Logic_error (''tried to read an archon config line that we don'' @ [CHR 0x27] @ ''t think exists...''))) (\<lambda>_.
     arch_cmd (''RCONFIG'' @ show_hex 4 num)))"

definition after_equals :: "string \<Rightarrow> string result" where
  "after_equals line = (if CHR ''='' \<notin> set line then Inl (Device_error ''malformed config line returned from archon'')
     else Inr (tl (dropWhile (\<lambda>c. c \<noteq> CHR ''='') line)))"

definition readKeyValue :: "string \<Rightarrow> ('d archon, string) oprog" where
  "readKeyValue key = othen (oget (\<lambda>s. map_of (configlinemap s) key)) (\<lambda>num. case num of
     None \<Rightarrow> othrow (Runtime_error (''the key '' @ key @ '' is not registered with this archon handler''))
   | Some n \<Rightarrow> othen (readConfigLine n False) (\<lambda>line. olift (after_equals line)))"

definition writeKeyValue :: "string \<Rightarrow> string \<Rightarrow> ('d archon, unit) oprog" where
  "writeKeyValue key val = othen (oget (\<lambda>s. map_of (configlinemap s) key)) (\<lambda>num.
     let line = key @ ''='' @ val in case num of
       None \<Rightarrow> othen (writeConfigLine line (-1)) (\<lambda>n. oset (\<lambda>s. s\<lparr>configlinemap := map_insert key n (configlinemap s)\<rparr>))
     | Some n \<Rightarrow> othen (writeConfigLine line n) (\<lambda>_. oreturn ()))"

text \<open>The keys whose value is a number.\<close>

definition read_int :: "string \<Rightarrow> ('d archon, int) oprog" where
  "read_int key = othen (readKeyValue key) (\<lambda>v. olift (stoi v))"

definition read_bool :: "string \<Rightarrow> ('d archon, bool) oprog" where
  "read_bool key = othen (read_int key) (\<lambda>n. oreturn (n \<noteq> 0))"

definition write_int :: "string \<Rightarrow> int \<Rightarrow> ('d archon, unit) oprog" where
  "write_int key n = writeKeyValue key (show_int n)"

definition write_apply :: "string \<Rightarrow> string \<Rightarrow> int \<Rightarrow> ('d archon, unit) oprog" where
  "write_apply apply_cmd key n = othen (write_int key n) (\<lambda>_. exec apply_cmd)"

section \<open>Variables of the modules\<close>

definition get_module_variable_string :: "nat \<Rightarrow> string \<Rightarrow> ssmap \<Rightarrow> char \<Rightarrow> string result" where
  "get_module_variable_string pos name m delim = map_at m (''MOD'' @ show_nat (pos + 1) @ [delim] @ name)"

definition extract_int :: "nat \<Rightarrow> string \<Rightarrow> ssmap \<Rightarrow> char \<Rightarrow> int result" where
  "extract_int pos name m delim = rbind (get_module_variable_string pos name m delim) stoi"

text \<open>\<open>std::stof\<close> throws for what is beyond the largest \<open>float\<close>.\<close>

definition max_float :: rat where
  "max_float = 2 ^ 128 - 2 ^ 104"

definition stof :: "string \<Rightarrow> f64 result" where
  "stof s = rbind (stod s) (\<lambda>x. case x of
     Fin v \<Rightarrow> if max_float < \<bar>v\<bar> then Inl (Out_of_range ''stof'') else Inr x | _ \<Rightarrow> Inr x)"

definition extract_float :: "nat \<Rightarrow> string \<Rightarrow> ssmap \<Rightarrow> char \<Rightarrow> f64 result" where
  "extract_float pos name m delim = rbind (get_module_variable_string pos name m delim) stof"

definition assign :: "('a \<Rightarrow> 'h \<Rightarrow> 'h) \<Rightarrow> 'a result \<Rightarrow> ('h, unit) prog" where
  "assign f r = andthen (lifts r) (\<lambda>x. modifies (f x))"

text \<open>\<open>iss.get()\<close> is the number of the character, \<open>-1\<close> at the end of the text; that number is
  printed in decimal and read back.\<close>

definition stream_get :: "string \<Rightarrow> nat \<Rightarrow> int" where
  "stream_get s i = (if i < length s then of_char (s ! i) else -1)"

definition gpio_input :: "string \<Rightarrow> nat \<Rightarrow> bool result" where
  "gpio_input s i = rbind (stoi (show_int (stream_get s i))) (\<lambda>n. Inr (n \<noteq> 0))"

primrec gpio_inputs :: "string \<Rightarrow> nat \<Rightarrow> (heater_values, unit) prog" where
  "gpio_inputs s 0 = returns ()"
| "gpio_inputs s (Suc n) = andthen (gpio_inputs s n) (\<lambda>_. assign (\<lambda>b h. h\<lparr>GPIO := (GPIO h)[n := b]\<rparr>) (gpio_input s n))"

definition heater_assigns :: "nat \<Rightarrow> ssmap \<Rightarrow> (heater_values, unit) prog list" where
  "heater_assigns pos m =
     (let fl = (\<lambda>name. extract_float pos name m (CHR ''/'')); it = (\<lambda>name. extract_int pos name m (CHR ''/'')) in
     [assign (\<lambda>x h. h\<lparr>heaterAOutput := x\<rparr>) (fl ''HEATERAOUTPUT''),
      assign (\<lambda>x h. h\<lparr>heaterBOutput := x\<rparr>) (fl ''HEATERBOUTPUT''),
      assign (\<lambda>x h. h\<lparr>TempA := x\<rparr>) (fl ''TEMPA''),
      assign (\<lambda>x h. h\<lparr>TempB := x\<rparr>) (fl ''TEMPB''),
      assign (\<lambda>x h. h\<lparr>TempC := x\<rparr>) (fl ''TEMPC''),
      assign (\<lambda>x h. h\<lparr>heaterAP := x\<rparr>) (it ''HEATERAP''),
      assign (\<lambda>x h. h\<lparr>heaterAI := x\<rparr>) (it ''HEATERAI''),
      assign (\<lambda>x h. h\<lparr>heaterAD := x\<rparr>) (it ''HEATERAD''),
      assign (\<lambda>x h. h\<lparr>heaterBP := x\<rparr>) (it ''HEATERBP''),
      assign (\<lambda>x h. h\<lparr>heaterBI := x\<rparr>) (it ''HEATERBI''),
      assign (\<lambda>x h. h\<lparr>heaterBD := x\<rparr>) (it ''HEATERBD'')])"

definition update_heater :: "nat \<Rightarrow> ssmap \<Rightarrow> (heater_values, unit) prog" where
  "update_heater pos m = andthen (pseq (heater_assigns pos m)) (\<lambda>_.
     andthen (lifts (get_module_variable_string pos ''DINPUTS'' m (CHR ''/''))) (\<lambda>s. gpio_inputs s 8))"

text \<open>Only the heater module reads anything; the others override the function with nothing.\<close>

definition update_variables :: "archon_module \<Rightarrow> ssmap \<Rightarrow> unit result \<times> archon_module" where
  "update_variables md m = (if mod_kind md = Mod_heaterX
     then (case update_heater (modpos md) m (heater md) of (r, h) \<Rightarrow> (r, md\<lparr>heater := h\<rparr>))
     else (Inr (), md))"

fun update_modules :: "ssmap \<Rightarrow> ((nat \<times> archon_module) list, unit) prog" where
  "update_modules m [] = (Inr (), [])"
| "update_modules m ((k, md) # mods) = (case update_variables md m of
     (Inl e, md') \<Rightarrow> (Inl e, (k, md') # mods)
   | (Inr _, md') \<Rightarrow> (case update_modules m mods of (r, mods') \<Rightarrow> (r, (k, md') # mods')))"

section \<open>State and configuration\<close>

definition on_modules :: "((nat \<times> archon_module) list, 'a) prog \<Rightarrow> ('d archon, 'a) oprog" where
  "on_modules m s = (case m (arch_modules s) of (r, mods) \<Rightarrow> Some (r, s\<lparr>arch_modules := mods\<rparr>))"

definition update_state :: "('d archon, unit) oprog" where
  "update_state =
     othen (arch_cmd ''SYSTEM'') (\<lambda>r. othen (oset (\<lambda>s. s\<lparr>arch_system := parse_parameter_response r\<rparr>)) (\<lambda>_.
     othen (arch_cmd ''STATUS'') (\<lambda>r. othen (oset (\<lambda>s. s\<lparr>arch_status := parse_parameter_response r\<rparr>)) (\<lambda>_.
     othen (arch_cmd ''FRAME'') (\<lambda>r. othen (oset (\<lambda>s. s\<lparr>arch_frame := parse_parameter_response r\<rparr>)) (\<lambda>_.
     othen (oget arch_status) (\<lambda>m. on_modules (update_modules m))))))))"

definition clear_config :: "('d archon, unit) oprog" where
  "clear_config = othen (arch_cmd ''CLEARCONFIG'') (\<lambda>_.
     othen (oset (\<lambda>s. s\<lparr>config_lines := 0, configlinemap := [], statenames := [], parammap := [], constantmap := [],
       ADtaplinemap := [], taplines := 0, arch_states := 0\<rparr>)) (\<lambda>_.
     othen (write_int ''LINES'' 0) (\<lambda>_. othen (write_int ''STATES'' 0) (\<lambda>_.
     othen (write_int ''PARAMETERS'' 0) (\<lambda>_. othen (write_int ''CONSTANTS'' 0) (\<lambda>_.
     writeKeyValue ''TAPLINES'' ''0''))))))"

definition fetch_log :: "('d archon, string) oprog" where
  "fetch_log = arch_cmd ''FETCHLOG''"

primrec fetch_logs :: "nat \<Rightarrow> ('d archon, string list) oprog" where
  "fetch_logs 0 = oreturn []"
| "fetch_logs (Suc n) = othen fetch_log (\<lambda>l. othen (fetch_logs n) (\<lambda>ls. oreturn (l # ls)))"

definition fetch_all_logs :: "('d archon, string list) oprog" where
  "fetch_all_logs = othen update_state (\<lambda>_. othen (oget arch_status) (\<lambda>m.
     othen (olift (rbind (map_at m ''LOG'') stoi)) (\<lambda>n.
     othen (othrow_unless (0 \<le> n) (Logic_error ''vector::reserve'')) (\<lambda>_. fetch_logs (nat n)))))"

definition applyall :: "('d archon, unit) oprog" where
  "applyall = exec ''APPLYALL''"

definition set_power :: "bool \<Rightarrow> ('d archon, unit) oprog" where
  "set_power onoff = exec (if onoff then ''POWERON'' else ''POWEROFF'')"

definition get_power :: "('d archon, bool) oprog" where
  "get_power = othen (oget arch_status) (\<lambda>m. othen (olift (rbind (map_at m ''POWER'') stoi)) (\<lambda>p.
     if p = 0 then othrow (Device_error ''unknown power state'')
     else if p = 1 then othrow (Device_error ''no configuration applied'')
     else if p = 2 then oreturn False
     else if p = 3 then othrow (Device_error ''intermediate power state'')
     else if p = 4 then oreturn True
     else if p = 5 then oreturn False
     else othrow (Logic_error ''unknown power state in reply'')))"

text \<open>The lines of a script that are already in the memory are overwritten.\<close>

fun write_script :: "nat \<Rightarrow> string list \<Rightarrow> ('d archon, unit) oprog" where
  "write_script i [] = write_int ''LINES'' (int i)"
| "write_script i (l # ls) = othen (writeKeyValue (''LINE'' @ show_nat i) l) (\<lambda>_. write_script (i + 1) ls)"

definition load_timing_script :: "string \<Rightarrow> ('d archon, unit) oprog" where
  "load_timing_script script = write_script 0 (split_on (CHR 0x0A) script)"

definition lockbuffer :: "int \<Rightarrow> ('d archon, unit) oprog" where
  "lockbuffer buf = othen (othrow_unless (\<not> (buf < 1 \<or> 3 < buf)) (Out_of_range ''invalid buffer, must be 1 :3 '')) (\<lambda>_.
     exec (''LOCK'' @ show_int buf))"

definition unlockbuffers :: "('d archon, unit) oprog" where
  "unlockbuffers = exec ''LOCK0''"

definition holdTiming :: "('d archon, unit) oprog" where "holdTiming = exec ''HOLDTIMING''"
definition releaseTiming :: "('d archon, unit) oprog" where "releaseTiming = exec ''RELEASETIMING''"
definition resetTiming :: "('d archon, unit) oprog" where "resetTiming = exec ''RESETTIMING''"
definition load_timing :: "('d archon, unit) oprog" where "load_timing = exec ''LOADTIMING''"
definition apply_all_params :: "('d archon, unit) oprog" where "apply_all_params = exec ''LOADPARAMS''"
definition apply_param :: "string \<Rightarrow> ('d archon, unit) oprog" where "apply_param name = exec (''LOADPARAM '' @ name)"

text \<open>Up to 2048 lines are read until an empty one.\<close>

fun read_config :: "nat \<Rightarrow> int \<Rightarrow> ('d archon, int) oprog" where
  "read_config 0 i = oreturn i"
| "read_config (Suc n) i = othen (readConfigLine i True) (\<lambda>line.
     if line = [] then oreturn i
     else othen (olift (after_equals line)) (\<lambda>_.
       othen (oset (\<lambda>s. s\<lparr>configlinemap := map_insert (takeWhile (\<lambda>c. c \<noteq> CHR ''='') line) i (configlinemap s)\<rparr>))
         (\<lambda>_. read_config n (i + 1))))"

definition read_parse_existing_config :: "('d archon, unit) oprog" where
  "read_parse_existing_config = othen (writeKeyValue ''RAWSTARTPIXEL'' ''0'') (\<lambda>_.
     othen (read_config 2048 0) (\<lambda>i. oset (\<lambda>s. s\<lparr>config_lines := i\<rparr>)))"

section \<open>Parameters and constants\<close>

text \<open>The value is what stands between the first equals sign and the next quotation mark; without
  an equals sign the code starts behind the end of the text.\<close>

definition quoted_value :: "string \<Rightarrow> string result" where
  "quoted_value paramline = (if CHR ''='' \<notin> set paramline then Inl (UB ''iterator past the end'')
     else Inr (takeWhile (\<lambda>c. c \<noteq> CHR 0x22) (tl (dropWhile (\<lambda>c. c \<noteq> CHR ''='') paramline))))"

definition get_parameters :: "('d archon, int) oprog" where "get_parameters = read_int ''PARAMETERS''"
definition get_constants :: "('d archon, int) oprog" where "get_constants = read_int ''CONSTANTS''"
definition get_states :: "('d archon, int) oprog" where "get_states = read_int ''STATES''"
definition get_timing_lines :: "('d archon, int) oprog" where "get_timing_lines = read_int ''LINES''"

definition getConstant :: "string \<Rightarrow> ('d archon, f64) oprog" where
  "getConstant name = othen (oget (\<lambda>s. map_of (constantmap s) name)) (\<lambda>num. case num of
     None \<Rightarrow> othrow (Device_error ''parameter not known to this archon'')
   | Some n \<Rightarrow> othen (readKeyValue (''CONSTANT'' @ show_int n)) (\<lambda>l. olift (rbind (quoted_value l) stod)))"

definition getParam :: "string \<Rightarrow> ('d archon, 32 word) oprog" where
  "getParam name = othen (oget (\<lambda>s. map_of (parammap s) name)) (\<lambda>num. case num of
     None \<Rightarrow> othrow (Device_error ''parameter not known to this archon'')
   | Some n \<Rightarrow> othen (readKeyValue (''PARAMETER'' @ show_int n)) (\<lambda>l.
       olift (rbind (quoted_value l) (\<lambda>v. rbind (stoul_base 10 v) (\<lambda>i. Inr (word_of_int i))))))"

definition constant_number :: "string \<Rightarrow> ('d archon, int) oprog" where
  "constant_number name = othen (oget (\<lambda>s. map_of (constantmap s) name)) (\<lambda>num. case num of
     Some n \<Rightarrow> oreturn n
   | None \<Rightarrow> othen get_constants (\<lambda>n.
       othen (oset (\<lambda>s. s\<lparr>constantmap := um_set name n (constantmap s)\<rparr>)) (\<lambda>_.
       othen (olift (c_int (n + 1))) (\<lambda>k. othen (write_int ''CONSTANTS'' k) (\<lambda>_. oreturn n)))))"

definition param_number :: "string \<Rightarrow> ('d archon, int) oprog" where
  "param_number name = othen (oget (\<lambda>s. map_of (parammap s) name)) (\<lambda>num. case num of
     Some n \<Rightarrow> oreturn n
   | None \<Rightarrow> othen get_parameters (\<lambda>n.
       othen (oset (\<lambda>s. s\<lparr>parammap := um_set name n (parammap s)\<rparr>)) (\<lambda>_.
       othen (olift (c_int (n + 1))) (\<lambda>k. othen (write_int ''PARAMETERS'' k) (\<lambda>_. oreturn n)))))"

definition setConstant :: "string \<Rightarrow> f64 \<Rightarrow> ('d archon, unit) oprog" where
  "setConstant name val = othen (constant_number name) (\<lambda>n.
     writeKeyValue (''CONSTANT'' @ show_int n) (name @ ''='' @ ostream_double 6 val))"

definition setParam :: "string \<Rightarrow> 32 word \<Rightarrow> ('d archon, unit) oprog" where
  "setParam name val = othen (param_number name) (\<lambda>n.
     writeKeyValue (''PARAMETER'' @ show_int n) (name @ ''='' @ show_nat (unat val)))"

section \<open>States and taps\<close>

definition index_of :: "'a \<Rightarrow> 'a list \<Rightarrow> nat" where
  "index_of x xs = length (takeWhile (\<lambda>y. y \<noteq> x) xs)"

definition write_state_line :: "nat \<Rightarrow> string \<Rightarrow> ('d archon, unit) oprog" where
  "write_state_line idx l =
     (if CHR ''='' \<notin> set l then othrow (Runtime_error (''malformed timing state line: '' @ l))
      else writeKeyValue (''STATE'' @ show_nat idx @ ''/'' @ takeWhile (\<lambda>c. c \<noteq> CHR ''='') l)
        (tl (dropWhile (\<lambda>c. c \<noteq> CHR ''='') l)))"

text \<open>For a new state the number of states is written before the name is added.\<close>

definition write_timing_state :: "string \<Rightarrow> string \<Rightarrow> ('d archon, unit) oprog" where
  "write_timing_state name state = othen (oget statenames) (\<lambda>names.
     othen (ofor (write_state_line (index_of name names)) (split_on (CHR 0x0A) state)) (\<lambda>_.
     if name \<in> set names then oreturn ()
     else othen (oget statenames) (\<lambda>names'. othen (write_int ''STATES'' (int (length names'))) (\<lambda>_.
       oset (\<lambda>s. s\<lparr>statenames := statenames s @ [name]\<rparr>)))))"

definition settapline :: "int \<Rightarrow> string \<Rightarrow> ('d archon, unit) oprog" where
  "settapline n tapline = othen (oget taplines) (\<lambda>k.
     othen (othrow_unless (\<not> n > k) (Device_error ''invalid TAP line number'')) (\<lambda>_.
     othen (writeKeyValue (''TAPLINE'' @ show_int n) tapline) (\<lambda>_.
     if n = k then othen (oset (\<lambda>s. s\<lparr>taplines := k + 1\<rparr>)) (\<lambda>_. writeKeyValue ''TAPLINES'' (show_int (k + 1)))
     else oreturn ())))"

definition tap_text :: "8 word \<Rightarrow> bool \<Rightarrow> f64 \<Rightarrow> 16 word \<Rightarrow> string" where
  "tap_text AD LR gain offset = ''AD'' @ show_nat (unat AD) @ (if LR then ''R'' else ''L'') @ '','' @
     ostream_double 6 gain @ '','' @ show_nat (unat offset)"

text \<open>The handler that is meant for an unknown converter also runs when the command itself ends in
  an \<open>out_of_range\<close>.\<close>

definition settap :: "8 word \<Rightarrow> bool \<Rightarrow> f64 \<Rightarrow> 16 word \<Rightarrow> ('d archon, unit) oprog" where
  "settap AD LR gain offset = (let l = tap_text AD LR gain offset in
     ocatch_range
       (othen (oget ADtaplinemap) (\<lambda>m. othen (olift (map_at m AD)) (\<lambda>t. settapline (uint t) l)))
       (othen (oset (\<lambda>s. s\<lparr>ADtaplinemap := um_set AD (word_of_int (taplines s)) (ADtaplinemap s)\<rparr>)) (\<lambda>_.
         othen (oget taplines) (\<lambda>k. settapline k l))))"

text \<open>Without an equals sign in the reply the code starts behind its end.\<close>

definition sync_archon_timer :: "('d archon, unit) oprog" where
  "sync_archon_timer = othen (arch_cmd ''TIMER'') (\<lambda>str.
     othen (olift (if CHR ''='' \<notin> set str then Inl (UB ''iterator past the end'')
       else stoul_base 10 (tl (dropWhile (\<lambda>c. c \<noteq> CHR ''='') str)))) (\<lambda>n.
     oset (\<lambda>s. s\<lparr>arch_tmr := n, sys_tmr := t_now (arch_tcp s)\<rparr>)))"

section \<open>Frames\<close>

definition frame_value :: "string \<Rightarrow> int \<Rightarrow> ('d archon, string) oprog" where
  "frame_value name buf = othen (oget arch_frame) (\<lambda>m. olift (map_at m (''BUF'' @ show_int buf @ name)))"

definition frame_int :: "string \<Rightarrow> int \<Rightarrow> ('d archon, int) oprog" where
  "frame_int name buf = othen (frame_value name buf) (\<lambda>v. olift (stoi v))"

definition frame_bool :: "string \<Rightarrow> int \<Rightarrow> ('d archon, bool) oprog" where
  "frame_bool name buf = othen (frame_int name buf) (\<lambda>n. oreturn (n \<noteq> 0))"

definition get_frameno :: "int \<Rightarrow> ('d archon, int) oprog" where "get_frameno = frame_int ''FRAME''"
definition get_height :: "int \<Rightarrow> ('d archon, int) oprog" where "get_height = frame_int ''HEIGHT''"
definition get_width :: "int \<Rightarrow> ('d archon, int) oprog" where "get_width = frame_int ''WIDTH''"
definition get_pixels :: "int \<Rightarrow> ('d archon, int) oprog" where "get_pixels = frame_int ''PIXELS''"
definition get_rawlines :: "int \<Rightarrow> ('d archon, int) oprog" where "get_rawlines = frame_int ''RAWLINES''"
definition get_rawblocks :: "int \<Rightarrow> ('d archon, int) oprog" where "get_rawblocks = frame_int ''RAWBLOCKS''"
definition get_mode :: "int \<Rightarrow> ('d archon, int) oprog" where "get_mode = frame_int ''MODE''"
definition isbuffercomplete :: "int \<Rightarrow> ('d archon, bool) oprog" where "isbuffercomplete = frame_bool ''COMPLETE''"
definition get_32bit :: "int \<Rightarrow> ('d archon, bool) oprog" where "get_32bit = frame_bool ''SAMPLE''"

text \<open>The frame time is computed and thrown away; what is returned is the time of the last
  synchronisation.\<close>

definition get_tstamp :: "int \<Rightarrow> ('d archon, nat) oprog" where
  "get_tstamp buf = othen (frame_value ''TIEMSTAMP'' buf) (\<lambda>v. othen (olift (stoul_base 16 v)) (\<lambda>_. oget sys_tmr))"

text \<open>Numbers of two or four bytes, the low byte first.\<close>

fun le_words :: "nat \<Rightarrow> nat \<Rightarrow> string \<Rightarrow> 32 word list" where
  "le_words k 0 s = []"
| "le_words k (Suc n) s = word_of_nat (foldr (\<lambda>c a. of_char c + 256 * a) (take k s) 0) # le_words k n (drop k s)"

fun wait_block :: "nat \<Rightarrow> nat \<Rightarrow> ('d archon, unit) oprog" where
  "wait_block i 0 = oreturn ()"
| "wait_block i (Suc j) = othen (on_tcp (always tcp_bytes_available)) (\<lambda>n.
     if 1028 \<le> n then oreturn ()
     else othen (on_tcp (always (tcp_sleep 500))) (\<lambda>_.
       if j = 0 then othrow (Device_error (''ran out of retries waiting for buffer read, block:'' @ show_nat i))
       else wait_block i j))"

fun read_blocks :: "nat \<Rightarrow> nat \<Rightarrow> nat \<Rightarrow> nat \<Rightarrow> ('d archon, 32 word list) oprog" where
  "read_blocks k retries i 0 = oreturn []"
| "read_blocks k retries i (Suc n) = othen (wait_block i retries) (\<lambda>_.
     othen (on_tcp (tcp_read 1028)) (\<lambda>(ret, _).
     othen (olift (parse_binary_response ret)) (\<lambda>bytes.
     othen (read_blocks k retries (i + 1) n) (\<lambda>ws. oreturn (le_words k (1024 div k) bytes @ ws)))))"

text \<open>\<open>k\<close> is the size of a pixel on the wire. The request does not use the sequence numbers.\<close>

definition read_back_buffer :: "nat \<Rightarrow> int \<Rightarrow> nat \<Rightarrow> int \<Rightarrow> ('d archon, 32 word list) oprog" where
  "read_back_buffer k num_blocks retries address =
     othen (on_tcp (always (tcp_write (''>00FETCH'' @ show_hex 8 address @ show_hex 8 num_blocks @ [CHR 0x0A])))) (\<lambda>_.
     othen (olift (c_int (num_blocks * 1024))) (\<lambda>_.
     othen (othrow_unless (0 \<le> num_blocks) (Logic_error ''vector::reserve'')) (\<lambda>_.
     read_blocks k retries 0 (nat num_blocks))))"

definition blocks_of :: "int \<Rightarrow> int" where
  "blocks_of num_bytes = num_bytes div 1024 + (if num_bytes mod 1024 \<noteq> 0 then 1 else 0)"

text \<open>\<open>resize\<close>: cut off, or filled up with zeros.\<close>

definition resize :: "nat \<Rightarrow> 32 word list \<Rightarrow> 32 word list" where
  "resize n ws = take n ws @ replicate (n - length ws) 0"

definition fetch_buffer :: "int \<Rightarrow> ('d archon, 32 word list) oprog" where
  "fetch_buffer buf = othen update_state (\<lambda>_.
     othen (isbuffercomplete buf) (\<lambda>c.
     othen (othrow_unless c (Device_error ''buffer not complete for reading!'')) (\<lambda>_.
     othen (lockbuffer buf) (\<lambda>_.
     othen (get_width buf) (\<lambda>w. othen (get_height buf) (\<lambda>h.
     othen (olift (c_int (w * h))) (\<lambda>pixels.
     othen (othen (frame_value ''BASE'' buf) (\<lambda>v. olift (stoul_base 10 v))) (\<lambda>baseaddr.
     othen (get_32bit buf) (\<lambda>is32.
     othen (olift (c_int (pixels * (if is32 then 4 else 2)))) (\<lambda>bytes.
     othen (read_back_buffer (if is32 then 4 else 2) (blocks_of (bytes mod 2 ^ 32)) 100 baseaddr) (\<lambda>ws.
     othen (othrow_unless (0 \<le> pixels) (Logic_error ''vector::_M_default_append'')) (\<lambda>_.
     oreturn (resize (nat pixels) ws)))))))))))))"

definition fetch_raw_buffer :: "int \<Rightarrow> ('d archon, 16 word list) oprog" where
  "fetch_raw_buffer buf = othen update_state (\<lambda>_.
     othen (isbuffercomplete buf) (\<lambda>c.
     othen (othrow_unless c (Device_error ''buffer not complete for reading!'')) (\<lambda>_.
     othen (lockbuffer buf) (\<lambda>_.
     othen (get_rawblocks buf) (\<lambda>samp. othen (get_rawlines buf) (\<lambda>lines.
     othen (olift (c_int (samp * lines))) (\<lambda>total.
     othen (othen (frame_value ''BASE'' buf) (\<lambda>v. olift (stoul_base 10 v))) (\<lambda>baseaddr.
     othen (othen (frame_value ''RAWOFFSET'' buf) (\<lambda>v. olift (stoul_base 10 v))) (\<lambda>offset.
     othen (read_back_buffer 2 total 100 (baseaddr + offset)) (\<lambda>ws. oreturn (map ucast ws)))))))))))"

section \<open>Settings\<close>

definition set_tap_pixels :: "16 word \<Rightarrow> ('d archon, unit) oprog" where
  "set_tap_pixels n = write_apply ''APPLYCDS'' ''PIXELCOUNT'' (uint n)"

definition get_tap_pixels :: "('d archon, 16 word) oprog" where
  "get_tap_pixels = othen (read_int ''PIXELCOUNT'') (\<lambda>n. oreturn (word_of_int n))"

definition set_tap_lines :: "16 word \<Rightarrow> ('d archon, unit) oprog" where
  "set_tap_lines n = write_apply ''APPLYCDS'' ''LINECOUNT'' (uint n)"

definition get_tap_lines :: "('d archon, 16 word) oprog" where
  "get_tap_lines = othen (read_int ''LINECOUNT'') (\<lambda>n. oreturn (word_of_int n))"

definition setrawchannel :: "int \<Rightarrow> ('d archon, unit) oprog" where "setrawchannel = write_apply ''APPLYCDS'' ''RAWSEL''"
definition getrawchannel :: "('d archon, int) oprog" where "getrawchannel = read_int ''RAWSEL''"
definition setrawenable :: "bool \<Rightarrow> ('d archon, unit) oprog" where
  "setrawenable onoff = write_apply ''APPLYCDS'' ''RAWENABLE'' (of_bool onoff)"
definition getrawenable :: "('d archon, bool) oprog" where "getrawenable = read_bool ''RAWENABLE''"
definition setrawendline :: "int \<Rightarrow> ('d archon, unit) oprog" where "setrawendline = write_apply ''APPLYCDS'' ''RAWENDLINE''"
definition getrawendline :: "('d archon, int) oprog" where "getrawendline = read_int ''RAWENDLINE''"
definition setrawsamples :: "int \<Rightarrow> ('d archon, unit) oprog" where "setrawsamples = write_apply ''APPLYCDS'' ''RAWSAMPLES''"
definition getrawsamples :: "('d archon, int) oprog" where "getrawsamples = read_int ''RAWSAMPLES''"
definition setrawstartline :: "int \<Rightarrow> ('d archon, unit) oprog" where "setrawstartline = write_apply ''APPLYCDS'' ''RAWSTARTLINE''"
definition getrawstartline :: "('d archon, int) oprog" where "getrawstartline = read_int ''RAWSTARTLINE''"
definition setrawstartpixel :: "int \<Rightarrow> ('d archon, unit) oprog" where "setrawstartpixel = write_apply ''APPLYCDS'' ''RAWSTARTPIXEL''"
definition getrawstartpixel :: "('d archon, int) oprog" where "getrawstartpixel = read_int ''RAWSTARTPIXEL''"
definition setframemode :: "int \<Rightarrow> ('d archon, unit) oprog" where "setframemode = write_apply ''APPLYCDS'' ''FRAMEMODE''"
definition getframemode :: "('d archon, int) oprog" where "getframemode = read_int ''FRAMEMODE''"

definition setCDSTiming :: "int \<Rightarrow> int \<Rightarrow> int \<Rightarrow> int \<Rightarrow> ('d archon, unit) oprog" where
  "setCDSTiming reset_start reset_end signal_start signal_end =
     othen (write_int ''SHP1'' reset_start) (\<lambda>_. othen (write_int ''SHP2'' reset_end) (\<lambda>_.
     othen (write_int ''SHD1'' signal_start) (\<lambda>_. othen (write_int ''SHD2'' signal_end) (\<lambda>_. exec ''APPLYCDS''))))"

definition getreset_start :: "('d archon, int) oprog" where "getreset_start = read_int ''SHP1''"
definition getreset_end :: "('d archon, int) oprog" where "getreset_end = read_int ''SHP2''"
definition getsignal_start :: "('d archon, int) oprog" where "getsignal_start = read_int ''SHD1''"
definition getsignal_end :: "('d archon, int) oprog" where "getsignal_end = read_int ''SHD2''"

definition settrigoutinvert :: "bool \<Rightarrow> ('d archon, unit) oprog" where
  "settrigoutinvert b = write_apply ''APPLYSYSTEM'' ''TRIGOUTINVERT'' (of_bool b)"
definition gettrigoutinvert :: "('d archon, bool) oprog" where "gettrigoutinvert = read_bool ''TRIGOUTINVERT''"
definition settrigoutpower :: "bool \<Rightarrow> ('d archon, unit) oprog" where
  "settrigoutpower b = write_apply ''APPLYSYSTEM'' ''TRIGOUTPOWER'' (of_bool b)"
definition gettrigoutpower :: "('d archon, bool) oprog" where "gettrigoutpower = read_bool ''TRIGOUTPOWER''"
definition settrigoutforce :: "bool \<Rightarrow> ('d archon, unit) oprog" where
  "settrigoutforce b = write_apply ''APPLYSYSTEM'' ''TRIGOUTFORCE'' (of_bool b)"
definition gettrigoutforce :: "('d archon, bool) oprog" where "gettrigoutforce = read_bool ''TRIGOUTFORCE''"
definition settrigoutlevel :: "bool \<Rightarrow> ('d archon, unit) oprog" where
  "settrigoutlevel b = write_apply ''APPLYSYSTEM'' ''TRIGOUTLEVEL'' (of_bool b)"
definition gettrigoutlevel :: "('d archon, bool) oprog" where "gettrigoutlevel = read_bool ''TRIGOUTLEVEL''"

section \<open>Commands and their replies\<close>

lemma show_hex_small:
  assumes "0 \<le> i" "i < 16 ^ Suc k" "i < 2 ^ 32"
  shows "show_hex (Suc k) i = setw (Suc k) (CHR ''0'') (show_base True 16 (nat i))" "length (show_hex (Suc k) i) = Suc k"
proof -
  show eq: "show_hex (Suc k) i = setw (Suc k) (CHR ''0'') (show_base True 16 (nat i))"
    using assms(1,3) by (simp add: show_hex_def)
  have "nat i < 16 ^ Suc k" using assms(1,2) by (simp add: nat_less_iff)
  then show "length (show_hex (Suc k) i) = Suc k"
    using length_setw_base [of 16 "nat i" k] by (simp add: eq)
qed

lemma stoul_show_hex:
  assumes "0 \<le> i" "i < 16 ^ Suc k" "i < 2 ^ 32"
  shows "stoul_base 16 (show_hex (Suc k) i) = Inr i"
  using assms strtol_setw [of 16 "[]" "Suc k" True "nat i"] show_hex_small(1) [OF assms]
  by (simp add: stoul_base_def)

lemma digit_char_printable: "d < 16 \<Longrightarrow> isprint (digit_char upper d)"
  by (auto simp: isprint_def digit_char_def)

lemma show_base_printable: "2 \<le> base \<Longrightarrow> base \<le> 16 \<Longrightarrow> list_all isprint (show_base upper base n)"
proof (induction upper base n rule: show_base.induct)
  case (1 upper base n)
  have "n mod base < 16" using "1.prems" mod_less_divisor [of base n] by linarith
  with 1 show ?case by (simp add: show_base.simps [of upper base n] digit_char_printable)
qed

lemma zero_printable: "isprint (CHR ''0'')"
  by (simp add: isprint_def)

lemma show_hex_printable: "list_all isprint (show_hex w i)"
  using show_base_printable [of 16 True "nat (i mod 2 ^ 32)"]
  by (auto simp: show_hex_def setw_def list_all_iff zero_printable)

text \<open>The reply to the command with the sequence number \<open>ord\<close>.\<close>

definition reply_text :: "16 word \<Rightarrow> string \<Rightarrow> string" where
  "reply_text ord body = ''<'' @ show_hex 2 (uint ord) @ body"

lemma check_reply_text: "ord \<le> 0xFE \<Longrightarrow> check_reply ord (reply_text ord body) = Inr body"
proof -
  assume "ord \<le> 0xFE"
  then have ord: "uint ord < 16 ^ Suc 1" "uint ord < 2 ^ 32"
    by (simp_all add: word_le_def)
  have len: "length (show_hex 2 (uint ord)) = 2" and val: "stoul_base 16 (show_hex 2 (uint ord)) = Inr (uint ord)"
    using show_hex_small(2) [of "uint ord" 1] stoul_show_hex [of "uint ord" 1] ord by (simp_all add: numeral_2_eq_2)
  show ?thesis
    using len val by (simp add: check_reply_def reply_text_def substr_def substr_from_def)
qed

definition command_order :: "'d archon \<Rightarrow> 16 word" where
  "command_order s = (if arch_order s = 0xFE then 0 else arch_order s)"

lemma command_order_bound: "arch_order s \<le> 0xFE \<Longrightarrow> command_order s < 0xFE"
  by (auto simp: command_order_def)

text \<open>What is to be known of the connection before a command: nothing is waiting, it can be written
  to, and the sequence number is in its range.\<close>

definition ready :: "'d archon \<Rightarrow> bool" where
  "ready s \<longleftrightarrow> t_queue (arch_tcp s) = [] \<and> 0 \<le> os_write (t_os (arch_tcp s)) \<and> 0 < t_chunk_size (arch_tcp s) \<and>
     arch_order s \<le> 0xFE"

definition answers :: "'d archon \<Rightarrow> string \<Rightarrow> 'd \<Rightarrow> string \<Rightarrow> bool" where
  "answers s request d body \<longleftrightarrow> (\<exists>dt. t_react (arch_tcp s) (t_peer (arch_tcp s)) (request_text (command_order s) request) =
     (d, [(dt, Bytes (reply_text (command_order s) body @ [CHR 0x0A]))]))"

lemma cmd_answered:
  assumes ready: "ready s" and ans: "answers s request d body" and pr: "list_all isprint body"
  shows "\<exists>now. arch_cmd request s = Some (Inr body, s\<lparr>arch_order := command_order s + 1,
    arch_tcp := (arch_tcp s)\<lparr>t_peer := d, t_now := now, t_queue := []\<rparr>\<rparr>)"
proof -
  let ?ord = "command_order s" and ?t = "arch_tcp s"
  obtain dt where dt: "t_react ?t (t_peer ?t) (request_text ?ord request) = (d, [(dt, Bytes (reply_text ?ord body @ [CHR 0x0A]))])"
    using ans by (auto simp: answers_def)
  define t' where "t' = ?t\<lparr>t_peer := d, t_queue := [(t_now ?t + dt, Bytes (reply_text ?ord body @ [CHR 0x0A]))]\<rparr>"
  have written: "tcp_write (request_text ?ord request) ?t = (Inr (), t')"
    using ready dt by (simp add: tcp_write_def ready_def t'_def)
  have printable: "filter isprint (reply_text ?ord body) = reply_text ?ord body"
    using pr show_hex_printable [of 2 "uint ?ord"]
    by (auto simp: reply_text_def list_all_iff isprint_def intro!: filter_True)
  then have nl: "CHR 0x0A \<notin> set (reply_text ?ord body)"
    using pr show_hex_printable [of 2 "uint ?ord"] by (auto simp: reply_text_def list_all_iff isprint_def)
  obtain k where k: "tcp_read_until_endl (CHR 0x0A) t' = Some (Inr (reply_text ?ord body @ [CHR 0x0A] @ replicate k (CHR 0x00)),
      t'\<lparr>t_now := max (t_now t') (t_now ?t + dt), t_queue := []\<rparr>)"
    using read_line [of t' "t_now ?t + dt" "reply_text ?ord body" "CHR 0x0A"] ready nl by (auto simp: t'_def ready_def)
  have clean: "\<not> isprint (CHR 0x0A)" "filter isprint (replicate k (CHR 0x00)) = []"
    by (simp_all add: isprint_def filter_empty_conv)
  have chk: "check_reply ?ord (reply_text ?ord body) = Inr body"
    using check_reply_text command_order_bound [of s] ready by (simp add: ready_def order_less_imp_le)
  have "next_order s = (Inr ?ord, s\<lparr>arch_order := ?ord + 1\<rparr>)"
    by (simp add: next_order_def command_order_def Let_def)
  then have "arch_cmd request s = Some (Inr body, s\<lparr>arch_order := ?ord + 1,
      arch_tcp := t'\<lparr>t_now := max (t_now t') (t_now ?t + dt), t_queue := []\<rparr>\<rparr>)"
    by (simp add: arch_cmd_def othen_def always_def on_tcp_def written k clean printable chk lifts_def)
  then show ?thesis by (auto simp: t'_def)
qed


section \<open>The configuration memory\<close>

text \<open>What the manual of the controller says of its memory: \<open>WCONFIG\<close> stores a line and is answered
  with nothing, \<open>RCONFIG\<close> is answered with the line. \<open>mem\<close> reads the memory off the state of the
  controller.\<close>

definition config_device :: "('d \<Rightarrow> int \<Rightarrow> string) \<Rightarrow> ('d \<Rightarrow> string \<Rightarrow> 'd \<times> (nat \<times> arrival) list) \<Rightarrow> bool" where
  "config_device mem react \<longleftrightarrow> (\<forall>d ord n line. ord \<le> 0xFE \<longrightarrow> 0 \<le> n \<longrightarrow> n < 2048 \<longrightarrow>
     (\<exists>d' dt. react d (request_text ord (''WCONFIG'' @ show_hex 4 n @ line)) = (d', [(dt, Bytes (reply_text ord [] @ [CHR 0x0A]))]) \<and>
        mem d' = (mem d)(n := line)) \<and>
     (\<exists>d' dt. react d (request_text ord (''RCONFIG'' @ show_hex 4 n)) = (d', [(dt, Bytes (reply_text ord (mem d n) @ [CHR 0x0A]))]) \<and>
        mem d' = mem d))"

definition memory :: "('d \<Rightarrow> int \<Rightarrow> string) \<Rightarrow> 'd archon \<Rightarrow> int \<Rightarrow> string" where
  "memory mem s = mem (t_peer (arch_tcp s))"

definition line_ok :: "string \<Rightarrow> string \<Rightarrow> bool" where
  "line_ok k l \<longleftrightarrow> CHR ''='' \<notin> set k \<and> list_all isprint l \<and> (\<exists>v. l = k @ ''='' @ v)"

definition config_ok :: "('d \<Rightarrow> int \<Rightarrow> string) \<Rightarrow> 'd archon \<Rightarrow> bool" where
  "config_ok mem s \<longleftrightarrow> ready s \<and> config_device mem (t_react (arch_tcp s)) \<and>
     0 \<le> config_lines s \<and> config_lines s \<le> 2047 \<and> inj_on (map_of (configlinemap s)) (dom (map_of (configlinemap s))) \<and>
     (\<forall>k n. map_of (configlinemap s) k = Some n \<longrightarrow> 0 \<le> n \<and> n < config_lines s \<and> line_ok k (memory mem s n))"

definition config_dict :: "('d \<Rightarrow> int \<Rightarrow> string) \<Rightarrow> 'd archon \<Rightarrow> string \<Rightarrow> string option" where
  "config_dict mem s k = map_option (\<lambda>n. drop (length k + 1) (memory mem s n)) (map_of (configlinemap s) k)"

definition config_fits :: "'d archon \<Rightarrow> string \<Rightarrow> string \<Rightarrow> bool" where
  "config_fits s k v \<longleftrightarrow> CHR ''='' \<notin> set k \<and> list_all isprint k \<and> list_all isprint v \<and>
     length k + length v < 2046 \<and> config_lines s < 2047"

lemma cmd_stores:
  assumes "config_ok mem s" "0 \<le> n" "n < 2048"
  shows "\<exists>d now. arch_cmd (''WCONFIG'' @ show_hex 4 n @ line) s = Some (Inr [], s\<lparr>arch_order := command_order s + 1,
      arch_tcp := (arch_tcp s)\<lparr>t_peer := d, t_now := now, t_queue := []\<rparr>\<rparr>) \<and>
    mem d = (memory mem s)(n := line)"
proof -
  have ready: "ready s" and ord: "command_order s \<le> 0xFE" and dev: "config_device mem (t_react (arch_tcp s))"
    using assms(1) command_order_bound [of s] by (auto simp: config_ok_def ready_def order_less_imp_le)
  obtain d dt where d: "t_react (arch_tcp s) (t_peer (arch_tcp s)) (request_text (command_order s) (''WCONFIG'' @ show_hex 4 n @ line)) =
      (d, [(dt, Bytes (reply_text (command_order s) [] @ [CHR 0x0A]))])" "mem d = (memory mem s)(n := line)"
    using dev assms(2,3) ord unfolding config_device_def memory_def by meson
  have "answers s (''WCONFIG'' @ show_hex 4 n @ line) d []"
    using d(1) by (simp add: answers_def)
  from cmd_answered [OF ready this] d(2) show ?thesis by auto
qed

lemma cmd_recalls:
  assumes "config_ok mem s" "0 \<le> n" "n < 2048" "list_all isprint (memory mem s n)"
  shows "\<exists>d now. arch_cmd (''RCONFIG'' @ show_hex 4 n) s = Some (Inr (memory mem s n), s\<lparr>arch_order := command_order s + 1,
      arch_tcp := (arch_tcp s)\<lparr>t_peer := d, t_now := now, t_queue := []\<rparr>\<rparr>) \<and>
    mem d = memory mem s"
proof -
  have ready: "ready s" and ord: "command_order s \<le> 0xFE" and dev: "config_device mem (t_react (arch_tcp s))"
    using assms(1) command_order_bound [of s] by (auto simp: config_ok_def ready_def order_less_imp_le)
  obtain d dt where d: "t_react (arch_tcp s) (t_peer (arch_tcp s)) (request_text (command_order s) (''RCONFIG'' @ show_hex 4 n)) =
      (d, [(dt, Bytes (reply_text (command_order s) (memory mem s n) @ [CHR 0x0A]))])" "mem d = memory mem s"
    using dev assms(2,3) ord unfolding config_device_def memory_def by meson
  have "answers s (''RCONFIG'' @ show_hex 4 n) d (memory mem s n)"
    using d(1) by (simp add: answers_def)
  from cmd_answered [OF ready this assms(4)] d(2) show ?thesis by auto
qed

lemma command_order_next: "arch_order s \<le> 0xFE \<Longrightarrow> command_order s + 1 \<le> 0xFE"
proof -
  assume "arch_order s \<le> 0xFE"
  then have "command_order s < 0xFE" by (rule command_order_bound)
  then show ?thesis by (simp add: inc_le)
qed

text \<open>After a command the memory is all that may be different.\<close>

lemma config_ok_after:
  assumes "config_ok mem s" "mem d = memory mem s"
  shows "config_ok mem (s\<lparr>arch_order := command_order s + 1, arch_tcp := (arch_tcp s)\<lparr>t_peer := d, t_now := now, t_queue := []\<rparr>\<rparr>)"
  using assms command_order_next [of s] by (auto simp: config_ok_def ready_def memory_def)

lemma after_equals_line: "CHR ''='' \<notin> set k \<Longrightarrow> after_equals (k @ CHR ''='' # v) = Inr v"
  by (induction k) (auto simp: after_equals_def)

lemma readKeyValue_refines:
  assumes ok: "config_ok mem s" and v: "config_dict mem s k = Some v"
  shows "\<exists>s'. readKeyValue k s = Some (Inr v, s') \<and> config_ok mem s' \<and> config_dict mem s' = config_dict mem s"
proof -
  obtain n where n: "map_of (configlinemap s) k = Some n" "v = drop (length k + 1) (memory mem s n)"
    using v by (auto simp: config_dict_def)
  have line: "0 \<le> n" "n < config_lines s" "config_lines s \<le> 2047" "line_ok k (memory mem s n)"
    using ok n(1) by (auto simp: config_ok_def)
  then have "memory mem s n = k @ ''='' @ v" "CHR ''='' \<notin> set k" "list_all isprint (memory mem s n)"
    using n(2) by (auto simp: line_ok_def)
  moreover obtain d now where d: "arch_cmd (''RCONFIG'' @ show_hex 4 n) s = Some (Inr (memory mem s n), s\<lparr>arch_order := command_order s + 1,
      arch_tcp := (arch_tcp s)\<lparr>t_peer := d, t_now := now, t_queue := []\<rparr>\<rparr>)" "mem d = memory mem s"
    using cmd_recalls [OF ok line(1)] line calculation(3) by auto
  ultimately show ?thesis
    using n(1) line(2) config_ok_after [OF ok d(2), of now]
    by (auto simp: readKeyValue_def readConfigLine_def othen_unless always_def lifts_def after_equals_line
        config_dict_def memory_def fun_eq_iff)
qed

lemma config_ok_store:
  fixes now :: nat
  assumes ok: "config_ok mem s" and d: "mem d = (memory mem s)(n := l)" and l: "line_ok k l"
    and n: "0 \<le> n" "n < m" "config_lines s \<le> m" "m \<le> 2047"
    and fresh: "\<And>k'. k' \<noteq> k \<Longrightarrow> map_of (configlinemap s) k' \<noteq> Some n"
    and cl: "map_of cl = (map_of (configlinemap s))(k \<mapsto> n)"
  defines "s' \<equiv> s\<lparr>arch_order := command_order s + 1, arch_tcp := (arch_tcp s)\<lparr>t_peer := d, t_now := now, t_queue := []\<rparr>,
      config_lines := m, configlinemap := cl\<rparr>"
  shows "config_ok mem s' \<and> config_dict mem s' = (config_dict mem s)(k \<mapsto> drop (length k + 1) l)"
proof
  let ?m = "map_of (configlinemap s)"
  have mem': "memory mem s' = (memory mem s)(n := l)"
    by (simp add: memory_def s'_def d fun_eq_iff)
  have cl': "map_of (configlinemap s') = ?m(k \<mapsto> n)"
    by (simp add: s'_def cl)
  have inj: "inj_on (?m(k \<mapsto> n)) (dom (?m(k \<mapsto> n)))"
    using ok fresh unfolding config_ok_def inj_on_def by (auto split: if_splits)
  have old: "0 \<le> i \<and> i < config_lines s \<and> line_ok j (memory mem s i)" if "?m j = Some i" for j i
    using ok that by (auto simp: config_ok_def)
  have "0 \<le> i \<and> i < m \<and> line_ok j (memory mem s' i)" if "(?m(k \<mapsto> n)) j = Some i" for j i
    using that l n old [of j i] fresh [of j] by (auto simp: mem' split: if_splits)
  moreover have "config_lines s' = m" "ready s'" "config_device mem (t_react (arch_tcp s'))"
    using ok command_order_next [of s] by (simp_all add: s'_def config_ok_def ready_def)
  ultimately show "config_ok mem s'"
    using n inj ok unfolding config_ok_def cl' by simp
  show "config_dict mem s' = (config_dict mem s)(k \<mapsto> drop (length k + 1) l)"
    using fresh by (auto simp: config_dict_def cl' mem' fun_eq_iff map_option_case split: option.split)
qed

lemma line_ok_intro: "config_fits s k v \<Longrightarrow> line_ok k (k @ ''='' @ v)"
  by (simp add: config_fits_def line_ok_def isprint_def)

lemma writeConfigLine_stores:
  assumes ok: "config_ok mem s" and room: "config_lines s < 2047" "length l < 2047" and num: "num < config_lines s"
  shows "\<exists>d now. writeConfigLine l num s = Some (Inr (if num < 0 then config_lines s else num),
      s\<lparr>arch_order := command_order s + 1, arch_tcp := (arch_tcp s)\<lparr>t_peer := d, t_now := now, t_queue := []\<rparr>,
        config_lines := (if num < 0 then config_lines s + 1 else config_lines s)\<rparr>) \<and>
    mem d = (memory mem s)((if num < 0 then config_lines s else num) := l)"
proof (cases "num < 0")
  case True
  let ?s = "s\<lparr>config_lines := config_lines s + 1\<rparr>"
  have ok': "config_ok mem ?s" "0 \<le> config_lines s"
    using ok room by (auto simp: config_ok_def ready_def memory_def) (metis order_less_imp_le add_strict_increasing2 zero_less_one)+
  have same: "memory mem ?s = memory mem s" "command_order ?s = command_order s"
    by (simp_all add: memory_def command_order_def)
  obtain d now where "arch_cmd (''WCONFIG'' @ show_hex 4 (config_lines s) @ l) ?s = Some (Inr [],
      ?s\<lparr>arch_order := command_order s + 1, arch_tcp := (arch_tcp s)\<lparr>t_peer := d, t_now := now, t_queue := []\<rparr>\<rparr>)"
    "mem d = (memory mem s)(config_lines s := l)"
    using cmd_stores [OF ok'(1), of "config_lines s" l] ok'(2) room by (auto simp: same)
  then show ?thesis
    using room True
    by (intro exI [of _ d] exI [of _ now]) (simp add: writeConfigLine_def othen_unless always_def returns_def)
next
  case False
  then obtain d now where "arch_cmd (''WCONFIG'' @ show_hex 4 num @ l) s = Some (Inr [], s\<lparr>arch_order := command_order s + 1,
      arch_tcp := (arch_tcp s)\<lparr>t_peer := d, t_now := now, t_queue := []\<rparr>\<rparr>)" "mem d = (memory mem s)(num := l)"
    using cmd_stores [OF ok, of num l] room num by auto
  then show ?thesis
    using room num False
    by (intro exI [of _ d] exI [of _ now]) (simp add: writeConfigLine_def othen_unless always_def returns_def)
qed

lemma writeKeyValue_refines:
  assumes ok: "config_ok mem s" and fits: "config_fits s k v"
  shows "\<exists>s'. writeKeyValue k v s = Some (Inr (), s') \<and> config_ok mem s' \<and> config_dict mem s' = (config_dict mem s)(k \<mapsto> v)"
proof -
  let ?l = "k @ ''='' @ v"
  have room: "config_lines s < 2047" "length ?l < 2047" and line: "line_ok k ?l" "drop (length k + 1) ?l = v"
    using fits line_ok_intro [OF fits] by (auto simp: config_fits_def)
  have low: "0 \<le> config_lines s"
    using ok by (simp add: config_ok_def)
  show ?thesis
  proof (cases "map_of (configlinemap s) k")
    case None
    obtain d now where d: "writeConfigLine ?l (-1) s = Some (Inr (config_lines s), s\<lparr>arch_order := command_order s + 1,
        arch_tcp := (arch_tcp s)\<lparr>t_peer := d, t_now := now, t_queue := []\<rparr>, config_lines := config_lines s + 1\<rparr>)"
      "mem d = (memory mem s)(config_lines s := ?l)"
      using writeConfigLine_stores [OF ok room, of "-1"] low by auto
    have fresh: "map_of (configlinemap s) k' \<noteq> Some (config_lines s)" for k'
      using ok unfolding config_ok_def by (meson less_irrefl)
    have cl: "map_of (map_insert k (config_lines s) (configlinemap s)) = (map_of (configlinemap s))(k \<mapsto> config_lines s)"
      using None by (simp add: map_of_map_insert)
    show ?thesis
      using config_ok_store [OF ok d(2) line(1) low _ _ _ fresh cl, of "config_lines s + 1" now] None d(1) room line(2)
      by (simp add: writeKeyValue_def Let_def othen_def always_def modifies_def gets_def)
  next
    case (Some n)
    then have n: "0 \<le> n" "n < config_lines s" using ok by (auto simp: config_ok_def)
    obtain d now where d: "writeConfigLine ?l n s = Some (Inr n, s\<lparr>arch_order := command_order s + 1,
        arch_tcp := (arch_tcp s)\<lparr>t_peer := d, t_now := now, t_queue := []\<rparr>, config_lines := config_lines s\<rparr>)"
      "mem d = (memory mem s)(n := ?l)"
      using writeConfigLine_stores [OF ok room n(2)] n by auto
    have fresh: "map_of (configlinemap s) k' \<noteq> Some n" if "k' \<noteq> k" for k'
      using ok Some that unfolding config_ok_def inj_on_def by (metis domI)
    have cl: "map_of (configlinemap s) = (map_of (configlinemap s))(k \<mapsto> n)"
      using Some by auto
    show ?thesis
      using config_ok_store [OF ok d(2) line(1) n(1) n(2) _ _ fresh cl, of now] Some d(1) room line(2)
      by (simp add: writeKeyValue_def Let_def othen_def always_def returns_def gets_def)
  qed
qed

interpretation arch: settings_store "config_ok mem" "config_dict mem" config_fits writeKeyValue readKeyValue
  by unfold_locales (blast intro: writeKeyValue_refines readKeyValue_refines)+

section \<open>What a command leaves alone\<close>

lemma on_tcp_frame: "on_tcp m s = Some (r, s') \<Longrightarrow> \<exists>t. s' = s\<lparr>arch_tcp := t\<rparr>"
  by (auto simp: on_tcp_def split: option.splits)

lemma cmd_frame: "arch_cmd request s = Some (r, s') \<Longrightarrow> \<exists>ord t. s' = s\<lparr>arch_order := ord, arch_tcp := t\<rparr>"
  by (auto simp: arch_cmd_def othen_def always_def next_order_def lifts_def Let_def on_tcp_def
      split: option.splits prod.splits sum.splits)

definition same_books :: "'d archon \<Rightarrow> 'd archon \<Rightarrow> bool" where
  "same_books s s' \<longleftrightarrow> parammap s' = parammap s \<and> constantmap s' = constantmap s \<and> statenames s' = statenames s \<and>
     ADtaplinemap s' = ADtaplinemap s \<and> taplines s' = taplines s \<and> arch_modules s' = arch_modules s \<and>
     config_lines s \<le> config_lines s' \<and> config_lines s' \<le> config_lines s + 1"

lemma readConfigLine_frame:
  "readConfigLine n b s = Some (r, s') \<Longrightarrow> \<exists>ord t. s' = s\<lparr>arch_order := ord, arch_tcp := t\<rparr>"
proof -
  assume "readConfigLine n b s = Some (r, s')"
  then consider "s' = s" | "arch_cmd (''RCONFIG'' @ show_hex 4 n) s = Some (r, s')"
    by (auto simp: readConfigLine_def othen_unless split: if_splits)
  then show ?thesis
  proof cases
    case 1
    then show ?thesis by (intro exI [of _ "arch_order s"] exI [of _ "arch_tcp s"]) simp
  next
    case 2
    then show ?thesis by (rule cmd_frame)
  qed
qed

lemma readKeyValue_books:
  assumes "readKeyValue k s = Some (r, s')"
  shows "same_books s s' \<and> config_lines s' = config_lines s"
proof (cases "map_of (configlinemap s) k")
  case None
  with assms show ?thesis by (simp add: readKeyValue_def always_def throws_def same_books_def)
next
  case (Some n)
  then obtain r1 where "readConfigLine n False s = Some (r1, s')"
    using assms by (auto simp: readKeyValue_def othen_def always_def gets_def lifts_def split: option.splits prod.splits sum.splits)
  then show ?thesis by (auto simp: same_books_def dest!: readConfigLine_frame)
qed

lemma writeConfigLine_books: "writeConfigLine l n s = Some (r, s') \<Longrightarrow> same_books s s'"
  by (auto simp: writeConfigLine_def othen_unless othen_def [where m = "arch_cmd _"] othen_def [where m = "if _ then _ else _"]
      always_def modifies_def returns_def same_books_def othrow_unless_def throw_unless_def throws_def Let_def
      split: if_splits option.splits prod.splits sum.splits dest!: cmd_frame)

lemma writeKeyValue_books:
  assumes "writeKeyValue k v s = Some (r, s')"
  shows "same_books s s'"
proof -
  obtain r1 s1 n where w: "writeConfigLine (k @ ''='' @ v) n s = Some (r1, s1)" and s1: "same_books s1 s' \<and> config_lines s' = config_lines s1"
    using assms
    by (auto simp: writeKeyValue_def Let_def othen_def always_def gets_def modifies_def returns_def same_books_def
        split: option.splits prod.splits sum.splits)
  with writeConfigLine_books [OF w] show ?thesis by (auto simp: same_books_def)
qed

section \<open>A controller\<close>

text \<open>A controller that keeps configuration lines and answers everything else with nothing, and a driver
  that has written one key.\<close>

definition demo_react :: "(int \<Rightarrow> string) \<Rightarrow> string \<Rightarrow> (int \<Rightarrow> string) \<times> (nat \<times> arrival) list" where
  "demo_react d txt = (let h = take 2 (drop 1 txt); r = butlast (drop 3 txt);
       n = (case stoul_base 16 (take 4 (drop 7 r)) of Inr i \<Rightarrow> i | Inl _ \<Rightarrow> 0)
     in if take 7 r = ''WCONFIG'' then (d(n := drop 11 r), [(0, Bytes (''<'' @ h @ [CHR 0x0A]))])
        else if take 7 r = ''RCONFIG'' then (d, [(0, Bytes (''<'' @ h @ d n @ [CHR 0x0A]))])
        else (d, [(0, Bytes (''<'' @ h @ [CHR 0x0A]))]))"

lemma demo_react_config: "config_device (\<lambda>d. d) demo_react"
  unfolding config_device_def
proof (intro allI impI)
  fix d :: "int \<Rightarrow> string" and ord :: "16 word" and n :: int and line :: string
  assume ord: "ord \<le> 0xFE" and n: "0 \<le> n" "n < 2048"
  have ord': "uint ord < 16 ^ Suc 1" "uint ord < 2 ^ 32"
    using ord by (simp_all add: word_le_def)
  have h: "length (show_hex 2 (uint ord)) = 2"
    using show_hex_small(2) [of "uint ord" 1] ord' by (simp add: numeral_2_eq_2)
  have k: "length (show_hex 4 n) = 4" "stoul_base 16 (show_hex 4 n) = Inr n"
    using show_hex_small(2) [of n 3] stoul_show_hex [of n 3] n by (simp_all add: numeral_eq_Suc)
  show "(\<exists>d' dt. demo_react d (request_text ord (''WCONFIG'' @ show_hex 4 n @ line)) = (d', [(dt, Bytes (reply_text ord [] @ [CHR 0x0A]))]) \<and>
        d' = d(n := line)) \<and>
     (\<exists>d' dt. demo_react d (request_text ord (''RCONFIG'' @ show_hex 4 n)) = (d', [(dt, Bytes (reply_text ord (d n) @ [CHR 0x0A]))]) \<and>
        d' = d)"
    using h k by (simp add: demo_react_def request_text_def reply_text_def Let_def butlast_append)
qed

definition demo_arch :: "'d tcp \<Rightarrow> 'd archon" where
  "demo_arch t = \<lparr>arch_tcp = t, arch_order = 7, arch_system = [], arch_status = [], arch_frame = [], arch_modules = [],
     configlinemap = [(''PARAMETERS'', 0)], statenames = [], parammap = [], constantmap = [], ADtaplinemap = [],
     config_lines = 1, taplines = 0, arch_states = 0, arch_tmr = 0, sys_tmr = 0\<rparr>"

definition demo_archon :: "(int \<Rightarrow> string) archon" where
  "demo_archon = demo_arch (demo_tcp (\<lambda>_. ''PARAMETERS=0'') demo_react)"

lemma show_int_0: "show_int 0 = ''0''"
  by code_simp

lemma demo_archon_ok:
  "config_ok (\<lambda>d. d) demo_archon" "config_dict (\<lambda>d. d) demo_archon ''PARAMETERS'' = Some ''0''" "config_lines demo_archon = 1"
  "statenames demo_archon = []" "map_of (parammap demo_archon) k = None"
  using demo_react_config
  by (simp_all add: config_ok_def ready_def demo_archon_def demo_arch_def demo_tcp_def demo_os_def line_ok_def memory_def
      isprint_def config_dict_def inj_on_def)

section \<open>Properties\<close>

text \<open>The laws of the store with what the driver itself remembers.\<close>

lemma arch_write_good:
  assumes "config_ok mem s" "config_fits s k v"
  obtains s' where "writeKeyValue k v s = Some (Inr (), s')" "config_ok mem s'"
    "config_dict mem s' = (config_dict mem s)(k \<mapsto> v)" "same_books s s'"
  using arch.put_law [OF assms] writeKeyValue_books by blast

lemma arch_read_good:
  assumes "config_ok mem s" "config_dict mem s k = Some v"
  obtains s' where "readKeyValue k s = Some (Inr v, s')" "config_ok mem s'"
    "config_dict mem s' = config_dict mem s" "same_books s s'" "config_lines s' = config_lines s"
  using arch.fetch_law [OF assms] readKeyValue_books by blast

lemma read_int_good:
  assumes "config_ok mem s" "config_dict mem s k = Some (show_int i)" "int_min \<le> i" "i \<le> int_max"
  obtains s' where "read_int k s = Some (Inr i, s')" "config_ok mem s'"
    "config_dict mem s' = config_dict mem s" "same_books s s'" "config_lines s' = config_lines s"
proof -
  obtain s' where "readKeyValue k s = Some (Inr (show_int i), s')" "config_ok mem s'"
      "config_dict mem s' = config_dict mem s" "same_books s s'" "config_lines s' = config_lines s"
    using arch_read_good [OF assms(1,2)] .
  with that show ?thesis
    by (simp add: read_int_def always_def lifts_def stoi_show_int [OF assms(3,4)])
qed

text \<open>
  C33. The driver and the memory of the controller together are a dictionary: writing under a key
  changes the entry of this key and of no other, and every key that was ever written reads as
  what was written last, however the lines are laid out in the memory.
\<close>

theorem archon_memory_is_a_dictionary:
  assumes "config_ok mem s" "config_fits s k v"
  shows "\<exists>s'. writeKeyValue k v s = Some (Inr (), s') \<and> config_ok mem s' \<and>
    config_dict mem s' = (config_dict mem s)(k \<mapsto> v) \<and>
    (\<forall>k' v'. config_dict mem s' k' = Some v' \<longrightarrow>
      (\<exists>s''. readKeyValue k' s' = Some (Inr v', s'') \<and> config_dict mem s'' = config_dict mem s'))"
  using arch.put_law [OF assms] arch.fetch_law by meson

lemma archon_memory_is_a_dictionary_witness:
  "\<exists>s'. writeKeyValue ''LINES'' ''12'' demo_archon = Some (Inr (), s') \<and>
    (\<exists>s''. readKeyValue ''PARAMETERS'' s' = Some (Inr ''0'', s'')) \<and> (\<exists>s''. readKeyValue ''LINES'' s' = Some (Inr ''12'', s''))"
proof -
  have "config_fits demo_archon ''LINES'' ''12''"
    by (simp add: config_fits_def isprint_def demo_archon_ok)
  from archon_memory_is_a_dictionary [OF demo_archon_ok(1) this] obtain s' where
    s': "writeKeyValue ''LINES'' ''12'' demo_archon = Some (Inr (), s')"
      "config_dict (\<lambda>d. d) s' = (config_dict (\<lambda>d. d) demo_archon)(''LINES'' \<mapsto> ''12'')"
    and read: "\<And>k v. config_dict (\<lambda>d. d) s' k = Some v \<Longrightarrow> \<exists>s''. readKeyValue k s' = Some (Inr v, s'')"
    by blast
  show ?thesis
    using s'(1) read [of "''PARAMETERS''" "''0''"] read [of "''LINES''" "''12''"] demo_archon_ok(2) by (simp add: s'(2))
qed



lemma show_nat_printable: "list_all isprint (show_nat n)"
  using show_base_printable [of 10 False n] by (simp add: show_nat_def)

lemma show_int_facts:
  assumes "0 \<le> i" "i \<le> int_max"
  shows "show_int i = show_nat (nat i)" "length (show_int i) \<le> 10" "list_all isprint (show_int i)" "CHR ''='' \<notin> set (show_int i)"
proof -
  show eq: "show_int i = show_nat (nat i)"
    using assms(1) by (simp add: show_int_def)
  show "length (show_int i) \<le> 10"
    using assms length_show_nat [of "nat i" 9] by (simp add: eq int_max_def)
  show "list_all isprint (show_int i)"
    by (simp add: eq show_nat_printable)
  have "\<not> is_digit 10 (CHR ''='')"
    by (simp add: is_digit_def digit_val_def Let_def)
  then show "CHR ''='' \<notin> set (show_int i)"
    using show_nat_digits [of "nat i"] by (auto simp: eq list_all_iff)
qed

definition name_ok :: "string \<Rightarrow> bool" where
  "name_ok name \<longleftrightarrow> CHR ''='' \<notin> set name \<and> list_all isprint name \<and> length name \<le> 1000"

lemma isprint_equals [simp]: "isprint (CHR ''='')"
  by (simp add: isprint_def)

lemma param_fits:
  assumes "name_ok name" "0 \<le> n" "n \<le> int_max" "config_lines s < 2047"
  shows "config_fits s (''PARAMETER'' @ show_int n) (name @ ''='' @ show_nat (unat (val :: 32 word)))"
proof -
  have "unat val < 10 ^ Suc 9"
    using unsigned_less [of val, where ?'a = nat] by simp
  then have "length (show_nat (unat val)) \<le> 10"
    using length_show_nat [of "unat val" 9] by simp
  then show ?thesis
    using assms show_int_facts [of n] show_nat_printable [of "unat val"]
    by (auto simp: config_fits_def name_ok_def isprint_def)
qed

lemma count_fits:
  assumes "k \<in> {''PARAMETERS'', ''CONSTANTS'', ''STATES'', ''TAPLINES''}" "0 \<le> n" "n \<le> int_max" "config_lines s < 2047"
  shows "config_fits s k (show_int n)"
  using assms show_int_facts [of n] by (auto simp: config_fits_def isprint_def)

lemma quoted_param:
  assumes "name_ok name"
  shows "rbind (quoted_value (name @ CHR ''='' # show_nat (unat (val :: 32 word)))) (stoul_base 10) = Inr (uint val)"
proof -
  have noq: "takeWhile (\<lambda>c. c \<noteq> CHR 0x22) (show_nat n) = show_nat n" for n
    using show_nat_digits [of n] by (auto simp: takeWhile_eq_all_conv list_all_iff is_digit_def digit_val_def Let_def)
  have "dropWhile (\<lambda>c. c \<noteq> CHR ''='') (name @ CHR ''='' # r) = CHR ''='' # r" for r
    using assms by (subst dropWhile_append2) (auto simp: name_ok_def)
  moreover have "stoul_base 10 (show_nat (unat val)) = Inr (uint val)"
    using strtol_setw [of 10 "[]" 0 False "unat val"] uint_lt2p [of val] order_less_le_trans [OF _ uint_ge_0 [of val], of "- (2 ^ 64)"]
    by (simp add: stoul_base_def setw_def show_nat_def)
  ultimately show ?thesis by (simp add: quoted_value_def noq)
qed

lemma config_ok_books [simp]:
  "config_ok mem (s\<lparr>parammap := p\<rparr>) = config_ok mem s" "config_dict mem (s\<lparr>parammap := p\<rparr>) = config_dict mem s"
  "config_ok mem (s\<lparr>statenames := x\<rparr>) = config_ok mem s" "config_dict mem (s\<lparr>statenames := x\<rparr>) = config_dict mem s"
  by (simp_all add: config_ok_def config_dict_def ready_def memory_def fun_eq_iff)

definition param_slot :: "('d \<Rightarrow> int \<Rightarrow> string) \<Rightarrow> 'd archon \<Rightarrow> string \<Rightarrow> int \<Rightarrow> bool" where
  "param_slot mem s name n \<longleftrightarrow> 0 \<le> n \<and> n < int_max \<and> (case map_of (parammap s) name of
     Some m \<Rightarrow> n = m | None \<Rightarrow> config_dict mem s ''PARAMETERS'' = Some (show_int n))"

lemma param_number_good:
  assumes ok: "config_ok mem s" and slot: "param_slot mem s name n" and room: "config_lines s < 2046"
  obtains s' where "param_number name s = Some (Inr n, s')" "config_ok mem s'" "map_of (parammap s') name = Some n"
    "config_lines s' < 2047"
proof (cases "map_of (parammap s) name")
  case (Some m)
  then show ?thesis
    using that [of s] ok slot room by (simp add: param_number_def param_slot_def always_def returns_def)
next
  case None
  have n: "0 \<le> n" "n < int_max" "config_dict mem s ''PARAMETERS'' = Some (show_int n)"
    using slot None by (simp_all add: param_slot_def)
  obtain s1 where s1: "read_int ''PARAMETERS'' s = Some (Inr n, s1)" "config_ok mem s1" "same_books s s1" "config_lines s1 = config_lines s"
    using read_int_good [OF ok n(3)] n by (auto simp: int_min_def)
  define s2 where "s2 = s1\<lparr>parammap := um_set name n (parammap s1)\<rparr>"
  have "config_ok mem s2" "config_fits s2 ''PARAMETERS'' (show_int (n + 1))"
    using s1 room count_fits [of "''PARAMETERS''" "n + 1" s2] n by (simp_all add: s2_def)
  then obtain s3 where s3: "writeKeyValue ''PARAMETERS'' (show_int (n + 1)) s2 = Some (Inr (), s3)" "config_ok mem s3" "same_books s2 s3"
    using arch_write_good by blast
  have "c_int (n + 1) = Inr (n + 1)"
    using n by (simp add: c_int_def int_max_def)
  then have "param_number name s = Some (Inr n, s3)"
    using None s1(1) s3(1)
    by (simp add: param_number_def get_parameters_def othen_olift write_int_def s2_def [symmetric]) (simp add: always_def returns_def)
  moreover have "map_of (parammap s3) name = Some n" "config_lines s3 < 2047"
    using s3(3) s1(4) room by (simp_all add: same_books_def s2_def)
  ultimately show ?thesis using that s3(2) by blast
qed

text \<open>
  A parameter that was set reads back as it was set, all 32 bits of it, whether the driver knew
  the name before or has to find a new slot for it.
\<close>

theorem archon_param_round_trip:
  assumes "config_ok mem s" "name_ok name" "param_slot mem s name n" "config_lines s < 2046"
  shows "\<exists>s'. othen (setParam name val) (\<lambda>_. getParam name) s = Some (Inr val, s')"
proof -
  have n: "0 \<le> n" "n \<le> int_max"
    using assms(3) by (simp_all add: param_slot_def)
  obtain s1 where s1: "param_number name s = Some (Inr n, s1)" "config_ok mem s1" "map_of (parammap s1) name = Some n"
      "config_lines s1 < 2047"
    using param_number_good [OF assms(1,3,4)] .
  obtain s2 where s2: "writeKeyValue (''PARAMETER'' @ show_int n) (name @ ''='' @ show_nat (unat val)) s1 = Some (Inr (), s2)"
      "config_ok mem s2" "config_dict mem s2 = (config_dict mem s1)(''PARAMETER'' @ show_int n \<mapsto> name @ ''='' @ show_nat (unat val))"
      "same_books s1 s2"
    using arch_write_good [OF s1(2) param_fits [OF assms(2) n s1(4)]] .
  obtain s3 where s3: "readKeyValue (''PARAMETER'' @ show_int n) s2 = Some (Inr (name @ ''='' @ show_nat (unat val)), s3)"
    using arch_read_good [OF s2(2), of "''PARAMETER'' @ show_int n"] s2(3) by auto
  have "setParam name val s = Some (Inr (), s2)"
    using s1(1) s2(1) by (simp add: setParam_def)
  moreover have "map_of (parammap s2) name = Some n"
    using s1(3) s2(4) by (simp add: same_books_def)
  ultimately show ?thesis
    using s3 quoted_param [OF assms(2), of val]
    by (auto simp: getParam_def always_def lifts_def rbind_eq_Inr)
qed

lemma archon_param_round_trip_witness:
  "\<exists>s'. othen (setParam ''Exposures'' 4294967295) (\<lambda>_. getParam ''Exposures'') demo_archon = Some (Inr 4294967295, s')"
proof -
  have "name_ok ''Exposures''"
    by (simp add: name_ok_def isprint_def)
  moreover have "param_slot (\<lambda>d. d) demo_archon ''Exposures'' 0"
    using demo_archon_ok by (simp add: param_slot_def int_max_def show_int_0)
  ultimately show ?thesis
    using archon_param_round_trip [OF demo_archon_ok(1)] demo_archon_ok(3) by simp
qed

lemma tl_in_set: "x \<in> set (tl xs) \<Longrightarrow> x \<in> set xs"
  by (cases xs) auto

lemma state_line_fits:
  assumes "CHR ''='' \<in> set l" "list_all isprint l" "length l \<le> 1000" "idx < 10 ^ 10" "config_lines s < 2047"
  shows "config_fits s (''STATE'' @ show_nat idx @ ''/'' @ takeWhile (\<lambda>c. c \<noteq> CHR ''='') l)
    (tl (dropWhile (\<lambda>c. c \<noteq> CHR ''='') l))"
proof -
  have len: "length (show_nat idx) \<le> 10"
    using length_show_nat [of idx 9] assms(4) by simp
  have "CHR ''='' \<notin> set (show_nat idx)"
    using show_nat_digits [of idx] by (auto simp: list_all_iff is_digit_def digit_val_def Let_def)
  moreover have "CHR ''='' \<notin> set (takeWhile (\<lambda>c. c \<noteq> CHR ''='') l)"
    by (auto dest: set_takeWhileD)
  moreover have "list_all isprint (takeWhile (\<lambda>c. c \<noteq> CHR ''='') l)" "list_all isprint (tl (dropWhile (\<lambda>c. c \<noteq> CHR ''='') l))"
    using assms(2) by (auto simp: list_all_iff dest!: set_takeWhileD dest: tl_in_set set_dropWhileD)
  moreover have "length (takeWhile (\<lambda>c. c \<noteq> CHR ''='') l) \<le> 1000" "length (tl (dropWhile (\<lambda>c. c \<noteq> CHR ''='') l)) \<le> 1000"
    using assms(3) length_takeWhile_le [of "\<lambda>c. c \<noteq> CHR ''=''" l] length_dropWhile_le [of "\<lambda>c. c \<noteq> CHR ''=''" l] by simp_all
  ultimately show ?thesis
    using assms(5) show_nat_printable [of idx] len by (auto simp: config_fits_def isprint_def)
qed

definition state_lines_ok :: "string list \<Rightarrow> bool" where
  "state_lines_ok ls \<longleftrightarrow> list_all (\<lambda>l. CHR ''='' \<in> set l \<and> list_all isprint l \<and> length l \<le> 1000) ls"

lemma state_lines_written:
  assumes "config_ok mem s" "state_lines_ok ls" "idx < 10 ^ 10" "config_lines s + int (length ls) < 2047"
  shows "\<exists>s'. ofor (write_state_line idx) ls s = Some (Inr (), s') \<and> config_ok mem s' \<and> statenames s' = statenames s \<and>
    config_lines s' \<le> config_lines s + int (length ls)"
  using assms
proof (induction ls arbitrary: s)
  case Nil
  then show ?case by (simp add: always_def returns_def)
next
  case (Cons l ls)
  have fits: "config_fits s (''STATE'' @ show_nat idx @ ''/'' @ takeWhile (\<lambda>c. c \<noteq> CHR ''='') l)
      (tl (dropWhile (\<lambda>c. c \<noteq> CHR ''='') l))"
    using Cons.prems by (intro state_line_fits) (auto simp: state_lines_ok_def)
  obtain s1 where s1: "write_state_line idx l s = Some (Inr (), s1)" "config_ok mem s1" "same_books s s1"
    using arch_write_good [OF Cons.prems(1) fits] Cons.prems(2) by (auto simp: write_state_line_def state_lines_ok_def)
  with Cons.IH [of s1] Cons.prems show ?case
    by (fastforce simp: state_lines_ok_def same_books_def)
qed

text \<open>
  After a new timing state was written, the number of states in the memory of the controller is one
  less than the number of states that were written: it is stored before the new name is added.
\<close>

theorem archon_state_count_is_behind:
  assumes "config_ok mem s" "state_lines_ok (split_on (CHR 0x0A) txt)"
    and "config_lines s + int (length (split_on (CHR 0x0A) txt)) < 2046"
    and "name \<notin> set (statenames s)" "int (length (statenames s)) < int_max"
  shows "\<exists>s'. write_timing_state name txt s = Some (Inr (), s') \<and> statenames s' = statenames s @ [name] \<and>
    config_dict mem s' ''STATES'' = Some (show_int (int (length (statenames s')) - 1))"
proof -
  let ?ls = "split_on (CHR 0x0A) txt" and ?n = "length (statenames s)"
  have idx: "index_of name (statenames s) = ?n"
  proof -
    have "takeWhile (\<lambda>y. y \<noteq> name) (statenames s) = statenames s"
      using assms(4) by (auto simp: takeWhile_eq_all_conv)
    then show ?thesis by (simp only: index_of_def)
  qed
  have "?n < 10 ^ 10"
    using assms(5) by (simp add: int_max_def)
  then obtain s1 where s1: "ofor (write_state_line ?n) ?ls s = Some (Inr (), s1)" "config_ok mem s1"
      "statenames s1 = statenames s" "config_lines s1 < 2047"
    using state_lines_written [OF assms(1,2), of ?n] assms(3) by force
  obtain s2 where s2: "writeKeyValue ''STATES'' (show_int (int ?n)) s1 = Some (Inr (), s2)"
      "config_dict mem s2 = (config_dict mem s1)(''STATES'' \<mapsto> show_int (int ?n))" "same_books s1 s2"
    using arch_write_good [OF s1(2) count_fits [of "''STATES''" "int ?n" s1]] s1(4) assms(5) by auto
  have "write_timing_state name txt s = Some (Inr (), s2\<lparr>statenames := statenames s2 @ [name]\<rparr>)"
    using s1(1,3) s2(1) assms(4)
    by (simp add: write_timing_state_def idx write_int_def always_def modifies_def gets_def othen_def)
  moreover have "statenames s2 = statenames s"
    using s2(3) s1(3) by (simp add: same_books_def)
  ultimately show ?thesis
    using s2(2) by simp
qed

lemma archon_state_count_is_behind_witness:
  "\<exists>s'. write_timing_state ''idle'' ''CONTROL=1'' demo_archon = Some (Inr (), s') \<and> statenames s' = [''idle''] \<and>
    config_dict (\<lambda>d. d) s' ''STATES'' = Some ''0''"
proof -
  have ls: "split_on (CHR 0x0A) ''CONTROL=1'' = [''CONTROL=1'']"
    by code_simp
  have "state_lines_ok (split_on (CHR 0x0A) ''CONTROL=1'')"
    by (simp add: ls state_lines_ok_def isprint_def)
  from archon_state_count_is_behind [OF demo_archon_ok(1) this, of "''idle''"] obtain s' where
    "write_timing_state ''idle'' ''CONTROL=1'' demo_archon = Some (Inr (), s')" "statenames s' = [''idle'']"
    "config_dict (\<lambda>d. d) s' ''STATES'' = Some (show_int (int (length (statenames s')) - 1))"
    by (auto simp: ls demo_archon_ok int_max_def)
  then show ?thesis by (simp add: show_int_0)
qed

end
