(* ===== verification/Archon_Modules.thy ===== *)
theory Archon_Modules
  imports Archon
begin

text \<open>
  The modules in the slots of the Archon controller and the constructor of its driver, devices/archon:
  archon_modules.cpp, archon_GPIO.cpp, archon_module_generic_bias.cpp, archon_module_lvxbias.cpp,
  archon_module_hvxbias.cpp, archon_module_xvbias.cpp, archon_module_AD.cpp, archon_module_driver.cpp,
  archon_module_heaterx.cpp, archon_autoupdate.cpp and archonraw.cpp.

  A module refers to the driver; its operations are operations of the driver's state that take the
  module's record. Limits of voltages are doubles; comparisons with a NaN are false.
\<close>

section \<open>The base class\<close>

definition mod_key :: "archon_module \<Rightarrow> string \<Rightarrow> string" where
  "mod_key md key = ''MOD'' @ show_nat (modpos md + 1) @ ''/'' @ key"

definition writeConfigKey :: "archon_module \<Rightarrow> string \<Rightarrow> string \<Rightarrow> ('d archon, unit) oprog" where
  "writeConfigKey md key val = writeKeyValue (mod_key md key) val"

definition readConfigKey :: "archon_module \<Rightarrow> string \<Rightarrow> ('d archon, string) oprog" where
  "readConfigKey md key = readKeyValue (mod_key md key)"

definition mod_apply :: "archon_module \<Rightarrow> ('d archon, unit) oprog" where
  "mod_apply md = exec (''APPLYMOD'' @ show_hex 2 (int (modpos md)))"

definition getTemp :: "archon_module \<Rightarrow> ('d archon, f64) oprog" where
  "getTemp md = othen (oget arch_status) (\<lambda>m. olift (rbind (map_at m (mod_key md ''TEMP'')) stod))"

definition no_heater :: heater_values where
  "no_heater = \<lparr>heaterAOutput = NaN, heaterBOutput = NaN, TempA = NaN, TempB = NaN, TempC = NaN, heaterAP = 0, heaterAI = 0,
     heaterAD = 0, heaterBP = 0, heaterBI = 0, heaterBD = 0, GPIO = replicate 8 False\<rparr>"

text \<open>The parts of the version between the points; a part that is missing is an empty text.\<close>

definition version_part :: "string \<Rightarrow> nat \<Rightarrow> 8 word result" where
  "version_part v i = (let ps = split_on (CHR ''.'') v in
     rbind (stoi (if i < length ps then ps ! i else [])) (\<lambda>n. Inr (word_of_int n)))"

text \<open>The keys here are made with the position itself, which counts from zero.\<close>

definition module_init :: "nat \<Rightarrow> archon_module_types \<Rightarrow> generic_bias \<Rightarrow> generic_bias \<Rightarrow> ssmap \<Rightarrow> archon_module result" where
  "module_init pos kind lc hc m = (let look = (\<lambda>name. map_at m (''MOD'' @ show_nat pos @ name)) in
     rbind (look ''_TYPE'') (\<lambda>t. rbind (stoi t) (\<lambda>_.
     rbind (look ''_REV'') (\<lambda>r. rbind (stoi r) (\<lambda>rev.
     rbind (look ''_VERSION'') (\<lambda>v. rbind (version_part v 0) (\<lambda>v0. rbind (version_part v 1) (\<lambda>v1. rbind (version_part v 2) (\<lambda>v2.
     rbind (look ''_ID'') (\<lambda>id.
     Inr \<lparr>modpos = pos, mod_id = id, mod_version = [v0, v1, v2], mod_rev = word_of_int rev, mod_kind = kind,
       heater = no_heater, lcbias = lc, hcbias = hc\<rparr>))))))))))"

definition bias :: "string \<Rightarrow> int \<Rightarrow> rat \<Rightarrow> rat \<Rightarrow> generic_bias" where
  "bias nmemonic n low high = \<lparr>biasnmemonic = nmemonic, numchans = n, lowlimit = low, highlimit = high\<rparr>"

definition lvx_biases :: "generic_bias \<times> generic_bias" where
  "lvx_biases = (bias ''LVLC'' 24 (-14) 14, bias ''LVHC'' 6 (-14) 14)"

definition hvx_biases :: "generic_bias \<times> generic_bias" where
  "hvx_biases = (bias ''HVLC'' 24 0 31, bias ''HVHC'' 5 0 31)"

definition xv_biases :: "generic_bias \<times> generic_bias" where
  "xv_biases = (bias ''XVN'' 4 (-95) 0, bias ''XVP'' 4 0 90)"

fun module_biases :: "archon_module_types \<Rightarrow> generic_bias \<times> generic_bias" where
  "module_biases Mod_HVXBias = hvx_biases"
| "module_biases Mod_XVBias = xv_biases"
| "module_biases _ = lvx_biases"

text \<open>Only the heater module does more than the base class: it reads its variables.\<close>

definition constructModule :: "archon_module_types \<Rightarrow> nat \<Rightarrow> ('d archon, archon_module) oprog" where
  "constructModule kind pos = othen (oget arch_system) (\<lambda>sys.
     othen (olift (module_init pos kind (fst (module_biases kind)) (snd (module_biases kind)) sys)) (\<lambda>md.
     othen (oget arch_status) (\<lambda>st. case update_variables md st of (r, md') \<Rightarrow> othen (olift r) (\<lambda>_. oreturn md'))))"

definition module_type_of :: "16 word \<Rightarrow> archon_module_types option" where
  "module_type_of t = map_of [(11, Mod_heaterX), (9, Mod_LVXBias), (8, Mod_HVXBias), (2, Mod_AD), (12, Mod_XVBias), (1, Mod_driver)] t"

definition scan_slot :: "int \<Rightarrow> nat \<Rightarrow> ('d archon, unit) oprog" where
  "scan_slot installed i =
     (if \<not> bit installed i then oreturn ()
      else othen (oget arch_system) (\<lambda>sys. othen (olift (extract_int i ''TYPE'' sys (CHR ''_''))) (\<lambda>t.
        case module_type_of (word_of_int t) of
          None \<Rightarrow> oreturn ()
        | Some kind \<Rightarrow> othen (constructModule kind i) (\<lambda>md.
            oset (\<lambda>s. s\<lparr>arch_modules := arch_modules s @ [(i, md)]\<rparr>)))))"

definition scan_modules :: "('d archon, unit) oprog" where
  "scan_modules = othen (oget arch_system) (\<lambda>sys.
     othen (olift (rbind (map_at sys ''MOD_PRESENT'') (stoi_base 16))) (\<lambda>installed.
     ofor (scan_slot installed) [0..<12]))"

definition archon_init :: "('d archon, unit) oprog" where
  "archon_init = othen (on_tcp (always (tcp_Init None))) (\<lambda>_.
     oseq [clear_config, update_state, sync_archon_timer, scan_modules])"

text \<open>The thread of \<open>archon_autoupdate\<close> reads the state again and again, until a command throws.\<close>

partial_function (option) timer_process :: "nat \<Rightarrow> 'd archon \<Rightarrow> (unit result \<times> 'd archon) option" where
  "timer_process us s = Option.bind (update_state (s\<lparr>arch_tcp := (arch_tcp s)\<lparr>t_now := t_now (arch_tcp s) + us\<rparr>\<rparr>))
     (\<lambda>(r, s'). case r of Inl e \<Rightarrow> Some (Inl e, s') | Inr _ \<Rightarrow> timer_process us s')"

text \<open>\<open>rawcmd\<close> of \<open>archonraw\<close>: a reply of whole blocks for \<open>FETCH\<close>, else what comes up to the end of a
  line. There must be more to wait for than will ever come for the loop to stop.\<close>

partial_function (option) raw_blocks :: "string \<Rightarrow> 'd tcp \<Rightarrow> (string result \<times> 'd tcp) option" where
  "raw_blocks acc s = (case tcp_bytes_available s of
     (Inl e, s1) \<Rightarrow> Some (Inl e, s1)
   | (Inr n, s1) \<Rightarrow> if n < 1028 then Some (Inr acc, s1)
      else Option.bind (tcp_read 1028 s1) (\<lambda>(r, s2). case r of
        Inl e \<Rightarrow> Some (Inl e, s2) | Inr (got, _) \<Rightarrow> raw_blocks (acc @ got) (s2\<lparr>t_now := t_now s2 + 500\<rparr>)))"

definition rawcmd :: "string \<Rightarrow> ('d archon, string) oprog" where
  "rawcmd request = othen (on_tcp (always (tcp_write request))) (\<lambda>_.
     othen (olift (substr request 1 5)) (\<lambda>h.
     if h = ''FETCH'' then on_tcp (othen (always (tcp_sleep 500)) (\<lambda>_. raw_blocks []))
     else on_tcp (tcp_read_until_endl (CHR 0x0A))))"

section \<open>Digital inputs and outputs\<close>

datatype gpio_source = Gpio_low | Gpio_high | Gpio_clocked | Gpio_VCPU | Gpio_other "16 word"

definition source_number :: "gpio_source \<Rightarrow> 16 word" where
  "source_number src = (case src of Gpio_low \<Rightarrow> 0 | Gpio_high \<Rightarrow> 1 | Gpio_clocked \<Rightarrow> 2 | Gpio_VCPU \<Rightarrow> 3 | Gpio_other w \<Rightarrow> w)"

definition source_of_number :: "16 word \<Rightarrow> gpio_source" where
  "source_of_number w = (if w = 0 then Gpio_low else if w = 1 then Gpio_high else if w = 2 then Gpio_clocked
     else if w = 3 then Gpio_VCPU else Gpio_other w)"

definition pair_text :: "int \<Rightarrow> string result" where
  "pair_text p = (if p = 1 then Inr ''12'' else if p = 2 then Inr ''34'' else if p = 3 then Inr ''56''
     else if p = 4 then Inr ''78'' else Inl (Out_of_range ''invalid value for pair in getDirection''))"

definition mod_read_int :: "archon_module \<Rightarrow> string \<Rightarrow> ('d archon, int) oprog" where
  "mod_read_int md key = othen (readConfigKey md key) (\<lambda>v. olift (stoi v))"

definition mod_read_bool :: "archon_module \<Rightarrow> string \<Rightarrow> ('d archon, bool) oprog" where
  "mod_read_bool md key = othen (mod_read_int md key) (\<lambda>n. oreturn (n \<noteq> 0))"

definition mod_read_double :: "archon_module \<Rightarrow> string \<Rightarrow> ('d archon, f64) oprog" where
  "mod_read_double md key = othen (readConfigKey md key) (\<lambda>v. olift (stod v))"

definition mod_write_int :: "archon_module \<Rightarrow> string \<Rightarrow> int \<Rightarrow> ('d archon, unit) oprog" where
  "mod_write_int md key n = writeConfigKey md key (show_int n)"

definition mod_write_double :: "archon_module \<Rightarrow> string \<Rightarrow> f64 \<Rightarrow> ('d archon, unit) oprog" where
  "mod_write_double md key x = writeConfigKey md key (to_string_double x)"

definition getDIOPower :: "archon_module \<Rightarrow> ('d archon, bool) oprog" where
  "getDIOPower md = mod_read_bool md ''DIO_POWER''"

definition setDIOPower :: "archon_module \<Rightarrow> bool \<Rightarrow> ('d archon, unit) oprog" where
  "setDIOPower md onoff = mod_write_int md ''DIO_POWER'' (of_bool onoff)"

definition getDirection :: "archon_module \<Rightarrow> int \<Rightarrow> ('d archon, bool) oprog" where
  "getDirection md p = othen (olift (pair_text p)) (\<lambda>t. mod_read_bool md (''DIO_DIR'' @ t))"

definition setDirection :: "archon_module \<Rightarrow> int \<Rightarrow> bool \<Rightarrow> ('d archon, unit) oprog" where
  "setDirection md p inout = othen (olift (pair_text p)) (\<lambda>t. mod_write_int md (''DIO_DIR'' @ t) (of_bool inout))"

definition gpio_getLabel :: "archon_module \<Rightarrow> int \<Rightarrow> ('d archon, string) oprog" where
  "gpio_getLabel md ch = readConfigKey md (''DIO_LABEL'' @ show_int ch)"

definition gpio_setLabel :: "archon_module \<Rightarrow> int \<Rightarrow> string \<Rightarrow> ('d archon, unit) oprog" where
  "gpio_setLabel md ch label = writeConfigKey md (''DIO_LABEL'' @ show_int ch) label"

definition getSource :: "archon_module \<Rightarrow> int \<Rightarrow> ('d archon, gpio_source) oprog" where
  "getSource md ch = othen (mod_read_int md (''DIO_SOURCE'' @ show_int ch)) (\<lambda>n. oreturn (source_of_number (word_of_int n)))"

definition setSource :: "archon_module \<Rightarrow> int \<Rightarrow> gpio_source \<Rightarrow> ('d archon, unit) oprog" where
  "setSource md ch src = mod_write_int md (''DIO_SOURCE'' @ show_int ch) (uint (source_number src))"

definition int_to_source :: "int \<Rightarrow> gpio_source \<times> bool" where
  "int_to_source n = (if n < 0 \<or> 3 < n then (Gpio_low, False) else (source_of_number (word_of_int n), True))"

section \<open>Bias voltages\<close>

definition check_channel_number :: "generic_bias \<Rightarrow> int \<Rightarrow> ('d archon, unit) oprog" where
  "check_channel_number b ch = (if ch < 1 then othrow (Out_of_range ''invalid channel number, <1'')
     else if numchans b < ch then othrow (Out_of_range ''invalid channel number, > num_chans'') else oreturn ())"

text \<open>The check of the limits, which nothing calls.\<close>

definition check_limits :: "generic_bias \<Rightarrow> f64 \<Rightarrow> ('d archon, unit) oprog" where
  "check_limits b v = (if flt v (Fin (lowlimit b)) then othrow (Out_of_range ''invalid voltage < lowlimit'')
     else if fgt v (Fin (highlimit b)) then othrow (Out_of_range ''invalid voltage > highlimit'') else oreturn ())"

definition bias_key :: "generic_bias \<Rightarrow> string \<Rightarrow> int \<Rightarrow> string" where
  "bias_key b what ch = biasnmemonic b @ what @ show_int ch"

definition bias_setLabel :: "archon_module \<Rightarrow> generic_bias \<Rightarrow> int \<Rightarrow> string \<Rightarrow> ('d archon, unit) oprog" where
  "bias_setLabel md b ch label = othen (check_channel_number b ch) (\<lambda>_. writeConfigKey md (bias_key b ''_LABEL'' ch) label)"

definition bias_getLabel :: "archon_module \<Rightarrow> generic_bias \<Rightarrow> int \<Rightarrow> ('d archon, string) oprog" where
  "bias_getLabel md b ch = othen (check_channel_number b ch) (\<lambda>_. readConfigKey md (bias_key b ''_LABEL'' ch))"

definition bias_setOrder :: "archon_module \<Rightarrow> generic_bias \<Rightarrow> int \<Rightarrow> int \<Rightarrow> ('d archon, unit) oprog" where
  "bias_setOrder md b ch sequence = othen (check_channel_number b ch) (\<lambda>_.
     othen (othrow_unless (\<not> sequence < 0) (Out_of_range ''invalid sequence number < 1'')) (\<lambda>_.
     mod_write_int md (bias_key b ''_ORDER'' ch) sequence))"

definition bias_getOrder :: "archon_module \<Rightarrow> generic_bias \<Rightarrow> int \<Rightarrow> ('d archon, int) oprog" where
  "bias_getOrder md b ch = othen (check_channel_number b ch) (\<lambda>_. mod_read_int md (bias_key b ''_ORDER'' ch))"

definition bias_setV :: "archon_module \<Rightarrow> generic_bias \<Rightarrow> int \<Rightarrow> f64 \<Rightarrow> ('d archon, unit) oprog" where
  "bias_setV md b ch v = othen (check_channel_number b ch) (\<lambda>_.
     writeConfigKey md (bias_key b ''_V'' ch) (ostream_double 3 v))"

definition bias_getV :: "archon_module \<Rightarrow> generic_bias \<Rightarrow> int \<Rightarrow> ('d archon, f64) oprog" where
  "bias_getV md b ch = othen (check_channel_number b ch) (\<lambda>_. mod_read_double md (bias_key b ''_V'' ch))"

definition bias_setEnable :: "archon_module \<Rightarrow> generic_bias \<Rightarrow> int \<Rightarrow> bool \<Rightarrow> ('d archon, unit) oprog" where
  "bias_setEnable md b ch onoff = othen (check_channel_number b ch) (\<lambda>_.
     mod_write_int md (bias_key b ''_ENABLE'' ch) (of_bool onoff))"

definition bias_getEnable :: "archon_module \<Rightarrow> generic_bias \<Rightarrow> int \<Rightarrow> ('d archon, bool) oprog" where
  "bias_getEnable md b ch = othen (check_channel_number b ch) (\<lambda>_. mod_read_bool md (bias_key b ''_ENABLE'' ch))"

definition measured :: "archon_module \<Rightarrow> generic_bias \<Rightarrow> string \<Rightarrow> int \<Rightarrow> ('d archon, f64) oprog" where
  "measured md b what ch = othen (check_channel_number b ch) (\<lambda>_. othen (oget arch_status) (\<lambda>m.
     olift (rbind (map_at m (mod_key md (bias_key b what ch))) stod)))"

definition bias_measureI :: "archon_module \<Rightarrow> generic_bias \<Rightarrow> int \<Rightarrow> ('d archon, f64) oprog" where
  "bias_measureI md b = measured md b ''_I''"

definition bias_measureV :: "archon_module \<Rightarrow> generic_bias \<Rightarrow> int \<Rightarrow> ('d archon, f64) oprog" where
  "bias_measureV md b = measured md b ''_V''"

text \<open>The bias modules have low and high current channels.\<close>

definition side :: "archon_module \<Rightarrow> bool \<Rightarrow> generic_bias" where
  "side md HC = (if HC then hcbias md else lcbias md)"

definition lvx_setLabel :: "archon_module \<Rightarrow> bool \<Rightarrow> int \<Rightarrow> string \<Rightarrow> ('d archon, unit) oprog" where
  "lvx_setLabel md HC = bias_setLabel md (side md HC)"
definition lvx_getLabel :: "archon_module \<Rightarrow> bool \<Rightarrow> int \<Rightarrow> ('d archon, string) oprog" where
  "lvx_getLabel md HC = bias_getLabel md (side md HC)"
definition lvx_setOrder :: "archon_module \<Rightarrow> bool \<Rightarrow> int \<Rightarrow> int \<Rightarrow> ('d archon, unit) oprog" where
  "lvx_setOrder md HC = bias_setOrder md (side md HC)"
definition lvx_getOrder :: "archon_module \<Rightarrow> bool \<Rightarrow> int \<Rightarrow> ('d archon, int) oprog" where
  "lvx_getOrder md HC = bias_getOrder md (side md HC)"
definition lvx_setV :: "archon_module \<Rightarrow> bool \<Rightarrow> int \<Rightarrow> f64 \<Rightarrow> ('d archon, unit) oprog" where
  "lvx_setV md HC = bias_setV md (side md HC)"
definition lvx_getV :: "archon_module \<Rightarrow> bool \<Rightarrow> int \<Rightarrow> ('d archon, f64) oprog" where
  "lvx_getV md HC = bias_getV md (side md HC)"
definition lvx_setEnable :: "archon_module \<Rightarrow> bool \<Rightarrow> int \<Rightarrow> bool \<Rightarrow> ('d archon, unit) oprog" where
  "lvx_setEnable md HC = bias_setEnable md (side md HC)"
definition lvx_getEnable :: "archon_module \<Rightarrow> bool \<Rightarrow> int \<Rightarrow> ('d archon, bool) oprog" where
  "lvx_getEnable md HC = bias_getEnable md (side md HC)"
definition lvx_measureI :: "archon_module \<Rightarrow> bool \<Rightarrow> int \<Rightarrow> ('d archon, f64) oprog" where
  "lvx_measureI md HC = bias_measureI md (side md HC)"
definition lvx_measureV :: "archon_module \<Rightarrow> bool \<Rightarrow> int \<Rightarrow> ('d archon, f64) oprog" where
  "lvx_measureV md HC = bias_measureV md (side md HC)"

text \<open>The current limit keeps the key of the LVX module in the modules derived from it.\<close>

definition setLimit :: "archon_module \<Rightarrow> int \<Rightarrow> int \<Rightarrow> ('d archon, unit) oprog" where
  "setLimit md ch limit_mA = othen (check_channel_number (hcbias md) ch) (\<lambda>_.
     othen (othrow_unless (\<not> (limit_mA < 0 \<or> 500 < limit_mA)) (Out_of_range ''invalid current limit, <0 or > 500'')) (\<lambda>_.
     mod_write_int md (''LVHC_IL'' @ show_int ch) limit_mA))"

definition getLimit :: "archon_module \<Rightarrow> int \<Rightarrow> ('d archon, int) oprog" where
  "getLimit md ch = othen (check_channel_number (hcbias md) ch) (\<lambda>_. mod_read_int md (''LVHC_IL'' @ show_int ch))"

section \<open>Converters and clock drivers\<close>

definition in_channels :: "int \<Rightarrow> string \<Rightarrow> int \<Rightarrow> ('d archon, unit) oprog" where
  "in_channels n msg ch = othrow_unless (\<not> (ch < 1 \<or> n < ch)) (Out_of_range msg)"

definition checkChannelNum :: "int \<Rightarrow> ('d archon, unit) oprog" where
  "checkChannelNum = in_channels 4 ''invalid AD channel number''"

definition checkChannel :: "int \<Rightarrow> ('d archon, unit) oprog" where
  "checkChannel = in_channels 8 ''invalid Driver channel number''"

definition setClamp :: "archon_module \<Rightarrow> int \<Rightarrow> f64 \<Rightarrow> ('d archon, unit) oprog" where
  "setClamp md ch v = othen (checkChannelNum ch) (\<lambda>_.
     othen (othrow_unless (\<not> (flt v (Fin (-5 / 2)) \<or> fgt v (Fin (5 / 2)))) (Out_of_range ''invalid clamp voltage setting!'')) (\<lambda>_.
     mod_write_double md (''CLAMP'' @ show_int ch) v))"

definition getClamp :: "archon_module \<Rightarrow> int \<Rightarrow> ('d archon, f64) oprog" where
  "getClamp md ch = othen (checkChannelNum ch) (\<lambda>_. mod_read_double md (''CLAMP'' @ show_int ch))"

definition setPreampGain :: "archon_module \<Rightarrow> bool \<Rightarrow> ('d archon, unit) oprog" where
  "setPreampGain md hgain = mod_write_int md ''PREAMPGAIN'' (of_bool hgain)"

definition getPreampGain :: "archon_module \<Rightarrow> ('d archon, bool) oprog" where
  "getPreampGain md = mod_read_bool md ''PREAMPGAIN''"

definition slew_ok :: "f64 \<Rightarrow> bool" where
  "slew_ok v \<longleftrightarrow> \<not> (flt v (Fin (1 / 1000)) \<or> fgt v (Fin 1000))"

definition setFastSlewRate :: "archon_module \<Rightarrow> int \<Rightarrow> f64 \<Rightarrow> ('d archon, unit) oprog" where
  "setFastSlewRate md ch v = othen (checkChannel ch) (\<lambda>_. othen (othrow_unless (slew_ok v) (Out_of_range ''invalid slew rate value'')) (\<lambda>_.
     mod_write_double md (''FASTSLEWRATE'' @ show_int ch) v))"

definition getFastSlewRate :: "archon_module \<Rightarrow> int \<Rightarrow> ('d archon, f64) oprog" where
  "getFastSlewRate md ch = othen (checkChannel ch) (\<lambda>_. mod_read_double md (''FASTSLEWRATE'' @ show_int ch))"

definition setSlowSlewRate :: "archon_module \<Rightarrow> int \<Rightarrow> f64 \<Rightarrow> ('d archon, unit) oprog" where
  "setSlowSlewRate md ch v = othen (checkChannel ch) (\<lambda>_. othen (othrow_unless (slew_ok v) (Out_of_range ''invalid slew rate value'')) (\<lambda>_.
     mod_write_double md (''SLOWSLEWRATE'' @ show_int ch) v))"

definition getSlowSlewRate :: "archon_module \<Rightarrow> int \<Rightarrow> ('d archon, f64) oprog" where
  "getSlowSlewRate md ch = othen (checkChannel ch) (\<lambda>_. mod_read_double md (''SLOWSLEWRATE'' @ show_int ch))"

definition driver_setLabel :: "archon_module \<Rightarrow> int \<Rightarrow> string \<Rightarrow> ('d archon, unit) oprog" where
  "driver_setLabel md ch v = othen (checkChannel ch) (\<lambda>_. writeConfigKey md (''LABEL'' @ show_int ch) v)"

definition driver_getLabel :: "archon_module \<Rightarrow> int \<Rightarrow> ('d archon, string) oprog" where
  "driver_getLabel md ch = othen (checkChannel ch) (\<lambda>_. readConfigKey md (''LABEL'' @ show_int ch))"

definition driver_setEnable :: "archon_module \<Rightarrow> int \<Rightarrow> bool \<Rightarrow> ('d archon, unit) oprog" where
  "driver_setEnable md ch onoff = othen (checkChannel ch) (\<lambda>_. mod_write_int md (''ENABLE'' @ show_int ch) (of_bool onoff))"

definition driver_getEnable :: "archon_module \<Rightarrow> int \<Rightarrow> ('d archon, bool) oprog" where
  "driver_getEnable md ch = othen (checkChannel ch) (\<lambda>_. mod_read_bool md (''ENABLE'' @ show_int ch))"

section \<open>Heaters\<close>

datatype heater_sensor = Sensor_A | Sensor_B | Sensor_C
datatype heater_name = Heater_A | Heater_B
datatype sensor_kind = DT_670 | DT_470 | RTD100 | RTD1000 | Sensor_other "16 word"

fun sensor_char :: "heater_sensor \<Rightarrow> char" where
  "sensor_char Sensor_A = CHR ''A''" | "sensor_char Sensor_B = CHR ''B''" | "sensor_char Sensor_C = CHR ''C''"

fun heater_char :: "heater_name \<Rightarrow> char" where
  "heater_char Heater_A = CHR ''A''" | "heater_char Heater_B = CHR ''B''"

fun sensor_kind_number :: "sensor_kind \<Rightarrow> 16 word" where
  "sensor_kind_number DT_670 = 0" | "sensor_kind_number DT_470 = 1" | "sensor_kind_number RTD100 = 2"
| "sensor_kind_number RTD1000 = 3" | "sensor_kind_number (Sensor_other w) = w"

definition sensor_kind_of :: "16 word \<Rightarrow> sensor_kind" where
  "sensor_kind_of w = (if w = 0 then DT_670 else if w = 1 then DT_470 else if w = 2 then RTD100
     else if w = 3 then RTD1000 else Sensor_other w)"

fun sensor_to_int :: "heater_sensor \<Rightarrow> int" where
  "sensor_to_int Sensor_A = 0" | "sensor_to_int Sensor_B = 1" | "sensor_to_int Sensor_C = 2"

definition int_to_sensor :: "int \<Rightarrow> heater_sensor \<times> bool" where
  "int_to_sensor i = (if i = 0 then (Sensor_A, True) else if i = 1 then (Sensor_B, True)
     else if i = 2 then (Sensor_C, True) else (Sensor_A, False))"

fun heater_to_int :: "heater_name \<Rightarrow> int" where
  "heater_to_int Heater_A = 0" | "heater_to_int Heater_B = 1"

definition int_to_heater :: "int \<Rightarrow> heater_name \<times> bool" where
  "int_to_heater i = (if i = 0 then (Heater_A, True) else if i = 1 then (Heater_B, True) else (Heater_A, False))"

definition sensor_key :: "heater_sensor \<Rightarrow> string \<Rightarrow> string" where
  "sensor_key sensor what = ''SENSOR'' @ [sensor_char sensor] @ what"

definition heater_key :: "heater_name \<Rightarrow> string \<Rightarrow> string" where
  "heater_key htr what = ''HEATER'' @ [heater_char htr] @ what"

definition assert_limits_int :: "int \<Rightarrow> int \<Rightarrow> int \<Rightarrow> ('d archon, unit) oprog" where
  "assert_limits_int low high v =
     (if v < low then othrow (Device_error (''value: '' @ show_int v @ '' is below limit: '' @ show_int low))
      else if v > high then othrow (Device_error (''value: '' @ show_int v @ ''is above limit: '' @ show_int high))
      else oreturn ())"

definition assert_limits_double :: "rat \<Rightarrow> rat \<Rightarrow> f64 \<Rightarrow> ('d archon, unit) oprog" where
  "assert_limits_double low high v =
     (if flt v (Fin low) then othrow (Device_error (''value: '' @ to_string_double v @ '' is below limit: '' @ to_string_double (Fin low)))
      else if fgt v (Fin high) then othrow (Device_error (''value: '' @ to_string_double v @ ''is above limit: '' @ to_string_double (Fin high)))
      else oreturn ())"

definition setSensorType :: "archon_module \<Rightarrow> heater_sensor \<Rightarrow> sensor_kind \<Rightarrow> ('d archon, unit) oprog" where
  "setSensorType md sensor k = mod_write_int md (sensor_key sensor ''TYPE'') (uint (sensor_kind_number k))"
definition getSensorType :: "archon_module \<Rightarrow> heater_sensor \<Rightarrow> ('d archon, sensor_kind) oprog" where
  "getSensorType md sensor = othen (readConfigKey md (sensor_key sensor ''TYPE'')) (\<lambda>v.
     othen (olift (stoul_base 10 v)) (\<lambda>n. oreturn (sensor_kind_of (word_of_int n))))"
definition setSensorCurrent :: "archon_module \<Rightarrow> heater_sensor \<Rightarrow> int \<Rightarrow> ('d archon, unit) oprog" where
  "setSensorCurrent md sensor = mod_write_int md (sensor_key sensor ''CURRENT'')"
definition getSensorCurrent :: "archon_module \<Rightarrow> heater_sensor \<Rightarrow> ('d archon, int) oprog" where
  "getSensorCurrent md sensor = mod_read_int md (sensor_key sensor ''CURRENT'')"
definition setHeaterTarget :: "archon_module \<Rightarrow> heater_name \<Rightarrow> f64 \<Rightarrow> ('d archon, unit) oprog" where
  "setHeaterTarget md htr = mod_write_double md (heater_key htr ''TARGET'')"
definition getHeaterTarget :: "archon_module \<Rightarrow> heater_name \<Rightarrow> ('d archon, f64) oprog" where
  "getHeaterTarget md htr = mod_read_double md (heater_key htr ''TARGET'')"
definition setHeaterTarget_int :: "archon_module \<Rightarrow> int \<Rightarrow> f64 \<Rightarrow> ('d archon, unit) oprog" where
  "setHeaterTarget_int md i = setHeaterTarget md (fst (int_to_heater i))"
definition getHeaterTarget_int :: "archon_module \<Rightarrow> int \<Rightarrow> ('d archon, f64) oprog" where
  "getHeaterTarget_int md i = getHeaterTarget md (fst (int_to_heater i))"
definition setHeaterSensor :: "archon_module \<Rightarrow> heater_name \<Rightarrow> heater_sensor \<Rightarrow> ('d archon, unit) oprog" where
  "setHeaterSensor md htr sensor = mod_write_int md (heater_key htr ''SENSOR'') (sensor_to_int sensor)"
definition getHeaterSensor :: "archon_module \<Rightarrow> heater_name \<Rightarrow> ('d archon, heater_sensor) oprog" where
  "getHeaterSensor md htr = othen (mod_read_int md (heater_key htr ''SENSOR'')) (\<lambda>n. case int_to_sensor n of
     (sensor, ok) \<Rightarrow> if ok then oreturn sensor else othrow (Device_error ''invalid sensor case!''))"
definition setSensorLowerLimit :: "archon_module \<Rightarrow> heater_sensor \<Rightarrow> f64 \<Rightarrow> ('d archon, unit) oprog" where
  "setSensorLowerLimit md sensor temp = othen (assert_limits_double (-150) 50 temp) (\<lambda>_.
     mod_write_double md (sensor_key sensor ''LOWERLIMIT'') temp)"
definition getSensorLowerLimit :: "archon_module \<Rightarrow> heater_sensor \<Rightarrow> ('d archon, f64) oprog" where
  "getSensorLowerLimit md sensor = mod_read_double md (sensor_key sensor ''LOWERLIMIT'')"
definition setSensorUpperLimit :: "archon_module \<Rightarrow> heater_sensor \<Rightarrow> f64 \<Rightarrow> ('d archon, unit) oprog" where
  "setSensorUpperLimit md sensor temp = othen (assert_limits_double (-150) 50 temp) (\<lambda>_.
     mod_write_double md (sensor_key sensor ''UPPERLIMIT'') temp)"
definition getSensorUpperLimit :: "archon_module \<Rightarrow> heater_sensor \<Rightarrow> ('d archon, f64) oprog" where
  "getSensorUpperLimit md sensor = mod_read_double md (sensor_key sensor ''UPPERLIMIT'')"
definition setHeaterEnable :: "archon_module \<Rightarrow> heater_name \<Rightarrow> bool \<Rightarrow> ('d archon, unit) oprog" where
  "setHeaterEnable md htr onoff = mod_write_int md (heater_key htr ''ENABLE'') (of_bool onoff)"
definition getHeaterEnable :: "archon_module \<Rightarrow> heater_name \<Rightarrow> ('d archon, bool) oprog" where
  "getHeaterEnable md htr = mod_read_bool md (heater_key htr ''ENABLE'')"

text \<open>The terms of the controller: \<open>P\<close>, \<open>I\<close>, \<open>IL\<close> and \<open>D\<close>.\<close>

definition set_term :: "string \<Rightarrow> archon_module \<Rightarrow> heater_name \<Rightarrow> int \<Rightarrow> ('d archon, unit) oprog" where
  "set_term what md htr v = othen (assert_limits_int 0 10000 v) (\<lambda>_. mod_write_int md (heater_key htr what) v)"
definition get_term :: "string \<Rightarrow> archon_module \<Rightarrow> heater_name \<Rightarrow> ('d archon, int) oprog" where
  "get_term what md htr = mod_read_int md (heater_key htr what)"

definition setHeaterP :: "archon_module \<Rightarrow> heater_name \<Rightarrow> int \<Rightarrow> ('d archon, unit) oprog" where "setHeaterP = set_term ''P''"
definition getHeaterP :: "archon_module \<Rightarrow> heater_name \<Rightarrow> ('d archon, int) oprog" where "getHeaterP = get_term ''P''"
definition setHeaterI :: "archon_module \<Rightarrow> heater_name \<Rightarrow> int \<Rightarrow> ('d archon, unit) oprog" where "setHeaterI = set_term ''I''"
definition getHeaterI :: "archon_module \<Rightarrow> heater_name \<Rightarrow> ('d archon, int) oprog" where "getHeaterI = get_term ''I''"
definition setHeaterIL :: "archon_module \<Rightarrow> heater_name \<Rightarrow> int \<Rightarrow> ('d archon, unit) oprog" where "setHeaterIL = set_term ''IL''"
definition getHeaterIL :: "archon_module \<Rightarrow> heater_name \<Rightarrow> ('d archon, int) oprog" where "getHeaterIL = get_term ''IL''"
definition setHeaterD :: "archon_module \<Rightarrow> heater_name \<Rightarrow> int \<Rightarrow> ('d archon, unit) oprog" where "setHeaterD = set_term ''D''"
definition getHeaterD :: "archon_module \<Rightarrow> heater_name \<Rightarrow> ('d archon, int) oprog" where "getHeaterD = get_term ''D''"

definition setHeaterUpdateTime :: "archon_module \<Rightarrow> int \<Rightarrow> ('d archon, unit) oprog" where
  "setHeaterUpdateTime md ms = othen (assert_limits_int 1 30000 ms) (\<lambda>_. mod_write_int md ''HEATERUPDATETIME'' ms)"
definition getHeaterUpdateTime :: "archon_module \<Rightarrow> ('d archon, int) oprog" where
  "getHeaterUpdateTime md = mod_read_int md ''HEATERUPDATETIME''"
definition setHeaterRamp :: "archon_module \<Rightarrow> heater_name \<Rightarrow> bool \<Rightarrow> ('d archon, unit) oprog" where
  "setHeaterRamp md htr onoff = mod_write_int md (heater_key htr ''RAMP'') (of_bool onoff)"
definition getHeaterRamp :: "archon_module \<Rightarrow> heater_name \<Rightarrow> ('d archon, bool) oprog" where
  "getHeaterRamp md htr = mod_read_bool md (heater_key htr ''RAMP'')"
definition setHeaterRampRate :: "archon_module \<Rightarrow> heater_name \<Rightarrow> int \<Rightarrow> ('d archon, unit) oprog" where
  "setHeaterRampRate md htr = mod_write_int md (heater_key htr ''RAMPRATE'')"
definition getHeaterRampRate :: "archon_module \<Rightarrow> heater_name \<Rightarrow> ('d archon, int) oprog" where
  "getHeaterRampRate md htr = mod_read_int md (heater_key htr ''RAMPRATE'')"
definition setHeaterLabel :: "archon_module \<Rightarrow> heater_name \<Rightarrow> string \<Rightarrow> ('d archon, unit) oprog" where
  "setHeaterLabel md htr = writeConfigKey md (heater_key htr ''LABEL'')"
definition getHeaterLabel :: "archon_module \<Rightarrow> heater_name \<Rightarrow> ('d archon, string) oprog" where
  "getHeaterLabel md htr = readConfigKey md (heater_key htr ''LABEL'')"
definition setSensorLabel :: "archon_module \<Rightarrow> heater_sensor \<Rightarrow> string \<Rightarrow> ('d archon, unit) oprog" where
  "setSensorLabel md sensor = writeConfigKey md (sensor_key sensor ''LABEL'')"
definition getSensorLabel :: "archon_module \<Rightarrow> heater_sensor \<Rightarrow> ('d archon, string) oprog" where
  "getSensorLabel md sensor = readConfigKey md (sensor_key sensor ''LABEL'')"

text \<open>The limit is written as a \<open>double\<close> and read as an \<open>int\<close>.\<close>

definition setHeaterLimit :: "archon_module \<Rightarrow> heater_name \<Rightarrow> f64 \<Rightarrow> ('d archon, unit) oprog" where
  "setHeaterLimit md htr = mod_write_double md (heater_key htr ''LIMIT'')"
definition getHeaterLimit :: "archon_module \<Rightarrow> heater_name \<Rightarrow> ('d archon, f64) oprog" where
  "getHeaterLimit md htr = othen (mod_read_int md (heater_key htr ''LIMIT'')) (\<lambda>n. oreturn (Fin (of_int n)))"

section \<open>Lemmas\<close>

lemma stoi_char_code: "c \<noteq> CHR 0x00 \<Longrightarrow> \<exists>n. stoi (show_int (of_char c)) = Inr n \<and> n \<noteq> 0"
proof -
  assume "c \<noteq> CHR 0x00"
  have "(of_char c :: nat) \<noteq> 0"
  proof
    assume "(of_char c :: nat) = 0"
    then have "c = char_of (0 :: nat)"
      using char_of_char [of c] by metis
    also have "char_of (0 :: nat) = CHR 0x00"
      by code_simp
    finally show False using \<open>c \<noteq> CHR 0x00\<close> by simp
  qed
  then have nz: "(of_char c :: int) \<noteq> 0"
    by (metis of_nat_of_char of_nat_eq_0_iff)
  have "(of_char c :: int) < 256" "0 \<le> (of_char c :: int)"
    using nat_of_char_less_256 [of c] by (metis of_nat_of_char of_nat_less_numeral_iff, metis of_nat_of_char of_nat_0_le_iff)
  then have "stoi (show_int (of_char c)) = Inr (of_char c)"
    by (intro stoi_show_int) (simp_all add: int_min_def int_max_def)
  with nz show ?thesis by blast
qed

lemma gpio_input_true:
  assumes "list_all isprint s"
  shows "gpio_input s i = Inr True"
proof (cases "i < length s")
  case True
  then have "isprint (s ! i)"
    using assms by (simp add: list_all_length)
  then have "s ! i \<noteq> CHR 0x00"
    by (auto simp: isprint_def)
  with stoi_char_code [of "s ! i"] True show ?thesis
    by (auto simp: gpio_input_def stream_get_def)
next
  case False
  have "stoi (show_int (-1)) = Inr (-1)"
    by (intro stoi_show_int) (simp_all add: int_min_def int_max_def)
  with False show ?thesis
    by (simp add: gpio_input_def stream_get_def)
qed

lemma gpio_inputs_true:
  assumes "list_all isprint s" "n \<le> length (GPIO h)"
  shows "gpio_inputs s n h = (Inr (), h\<lparr>GPIO := replicate n True @ drop n (GPIO h)\<rparr>)"
  using assms(2)
proof (induction n)
  case (Suc n)
  have step: "(replicate n True @ drop n (GPIO h))[n := True] = replicate (Suc n) True @ drop (Suc n) (GPIO h)"
    using Suc.prems by (simp add: list_update_append Cons_nth_drop_Suc [symmetric] replicate_append_same)
  with Suc show ?case
    by (simp add: andthen_def assign_def gpio_input_true [OF assms(1)] lifts_def modifies_def)
qed (simp add: returns_def)

lemma assign_keeps: "assign f r h = (q, h') \<Longrightarrow> (\<And>x. p (f x h) = p h) \<Longrightarrow> p h' = p h"
  by (auto simp: assign_def andthen_def lifts_def modifies_def split: sum.splits)

lemma heater_assigns_keep_gpio: "pseq (heater_assigns pos m) h = (r, h') \<Longrightarrow> GPIO h' = GPIO h"
  by (erule pseq_keeps [rotated]) (auto simp: heater_assigns_def Let_def elim!: assign_keeps [where p = GPIO])

text \<open>The values of a status reply are made of the reply's printable characters.\<close>

lemma printable_tail: "list_all isprint l \<Longrightarrow> list_all isprint (tl (dropWhile P l))"
  by (induction l) auto

definition printable_values :: "ssmap \<Rightarrow> bool" where
  "printable_values m \<longleftrightarrow> (\<forall>k v. map_of m k = Some v \<longrightarrow> list_all isprint v)"

lemma printable_item:
  assumes "list_all isprint item" "printable_values m"
  shows "printable_values (parse_item item m)"
proof (cases "CHR ''='' \<in> set item")
  case True
  show ?thesis
    unfolding printable_values_def
  proof (intro allI impI)
    fix k v
    assume "map_of (parse_item item m) k = Some v"
    then have "v = tl (dropWhile (\<lambda>c. c \<noteq> CHR ''='') item) \<or> map_of m k = Some v"
      using True by (simp add: parse_item_def split: if_splits)
    then show "list_all isprint v"
      using assms printable_tail unfolding printable_values_def by blast
  qed
qed (use assms in \<open>simp add: parse_item_def\<close>)

lemma printable_fold:
  "list_all (list_all isprint) items \<Longrightarrow> printable_values m \<Longrightarrow> printable_values (fold parse_item items m)"
  by (induction items arbitrary: m) (simp_all add: printable_item)

lemma printable_pieces:
  "list_all isprint s \<Longrightarrow> list_all isprint acc \<Longrightarrow> list_all (list_all isprint) (getlines sep acc s)"
  by (induction sep acc s rule: getlines.induct) auto

lemma value_printable:
  assumes "map_of (parse_parameter_response r) k = Some v" "list_all isprint r"
  shows "list_all isprint v"
proof -
  have "printable_values (parse_parameter_response r)"
    unfolding parse_parameter_response_def split_on_def
    by (intro printable_fold printable_pieces) (simp_all add: assms(2) printable_values_def)
  then show ?thesis
    using assms(1) by (simp add: printable_values_def)
qed

text \<open>A status reply and a heater module in the third slot.\<close>

definition demo_status :: string where
  "demo_status = ''MOD1/HEATERAOUTPUT=nan MOD1/HEATERBOUTPUT=nan MOD1/TEMPA=nan MOD1/TEMPB=nan MOD1/TEMPC=nan '' @
     ''MOD1/HEATERAP=1 MOD1/HEATERAI=2 MOD1/HEATERAD=3 MOD1/HEATERBP=4 MOD1/HEATERBI=5 MOD1/HEATERBD=6 MOD1/DINPUTS=00000000''"

definition demo_module :: archon_module where
  "demo_module = \<lparr>modpos = 2, mod_id = ''0123'', mod_version = [1, 0, 0], mod_rev = 1, mod_kind = Mod_heaterX,
     heater = no_heater, lcbias = fst lvx_biases, hcbias = snd lvx_biases\<rparr>"

section \<open>Properties\<close>

text \<open>
  The digital inputs of a heater module all read as high, whatever the controller says: the number
  of each character is read, not its value.
\<close>

theorem gpio_inputs_always_high:
  assumes "update_heater pos (parse_parameter_response reply) h = (Inr (), h')"
    and "list_all isprint reply" "length (GPIO h) = 8"
  shows "GPIO h' = replicate 8 True"
proof -
  obtain g s where g: "pseq (heater_assigns pos (parse_parameter_response reply)) h = (Inr (), g)"
    "get_module_variable_string pos ''DINPUTS'' (parse_parameter_response reply) (CHR ''/'') = Inr s"
    "gpio_inputs s 8 g = (Inr (), h')"
    using assms(1) by (auto simp: update_heater_def andthen_eq_Inr lifts_def)
  have "map_of (parse_parameter_response reply) (''MOD'' @ show_nat (pos + 1) @ ''/DINPUTS'') = Some s"
    using g(2) by (simp add: get_module_variable_string_def map_at_def split: option.splits)
  from gpio_inputs_true [OF value_printable [OF this assms(2)], of 8 g] g(3) heater_assigns_keep_gpio [OF g(1)] assms(3) show ?thesis by simp
qed

lemma gpio_inputs_always_high_witness:
  "\<exists>h. update_heater 0 (parse_parameter_response demo_status) no_heater = (Inr (), h) \<and> GPIO h = replicate 8 True"
proof -
  have ok: "fst (update_heater 0 (parse_parameter_response demo_status) no_heater) = Inr ()"
    "list_all isprint demo_status" "length (GPIO no_heater) = 8"
    by code_simp+
  then obtain h where h: "update_heater 0 (parse_parameter_response demo_status) no_heater = (Inr (), h)"
    by (metis prod.collapse)
  from gpio_inputs_always_high [OF h ok(2,3)] h show ?thesis by blast
qed

text \<open>
  A module in the first slot stops the constructor, if it is of a supported type: its type is looked
  up under slot 1 by the driver and under slot 0 by the module, and there is no slot 0.
\<close>

theorem module_in_first_slot_is_fatal:
  assumes "map_of (arch_system s) ''MOD0_TYPE'' = None"
    and "rbind (map_at (arch_system s) ''MOD_PRESENT'') (stoi_base 16) = Inr installed" "bit installed 0"
    and "extract_int 0 ''TYPE'' (arch_system s) (CHR ''_'') = Inr t" "module_type_of (word_of_int t) = Some kind"
  shows "scan_modules s = Some (Inl (Out_of_range ''map::at''), s)"
proof -
  have slots: "[0..<12] = 0 # [1..<12::nat]"
    by (simp add: upt_conv_Cons)
  have "show_nat 0 = ''0''"
    by code_simp
  then have "module_init 0 kind lc hc (arch_system s) = Inl (Out_of_range ''map::at'')" for lc hc
    using assms(1) by (simp add: module_init_def map_at_def)
  then have "scan_slot installed 0 s = Some (Inl (Out_of_range ''map::at''), s)"
    using assms(3-5) by (simp add: scan_slot_def constructModule_def othen_olift)
  then show ?thesis
    using assms(2) by (simp add: scan_modules_def othen_olift slots del: upt_rec_numeral)
qed

lemma module_in_first_slot_is_fatal_witness:
  "\<exists>s :: (int \<Rightarrow> string) archon. scan_modules s = Some (Inl (Out_of_range ''map::at''), s)"
proof -
  let ?s = "demo_archon\<lparr>arch_system := [(''MOD_PRESENT'', ''1''), (''MOD1_TYPE'', ''11'')]\<rparr>"
  have "map_of (arch_system ?s) ''MOD0_TYPE'' = None"
    "rbind (map_at (arch_system ?s) ''MOD_PRESENT'') (stoi_base 16) = Inr 1" "bit (1 :: int) 0"
    "extract_int 0 ''TYPE'' (arch_system ?s) (CHR ''_'') = Inr 11" "module_type_of (word_of_int 11) = Some Mod_heaterX"
    by (simp, simp, code_simp, simp, simp, code_simp, code_simp)
  from module_in_first_slot_is_fatal [OF this] show ?thesis by blast
qed

text \<open>A module in any other slot carries the identity of the slot before it.\<close>

lemma module_described_by_slot_before:
  "module_init (Suc p) kind lc hc m = Inr md \<Longrightarrow>
   map_of m (''MOD'' @ show_nat (Suc p) @ ''_ID'') = Some (mod_id md) \<and> mod_key md key = ''MOD'' @ show_nat (Suc (Suc p)) @ ''/'' @ key"
  by (auto simp: module_init_def Let_def rbind_eq_Inr map_at_def mod_key_def split: option.splits)

text \<open>
  The voltage limits of the bias modules have no effect: what \<open>setV\<close> does is the same whatever
  limits are configured.
\<close>

theorem bias_limits_have_no_effect:
  "bias_setV md (b\<lparr>lowlimit := l, highlimit := h\<rparr>) ch v = bias_setV md b ch v"
  by (simp add: bias_setV_def check_channel_number_def bias_key_def)

text \<open>Keys and numbers of the modules fit into a line.\<close>

definition key_text_ok :: "string \<Rightarrow> bool" where
  "key_text_ok key \<longleftrightarrow> CHR ''='' \<notin> set key \<and> list_all isprint key \<and> length key \<le> 100"

lemma mod_key_fits:
  assumes "key_text_ok key" "modpos md < 12" "list_all isprint v" "length v \<le> 1000" "config_lines s < 2047"
  shows "config_fits s (mod_key md key) v"
proof -
  have "length (show_nat (modpos md + 1)) \<le> 2"
    using length_show_nat [of "modpos md + 1" 1] assms(2) by simp
  moreover have "CHR ''='' \<notin> set (show_nat (modpos md + 1))"
    using show_nat_digits [of "modpos md + 1"] by (auto simp: list_all_iff is_digit_def digit_val_def Let_def)
  ultimately show ?thesis
    using assms show_nat_printable [of "modpos md + 1"]
    by (auto simp: config_fits_def mod_key_def key_text_ok_def isprint_def)
qed

lemma heater_key_ok: "length what \<le> 20 \<Longrightarrow> CHR ''='' \<notin> set what \<Longrightarrow> list_all isprint what \<Longrightarrow> key_text_ok (heater_key htr what)"
  by (cases htr) (auto simp: key_text_ok_def heater_key_def isprint_def)

lemma show_decimals_facts:
  assumes "m < 10 ^ 16"
  shows "list_all isprint (show_decimals 6 m)" "length (show_decimals 6 m) \<le> 17"
proof -
  have "m div 10 ^ 6 < 10 ^ 10"
    using assms by (simp add: div_less_iff_less_mult)
  then have "length (show_nat (m div 10 ^ 6)) \<le> 10"
    using length_show_nat [of "m div 10 ^ 6" 9] by simp
  moreover have "length (setw 6 (CHR ''0'') (show_nat (m mod 10 ^ 6))) = 6"
    using length_setw_base [of 10 "m mod 10 ^ 6" 5 "CHR ''0''" False] by (simp add: show_nat_def)
  ultimately show "length (show_decimals 6 m) \<le> 17"
    by (simp add: show_decimals_def)
  have zeros: "list_all isprint (setw w (CHR ''0'') (show_nat n))" for w n
    using show_nat_printable [of n] by (auto simp: setw_def list_all_iff zero_printable)
  show "list_all isprint (show_decimals 6 m)"
    using show_nat_printable [of "m div 10 ^ 6"] zeros [of 6 "m mod 10 ^ 6"]
    by (simp add: show_decimals_def) (simp add: isprint_def)
qed

definition micro :: "rat \<Rightarrow> nat" where
  "micro x = nat (round_even (\<bar>x\<bar> * 10 ^ 6))"

lemma to_string_micro: "to_string_double (Fin x) = (if x < 0 then CHR ''-'' # show_decimals 6 (micro x) else show_decimals 6 (micro x))"
  by (cases "x < 0") (simp_all add: to_string_double_def micro_def)

lemma round_even_le: "x \<le> of_int n \<Longrightarrow> round_even x \<le> n"
proof -
  assume x: "x \<le> of_int n"
  then consider "\<lfloor>x\<rfloor> < n" | "x = of_int n"
    by (metis floor_mono floor_of_int le_less of_int_floor_le order_antisym)
  then show ?thesis
    by cases (auto simp: round_even_def Let_def)
qed

lemma micro_bound:
  assumes "\<bar>x\<bar> \<le> 10 ^ 9"
  shows "micro x < 10 ^ 16" "\<bar>rounded6 x\<bar> \<le> max_double"
proof -
  have "\<bar>x\<bar> * 10 ^ 6 \<le> of_int (10 ^ 15)"
    using assms by simp
  then have r: "round_even (\<bar>x\<bar> * 10 ^ 6) \<le> 10 ^ 15"
    by (rule round_even_le)
  then show "micro x < 10 ^ 16"
    by (simp add: micro_def)
  have "\<bar>rounded6 x\<bar> = of_int (round_even (\<bar>x\<bar> * 10 ^ 6)) / 10 ^ 6"
    using round_even_nonneg [of "\<bar>x\<bar> * 10 ^ 6"] by (simp add: rounded6_def abs_mult)
  also have "\<dots> \<le> 10 ^ 15 / 10 ^ 6"
    using r by (intro divide_right_mono) (metis of_int_le_iff of_int_numeral of_int_power, simp)
  also have "\<dots> \<le> max_double"
    by (simp add: max_double_def)
  finally show "\<bar>rounded6 x\<bar> \<le> max_double" .
qed

lemma double_fits:
  assumes "key_text_ok key" "modpos md < 12" "\<bar>x\<bar> \<le> 10 ^ 9" "config_lines s < 2047"
  shows "config_fits s (mod_key md key) (to_string_double (Fin x))"
proof -
  have "isprint (CHR ''-'')" by (simp add: isprint_def)
  then show ?thesis
    using show_decimals_facts [OF micro_bound(1) [OF assms(3)]] assms
    by (intro mod_key_fits) (auto simp: to_string_micro)
qed

text \<open>
  A heater target that was set reads back as the value rounded to six decimals.
\<close>

theorem heater_target_round_trip:
  assumes "config_ok mem s" "config_lines s < 2047" "modpos md < 12" "\<bar>x\<bar> \<le> 10 ^ 9"
  shows "\<exists>s'. othen (setHeaterTarget md htr (Fin x)) (\<lambda>_. getHeaterTarget md htr) s = Some (Inr (Fin (rounded6 x)), s')"
proof -
  let ?k = "heater_key htr ''TARGET''"
  have "key_text_ok ?k"
    by (rule heater_key_ok) (simp_all add: isprint_def)
  from arch_write_good [OF assms(1) double_fits [OF this assms(3,4,2)]] obtain s1 where
    s1: "writeKeyValue (mod_key md ?k) (to_string_double (Fin x)) s = Some (Inr (), s1)" "config_ok mem s1"
      "config_dict mem s1 = (config_dict mem s)(mod_key md ?k \<mapsto> to_string_double (Fin x))" .
  from arch.fetch_double [OF s1(2), of "mod_key md ?k" x] s1(3) micro_bound(2) [OF assms(4)] obtain s2 where
    "othen (readKeyValue (mod_key md ?k)) (\<lambda>v. olift (stod v)) s1 = Some (Inr (Fin (rounded6 x)), s2)"
    by auto
  with s1(1) show ?thesis
    by (simp add: setHeaterTarget_def getHeaterTarget_def mod_write_double_def mod_read_double_def
        writeConfigKey_def readConfigKey_def)
qed

lemma heater_target_round_trip_witness:
  "\<exists>s'. othen (setHeaterTarget demo_module Heater_B (Fin (- 1625 / 10))) (\<lambda>_. getHeaterTarget demo_module Heater_B) demo_archon =
    Some (Inr (Fin (- 1625 / 10)), s')"
proof -
  have "rounded6 (- 1625 / 10) = - 1625 / 10"
    by (simp add: rounded6_def round_even_def)
  with heater_target_round_trip [OF demo_archon_ok(1), of demo_module "- 1625 / 10" Heater_B] demo_archon_ok(3)
  show ?thesis by (simp add: demo_module_def)
qed

lemma stoi_decimals:
  assumes "int (m div 10 ^ 6) \<le> int_max"
  shows "stoi (show_decimals 6 m) = Inr (int (m div 10 ^ 6))"
proof -
  have "strtol 10 (show_decimals 6 m) = Some (int (digits_value 10 (show_nat (m div 10 ^ 6))))"
    unfolding show_decimals_def
    by (rule strtol_digits) (simp_all add: show_nat_digits not_digit_point del: One_nat_def)
  then show ?thesis
    using assms by (simp add: stoi_def stoi_base_def digits_value_show_nat int_min_def)
qed

text \<open>
  A heater limit that was set reads back without its fraction: it is written as a \<open>double\<close> and
  read as an \<open>int\<close>.
\<close>

theorem heater_limit_loses_fraction:
  assumes "config_ok mem s" "config_lines s < 2047" "modpos md < 12" "0 \<le> x" "x \<le> 10 ^ 6"
  shows "\<exists>s'. othen (setHeaterLimit md htr (Fin x)) (\<lambda>_. getHeaterLimit md htr) s =
    Some (Inr (Fin (of_int (int (micro x div 10 ^ 6)))), s')"
proof -
  let ?k = "heater_key htr ''LIMIT''"
  have key: "key_text_ok ?k"
    by (rule heater_key_ok) (simp_all add: isprint_def)
  have x: "\<bar>x\<bar> \<le> 10 ^ 9"
    using assms(4,5) by simp
  have "\<bar>x\<bar> * 10 ^ 6 \<le> of_int (10 ^ 12)"
    using assms(4,5) by simp
  then have "micro x \<le> 10 ^ 12"
    using round_even_le [of "\<bar>x\<bar> * 10 ^ 6" "10 ^ 12"] by (simp add: micro_def nat_le_iff)
  then have "micro x div 10 ^ 6 \<le> 10 ^ 12 div 10 ^ 6"
    by (rule div_le_mono)
  then have small: "int (micro x div 10 ^ 6) \<le> int_max"
    by (simp add: int_max_def)
  from arch_write_good [OF assms(1) double_fits [OF key assms(3) x assms(2)]] obtain s1 where
    s1: "writeKeyValue (mod_key md ?k) (to_string_double (Fin x)) s = Some (Inr (), s1)" "config_ok mem s1"
      "config_dict mem s1 = (config_dict mem s)(mod_key md ?k \<mapsto> to_string_double (Fin x))" .
  have parse: "stoi (to_string_double (Fin x)) = Inr (int (micro x div 10 ^ 6))"
    using stoi_decimals [OF small] assms(4) by (simp add: to_string_micro)
  from arch.fetch_parsed [OF s1(2), of "mod_key md ?k" _ stoi, OF _ parse] s1(3) obtain s2 where
    "othen (readKeyValue (mod_key md ?k)) (\<lambda>v. olift (stoi v)) s1 = Some (Inr (int (micro x div 10 ^ 6)), s2)"
    by auto
  then have "getHeaterLimit md htr s1 = Some (Inr (Fin (of_int (int (micro x div 10 ^ 6)))), s2)"
    by (simp add: getHeaterLimit_def mod_read_int_def readConfigKey_def) (simp add: always_def returns_def)
  with s1(1) show ?thesis
    by (simp add: setHeaterLimit_def mod_write_double_def writeConfigKey_def)
qed

lemma heater_limit_loses_fraction_witness:
  "\<exists>s'. othen (setHeaterLimit demo_module Heater_A (Fin (199 / 10))) (\<lambda>_. getHeaterLimit demo_module Heater_A) demo_archon =
    Some (Inr (Fin 19), s')"
proof -
  have "micro (199 / 10) div 10 ^ 6 = 19"
    by (simp add: micro_def round_even_def)
  with heater_limit_loses_fraction [OF demo_archon_ok(1), of demo_module "199 / 10" Heater_A] demo_archon_ok(3)
  show ?thesis by (simp add: demo_module_def)
qed

end
