(* ===== verification/Serial_Line.thy ===== *)
theory Serial_Line
  imports Serial_Port Partial_Calls Text_Format
begin

text \<open>
  A serial line with an instrument at the other end, for the drivers that exchange lines of text:
  \<open>read_until_endl\<close> of protocols/src/SerialPort.cpp in both of its builds, and the port together with
  the instrument.

  \<open>l_react\<close> is what the instrument does with a character, \<open>l_peer\<close> its own state; it answers with
  characters, each with a delay in milliseconds. \<open>l_out\<close> is what was written and is not on the wire
  yet: \<open>l_fifo\<close> characters of a write leave the queue at once, the rest when the program waits, and
  \<open>tcflush\<close> with \<open>TCIOFLUSH\<close> throws away what is still in the queue. \<open>l_transfer_ms\<close> is
  \<open>calc_minimum_transfer_time\<close>, whose double arithmetic is not modelled.
\<close>

section \<open>Reading up to an end of line with boost asio\<close>

text \<open>\<open>async_read_until\<close> reads what is there, in pieces of 512 bytes. The handler runs when the end of
  the line is in the buffer; what came with it stays in the buffer and is returned. A read that does
  not end in time is cancelled, and what it had read is gone.\<close>

definition until_timeout :: "nat \<Rightarrow> (serial, byte list) prog" where
  "until_timeout deadline s = (Inl (Protocol_timeout ''serial port read timed out...''), s\<lparr>now_ms := deadline\<rparr>)"

lemma arrived_nonempty: "fst p \<le> t \<Longrightarrow> arrived t (p # inc) \<noteq> []"
  by (simp add: arrived_def)

definition until_once :: "nat \<Rightarrow> byte list \<Rightarrow> (serial, byte list) prog" where
  "until_once deadline buf s = (case incoming s of
     [] \<Rightarrow> until_timeout deadline s
   | p # inc \<Rightarrow>
       if deadline < fst p then until_timeout deadline s
       else let t = max (now_ms s) (fst p); got = take 512 (arrived t (p # inc))
            in andthen (sys_call (\<lambda>msg. ''error reading from serial port: '' @ msg)) (\<lambda>_.
               andthen (modifies (\<lambda>s. s\<lparr>incoming := drop (length got) (incoming s)\<rparr>)) (\<lambda>_.
               returns (buf @ map snd got))) (s\<lparr>now_ms := t\<rparr>))"

lemma prefix_length: "xs = take m ys \<Longrightarrow> xs = take (length xs) ys"
  by (cases "m \<le> length ys") auto

lemma take_arrived: "take k (arrived t inc) = take (length (take k (arrived t inc))) inc"
  by (rule prefix_length [of _ "min k (length (arrived t inc))"]) (subst arrived_prefix, simp)

lemma until_once_Inr:
  assumes "until_once deadline buf s = (Inr r, s')"
  shows "\<exists>n > 0. n \<le> length (incoming s) \<and> r = buf @ map snd (take n (incoming s)) \<and>
    incoming s' = drop n (incoming s) \<and> sent s' = sent s"
proof -
  from assms obtain p inc where p: "incoming s = p # inc" "fst p \<le> deadline"
    by (auto simp: until_once_def until_timeout_def split: list.splits if_splits)
  let ?t = "max (now_ms s) (fst p)"
  let ?got = "take 512 (arrived ?t (p # inc))"
  have got: "?got = take (length ?got) (incoming s)"
    unfolding p(1) by (rule take_arrived)
  have "length ?got > 0" by (simp add: arrived_def)
  moreover have "length ?got \<le> length (incoming s)"
    using got by (metis length_take min.cobounded1)
  moreover have "r = buf @ map snd ?got \<and> incoming s' = drop (length ?got) (incoming s) \<and> sent s' = sent s"
    using assms p by (auto simp: until_once_def Let_def andthen_def modifies_def returns_def sys_call_def
        split: list.splits option.splits sum.splits prod.splits)
  ultimately show ?thesis using got by metis
qed

lemma until_once_Inl: "until_once deadline buf s = (Inl e, s') \<Longrightarrow> incoming s' = incoming s \<and> sent s' = sent s"
  by (auto simp: until_once_def until_timeout_def Let_def andthen_def modifies_def returns_def sys_call_def
      split: list.splits option.splits sum.splits prod.splits if_splits)

function until_loop :: "byte \<Rightarrow> nat \<Rightarrow> byte list \<Rightarrow> (serial, byte list) prog" where
  "until_loop endlchar deadline buf s =
     (if endlchar \<in> set buf then (Inr buf, s)
      else (case until_once deadline buf s of
          (Inl e, s') \<Rightarrow> (Inl e, s')
        | (Inr buf', s') \<Rightarrow> until_loop endlchar deadline buf' s'))"
  by pat_completeness auto

termination
  by (relation "measure (\<lambda>(_, _, _, s). length (incoming s))") (auto dest!: until_once_Inr [OF sym])

declare until_loop.simps [simp del]

definition read_until_endl_asio_impl :: "byte \<Rightarrow> nat \<Rightarrow> (serial, byte list) prog" where
  "read_until_endl_asio_impl endlchar wait = andthen (\<lambda>s. run_for (now_ms s + wait) s) (\<lambda>_ s.
     until_loop endlchar (now_ms s + wait) [] s)"

text \<open>What was read is a piece of the line with an end of line in it; nothing else was touched.\<close>

lemma until_loop_takes:
  assumes "until_loop e deadline buf s = (r, s')"
  shows "\<exists>n. incoming s' = drop n (incoming s) \<and> sent s' = sent s \<and>
    (case r of Inr text \<Rightarrow> e \<in> set text \<and> text = buf @ map snd (take n (incoming s)) | Inl _ \<Rightarrow> True)"
  using assms
proof (induction e deadline buf s arbitrary: r s' rule: until_loop.induct)
  case (1 e deadline buf s)
  show ?case
  proof (cases "e \<in> set buf")
    case True
    with "1.prems" show ?thesis
      by (intro exI [of _ 0]) (auto simp: until_loop.simps [of e deadline buf s])
  next
    case nin: False
    obtain q s1 where q: "until_once deadline buf s = (q, s1)" by (cases "until_once deadline buf s")
    show ?thesis
    proof (cases q)
      case (Inl x)
      with "1.prems" nin q until_once_Inl [of deadline buf s x s1] show ?thesis
        by (intro exI [of _ 0]) (auto simp: until_loop.simps [of e deadline buf s])
    next
      case (Inr buf1)
      with q obtain n where n: "buf1 = buf @ map snd (take n (incoming s))" "incoming s1 = drop n (incoming s)" "sent s1 = sent s"
        using until_once_Inr by blast
      have "until_loop e deadline buf1 s1 = (r, s')"
        using "1.prems" nin q Inr by (simp add: until_loop.simps [of e deadline buf s])
      from "1.IH" [OF nin q [symmetric] Inr this] obtain m where m: "incoming s' = drop m (incoming s1)" "sent s' = sent s1"
        "case r of Inr text \<Rightarrow> e \<in> set text \<and> text = buf1 @ map snd (take m (incoming s1)) | Inl _ \<Rightarrow> True" by blast
      have "take (n + m) (incoming s) = take n (incoming s) @ take m (drop n (incoming s))"
        by (simp add: take_add)
      with m n show ?thesis
        by (intro exI [of _ "n + m"]) (auto simp: add.commute split: sum.splits)
    qed
  qed
qed

section \<open>The line\<close>

definition to_byte :: "char \<Rightarrow> byte" where
  "to_byte c = of_char c"

definition to_char :: "byte \<Rightarrow> char" where
  "to_char b = char_of (unat b)"

lemma to_char_byte [simp]: "to_char (to_byte c) = c"
proof -
  have "unat (of_nat (of_char c) :: byte) = of_char c mod 256"
    by (simp only: unat_of_nat) simp
  then have "unat (of_char c :: byte) = of_char c"
    by (simp only: of_nat_of_char of_char_mod_256)
  then show ?thesis by (simp add: to_char_def to_byte_def)
qed

record 'd line =
  l_port :: serial
  l_asio :: bool
  l_drain :: bool
  l_fifo :: nat
  l_out :: string
  l_peer :: 'd
  l_react :: "'d \<Rightarrow> char \<Rightarrow> 'd \<times> (nat \<times> char) list"
  l_transfer_ms :: "nat \<Rightarrow> nat"

text \<open>The instrument hears a text.\<close>

fun hears :: "('d \<Rightarrow> char \<Rightarrow> 'd \<times> (nat \<times> char) list) \<Rightarrow> 'd \<Rightarrow> string \<Rightarrow> 'd \<times> (nat \<times> char) list" where
  "hears react d [] = (d, [])"
| "hears react d (c # cs) = (case react d c of (d1, a1) \<Rightarrow> case hears react d1 cs of (d2, a2) \<Rightarrow> (d2, a1 @ a2))"

lemma hears_append: "hears react d (xs @ ys) =
    (case hears react d xs of (d1, a1) \<Rightarrow> case hears react d1 ys of (d2, a2) \<Rightarrow> (d2, a1 @ a2))"
  by (induction xs arbitrary: d) (simp_all split: prod.splits)

text \<open>The next \<open>n\<close> characters go out on the wire.\<close>

definition transmit :: "nat \<Rightarrow> 'd line \<Rightarrow> 'd line" where
  "transmit n l = (case hears (l_react l) (l_peer l) (take n (l_out l)) of (d, answer) \<Rightarrow>
     l\<lparr>l_out := drop n (l_out l), l_peer := d,
       l_port := l_port l\<lparr>incoming := incoming (l_port l) @
         map (\<lambda>(t, c). (now_ms (l_port l) + t, to_byte c)) answer\<rparr>\<rparr>)"

definition transmit_all :: "'d line \<Rightarrow> 'd line" where
  "transmit_all l = transmit (length (l_out l)) l"

definition on_port :: "(serial, 'a) prog \<Rightarrow> ('d line, 'a) prog" where
  "on_port m l = (case m (l_port l) of (r, p) \<Rightarrow> (r, l\<lparr>l_port := p\<rparr>))"

text \<open>A call that waits: all that was written is on the wire by then.\<close>

definition on_wire :: "(serial, 'a) prog \<Rightarrow> ('d line, 'a) prog" where
  "on_wire m l = on_port m (transmit_all l)"

definition line_write :: "string \<Rightarrow> ('d line, unit) prog" where
  "line_write data = andthen (on_port (write_bytes (map to_byte data))) (\<lambda>_.
     modifies (\<lambda>l. let l' = l\<lparr>l_out := l_out l @ data\<rparr> in if l_drain l then transmit_all l' else transmit (l_fifo l) l'))"

definition line_flush :: "('d line, unit) prog" where
  "line_flush = andthen (on_port flush) (\<lambda>_. modifies (\<lambda>l. l\<lparr>l_out := []\<rparr>))"

definition setWait :: "nat \<Rightarrow> ('d line, unit) prog" where
  "setWait w = on_port (modifies (\<lambda>s. s\<lparr>wait_ms := w\<rparr>))"

definition getWait :: "('d line, nat) prog" where
  "getWait = gets (wait_ms \<circ> l_port)"

definition line_init :: "parameterset \<Rightarrow> ('d line, unit) prog" where
  "line_init ps = on_port (Init (Some ps))"

definition line_read_definite :: "nat \<Rightarrow> nat \<Rightarrow> ('d line, string) prog" where
  "line_read_definite len wait = andthen (on_wire (read_definite len wait)) (\<lambda>bs. returns (map to_char bs))"

text \<open>A wait of the polling build that never ends is \<open>None\<close>.\<close>

definition read_line_bytes :: "byte \<Rightarrow> ('d line, byte list) oprog" where
  "read_line_bytes endlchar l =
     (if l_asio l
      then always (on_wire (andthen (gets wait_ms) (read_until_endl_asio_impl endlchar))) l
      else (case on_wire (read_until_endl_poll_impl endlchar) l of
          (Inr Blocked, l') \<Rightarrow> None
        | (Inr (Done bs), l') \<Rightarrow> Some (Inr bs, l')
        | (Inl e, l') \<Rightarrow> Some (Inl e, l')))"

definition read_until_endl :: "char \<Rightarrow> ('d line, string) oprog" where
  "read_until_endl endlchar = othen (read_line_bytes (to_byte endlchar)) (\<lambda>bs. oreturn (map to_char bs))"

section \<open>A question and its answer\<close>

text \<open>A line on which nothing is under way and no call fails.\<close>

definition line_idle :: "'d line \<Rightarrow> bool" where
  "line_idle l \<longleftrightarrow> incoming (l_port l) = [] \<and> sys_results (l_port l) = [] \<and> \<not> pending_read (l_port l) \<and> l_out l = []"

text \<open>What the exchange of lines does not change.\<close>

definition line_config :: "'d line \<Rightarrow> bool \<times> bool \<times> nat \<times> ('d \<Rightarrow> char \<Rightarrow> 'd \<times> (nat \<times> char) list) \<times> (nat \<Rightarrow> nat)" where
  "line_config l = (l_asio l, l_drain l, l_fifo l, l_react l, l_transfer_ms l)"

lemma transmit_split: "m \<le> length (l_out l) \<Longrightarrow> transmit_all (transmit m l) = transmit_all l"
proof -
  assume m: "m \<le> length (l_out l)"
  have "hears (l_react l) (l_peer l) (l_out l) = hears (l_react l) (l_peer l) (take m (l_out l) @ drop m (l_out l))"
    by simp
  then show ?thesis
    by (simp add: transmit_all_def transmit_def hears_append split: prod.splits del: append_take_drop_id)
qed

lemma transmit_more: "length (l_out l) \<le> m \<Longrightarrow> transmit m l = transmit_all l"
  by (simp add: transmit_all_def transmit_def)

lemma transmit_all_idem: "transmit_all (transmit_all l) = transmit_all l"
  by (simp add: transmit_all_def transmit_def split: prod.splits)

lemma transmit_any: "transmit_all (transmit m l) = transmit_all l"
  by (cases "m \<le> length (l_out l)") (simp_all add: transmit_split transmit_more transmit_all_idem)

lemma sys_call_quiet: "sys_results s = [] \<Longrightarrow> sys_call f s = (Inr (), s)"
  by (simp add: sys_call_def)

lemma until_answer:
  assumes "incoming s = map (Pair t) (map to_byte (body @ [c]))" "sys_results s = []" "now_ms s \<le> t" "t \<le> deadline"
    "length body < 512"
  shows "until_loop (to_byte c) deadline [] s = (Inr (map to_byte (body @ [c])), s\<lparr>now_ms := t, incoming := []\<rparr>)"
proof -
  have all: "arrived t (incoming s) = incoming s"
    unfolding assms(1) arrived_def by (rule takeWhile_eq_all_conv [THEN iffD2]) auto
  obtain p inc where p: "incoming s = p # inc" "fst p = t"
    using assms(1) by (cases body) auto
  have l: "length (p # inc) \<le> 512"
    using p(1) [symmetric] assms(1,5) by simp
  have m: "map snd (p # inc) = map to_byte (body @ [c])"
    using assms(1) unfolding p(1) by (simp add: comp_def)
  have "until_once deadline [] s = (Inr (map to_byte (body @ [c])), s\<lparr>now_ms := t, incoming := []\<rparr>)"
    using assms(2-4) p all l m
    by (simp add: until_once_def Let_def max_absorb2 andthen_def sys_call_def modifies_def returns_def)
  then show ?thesis
    by (subst until_loop.simps, simp, subst until_loop.simps, simp)
qed

text \<open>A question is written and its answer read, when the instrument answers in time with one line.\<close>

lemma line_exchange:
  assumes "line_idle l" "l_asio l"
    and "hears (l_react l) (l_peer l) req = (d, map (Pair t) (body @ [c]))"
    and "t \<le> wait_ms (l_port l)" "length body < 512"
  obtains l1 l2 where "line_write req l = (Inr (), l1)" "read_until_endl c l1 = Some (Inr (body @ [c]), l2)"
    "line_idle l2" "l_peer l2 = d" "line_config l2 = line_config l" "wait_ms (l_port l2) = wait_ms (l_port l)"
proof -
  let ?p = "(l_port l)\<lparr>sent := sent (l_port l) @ map to_byte req\<rparr>"
  let ?l = "l\<lparr>l_port := ?p, l_out := req\<rparr>"
  define l1 where "l1 = (if l_drain l then transmit_all ?l else transmit (l_fifo l) ?l)"
  have w: "line_write req l = (Inr (), l1)"
    using assms(1) by (simp add: line_write_def on_port_def write_bytes_def sys_call_quiet andthen_def modifies_def
        line_idle_def l1_def Let_def)
  have all: "transmit_all l1 = transmit_all ?l"
    by (simp add: l1_def transmit_all_idem transmit_any)
  let ?q = "?p\<lparr>incoming := map (Pair (now_ms (l_port l) + t)) (map to_byte (body @ [c]))\<rparr>"
  have ta: "transmit_all ?l = ?l\<lparr>l_out := [], l_peer := d, l_port := ?q\<rparr>"
    using assms(1,3) by (simp add: transmit_all_def transmit_def line_idle_def comp_def)
  have "until_loop (to_byte c) (now_ms ?q + wait_ms (l_port l)) [] ?q =
      (Inr (map to_byte (body @ [c])), ?q\<lparr>now_ms := now_ms (l_port l) + t, incoming := []\<rparr>)"
    using assms(1,4,5) by (intro until_answer) (simp_all add: line_idle_def)
  then have r: "read_until_endl_asio_impl (to_byte c) (wait_ms (l_port l)) ?q =
      (Inr (map to_byte (body @ [c])), ?q\<lparr>now_ms := now_ms (l_port l) + t, incoming := []\<rparr>)"
    using assms(1) by (simp add: read_until_endl_asio_impl_def andthen_def run_for_def line_idle_def)
  define l2 where "l2 = (?l\<lparr>l_out := [], l_peer := d, l_port := ?q\<lparr>now_ms := now_ms (l_port l) + t, incoming := []\<rparr>\<rparr>)"
  have "l_asio l1" "wait_ms (l_port (transmit_all l1)) = wait_ms (l_port l)"
    using assms(2) unfolding all ta by (simp_all add: l1_def transmit_all_def transmit_def split: prod.splits)
  with r have rd: "read_until_endl c l1 = Some (Inr (body @ [c]), l2)"
    by (simp add: read_until_endl_def read_line_bytes_def othen_def always_def on_wire_def on_port_def all ta
        andthen_def gets_def l2_def comp_def returns_def)
  show thesis
    by (rule that [OF w rd]) (use assms(1) in \<open>simp_all add: l2_def line_idle_def line_config_def\<close>)
qed

text \<open>A command that is not answered, or answered later, is only written.\<close>

lemma line_told:
  assumes "line_idle l" and "hears (l_react l) (l_peer l) req = (d, [])" "l_drain l \<or> length req \<le> l_fifo l"
  obtains l1 where "line_write req l = (Inr (), l1)" "line_idle l1" "l_peer l1 = d" "line_config l1 = line_config l"
    "wait_ms (l_port l1) = wait_ms (l_port l)"
proof -
  let ?p = "(l_port l)\<lparr>sent := sent (l_port l) @ map to_byte req\<rparr>"
  let ?l = "l\<lparr>l_port := ?p, l_out := [], l_peer := d\<rparr>"
  have "line_write req l = (Inr (), ?l)"
    using assms by (auto simp: line_write_def on_port_def write_bytes_def sys_call_quiet andthen_def modifies_def
        line_idle_def Let_def transmit_all_def transmit_def)
  then show thesis
    by (rule that) (use assms in \<open>simp_all add: line_idle_def line_config_def\<close>)
qed

text \<open>A line to try a driver out.\<close>

definition demo_line :: "'d \<Rightarrow> ('d \<Rightarrow> char \<Rightarrow> 'd \<times> (nat \<times> char) list) \<Rightarrow> 'd line" where
  "demo_line d react = \<lparr>l_port = quiet_port\<lparr>wait_ms := 200\<rparr>, l_asio = True, l_drain = False, l_fifo = 16, l_out = [],
     l_peer = d, l_react = react, l_transfer_ms = (\<lambda>n. n)\<rparr>"

end
