(* ===== verification/Lib_Usb.thy ===== *)
theory Lib_Usb
  imports Serial_Port Partial_Calls
begin

text \<open>
  USB: protocols/src/libUsbProtocol.cpp and protocols/src/BulkUSB.cpp.

  libusb itself is the state \<open>usb_bus\<close>: the devices on the bus with their identifiers, the number of
  references that each one has, and \<open>bus_results\<close>, the codes that the next calls return which can
  fail (a code below zero is an error; when the list is used up, the calls succeed). The texts of
  its errors are arguments.

  Objects of the class \<open>LibUsbDevice\<close> are values; what their constructors and destructors do to the
  reference counts is written out where the code makes and drops them.
\<close>

section \<open>The library\<close>

record usb_bus =
  bus_devices :: "(int \<times> int) list"
  bus_refs :: "int list"
  bus_results :: "int list"
  bus_error_name :: "int \<Rightarrow> string"
  bus_strerror :: "int \<Rightarrow> string"

definition format_libusb_err_msg :: "usb_bus \<Rightarrow> int \<Rightarrow> string" where
  "format_libusb_err_msg b errcode =
     ''libUSB error: '' @ bus_error_name b errcode @ '': '' @ bus_strerror b errcode"

text \<open>A call that can fail. \<open>LibUsbError\<close> is a \<open>ProtocolError\<close>.\<close>

definition check_libusb_return :: "(usb_bus, unit) prog" where
  "check_libusb_return b = (case bus_results b of
     [] \<Rightarrow> (Inr (), b)
   | r # rs \<Rightarrow> (if r < 0 then Inl (Protocol_error (format_libusb_err_msg b r)) else Inr (), b\<lparr>bus_results := rs\<rparr>))"

definition ref_device :: "int \<Rightarrow> nat \<Rightarrow> (usb_bus, unit) prog" where
  "ref_device k i = modifies (\<lambda>b. b\<lparr>bus_refs := (bus_refs b)[i := bus_refs b ! i + k]\<rparr>)"

definition ref_all :: "int \<Rightarrow> (usb_bus, unit) prog" where
  "ref_all k = modifies (\<lambda>b. b\<lparr>bus_refs := map (\<lambda>n. n + k) (bus_refs b)\<rparr>)"

section \<open>Device objects\<close>

record usb_device =
  u_dev :: "nat option"
  u_open :: bool
  u_claimed :: "int option"

definition new_device :: "nat \<Rightarrow> (usb_bus, usb_device) prog" where
  "new_device i = andthen (ref_device 1 i) (\<lambda>_. returns \<lparr>u_dev = Some i, u_open = False, u_claimed = None\<rparr>)"

text \<open>The copy has no handle of its own.\<close>

definition copy_device :: "usb_device \<Rightarrow> (usb_bus, usb_device) prog" where
  "copy_device d = (case u_dev d of
     None \<Rightarrow> throws (UB ''libusb_ref_device of a null pointer'')
   | Some i \<Rightarrow> new_device i)"

text \<open>The new object and what is left of the old one. The constructor assigns to
  \<open>*claimed_interface\<close>, which is empty in the new object.\<close>

definition move_device :: "usb_device \<Rightarrow> (usb_device \<times> usb_device) result" where
  "move_device d = (if u_claimed d \<noteq> None then Inl (UB ''assignment through an empty optional'')
     else Inr (\<lparr>u_dev = u_dev d, u_open = u_open d, u_claimed = None\<rparr>,
               d\<lparr>u_dev := None, u_open := False, u_claimed := None\<rparr>))"

definition drop_device :: "usb_device \<Rightarrow> (usb_bus, unit) prog" where
  "drop_device d = (case u_dev d of None \<Rightarrow> returns () | Some i \<Rightarrow> ref_device (-1) i)"

definition open_device :: "usb_device \<Rightarrow> (usb_bus, usb_device) prog" where
  "open_device d = andthen check_libusb_return (\<lambda>_. returns (d\<lparr>u_open := True\<rparr>))"

definition close_device :: "usb_device \<Rightarrow> usb_device" where
  "close_device d = d\<lparr>u_open := False\<rparr>"

definition set_configuration :: "usb_device \<Rightarrow> (usb_bus, unit) prog" where
  "set_configuration d = (if u_open d then check_libusb_return
     else throws (Logic_error ''tried to set configuration on closed device!''))"

definition clear_halt :: "usb_device \<Rightarrow> (usb_bus, unit) prog" where
  "clear_halt d = (if u_open d then check_libusb_return
     else throws (Logic_error ''tried to set configuration on closed device!''))"

definition reset_device :: "usb_device \<Rightarrow> (usb_bus, unit) prog" where
  "reset_device d = (if u_open d then check_libusb_return
     else throws (Logic_error ''tried to set reset a  device!''))"

definition claim_interface :: "int \<Rightarrow> usb_device \<Rightarrow> (usb_bus, usb_device) prog" where
  "claim_interface iface d = (if u_claimed d \<noteq> None then throws (Logic_error ''an interface is already claimed!'')
     else andthen check_libusb_return (\<lambda>_. returns (d\<lparr>u_claimed := Some iface\<rparr>)))"

definition release_interface :: "usb_device \<Rightarrow> (usb_bus, usb_device) prog" where
  "release_interface d = (if u_claimed d = None then throws (Logic_error ''no interface is claimed!'')
     else andthen check_libusb_return (\<lambda>_. returns (d\<lparr>u_claimed := None\<rparr>)))"

section \<open>The list of devices\<close>

text \<open>The list holds a reference to each device. \<open>n\<close> is its length.\<close>

definition list_at :: "nat \<Rightarrow> nat \<Rightarrow> (usb_bus, usb_device) prog" where
  "list_at n pos = (if n \<le> pos then throws (Out_of_range ''illegal device list index'') else new_device pos)"

text \<open>A destructor runs on both ways out of its block.\<close>

definition lastly :: "('s, 'a) prog \<Rightarrow> ('s, unit) prog \<Rightarrow> ('s, 'a) prog" where
  "lastly m cleanup s = (case m s of (r, s') \<Rightarrow> (r, snd (cleanup s')))"

definition device_descriptor :: "usb_device \<Rightarrow> (usb_bus, int \<times> int) prog" where
  "device_descriptor d = andthen check_libusb_return (\<lambda>_.
     gets (\<lambda>b. case u_dev d of Some i \<Rightarrow> bus_devices b ! i | None \<Rightarrow> (0, 0)))"

definition match_vidpid :: "int \<Rightarrow> int \<Rightarrow> nat \<Rightarrow> nat \<Rightarrow> (usb_bus, bool) prog" where
  "match_vidpid vid pid n pos = andthen (list_at n pos) (\<lambda>d.
     lastly (andthen (device_descriptor d) (\<lambda>desc. returns (fst desc = vid \<and> snd desc = pid))) (drop_device d))"

text \<open>\<open>std::find_if\<close> over the last \<open>k\<close> of the \<open>n\<close> places; \<open>n\<close> itself is the end.\<close>

primrec find_if :: "int \<Rightarrow> int \<Rightarrow> nat \<Rightarrow> nat \<Rightarrow> (usb_bus, nat) prog" where
  "find_if vid pid n 0 = returns n"
| "find_if vid pid n (Suc k) = andthen (match_vidpid vid pid n (n - Suc k)) (\<lambda>b.
     if b then returns (n - Suc k) else find_if vid pid n k)"

definition find_in_list :: "int \<Rightarrow> int \<Rightarrow> bool \<Rightarrow> nat \<Rightarrow> (usb_bus, usb_device option) prog" where
  "find_in_list vid pid throw_on_multi n =
     andthen (find_if vid pid n n) (\<lambda>pos.
     if pos = n then returns None
     else andthen (if throw_on_multi
            then andthen (find_if vid pid n (n - Suc pos)) (\<lambda>pos2.
                   throw_unless (pos2 = n) (Runtime_error ''multiple matching devices found''))
            else returns ()) (\<lambda>_.
          andthen (list_at n pos) (\<lambda>d. lifts (rbind (move_device d) (\<lambda>(new, old). Inr (Some new))))))"

definition find_single_device :: "int \<Rightarrow> int \<Rightarrow> bool \<Rightarrow> (usb_bus, usb_device option) prog" where
  "find_single_device vid pid throw_on_multi =
     andthen check_libusb_return (\<lambda>_. andthen (ref_all 1) (\<lambda>_.
     andthen (gets (length \<circ> bus_devices)) (\<lambda>n.
     lastly (find_in_list vid pid throw_on_multi n) (ref_all (-1)))))"

section \<open>The protocol\<close>

record 'd usb =
  u_params :: parameterset
  u_vid :: int
  u_pid :: int
  u_epout :: int
  u_epin :: int
  u_write_timeout :: int
  u_read_timeout :: int
  u_device :: "usb_device option"
  u_bus :: usb_bus
  u_maxpacket :: nat
  u_packets :: "string list"
  u_peer :: 'd
  u_react :: "'d \<Rightarrow> string \<Rightarrow> 'd \<times> string list"

definition on_bus :: "(usb_bus, 'a) prog \<Rightarrow> ('d usb, 'a) prog" where
  "on_bus m u = (case m (u_bus u) of (r, b) \<Rightarrow> (r, u\<lparr>u_bus := b\<rparr>))"

definition usb_set_if :: "('a \<Rightarrow> 'd usb \<Rightarrow> 'd usb) \<Rightarrow> 'a option result \<Rightarrow> ('d usb, unit) prog" where
  "usb_set_if f r = andthen (lifts r) (\<lambda>v. case v of None \<Rightarrow> returns () | Some x \<Rightarrow> modifies (f x))"

text \<open>The errors of libusb and the texts that wrap them; other exceptions pass.\<close>

definition wrap_libusb :: "('s, 'a) prog \<Rightarrow> ('s, 'a) prog" where
  "wrap_libusb m s = (case m s of
     (Inl (Protocol_error what), s') \<Rightarrow> (Inl (Protocol_error (''libusb error: '' @ what)), s')
   | r \<Rightarrow> r)"

text \<open>\<open>found_dev\<close> is dropped with all it is at the time when a call fails.\<close>

definition or_drop :: "usb_device \<Rightarrow> (usb_bus, 'a) prog \<Rightarrow> (usb_bus, 'a) prog" where
  "or_drop d m b = (case m b of (Inl e, b') \<Rightarrow> (Inl e, snd (drop_device d b')) | r \<Rightarrow> r)"

definition setup_device :: "usb_device \<Rightarrow> (usb_bus, usb_device) prog" where
  "setup_device d = andthen (open_device d) (\<lambda>d.
     andthen (reset_device d) (\<lambda>_. andthen (set_configuration d) (\<lambda>_. claim_interface 0 d)))"

definition usb_read_params :: "parameterset option \<Rightarrow> ('d usb, unit) prog" where
  "usb_read_params class_parameters =
     andthen (modifies (\<lambda>u. u\<lparr>u_params := merge_parameters (u_params u) class_parameters\<rparr>)) (\<lambda>_.
     andthen (gets u_params) (\<lambda>ps.
     andthen (usb_set_if (\<lambda>x u. u\<lparr>u_vid := x\<rparr>) (extract_parameter_value get_int ''i'' ps ''vid'' True)) (\<lambda>_.
     andthen (usb_set_if (\<lambda>x u. u\<lparr>u_pid := x\<rparr>) (extract_parameter_value get_int ''i'' ps ''pid'' True)) (\<lambda>_.
     andthen (usb_set_if (\<lambda>x u. u\<lparr>u_epin := x\<rparr>) (extract_parameter_value get_int ''i'' ps ''epin'' True)) (\<lambda>_.
     andthen (usb_set_if (\<lambda>x u. u\<lparr>u_epout := x\<rparr>) (extract_parameter_value get_int ''i'' ps ''epout'' True)) (\<lambda>_.
     andthen (usb_set_if (\<lambda>x u. u\<lparr>u_write_timeout := x\<rparr>) (extract_parameter_value get_int ''i'' ps ''write_timeout'' False)) (\<lambda>_.
     usb_set_if (\<lambda>x u. u\<lparr>u_read_timeout := x\<rparr>) (extract_parameter_value get_int ''i'' ps ''read_timeout'' False))))))))"

definition usb_Init :: "parameterset option \<Rightarrow> ('d usb, unit) prog" where
  "usb_Init class_parameters =
     andthen (usb_read_params class_parameters) (\<lambda>_.
     andthen (\<lambda>u. on_bus (find_single_device (u_vid u mod 65536) (u_pid u mod 65536) True) u) (\<lambda>found.
     case found of
       None \<Rightarrow> throws (Protocol_error ''failed to find appropriate device!'')
     | Some d \<Rightarrow> andthen (on_bus (or_drop d (wrap_libusb (setup_device d)))) (\<lambda>d.
         andthen (lifts (move_device d)) (\<lambda>(new, old). modifies (\<lambda>u. u\<lparr>u_device := Some new\<rparr>)))))"

section \<open>Reading and writing\<close>

text \<open>A bulk transfer takes packets until it has the length it asked for or until a packet comes that
  is shorter than the greatest one. A packet that is too long for the rest is an overflow
  (\<open>LIBUSB_ERROR_OVERFLOW\<close>, -8). When no packet is left the transfer ends with
  \<open>LIBUSB_ERROR_TIMEOUT\<close>, -7, or never, when the timeout is zero; what it had is lost either way.\<close>

datatype transfer = Transferred string | Transfer_timeout | Transfer_overflow

fun bulk_in :: "nat \<Rightarrow> nat \<Rightarrow> string list \<Rightarrow> transfer \<times> string list" where
  "bulk_in maxp len [] = (if len = 0 then Transferred [] else Transfer_timeout, [])"
| "bulk_in maxp len (p # ps) =
     (if len = 0 then (Transferred [], p # ps)
      else if len < length p then (Transfer_overflow, ps)
      else if length p < maxp then (Transferred p, ps)
      else (case bulk_in maxp (len - length p) ps of
          (Transferred s, ps') \<Rightarrow> (Transferred (p @ s), ps')
        | r \<Rightarrow> r))"

definition no_device :: error where
  "no_device = Protocol_error (''LibUsbProtocol internal device is nullptr for some reason, this shouoldn'' @
     [CHR 0x27] @ ''t happen!'')"

definition usb_error :: "int \<Rightarrow> ('d usb, 'a) prog" where
  "usb_error code = andthen (gets u_bus) (\<lambda>b. throws (Protocol_error (format_libusb_err_msg b code)))"

text \<open>Every error of libusb, a timeout included, becomes a \<open>ProtocolError\<close>.\<close>

definition usb_read :: "nat \<Rightarrow> ('d usb, string) oprog" where
  "usb_read len = othen (oget u_device) (\<lambda>dev. case dev of
     None \<Rightarrow> othrow no_device
   | Some _ \<Rightarrow> othen (always (on_bus check_libusb_return)) (\<lambda>_ u.
       case bulk_in (u_maxpacket u) len (u_packets u) of
         (Transferred s, ps) \<Rightarrow> Some (Inr s, u\<lparr>u_packets := ps\<rparr>)
       | (Transfer_timeout, ps) \<Rightarrow>
           (if u_read_timeout u = 0 then None else Some (usb_error (-7) (u\<lparr>u_packets := ps\<rparr>)))
       | (Transfer_overflow, ps) \<Rightarrow> Some (usb_error (-8) (u\<lparr>u_packets := ps\<rparr>))))"

text \<open>What the instrument answers to a write is queued. Bulk writes that end early with success do not
  occur in this model of libusb, so the check of the length has nothing to do.\<close>

definition usb_write :: "string \<Rightarrow> ('d usb, unit) prog" where
  "usb_write data = andthen (gets u_device) (\<lambda>dev. case dev of
     None \<Rightarrow> throws no_device
   | Some _ \<Rightarrow> andthen (on_bus check_libusb_return) (\<lambda>_. modifies (\<lambda>u.
       case u_react u (u_peer u) data of (d, ps) \<Rightarrow> u\<lparr>u_peer := d, u_packets := u_packets u @ ps\<rparr>)))"

definition clear_halts :: "('d usb, unit) prog" where
  "clear_halts = andthen (gets u_device) (\<lambda>dev. case dev of
     None \<Rightarrow> throws no_device
   | Some d \<Rightarrow> on_bus (andthen (clear_halt d) (\<lambda>_. clear_halt d)))"

definition set_read_timeout :: "int \<Rightarrow> ('d usb, unit) prog" where
  "set_read_timeout t = modifies (\<lambda>u. u\<lparr>u_read_timeout := t\<rparr>)"

definition set_write_timeout :: "int \<Rightarrow> ('d usb, unit) prog" where
  "set_write_timeout t = modifies (\<lambda>u. u\<lparr>u_write_timeout := t\<rparr>)"

section \<open>References to devices\<close>

text \<open>\<open>counts f b\<close>: the device \<open>i\<close> has \<open>f i\<close> references. \<open>leaves f m g\<close>: \<open>m\<close>, run with the counts \<open>f\<close>, leaves
  the counts \<open>g r\<close> when its result is \<open>r\<close>, whatever the calls of libusb return.\<close>

definition counts :: "(int \<times> int) list \<Rightarrow> (nat \<Rightarrow> int) \<Rightarrow> usb_bus \<Rightarrow> bool" where
  "counts devs f b \<longleftrightarrow> bus_devices b = devs \<and> bus_refs b = map f [0..<length devs]"

definition leaves :: "(int \<times> int) list \<Rightarrow> (nat \<Rightarrow> int) \<Rightarrow> (usb_bus, 'a) prog \<Rightarrow> ('a result \<Rightarrow> nat \<Rightarrow> int) \<Rightarrow> bool" where
  "leaves devs f m g \<longleftrightarrow> (\<forall>b. counts devs f b \<longrightarrow> (case m b of (r, b') \<Rightarrow> counts devs (g r) b'))"

named_theorems leaves_intros \<open>reference counts of the basic operations\<close>

lemma leaves_andthen:
  assumes "leaves devs f m g1" "\<And>x. leaves devs (g1 (Inr x)) (k x) g" "\<And>e. g1 (Inl e) = g (Inl e)"
  shows "leaves devs f (andthen m k) g"
  using assms unfolding leaves_def andthen_def by (fastforce split: prod.splits sum.splits)

lemma leaves_same [leaves_intros]:
  "leaves devs f (returns x) (\<lambda>_. f)" "leaves devs f (throws e) (\<lambda>_. f)" "leaves devs f (lifts r) (\<lambda>_. f)"
  "leaves devs f (gets h) (\<lambda>_. f)" "leaves devs f check_libusb_return (\<lambda>_. f)" "leaves devs f (throw_unless c e) (\<lambda>_. f)"
  by (auto simp: leaves_def returns_def throws_def lifts_def gets_def throw_unless_def check_libusb_return_def counts_def
      split: list.splits)

lemma leaves_then_same [leaves_intros]:
  "leaves devs f m (\<lambda>_. f) \<Longrightarrow> (\<And>x. leaves devs f (k x) (\<lambda>_. f)) \<Longrightarrow> leaves devs f (andthen m k) (\<lambda>_. f)"
  by (rule leaves_andthen) auto

lemma leaves_ref: "i < length devs \<Longrightarrow> leaves devs f (ref_device k i) (\<lambda>_. f(i := f i + k))"
  by (auto simp: leaves_def ref_device_def modifies_def counts_def intro!: nth_equalityI)

lemma leaves_ref_all: "leaves devs f (ref_all k) (\<lambda>_ i. f i + k)"
  by (auto simp: leaves_def ref_all_def modifies_def counts_def)

text \<open>The reference that an object holds.\<close>

definition with_object :: "usb_device \<Rightarrow> (nat \<Rightarrow> int) \<Rightarrow> nat \<Rightarrow> int" where
  "with_object d f = (case u_dev d of None \<Rightarrow> f | Some i \<Rightarrow> f(i := f i + 1))"

definition object_ok :: "(int \<times> int) list \<Rightarrow> usb_device \<Rightarrow> bool" where
  "object_ok devs d \<longleftrightarrow> (case u_dev d of None \<Rightarrow> True | Some i \<Rightarrow> i < length devs)"

lemma leaves_drop: "object_ok devs d \<Longrightarrow> leaves devs (with_object d f) (drop_device d) (\<lambda>_. f)"
  using leaves_ref [of "the (u_dev d)" devs "f(the (u_dev d) := f (the (u_dev d)) + 1)" "-1"]
  by (auto simp: drop_device_def with_object_def object_ok_def leaves_same split: option.splits)

lemma new_device_then: "andthen (new_device i) k = andthen (ref_device 1 i) (\<lambda>_. k \<lparr>u_dev = Some i, u_open = False, u_claimed = None\<rparr>)"
  by (simp add: new_device_def andthen_assoc)

lemma leaves_lastly:
  assumes "leaves devs f m (\<lambda>r i. g r i + h i)" "\<And>r. leaves devs (\<lambda>i. g r i + h i) c (\<lambda>_. g r)"
  shows "leaves devs f (lastly m c) g"
  using assms unfolding leaves_def lastly_def by (fastforce split: prod.splits)

lemma leaves_match [leaves_intros]: "leaves devs f (match_vidpid vid pid (length devs) pos) (\<lambda>_. f)"
proof (cases "length devs \<le> pos")
  case True
  then show ?thesis by (simp add: match_vidpid_def list_at_def leaves_same)
next
  case False
  let ?d = "\<lparr>u_dev = Some pos, u_open = False, u_claimed = None\<rparr>"
  let ?m = "andthen (device_descriptor ?d) (\<lambda>desc. returns (fst desc = vid \<and> snd desc = pid))"
  have "leaves devs f (andthen (ref_device 1 pos) (\<lambda>_. lastly ?m (drop_device ?d))) (\<lambda>_. f)"
  proof (rule leaves_andthen)
    show "leaves devs f (ref_device 1 pos) (\<lambda>r. case r of Inr _ \<Rightarrow> f(pos := f pos + 1) | Inl _ \<Rightarrow> f)"
      using leaves_ref [of pos devs f 1] False by (auto simp: leaves_def ref_device_def modifies_def)
    fix x :: unit
    have "leaves devs (f(pos := f pos + 1)) (device_descriptor ?d) (\<lambda>_. f(pos := f pos + 1))"
      unfolding device_descriptor_def by (intro leaves_intros)
    then have m: "leaves devs (f(pos := f pos + 1)) ?m (\<lambda>_. f(pos := f pos + 1))"
      by (intro leaves_intros)
    have "f(pos := f pos + 1) = (\<lambda>i. f i + (if i = pos then 1 else 0))" by auto
    moreover have "leaves devs (f(pos := f pos + 1)) (drop_device ?d) (\<lambda>_. f)"
      using leaves_drop [of devs ?d f] False by (simp add: object_ok_def with_object_def)
    ultimately show "leaves devs (case Inr x of Inr _ \<Rightarrow> f(pos := f pos + 1) | Inl _ \<Rightarrow> f) (lastly ?m (drop_device ?d)) (\<lambda>_. f)"
      using m leaves_lastly [of devs "f(pos := f pos + 1)" ?m "\<lambda>_. f" "\<lambda>i. if i = pos then 1 else 0" "drop_device ?d"]
      by simp
  qed simp
  then show ?thesis
    using False by (simp add: match_vidpid_def list_at_def new_device_then)
qed

lemma leaves_if [leaves_intros]: "leaves devs f m g \<Longrightarrow> leaves devs f m' g \<Longrightarrow> leaves devs f (if c then m else m') g"
  by simp

lemma leaves_find_if [leaves_intros]: "leaves devs f (find_if vid pid (length devs) k) (\<lambda>_. f)"
  by (induction k) (auto intro!: leaves_intros)

definition found_refs :: "(nat \<Rightarrow> int) \<Rightarrow> usb_device option result \<Rightarrow> nat \<Rightarrow> int" where
  "found_refs f r = (case r of Inr (Some d) \<Rightarrow> with_object d f | _ \<Rightarrow> f)"

lemma found_refs_simps [simp]: "found_refs f (Inl e) = f" "found_refs f (Inr None) = f"
  "found_refs f (Inr (Some d)) = with_object d f"
  by (simp_all add: found_refs_def)

lemma leaves_list_count: "leaves devs f (k (length devs)) g \<Longrightarrow> leaves devs f (andthen (gets (length \<circ> bus_devices)) k) g"
  by (simp add: leaves_def andthen_def gets_def counts_def)

lemma leaves_find_in_list: "leaves devs f (find_in_list vid pid throw (length devs)) (found_refs f)"
proof -
  have at: "leaves devs f (andthen (list_at (length devs) pos)
      (\<lambda>d. lifts (rbind (move_device d) (\<lambda>(new, old). Inr (Some new))))) (found_refs f)" for pos
  proof (cases "length devs \<le> pos")
    case True
    then show ?thesis by (auto simp: list_at_def leaves_def throws_def)
  next
    case False
    then show ?thesis
      using leaves_ref [of pos devs f 1]
      by (auto simp: list_at_def new_device_then move_device_def leaves_def ref_device_def modifies_def andthen_def
          lifts_def with_object_def)
  qed
  have multi: "leaves devs f (if throw
      then andthen (find_if vid pid (length devs) m) (\<lambda>pos2. throw_unless (pos2 = length devs) e) else returns ()) (\<lambda>_. f)" for m e
    by (intro leaves_intros)
  show ?thesis
    unfolding find_in_list_def
    apply (rule leaves_andthen [OF leaves_find_if])
     apply (rule leaves_if)
      apply (simp add: leaves_def returns_def)
     apply (rule leaves_andthen [OF multi])
      apply (rule at)
     apply simp_all
    done
qed

lemma leaves_find_single: "leaves devs f (find_single_device vid pid throw) (found_refs f)"
proof -
  let ?f = "\<lambda>i. f i + 1"
  have shift: "found_refs ?f = (\<lambda>r i. found_refs f r i + 1)"
    by (intro ext) (auto simp: found_refs_def with_object_def split: sum.splits option.splits)
  have "leaves devs ?f (find_in_list vid pid throw (length devs)) (\<lambda>r i. found_refs f r i + 1)"
    using leaves_find_in_list [of devs ?f] unfolding shift .
  moreover have "leaves devs (\<lambda>i. found_refs f r i + 1) (ref_all (-1)) (\<lambda>_. found_refs f r)" for r
    using leaves_ref_all [of devs "\<lambda>i. found_refs f r i + 1" "-1"] by simp
  ultimately have "leaves devs ?f (lastly (find_in_list vid pid throw (length devs)) (ref_all (-1))) (found_refs f)"
    by (rule leaves_lastly)
  moreover have "leaves devs f (ref_all 1) (\<lambda>r. case r of Inr _ \<Rightarrow> ?f | Inl _ \<Rightarrow> f)"
    using leaves_ref_all [of devs f 1] by (simp add: leaves_def ref_all_def modifies_def)
  ultimately show ?thesis
    unfolding find_single_device_def
    apply (intro leaves_andthen [OF leaves_same(5)] leaves_andthen [of devs f "ref_all 1"])
       apply assumption
      apply (rule leaves_list_count)
      apply simp_all
    done
qed

text \<open>The object that is found is one of the list, not open and without an interface.\<close>

lemma find_in_list_object:
  assumes "find_in_list vid pid throw n b = (Inr (Some d), b')"
  shows "\<exists>i < n. d = \<lparr>u_dev = Some i, u_open = False, u_claimed = None\<rparr>"
  using assms
  by (auto simp: find_in_list_def andthen_eq_Inr list_at_def move_device_def lifts_def throws_def
      new_device_def ref_device_def modifies_def returns_def split: if_splits)

lemma find_single_object:
  assumes "find_single_device vid pid throw b = (Inr (Some d), b')"
  shows "\<exists>i < length (bus_devices b). d = \<lparr>u_dev = Some i, u_open = False, u_claimed = None\<rparr>"
proof -
  obtain b1 b2 where "find_in_list vid pid throw (length (bus_devices b)) b1 = (Inr (Some d), b2)"
    using assms by (auto simp: find_single_device_def andthen_eq_Inr gets_def lastly_def check_libusb_return_def
        ref_all_def modifies_def split: list.splits if_splits prod.splits)
  from find_in_list_object [OF this] show ?thesis .
qed

text \<open>A device that was set up has claimed its interface.\<close>

lemma setup_device_claims:
  assumes "setup_device d b = (Inr d', b')" "u_claimed d = None"
  shows "u_claimed d' = Some 0 \<and> u_dev d' = u_dev d"
  using assms by (auto simp: setup_device_def open_device_def claim_interface_def andthen_eq_Inr returns_def)

lemma leaves_setup: "leaves devs f (setup_device d) (\<lambda>_. f)"
proof -
  have "leaves devs f (if c then check_libusb_return else throws e) (\<lambda>_. f)" for c e
    by (intro leaves_intros)
  moreover have "leaves devs f (if c then throws e else andthen check_libusb_return (\<lambda>_. returns x)) (\<lambda>_. f)"
    for c e and x :: usb_device
    by (intro leaves_intros)
  ultimately show ?thesis
    unfolding setup_device_def open_device_def reset_device_def set_configuration_def claim_interface_def
    by (intro leaves_intros)
qed

lemma wrap_result: "wrap_libusb m s = (r, s') \<Longrightarrow> \<exists>r'. m s = (r', s') \<and> (\<forall>x. r = Inr x \<longleftrightarrow> r' = Inr x)"
  by (auto simp: wrap_libusb_def split: prod.splits sum.splits error.splits)
lemma read_params_bus: "keeps u_bus (usb_read_params ps)"
  unfolding usb_read_params_def usb_set_if_def by (intro keeps_intros) simp_all

lemma leaves_or_drop:
  assumes "object_ok devs d" "leaves devs (with_object d f) m (\<lambda>_. with_object d f)"
  shows "leaves devs (with_object d f) (or_drop d m) (\<lambda>r. case r of Inr _ \<Rightarrow> with_object d f | Inl _ \<Rightarrow> f)"
  using assms(2) leaves_drop [OF assms(1), of f] unfolding leaves_def or_drop_def
  by (fastforce split: prod.splits sum.splits)

lemma leaves_wrap: "leaves devs f m (\<lambda>_. f) \<Longrightarrow> leaves devs f (wrap_libusb m) (\<lambda>_. f)"
  unfolding leaves_def by (metis (no_types, lifting) case_prodI2 old.prod.case surj_pair wrap_result)

text \<open>
  C30. The start-up of a USB device never completes: it throws, and then every reference to a device
  that it took has been given back, or it runs into the assignment through an empty optional in the
  move constructor of \<open>LibUsbDevice\<close>.
\<close>

theorem usb_init_never_completes:
  assumes "usb_Init ps u = (r, u')" and "length (bus_refs (u_bus u)) = length (bus_devices (u_bus u))"
  shows "\<exists>e. r = Inl e \<and> (is_UB e \<or> bus_refs (u_bus u') = bus_refs (u_bus u))"
proof -
  define devs where "devs = bus_devices (u_bus u)"
  define f where "f = (!) (bus_refs (u_bus u))"
  have c: "counts devs f (u_bus u)"
    unfolding counts_def devs_def f_def assms(2) [symmetric] by (simp add: map_nth)
  have same: "counts devs f b \<Longrightarrow> bus_refs b = bus_refs (u_bus u)" for b
    using c by (simp add: counts_def)
  obtain r1 u1 where 1: "usb_read_params ps u = (r1, u1)" by (cases "usb_read_params ps u")
  have b1: "u_bus u1 = u_bus u" using keepsD [OF read_params_bus, of ps u] 1 by simp
  show ?thesis
  proof (cases r1)
    case (Inl e)
    with assms(1) 1 b1 show ?thesis by (auto simp: usb_Init_def)
  next
    case (Inr x)
    obtain r2 b2 where 2: "find_single_device (u_vid u1 mod 65536) (u_pid u1 mod 65536) True (u_bus u1) = (r2, b2)"
      by (cases "find_single_device (u_vid u1 mod 65536) (u_pid u1 mod 65536) True (u_bus u1)")
    have c2: "counts devs (found_refs f r2) b2"
      using leaves_find_single [of devs f] c 2 b1 unfolding leaves_def by (metis (no_types, lifting) case_prodD)
    note run = assms(1) [unfolded usb_Init_def] 1 2 Inr
    show ?thesis
    proof (cases r2)
      case (Inl e)
      with run c2 show ?thesis by (auto simp: andthen_def on_bus_def same)
    next
      case (Inr found)
      note found = this
      show ?thesis
      proof (cases found)
        case None
        with run found c2 show ?thesis by (auto simp: andthen_def on_bus_def throws_def same)
      next
        case (Some d)
        obtain i where i: "i < length devs" "d = \<lparr>u_dev = Some i, u_open = False, u_claimed = None\<rparr>"
          using find_single_object [of "u_vid u1 mod 65536" "u_pid u1 mod 65536" True "u_bus u1" d b2] 2 found Some b1
          by (auto simp: devs_def)
        obtain r3 b3 where 3: "or_drop d (wrap_libusb (setup_device d)) b2 = (r3, b3)"
          by (cases "or_drop d (wrap_libusb (setup_device d)) b2")
        have "leaves devs (with_object d f) (or_drop d (wrap_libusb (setup_device d)))
            (\<lambda>r. case r of Inr _ \<Rightarrow> with_object d f | Inl _ \<Rightarrow> f)"
          using i(1) by (intro leaves_or_drop leaves_wrap leaves_setup) (simp add: object_ok_def i(2))
        then have c3: "counts devs (case r3 of Inr _ \<Rightarrow> with_object d f | Inl _ \<Rightarrow> f) b3"
          using c2 3 found Some unfolding leaves_def by fastforce
        show ?thesis
        proof (cases r3)
          case (Inl e)
          with run found Some 3 c3 show ?thesis by (auto simp: andthen_def on_bus_def same)
        next
          case (Inr d')
          then have "wrap_libusb (setup_device d) b2 = (Inr d', b3)"
            using 3 by (auto simp: or_drop_def split: prod.splits sum.splits)
          then have "setup_device d b2 = (Inr d', b3)"
            using wrap_result [of "setup_device d" b2 "Inr d'" b3] by auto
          then have "u_claimed d' = Some 0"
            using setup_device_claims [of d b2 d' b3] i(2) by auto
          with run found Some 3 Inr show ?thesis
            by (auto simp: andthen_def on_bus_def move_device_def lifts_def)
        qed
      qed
    qed
  qed
qed

definition demo_bus :: usb_bus where
  "demo_bus = \<lparr>bus_devices = [(0x1d6b, 2), (0x104d, 0xcec7)], bus_refs = [0, 0], bus_results = [],
     bus_error_name = (\<lambda>_. ''LIBUSB_ERROR''), bus_strerror = (\<lambda>_. ''error'')\<rparr>"

definition demo_usb :: "'d \<Rightarrow> ('d \<Rightarrow> string \<Rightarrow> 'd \<times> string list) \<Rightarrow> 'd usb" where
  "demo_usb d react = \<lparr>u_params = [(''vid'', P_int 0x104d), (''pid'', P_int 0xcec7), (''epin'', P_int 0x81), (''epout'', P_int 2)],
     u_vid = 0, u_pid = 0, u_epout = 0, u_epin = 0, u_write_timeout = 0, u_read_timeout = 0, u_device = None, u_bus = demo_bus,
     u_maxpacket = 64, u_packets = [], u_peer = d, u_react = react\<rparr>"

theorem usb_init_never_completes_witness:
  "\<exists>e. fst (usb_Init None (demo_usb () (\<lambda>d _. (d, [])))) = Inl e \<and>
    (is_UB e \<or> bus_refs (u_bus (snd (usb_Init None (demo_usb () (\<lambda>d _. (d, [])))))) = [0, 0])"
  using usb_init_never_completes [of None "demo_usb () (\<lambda>d _. (d, []))"
      "fst (usb_Init None (demo_usb () (\<lambda>d _. (d, []))))" "snd (usb_Init None (demo_usb () (\<lambda>d _. (d, []))))"]
  by (simp add: demo_usb_def demo_bus_def)

end
