(* ===== verification/Newport.thy ===== *)
theory Newport
  imports Serial_Line Lib_Usb Settings_Store
begin

text \<open>
  The Newport 2936-R power meter: devices/newport_2936R/newport2936R.cpp and newport2936R.h.

  The meter is reached over USB or over a serial line (\<open>np_proto\<close>); the two function pointers of the
  class are the case distinctions of \<open>read_reply\<close> and \<open>read_line\<close>. Enumerations are the numbers
  they stand for: a reply is cast to them without a check. \<open>command_get\<close> leaves its result
  indeterminate when the reply is not a number; using it has no meaning.
\<close>

section \<open>Talking to the meter\<close>

datatype 'd np_protocol = Np_usb "'d usb" | Np_serial "'d line" | Np_other

record 'd newport =
  np_proto :: "'d np_protocol"
  np_usbmode :: bool

definition on_usb :: "('d usb, 'a) oprog \<Rightarrow> ('d newport, 'a) oprog" where
  "on_usb m n = (case np_proto n of
     Np_usb u \<Rightarrow> (case m u of None \<Rightarrow> None | Some (r, u') \<Rightarrow> Some (r, n\<lparr>np_proto := Np_usb u'\<rparr>))
   | _ \<Rightarrow> Some (Inl (UB ''static_pointer_cast to a class that the object is not''), n))"

definition on_line :: "('d line, 'a) oprog \<Rightarrow> ('d newport, 'a) oprog" where
  "on_line m n = (case np_proto n of
     Np_serial l \<Rightarrow> (case m l of None \<Rightarrow> None | Some (r, l') \<Rightarrow> Some (r, n\<lparr>np_proto := Np_serial l'\<rparr>))
   | _ \<Rightarrow> Some (Inl (UB ''static_pointer_cast to a class that the object is not''), n))"

definition proto_write :: "string \<Rightarrow> ('d newport, unit) oprog" where
  "proto_write data n = (case np_proto n of
     Np_usb u \<Rightarrow> on_usb (always (usb_write data)) n
   | Np_serial l \<Rightarrow> on_line (always (line_write data)) n
   | Np_other \<Rightarrow> Some (Inr (), n))"

definition np_cmd_no_response :: "string \<Rightarrow> ('d newport, unit) oprog" where
  "np_cmd_no_response request = proto_write (request @ [CHR 0x0D])"

text \<open>A USB reply is read in pieces of 512 bytes until one has less than 64. Only a
  \<open>ProtocolTimeoutError\<close> would end the loop early, and \<open>usb_read\<close> throws none.\<close>

partial_function (option) usb_reply :: "string \<Rightarrow> 'd usb \<Rightarrow> (string result \<times> 'd usb) option" where
  "usb_reply got u = Option.bind (usb_read 512 u) (\<lambda>ru. case fst ru of
     Inl (Protocol_timeout e) \<Rightarrow> othen (always clear_halts) (\<lambda>_. oreturn got) (snd ru)
   | Inl e \<Rightarrow> Some (Inl e, snd ru)
   | Inr buffer \<Rightarrow> (if length buffer < 64 then Some (Inr (got @ buffer), snd ru)
       else usb_reply (got @ buffer) (snd ru)))"

definition cmd_usb_mode :: "('d newport, string) oprog" where
  "cmd_usb_mode = on_usb (usb_reply [])"

definition cmd_serial_mode :: "('d newport, string) oprog" where
  "cmd_serial_mode = on_line (othen (always line_flush) (\<lambda>_. othen (read_until_endl (CHR 0x0A)) (\<lambda>resp.
     if CHR 0x0D \<in> set resp then oreturn (takeWhile (\<lambda>c. c \<noteq> CHR 0x0D) resp)
     else othrow (Device_error ''failed to find carriage return in device response''))))"

definition np_cmd :: "string \<Rightarrow> ('d newport, string) oprog" where
  "np_cmd request = othen (np_cmd_no_response request) (\<lambda>_. othen (oget np_usbmode) (\<lambda>usb.
     if usb then cmd_usb_mode else cmd_serial_mode))"

definition getErrorCode :: "('d newport, int) oprog" where
  "getErrorCode = othen (np_cmd ''ERRORS?'') (\<lambda>s. olift (stoi s))"

definition getErrorString :: "('d newport, string) oprog" where
  "getErrorString = np_cmd ''ERRSTR?''"

definition check_and_throw_error :: "('d newport, unit) oprog" where
  "check_and_throw_error = othen getErrorCode (\<lambda>errc. othrow_unless (errc = 0)
     (Device_error (''powermeter error: '' @ show_int errc)))"

partial_function (option) clear_errors :: "'d newport \<Rightarrow> (unit result \<times> 'd newport) option" where
  "clear_errors n = Option.bind (getErrorCode n) (\<lambda>rn. case fst rn of
     Inl e \<Rightarrow> Some (Inl e, snd rn)
   | Inr errc \<Rightarrow> (if errc = 0 then Some (Inr (), snd rn) else clear_errors (snd rn)))"

definition command_write :: "string \<Rightarrow> string \<Rightarrow> ('d newport, unit) oprog" where
  "command_write c arg = othen (np_cmd_no_response (c @ '' '' @ arg @ [CHR 0x0D])) (\<lambda>_. check_and_throw_error)"

text \<open>\<open>get\<close> is the \<open>return_converter\<close>.\<close>

definition converted :: "'a result \<Rightarrow> 'a result" where
  "converted r = (case r of Inl (Invalid_argument _) \<Rightarrow> Inl (UB ''indeterminate value'') | _ \<Rightarrow> r)"

definition command_get :: "(string \<Rightarrow> 'a result) \<Rightarrow> string \<Rightarrow> ('d newport, 'a) oprog" where
  "command_get get req = othen (np_cmd req) (\<lambda>str. othen check_and_throw_error (\<lambda>_. olift (converted (get str))))"

type_synonym enum = "16 word"

definition get_enum :: "string \<Rightarrow> enum result" where
  "get_enum s = rbind (stoi s) (\<lambda>i. Inr (of_int i))"

definition get_bool :: "string \<Rightarrow> ('d newport, bool) oprog" where
  "get_bool req = othen (command_get stoi req) (\<lambda>i. oreturn (i \<noteq> 0))"

definition show_enum :: "enum \<Rightarrow> string" where
  "show_enum e = show_nat (unat e)"

definition show_bool :: "bool \<Rightarrow> string" where
  "show_bool b = (if b then ''1'' else ''0'')"

section \<open>Setting up\<close>

definition newport2936R_usb_params :: parameterset where
  "newport2936R_usb_params = [(''vid'', P_int 0x104d), (''pid'', P_int 0xcec7), (''epin'', P_int 0x81), (''epout'', P_int 0x02)]"

definition newport2936R_serial_params :: parameterset where
  "newport2936R_serial_params = [(''baudrate'', P_int 38400), (''stopbits'', P_int 1), (''bits'', P_int 8),
     (''parity'', P_string ''none''), (''flowcontrol'', P_string ''none'')]"

definition setup_usb_mode :: "('d newport, unit) oprog" where
  "setup_usb_mode = othen (on_usb (always (usb_Init (Some newport2936R_usb_params)))) (\<lambda>_.
     othen (oset (\<lambda>n. n\<lparr>np_usbmode := True\<rparr>)) (\<lambda>_.
     on_usb (always (andthen (set_read_timeout 200) (\<lambda>_. set_write_timeout 200)))))"

definition setup_serial_mode :: "('d newport, unit) oprog" where
  "setup_serial_mode = othen (on_line (always (andthen (line_init newport2936R_serial_params) (\<lambda>_.
       andthen line_flush (\<lambda>_. line_write (''ECHO 0'' @ [CHR 0x0D])))))) (\<lambda>_.
     othen (oset (\<lambda>n. n\<lparr>np_usbmode := False\<rparr>)) (\<lambda>_. on_line (always (setWait 200))))"

definition newport_init :: "('d newport, unit) oprog" where
  "newport_init n = othen (case np_proto n of
       Np_usb _ \<Rightarrow> setup_usb_mode
     | Np_serial _ \<Rightarrow> setup_serial_mode
     | Np_other \<Rightarrow> othrow (Device_error ''invalid protocol for power meter connection!'')) (\<lambda>_. clear_errors) n"

section \<open>Operations\<close>

definition getLambda :: "('d newport, int) oprog" where
  "getLambda = command_get stoi ''PM:L?''"

definition setLambda :: "int \<Rightarrow> ('d newport, unit) oprog" where
  "setLambda v = command_write ''PM:L'' (show_int v)"

definition getLambdaRange :: "('d newport, int \<times> int) oprog" where
  "getLambdaRange = othen (command_get stoi ''PM:MIN:L?'') (\<lambda>mn. othen (command_get stoi ''PM:MAX:L?'') (\<lambda>mx. oreturn (mn, mx)))"

definition getPowerRange :: "('d newport, f64 \<times> f64) oprog" where
  "getPowerRange = othen (command_get stod ''PM:MIN:P?'') (\<lambda>mn. othen (command_get stod ''PM:MAX:P?'') (\<lambda>mx. oreturn (mn, mx)))"

definition getPower :: "('d newport, f64) oprog" where
  "getPower = command_get stod ''PM:P?''"

definition setRange :: "int \<Rightarrow> ('d newport, unit) oprog" where
  "setRange r = (if r < 0 \<or> 7 < r then othrow (Out_of_range ''invalid range selection, valid from 0 to 7!'')
     else command_write ''PM:RAN'' (show_int r))"

definition getRange :: "('d newport, int) oprog" where
  "getRange = command_get stoi ''PM:RAN?''"

definition getRun :: "('d newport, bool) oprog" where
  "getRun = get_bool ''PM:RUN?''"

definition setRun :: "bool \<Rightarrow> ('d newport, unit) oprog" where
  "setRun v = command_write ''PM:RUN'' (show_bool v)"

definition getResponsivity :: "('d newport, f64) oprog" where
  "getResponsivity = command_get stod ''PM:RESP?''"

definition getArea :: "('d newport, f64) oprog" where
  "getArea = command_get stod ''PM:DETSIZE?''"

definition getUnits :: "('d newport, enum) oprog" where
  "getUnits = command_get get_enum ''PM:UNIT?''"

definition setUnits :: "enum \<Rightarrow> ('d newport, unit) oprog" where
  "setUnits v = command_write ''PM:UNIT'' (show_enum v)"

definition strip_CRLF :: "string \<Rightarrow> string" where
  "strip_CRLF buffer = takeWhile (\<lambda>c. c \<noteq> CHR 0x0D) buffer"

text \<open>The text and whether the unit was one of the enumeration.\<close>

definition powerunit_names :: "(enum \<times> string) list" where
  "powerunit_names = [(0, ''A''), (1, ''V''), (2, ''W''), (3, ''W/cm2''), (4, ''J''), (5, ''J/cm2'')]"

definition convert_powerunit_to_string :: "enum \<Rightarrow> string \<times> bool" where
  "convert_powerunit_to_string unit = (case map_of powerunit_names unit of Some s \<Rightarrow> (s, True) | None \<Rightarrow> (''ERROR'', False))"

definition convert_string_to_powerunit :: "string \<Rightarrow> enum \<times> bool" where
  "convert_string_to_powerunit s =
     (if s = ''A'' then (0, True)
      else if s = ''V'' then (1, True)
      else if s = ''W'' then (2, True)
      else if s = ''W/cm2'' then (3, True)
      else if s = ''J'' then (4, True)
      else if s = ''J/cm2'' then (5, True)
      else (0, False))"

definition getMode :: "('d newport, enum) oprog" where
  "getMode = command_get get_enum ''PM:MODE?''"

text \<open>The check of the range is overwritten by the next assignment.\<close>

definition convert_int_to_mode :: "int \<Rightarrow> enum \<times> bool" where
  "convert_int_to_mode s = (of_int s, (let ok = \<not> (s > 7 \<or> s < 0) in let ok = True in ok))"

definition convert_mode_to_int :: "enum \<Rightarrow> int \<times> bool" where
  "convert_mode_to_int m = (uint m, True)"

definition setMode :: "enum \<Rightarrow> ('d newport, unit) oprog" where
  "setMode v = command_write ''PM:MODE'' (show_enum v)"

definition manualTriggerState :: "bool \<Rightarrow> ('d newport, unit) oprog" where
  "manualTriggerState state = command_write ''PM:TRIG:STATE'' (show_int (if state then 1 else 0))"

definition getTriggerState :: "('d newport, bool) oprog" where
  "getTriggerState = get_bool ''PM:TRIG:STATE?''"

definition getcaldate :: "('d newport, string) oprog" where
  "getcaldate = othen (np_cmd ''CALDATE?'') (\<lambda>repl. othen check_and_throw_error (\<lambda>_. oreturn (filter (\<lambda>c. \<not> is_space c) repl)))"

definition getcaltemp :: "('d newport, f64) oprog" where
  "getcaltemp = command_get stod ''CALTEMP?''"

definition getTemperature :: "('d newport, f64) oprog" where
  "getTemperature = command_get stod ''PM:TEMP?''"

definition getExternalTriggerMode :: "('d newport, int) oprog" where
  "getExternalTriggerMode = command_get stoi ''PM:TRIG:EXT?''"

definition setExternalTriggerMode :: "int \<Rightarrow> ('d newport, unit) oprog" where
  "setExternalTriggerMode v = command_write ''PM:TRIG:EXT'' (show_int v)"

definition getTriggerEndMode :: "('d newport, enum) oprog" where
  "getTriggerEndMode = command_get get_enum ''PM:TRIG:STOP?''"

definition setTriggerEndMode :: "enum \<Rightarrow> ('d newport, unit) oprog" where
  "setTriggerEndMode v = command_write ''PM:TRIG:STOP'' (show_enum v)"

definition getTriggerStartMode :: "('d newport, enum) oprog" where
  "getTriggerStartMode = command_get get_enum ''PM:TRIG:START?''"

definition setTriggerStartMode :: "enum \<Rightarrow> ('d newport, unit) oprog" where
  "setTriggerStartMode v = command_write ''PM:TRIG:START'' (show_enum v)"

definition getTriggerEdge :: "('d newport, int) oprog" where
  "getTriggerEdge = command_get stoi ''PM:TRIG:EDGE?''"

definition setTriggerEdge :: "int \<Rightarrow> ('d newport, unit) oprog" where
  "setTriggerEdge v = command_write ''PM:TRIG:EDGE'' (show_int v)"

definition setTriggerTimeout :: "int \<Rightarrow> ('d newport, unit) oprog" where
  "setTriggerTimeout v = command_write ''PM:TRIG:TIME'' (show_int v)"

definition getTriggerTimeout :: "('d newport, int) oprog" where
  "getTriggerTimeout = command_get stoi ''PM:TRIG:TIME?''"

definition getTriggerValue :: "('d newport, f64) oprog" where
  "getTriggerValue = command_get stod ''PM:TRIG:VALUE?''"

definition setTriggerValue :: "f64 \<Rightarrow> ('d newport, unit) oprog" where
  "setTriggerValue v = command_write ''PM:TRIG:VALUE'' (ostream_double 6 v)"

definition getSerialNumber :: "('d newport, string) oprog" where
  "getSerialNumber = othen (np_cmd ''PM:DETSN?'') (\<lambda>repl. othen check_and_throw_error (\<lambda>_. oreturn (filter (\<lambda>c. \<not> is_space c) repl)))"

definition getChannel :: "('d newport, int) oprog" where
  "getChannel = command_get stoi ''PM:CHAN?''"

definition setChannel :: "int \<Rightarrow> ('d newport, unit) oprog" where
  "setChannel v = command_write ''PM:CHAN'' (show_int v)"

text \<open>The reply is never put into the stream that the numbers are read from.\<close>

definition getCorrection :: "('d newport, f64 \<times> f64 \<times> f64) oprog" where
  "getCorrection = othen (np_cmd ''PM:CORR?'') (\<lambda>st. othen check_and_throw_error (\<lambda>_.
     othrow (UB ''indeterminate value'')))"

definition setCorrection :: "f64 \<Rightarrow> f64 \<Rightarrow> f64 \<Rightarrow> ('d newport, unit) oprog" where
  "setCorrection d1 d2 d3 = np_cmd_no_response (''PM:CORR '' @ ostream_double 6 d1 @ '' '' @ ostream_double 6 d2 @ '' '' @
     ostream_double 6 d3)"

definition getDetectorModel :: "('d newport, string) oprog" where
  "getDetectorModel = othen (np_cmd ''PM:DETMODEL?'') (\<lambda>repl. othen check_and_throw_error (\<lambda>_. oreturn repl))"

definition getAnalogFilter :: "('d newport, enum) oprog" where
  "getAnalogFilter = command_get get_enum ''PM:ANALOGFILTER?''"

definition setAnalogFilter :: "enum \<Rightarrow> ('d newport, unit) oprog" where
  "setAnalogFilter v = command_write ''PM:ANALOGFILTER'' (show_enum v)"

definition getOutputImpedance :: "('d newport, enum) oprog" where
  "getOutputImpedance = command_get get_enum ''PM:ANALOG:IMP?''"

definition setOutputImpedance :: "enum \<Rightarrow> ('d newport, unit) oprog" where
  "setOutputImpedance v = command_write ''PM:ANALOG:IMP'' (show_enum v)"

definition getOutputRange :: "('d newport, enum) oprog" where
  "getOutputRange = command_get get_enum ''PM:ANALOG:OUT?''"

definition setOutputRange :: "enum \<Rightarrow> ('d newport, unit) oprog" where
  "setOutputRange v = command_write ''PM:ANALOG:OUT'' (show_enum v)"

definition getAttenuator :: "('d newport, bool) oprog" where
  "getAttenuator = get_bool ''PM:ATT?''"

definition getAttenuatorSerialNumber :: "('d newport, string) oprog" where
  "getAttenuatorSerialNumber = othen (np_cmd ''PM:ATTSN?'') (\<lambda>repl. othen check_and_throw_error (\<lambda>_. oreturn repl))"

definition getAutoRange :: "('d newport, bool) oprog" where
  "getAutoRange = get_bool ''PM:AUTO?''"

definition setAutoRange :: "bool \<Rightarrow> ('d newport, unit) oprog" where
  "setAutoRange v = command_write ''PM:AUTO'' (show_bool v)"

definition getDigitalFilter :: "('d newport, int) oprog" where
  "getDigitalFilter = command_get stoi ''PM:DIGITALFILTER?''"

definition setDigitalFilter :: "int \<Rightarrow> ('d newport, unit) oprog" where
  "setDigitalFilter v = command_write ''PM:DIGITALFILTER'' (show_int v)"

definition getFilterMode :: "('d newport, enum) oprog" where
  "getFilterMode = command_get get_enum ''PM:FILTER?''"

definition setFilterMode :: "enum \<Rightarrow> ('d newport, unit) oprog" where
  "setFilterMode v = command_write ''PM:FILTER'' (show_enum v)"

definition getBufferBehaviour :: "('d newport, bool) oprog" where
  "getBufferBehaviour = get_bool ''PM:DS:BUF?''"

definition setBufferBehaviour :: "bool \<Rightarrow> ('d newport, unit) oprog" where
  "setBufferBehaviour v = command_write ''PM:DS:BUF'' (show_bool v)"

definition getDataStoreCount :: "('d newport, int) oprog" where
  "getDataStoreCount = command_get stoi ''PM:DS:C?''"

definition getDataStoreEnable :: "('d newport, bool) oprog" where
  "getDataStoreEnable = get_bool ''PM:DS:EN?''"

definition setDataStoreEnable :: "bool \<Rightarrow> ('d newport, unit) oprog" where
  "setDataStoreEnable v = command_write ''PM:DS:EN'' (show_bool v)"

definition getDataStoreUnits :: "('d newport, enum) oprog" where
  "getDataStoreUnits = command_get get_enum ''PM:DS:UNIT?''"

definition setDataStoreUnits :: "enum \<Rightarrow> ('d newport, unit) oprog" where
  "setDataStoreUnits v = command_write ''PM:DS:UNIT'' (show_enum v)"

definition clearDataStore :: "('d newport, unit) oprog" where
  "clearDataStore = np_cmd_no_response ''PM:DS:CL''"

definition getDataStoreInterval :: "('d newport, int) oprog" where
  "getDataStoreInterval = command_get stoi ''PM:DS:INT?''"

definition setDataStoreInterval :: "int \<Rightarrow> ('d newport, unit) oprog" where
  "setDataStoreInterval v = command_write ''PM:DS:INT'' (show_int v)"

definition getDataStoreSize :: "('d newport, int) oprog" where
  "getDataStoreSize = command_get stoi ''PM:DS:SIZE?''"

definition setDataStoreSize :: "int \<Rightarrow> ('d newport, unit) oprog" where
  "setDataStoreSize v = command_write ''PM:DS:SIZE'' (show_int v)"

text \<open>The question is asked twice, the first time as a command whose reply is taken for an error code.\<close>

definition getDataStoreValue :: "int \<Rightarrow> ('d newport, f64) oprog" where
  "getDataStoreValue idx = othen (command_write ''PM:DS:GET?'' (show_int idx)) (\<lambda>_.
     command_get stod (''PM:DS:GET? '' @ show_int idx))"

definition info :: "('d newport, string) oprog" where
  "info = np_cmd (''*IDN?'' @ [CHR 0x0D])"

section \<open>Reading the data store\<close>

definition usb_read_line :: "('d newport, string) oprog" where
  "usb_read_line = on_usb (usb_read 512)"

definition serial_read_line :: "('d newport, string) oprog" where
  "serial_read_line = on_line (read_until_endl (CHR 0x0A))"

definition read_line :: "('d newport, string) oprog" where
  "read_line = othen (oget np_usbmode) (\<lambda>usb. if usb then usb_read_line else serial_read_line)"

text \<open>The pieces are gathered until one of them contains the end mark.\<close>

partial_function (option) gather_dump :: "string \<Rightarrow> 'd newport \<Rightarrow> (string result \<times> 'd newport) option" where
  "gather_dump buffer n = Option.bind (read_line n) (\<lambda>rn. case fst rn of
     Inl e \<Rightarrow> Some (Inl e, snd rn)
   | Inr nextbit \<Rightarrow> (if find_str ''End of Data'' nextbit \<noteq> None then Some (Inr (buffer @ nextbit), snd rn)
       else gather_dump (buffer @ nextbit) (snd rn)))"

fun parse_dump :: "bool \<Rightarrow> string list \<Rightarrow> f64 list result" where
  "parse_dump started [] = Inr []"
| "parse_dump started (line # rest) =
     (if find_str ''Header'' line \<noteq> None then parse_dump True rest
      else if find_str ''End of Data'' line \<noteq> None then Inr []
      else if started then rbind (stod line) (\<lambda>x. rbind (parse_dump started rest) (\<lambda>xs. Inr (x # xs)))
      else parse_dump started rest)"

text \<open>\<open>reserve\<close> with a negative number throws \<open>std::length_error\<close>, a \<open>logic_error\<close>.\<close>

definition do_fetch_buffer :: "int \<Rightarrow> ('d newport, f64 list) oprog" where
  "do_fetch_buffer n = (if n < 0 then othrow (Logic_error ''vector::reserve'')
     else othen (gather_dump []) (\<lambda>text. olift (parse_dump False (split_on (CHR 0x0A) text))))"

definition fetchDataStore :: "int \<Rightarrow> int \<Rightarrow> ('d newport, f64 list) oprog" where
  "fetchDataStore begin stop =
     (if begin < 1 then othrow (Out_of_range ''array starts at index 1!'')
      else othen getDataStoreCount (\<lambda>count.
        if count < stop then othrow (Out_of_range ''requested end longer than data count!'')
        else othen (np_cmd_no_response (''PM:DS:GET? '' @ show_int begin @ ''-'' @ show_int stop)) (\<lambda>_.
          do_fetch_buffer (stop - begin))))"

definition fetch_some :: "string \<Rightarrow> int \<Rightarrow> ('d newport, f64 list) oprog" where
  "fetch_some sign n =
     (if n < 1 then othrow (Out_of_range ''must choose at least n=1'')
      else othen getDataStoreCount (\<lambda>count.
        if count < n then othrow (Out_of_range ''requested more data than available'')
        else othen (np_cmd_no_response (''PM:DS:GET? '' @ sign @ show_int n)) (\<lambda>_. do_fetch_buffer n)))"

definition fetchDataStoreNewest :: "int \<Rightarrow> ('d newport, f64 list) oprog" where
  "fetchDataStoreNewest = fetch_some ''+''"

definition fetchDataStoreOldest :: "int \<Rightarrow> ('d newport, f64 list) oprog" where
  "fetchDataStoreOldest = fetch_some ''-''"

text \<open>\<open>parse_datastore_string\<close> skips to the end of the header and reads to the end of the data.\<close>

fun parse_values :: "string list \<Rightarrow> f64 list result" where
  "parse_values [] = Inr []"
| "parse_values (line # rest) = (if find_str ''End'' line \<noteq> None then Inr []
     else rbind (stod line) (\<lambda>x. rbind (parse_values rest) (\<lambda>xs. Inr (x # xs))))"

definition parse_datastore_string :: "string \<Rightarrow> f64 list result" where
  "parse_datastore_string s =
     parse_values (tl (dropWhile (\<lambda>line. find_str ''End'' line = None) (split_on (CHR 0x0A) s)))"

definition ignore_timeout :: "('s, 'a) oprog \<Rightarrow> ('s, unit) oprog" where
  "ignore_timeout m s = (case m s of
     Some (Inl (Protocol_timeout _), s') \<Rightarrow> Some (Inr (), s')
   | Some (Inl e, s') \<Rightarrow> Some (Inl e, s')
   | Some (Inr _, s') \<Rightarrow> Some (Inr (), s')
   | None \<Rightarrow> None)"

definition proto_read :: "nat \<Rightarrow> ('d newport, string) oprog" where
  "proto_read len n = (case np_proto n of
     Np_usb u \<Rightarrow> on_usb (usb_read len) n
   | Np_serial l \<Rightarrow> on_line (\<lambda>l. case on_wire (read_chars len) l of
       (Inr Blocked, l') \<Rightarrow> None
     | (Inr (Done bs), l') \<Rightarrow> Some (Inr (map to_char bs), l')
     | (Inl e, l') \<Rightarrow> Some (Inl e, l')) n
   | Np_other \<Rightarrow> Some (Inr [], n))"

definition flush_buffers_after_timeout :: "nat \<Rightarrow> ('d newport, unit) oprog" where
  "flush_buffers_after_timeout n = ofor (\<lambda>_. ignore_timeout (proto_read 64)) [0..<n]"

section \<open>Fetching a dump\<close>

text \<open>The next reads deliver the pieces \<open>ps\<close>.\<close>

fun reads :: "'d newport \<Rightarrow> string list \<Rightarrow> 'd newport \<Rightarrow> bool" where
  "reads n [] n' \<longleftrightarrow> n' = n"
| "reads n (p # ps) n' \<longleftrightarrow> (\<exists>n1. read_line n = Some (Inr p, n1) \<and> reads n1 ps n')"

lemma gather_pieces:
  assumes "reads n (ps @ [p]) n'" "\<forall>q\<in>set ps. find_str ''End of Data'' q = None" "find_str ''End of Data'' p \<noteq> None"
  shows "gather_dump buf n = Some (Inr (buf @ concat ps @ p), n')"
  using assms
proof (induction ps arbitrary: n buf)
  case Nil
  then show ?case by (auto simp: gather_dump.simps [of buf])
next
  case (Cons q ps)
  then obtain n1 where n1: "read_line n = Some (Inr q, n1)" "reads n1 (ps @ [p]) n'" by auto
  with Cons.IH [OF n1(2), of "buf @ q"] Cons.prems show ?case
    by (simp add: gather_dump.simps [of buf])
qed

lemma gather_without_mark:
  assumes "reads n ps n1" "\<forall>q\<in>set ps. find_str ''End of Data'' q = None" "read_line n1 = Some (Inl e, n')"
  shows "gather_dump buf n = Some (Inl e, n')"
  using assms
proof (induction ps arbitrary: n buf)
  case Nil
  then show ?case by (simp add: gather_dump.simps [of buf])
next
  case (Cons q ps)
  then obtain n2 where n2: "read_line n = Some (Inr q, n2)" "reads n2 ps n1" by auto
  with Cons.IH [OF n2(2), of "buf @ q"] Cons.prems show ?case
    by (simp add: gather_dump.simps [of buf])
qed

definition unlines :: "string list \<Rightarrow> string" where
  "unlines ls = concat (map (\<lambda>l. l @ [CHR 0x0A]) ls)"

lemma split_unlines: "\<forall>l\<in>set ls. CHR 0x0A \<notin> set l \<Longrightarrow> split_on (CHR 0x0A) (unlines ls) = ls"
  by (induction ls) (simp_all add: split_on_def unlines_def getlines_piece)

lemma parse_skips: "\<forall>l\<in>set pre. find_str ''Header'' l = None \<and> find_str ''End of Data'' l = None \<Longrightarrow>
    parse_dump False (pre @ rest) = parse_dump False rest"
  by (induction pre) simp_all

lemma parse_values_part:
  assumes "\<forall>l\<in>set vals. find_str ''Header'' l = None \<and> find_str ''End of Data'' l = None" "map stod vals = map Inr xs"
    "find_str ''Header'' mark = None" "find_str ''End of Data'' mark \<noteq> None"
  shows "parse_dump True (vals @ mark # rest) = Inr xs"
  using assms(1,2)
proof (induction vals arbitrary: xs)
  case Nil
  with assms(3,4) show ?case by simp
next
  case (Cons v vals)
  then show ?case by (cases xs) auto
qed

text \<open>A dump of the data store: lines before the header, the header, the values, the end mark.\<close>

definition is_dump :: "string list \<Rightarrow> f64 list \<Rightarrow> bool" where
  "is_dump ls xs \<longleftrightarrow> (\<exists>pre header vals mark. ls = pre @ [header] @ vals @ [mark] \<and>
     (\<forall>l\<in>set ls. CHR 0x0A \<notin> set l) \<and>
     (\<forall>l\<in>set (pre @ vals). find_str ''Header'' l = None \<and> find_str ''End of Data'' l = None) \<and>
     find_str ''Header'' header \<noteq> None \<and> find_str ''Header'' mark = None \<and> find_str ''End of Data'' mark \<noteq> None \<and>
     map stod vals = map Inr xs)"

text \<open>
  C31. Fetching the data store: when the end mark arrives whole, the values of the dump are returned in
  order, wherever the reads cut the text; when no piece contains the mark, because the reads cut it in
  two, the complete dump is lost with the error of the next read.
\<close>

theorem dump_is_read_if_mark_is_whole:
  assumes "is_dump ls xs" "concat (ps @ [p]) = unlines ls" "0 \<le> k"
    and "\<forall>q\<in>set ps. find_str ''End of Data'' q = None"
    and "reads n (ps @ [p]) n1" "read_line n1 = Some (Inl e, n2)"
  shows "do_fetch_buffer k n = (if find_str ''End of Data'' p \<noteq> None then Some (Inr xs, n1) else Some (Inl e, n2))"
proof (cases "find_str ''End of Data'' p = None")
  case True
  with gather_without_mark [of n "ps @ [p]" n1 e n2 "[]"] assms show ?thesis
    by (simp add: do_fetch_buffer_def)
next
  case False
  from assms(1) obtain pre header vals mark where d: "ls = pre @ [header] @ vals @ [mark]"
    "\<forall>l\<in>set ls. CHR 0x0A \<notin> set l"
    "\<forall>l\<in>set (pre @ vals). find_str ''Header'' l = None \<and> find_str ''End of Data'' l = None"
    "find_str ''Header'' header \<noteq> None" "find_str ''Header'' mark = None" "find_str ''End of Data'' mark \<noteq> None"
    "map stod vals = map Inr xs" unfolding is_dump_def by blast
  have "gather_dump [] n = Some (Inr (unlines ls), n1)"
    using gather_pieces [of n ps p n1 "[]"] False assms(2,4,5) by simp
  moreover have "parse_dump False (split_on (CHR 0x0A) (unlines ls)) = Inr xs"
    unfolding split_unlines [OF d(2)] unfolding d(1)
    using parse_skips [of pre "[header] @ vals @ [mark]"] parse_values_part [of vals xs mark "[]"] d(3-7) by auto
  ultimately show ?thesis
    using assms(3) False by (simp add: do_fetch_buffer_def always_def lifts_def)
qed

section \<open>The serial line\<close>

lemma idle_read_times_out:
  assumes "incoming (l_port l) = []" "\<not> pending_read (l_port l)" "l_out l = []" "l_asio l"
  shows "\<exists>l'. read_until_endl c l = Some (Inl (Protocol_timeout ''serial port read timed out...''), l') \<and> l_peer l' = l_peer l"
  using assms
  by (simp add: read_until_endl_def read_line_bytes_def on_wire_def on_port_def transmit_all_def transmit_def othen_def
      always_def andthen_def gets_def read_until_endl_asio_impl_def run_for_def arrived_def until_loop.simps
      until_once_def until_timeout_def)

text \<open>
  In serial mode the port is flushed after the request was written: the meter hears at most the
  first \<open>l_fifo\<close> characters, and if it does not answer to those, the command ends with a timeout.
\<close>

theorem serial_request_is_cut:
  assumes "np_proto n = Np_serial l" "\<not> np_usbmode n" "line_idle l" "l_asio l" "\<not> l_drain l"
    and "hears (l_react l) (l_peer l) (take (l_fifo l) (request @ [CHR 0x0D])) = (d, [])"
  shows "\<exists>l'. np_cmd request n = Some (Inl (Protocol_timeout ''serial port read timed out...''), n\<lparr>np_proto := Np_serial l'\<rparr>) \<and>
    l_peer l' = d"
proof -
  let ?req = "request @ [CHR 0x0D]"
  let ?p = "(l_port l)\<lparr>sent := sent (l_port l) @ map to_byte ?req\<rparr>"
  let ?l1 = "l\<lparr>l_port := ?p, l_peer := d, l_out := drop (l_fifo l) ?req\<rparr>"
  let ?l2 = "?l1\<lparr>l_out := []\<rparr>"
  have w: "line_write ?req l = (Inr (), ?l1)"
    using assms(3,5,6) by (simp add: line_write_def on_port_def write_bytes_def sys_call_quiet andthen_def modifies_def
        line_idle_def Let_def transmit_def)
  have f: "line_flush ?l1 = (Inr (), ?l2)"
    using assms(3) by (simp add: line_flush_def on_port_def flush_def sys_call_quiet andthen_def modifies_def
        line_idle_def arrived_def)
  obtain l' where "read_until_endl (CHR 0x0A) ?l2 = Some (Inl (Protocol_timeout ''serial port read timed out...''), l')"
    "l_peer l' = d"
    using idle_read_times_out [of ?l2 "CHR 0x0A"] assms(3,4) by (auto simp: line_idle_def)
  then show ?thesis
    using assms(1,2) w f
    by (intro exI [of _ l']) (simp add: np_cmd_def np_cmd_no_response_def proto_write_def on_line_def always_def othen_def
        gets_def cmd_serial_mode_def)
qed

text \<open>A request that leaves the port at once is answered after the flush.\<close>

lemma answer_after_flush:
  assumes "np_proto n = Np_serial l" "\<not> np_usbmode n" "line_idle l" "l_asio l"
    and "l_drain l \<or> length request < l_fifo l"
    and "hears (l_react l) (l_peer l) (request @ [CHR 0x0D]) = (d, map (Pair t) (body @ [CHR 0x0D, CHR 0x0A]))"
    and "0 < t" "t \<le> wait_ms (l_port l)" "length body < 511" "CHR 0x0D \<notin> set body"
  obtains l' where "np_cmd request n = Some (Inr body, n\<lparr>np_proto := Np_serial l'\<rparr>)"
    "line_idle l'" "l_peer l' = d" "line_config l' = line_config l" "wait_ms (l_port l') = wait_ms (l_port l)"
proof -
  let ?req = "request @ [CHR 0x0D]"
  let ?p = "(l_port l)\<lparr>sent := sent (l_port l) @ map to_byte ?req\<rparr>"
  let ?t = "now_ms (l_port l) + t" and ?text = "body @ [CHR 0x0D]"
  let ?q = "?p\<lparr>incoming := map (Pair ?t) (map to_byte (?text @ [CHR 0x0A]))\<rparr>"
  let ?l1 = "l\<lparr>l_port := ?q, l_peer := d, l_out := []\<rparr>"
  have w: "line_write ?req l = (Inr (), ?l1)"
    using assms(3,5,6) by (auto simp: line_write_def on_port_def write_bytes_def sys_call_quiet andthen_def modifies_def
        line_idle_def Let_def transmit_def transmit_all_def comp_def)
  have a: "arrived (now_ms (l_port l)) (incoming ?q) = []"
    using assms(7) by (cases body) (simp_all add: arrived_def)
  have f: "line_flush ?l1 = (Inr (), ?l1)"
    using assms(3) a by (simp add: line_flush_def on_port_def flush_def sys_call_quiet andthen_def modifies_def line_idle_def)
  define l' where "l' = ?l1\<lparr>l_port := ?q\<lparr>now_ms := ?t, incoming := []\<rparr>\<rparr>"
  have "until_loop (to_byte (CHR 0x0A)) (now_ms ?q + wait_ms (l_port l)) [] ?q =
      (Inr (map to_byte (?text @ [CHR 0x0A])), ?q\<lparr>now_ms := ?t, incoming := []\<rparr>)"
    using assms(3,8,9) by (intro until_answer) (simp_all add: line_idle_def)
  then have r: "read_until_endl (CHR 0x0A) ?l1 = Some (Inr (?text @ [CHR 0x0A]), l')"
    using assms(3,4) by (simp add: read_until_endl_def read_line_bytes_def on_wire_def on_port_def transmit_all_def
        transmit_def othen_def always_def andthen_def gets_def read_until_endl_asio_impl_def run_for_def line_idle_def
        returns_def l'_def comp_def)
  have tw: "takeWhile (\<lambda>c. c \<noteq> CHR 0x0D) (body @ [CHR 0x0D, CHR 0x0A]) = body"
    using assms(10) by (subst takeWhile_append2) auto
  have "np_cmd request n = Some (Inr body, n\<lparr>np_proto := Np_serial l'\<rparr>)"
    using assms(1,2) w f r tw
    by (simp add: np_cmd_def np_cmd_no_response_def proto_write_def on_line_def always_def othen_def gets_def
        cmd_serial_mode_def returns_def)
  then show thesis
    by (rule that) (use assms(3) in \<open>simp_all add: l'_def line_idle_def line_config_def\<close>)
qed

lemma show_int_chars: "c \<in> set (show_int i) \<Longrightarrow> c = CHR ''-'' \<or> is_digit 10 c"
  using show_nat_digits [of "nat i"] show_nat_digits [of "nat (- i)"]
  by (auto simp: show_int_def list_all_iff split: if_splits)

lemma show_int_no_return: "CHR 0x0D \<notin> set (show_int i)"
  using show_int_chars [of "CHR 0x0D" i] by (auto simp: is_digit_def digit_val_def)

lemma error_code_answer:
  assumes "np_proto n = Np_serial l" "\<not> np_usbmode n" "line_idle l" "l_asio l" "l_drain l \<or> 7 < l_fifo l"
    and "hears (l_react l) (l_peer l) (''ERRORS?'' @ [CHR 0x0D]) = (d, map (Pair t) (show_int i @ [CHR 0x0D, CHR 0x0A]))"
    and "0 < t" "t \<le> wait_ms (l_port l)" "int_min \<le> i" "i \<le> int_max"
  obtains l' where "getErrorCode n = Some (Inr i, n\<lparr>np_proto := Np_serial l'\<rparr>)"
    "line_idle l'" "l_peer l' = d" "line_config l' = line_config l" "wait_ms (l_port l') = wait_ms (l_port l)"
proof -
  have "nat i < 10 ^ Suc 9" "nat (- i) < 10 ^ Suc 9"
    using assms(9,10) by (simp_all add: int_min_def int_max_def)
  have fifo: "l_drain l \<or> length ''ERRORS?'' < l_fifo l" using assms(5) by (simp add: eval_nat_numeral)
  from \<open>nat i < 10 ^ Suc 9\<close> \<open>nat (- i) < 10 ^ Suc 9\<close> have len: "length (show_int i) < 511"
    using show_base_length [of 10 "nat i" 9 False] show_base_length [of 10 "nat (- i)" 9 False]
    by (simp add: show_int_def show_nat_def)
  obtain l' where "np_cmd ''ERRORS?'' n = Some (Inr (show_int i), n\<lparr>np_proto := Np_serial l'\<rparr>)"
    "line_idle l'" "l_peer l' = d" "line_config l' = line_config l" "wait_ms (l_port l') = wait_ms (l_port l)"
    using answer_after_flush [OF assms(1-4) fifo assms(6-8) len show_int_no_return] by blast
  then show thesis
    by (intro that [of l']) (simp_all add: getErrorCode_def always_def lifts_def stoi_show_int assms(9,10))
qed

text \<open>
  The loop that clears the errors of the meter at the start ends: when the \<open>k\<close>th next error code is
  zero and the meter answers every question for one, it asks exactly until the first zero and leaves
  the meter there. \<open>q\<close> is what the meter does with the question: its code and its next state.
\<close>

theorem clear_errors_ends:
  assumes "np_proto n = Np_serial l" "\<not> np_usbmode n" "line_idle l" "l_asio l" "l_drain l \<or> 7 < l_fifo l"
    and "good (l_peer l)" "0 < t" "t \<le> wait_ms (l_port l)"
    and "\<And>d. good d \<Longrightarrow> good (snd (q d)) \<and> int_min \<le> fst (q d) \<and> fst (q d) \<le> int_max \<and>
       hears (l_react l) d (''ERRORS?'' @ [CHR 0x0D]) = (snd (q d), map (Pair t) (show_int (fst (q d)) @ [CHR 0x0D, CHR 0x0A]))"
    and "fst (q (((snd \<circ> q) ^^ k) (l_peer l))) = 0" "\<And>j. j < k \<Longrightarrow> fst (q (((snd \<circ> q) ^^ j) (l_peer l))) \<noteq> 0"
  shows "\<exists>l'. clear_errors n = Some (Inr (), n\<lparr>np_proto := Np_serial l'\<rparr>) \<and> line_idle l' \<and>
    l_peer l' = ((snd \<circ> q) ^^ Suc k) (l_peer l)"
  using assms
proof (induction k arbitrary: n l)
  case 0
  note asm = 0(9) [OF 0(6)]
  obtain l' where "getErrorCode n = Some (Inr (fst (q (l_peer l))), n\<lparr>np_proto := Np_serial l'\<rparr>)" "line_idle l'"
    "l_peer l' = snd (q (l_peer l))"
    using error_code_answer [OF 0(1-5) _ 0(7,8), of "snd (q (l_peer l))" "fst (q (l_peer l))"] asm by blast
  with 0(10) show ?case
    by (intro exI [of _ l']) (simp add: clear_errors.simps [of n])
next
  case (Suc k)
  note asm = Suc.prems(9) [OF Suc.prems(6)]
  obtain l' where l': "getErrorCode n = Some (Inr (fst (q (l_peer l))), n\<lparr>np_proto := Np_serial l'\<rparr>)" "line_idle l'"
    "l_peer l' = snd (q (l_peer l))" "line_config l' = line_config l" "wait_ms (l_port l') = wait_ms (l_port l)"
    using error_code_answer [OF Suc.prems(1-5) _ Suc.prems(7,8), of "snd (q (l_peer l))" "fst (q (l_peer l))"] asm by blast
  have nz: "fst (q (l_peer l)) \<noteq> 0" using Suc.prems(11) [of 0] by simp
  have shift: "((snd \<circ> q) ^^ j) (l_peer l') = ((snd \<circ> q) ^^ Suc j) (l_peer l)" for j
    by (simp add: l'(3) funpow_swap1)
  have cfg: "l_asio l' = l_asio l" "l_drain l' = l_drain l" "l_fifo l' = l_fifo l" "l_react l' = l_react l"
    using l'(4) by (simp_all add: line_config_def)
  have "\<exists>l''. clear_errors (n\<lparr>np_proto := Np_serial l'\<rparr>) = Some (Inr (), n\<lparr>np_proto := Np_serial l'\<rparr>\<lparr>np_proto := Np_serial l''\<rparr>) \<and>
      line_idle l'' \<and> l_peer l'' = ((snd \<circ> q) ^^ Suc k) (l_peer l')"
  proof (rule Suc.IH)
    show "fst (q (((snd \<circ> q) ^^ k) (l_peer l'))) = 0"
      using Suc.prems(10) unfolding shift .
    show "fst (q (((snd \<circ> q) ^^ j) (l_peer l'))) \<noteq> 0" if "j < k" for j
    proof -
      from that have "Suc j < Suc k" by simp
      from Suc.prems(11) [OF this] show ?thesis unfolding shift .
    qed
    show "good (snd (q d)) \<and> int_min \<le> fst (q d) \<and> fst (q d) \<le> int_max \<and>
       hears (l_react l') d (''ERRORS?'' @ [CHR 0x0D]) = (snd (q d), map (Pair t) (show_int (fst (q d)) @ [CHR 0x0D, CHR 0x0A]))"
      if "good d" for d
      using Suc.prems(9) [OF that] unfolding cfg .
  qed (use Suc.prems l' cfg asm in simp_all)
  then obtain l'' where "clear_errors (n\<lparr>np_proto := Np_serial l'\<rparr>) = Some (Inr (), n\<lparr>np_proto := Np_serial l''\<rparr>)"
    "line_idle l''" "l_peer l'' = ((snd \<circ> q) ^^ Suc k) (l_peer l')" by auto
  moreover from this(1) have "clear_errors n = Some (Inr (), n\<lparr>np_proto := Np_serial l''\<rparr>)"
    using l'(1) nz by (simp add: clear_errors.simps [of n])
  ultimately show ?case
    unfolding shift by blast
qed

section \<open>A meter to try out\<close>

text \<open>It keeps a list of errors and answers the question for the next one.\<close>

definition demo_error :: "int list \<Rightarrow> int" where
  "demo_error es = (case es of [] \<Rightarrow> 0 | e # _ \<Rightarrow> e)"

definition demo_meter :: "string \<times> int list \<Rightarrow> char \<Rightarrow> (string \<times> int list) \<times> (nat \<times> char) list" where
  "demo_meter d c = (case d of (buf, es) \<Rightarrow>
     if c = CHR 0x0D
     then (if buf = ''ERRORS?''
           then (([], tl es), map (Pair 20) (show_int (demo_error es) @ [CHR 0x0D, CHR 0x0A]))
           else (([], es), []))
     else ((buf @ [c], es), []))"

definition demo_newport :: "int list \<Rightarrow> (string \<times> int list) newport" where
  "demo_newport es = \<lparr>np_proto = Np_serial (demo_line ([], es) demo_meter), np_usbmode = False\<rparr>"

lemma demo_meter_answers:
  assumes "fst d = []"
  shows "hears demo_meter d (''ERRORS?'' @ [CHR 0x0D]) =
    (([], tl (snd d)), map (Pair 20) (show_int (demo_error (snd d)) @ [CHR 0x0D, CHR 0x0A]))"
  using assms by (cases d) (simp add: demo_meter_def)

lemma twice: "(f ^^ 2) x = f (f x)"
  by (simp add: numeral_2_eq_2)

theorem clear_errors_ends_witness:
  "\<exists>n'. clear_errors (demo_newport [7, 115]) = Some (Inr (), n')"
proof -
  let ?l = "demo_line ([], [7, 115]) demo_meter" and ?q = "\<lambda>d :: string \<times> int list. (demo_error (snd d), ([] :: string, tl (snd d)))"
  let ?good = "\<lambda>d. fst d = [] \<and> (\<forall>e\<in>set (snd d). 0 \<le> e \<and> e \<le> 200)"
  have line: "line_idle ?l" "l_asio ?l" "l_drain ?l \<or> 7 < l_fifo ?l" "?good (l_peer ?l)" "20 \<le> wait_ms (l_port ?l)"
    "l_react ?l = demo_meter"
    by (simp_all add: demo_line_def quiet_port_def line_idle_def)
  have ans: "?good (snd (?q d)) \<and> int_min \<le> fst (?q d) \<and> fst (?q d) \<le> int_max \<and>
     hears (l_react ?l) d (''ERRORS?'' @ [CHR 0x0D]) = (snd (?q d), map (Pair 20) (show_int (fst (?q d)) @ [CHR 0x0D, CHR 0x0A]))"
    if "?good d" for d
    using that demo_meter_answers [of d] unfolding line(6)
    by (cases "snd d") (auto simp: demo_error_def int_min_def int_max_def)
  have n: "np_proto (demo_newport [7, 115]) = Np_serial ?l" "\<not> np_usbmode (demo_newport [7, 115])"
    by (simp_all add: demo_newport_def)
  have z: "fst (?q (((snd \<circ> ?q) ^^ 2) (l_peer ?l))) = 0"
    by (simp add: demo_line_def demo_error_def twice)
  have nz: "fst (?q (((snd \<circ> ?q) ^^ j) (l_peer ?l))) \<noteq> 0" if "j < 2" for j :: nat
    using that by (cases j) (auto simp: demo_line_def demo_error_def less_Suc_eq)
  show ?thesis
    using clear_errors_ends [of "demo_newport [7, 115]" ?l ?good 20 ?q 2, OF n line(1-4) _ line(5) ans z nz]
    by auto
qed

theorem serial_request_is_cut_witness:
  "\<exists>n'. np_cmd ''PM:TRIG:VALUE 0.25'' (demo_newport []) =
    Some (Inl (Protocol_timeout ''serial port read timed out...''), n')"
proof -
  have "hears demo_meter ([], []) (take 16 (''PM:TRIG:VALUE 0.25'' @ [CHR 0x0D])) = ((''PM:TRIG:VALUE 0.'', []), [])"
    by (simp add: demo_meter_def)
  then show ?thesis
    using serial_request_is_cut [of "demo_newport []" "demo_line ([], []) demo_meter" "''PM:TRIG:VALUE 0.25''"
        "(''PM:TRIG:VALUE 0.'', [])"]
    by (auto simp: demo_newport_def demo_line_def quiet_port_def line_idle_def)
qed

text \<open>A text that has arrived is read in one piece.\<close>

lemma ready_text:
  assumes "incoming (l_port l) = map (Pair (now_ms (l_port l))) (map to_byte (body @ [c]))" "sys_results (l_port l) = []"
    "\<not> pending_read (l_port l)" "l_out l = []" "l_asio l" "length body < 512"
  shows "read_until_endl c l = Some (Inr (body @ [c]), l\<lparr>l_port := (l_port l)\<lparr>incoming := []\<rparr>\<rparr>)"
proof -
  have "until_loop (to_byte c) (now_ms (l_port l) + wait_ms (l_port l)) [] (l_port l) =
      (Inr (map to_byte (body @ [c])), (l_port l)\<lparr>now_ms := now_ms (l_port l), incoming := []\<rparr>)"
    using assms(1,2,6) by (intro until_answer) simp_all
  then show ?thesis
    using assms(3-5) by (simp add: read_until_endl_def read_line_bytes_def on_wire_def on_port_def transmit_all_def
        transmit_def othen_def always_def andthen_def gets_def read_until_endl_asio_impl_def run_for_def
        returns_def comp_def)
qed

definition demo_dump :: string where
  "demo_dump = unlines [''2936-R'', ''End of Header'', ''1.5'', ''-20'', ''End of Data'']"

definition demo_silent :: "(string \<times> int list) line" where
  "demo_silent = demo_line ([], []) demo_meter"

definition demo_full :: "(string \<times> int list) line" where
  "demo_full = demo_silent\<lparr>l_port := (l_port demo_silent)\<lparr>incoming := map (Pair 0) (map to_byte demo_dump)\<rparr>\<rparr>"

lemma demo_full_read: "read_until_endl (CHR 0x0A) demo_full = Some (Inr demo_dump, demo_silent)"
proof -
  define body where "body = butlast demo_dump"
  have d: "demo_dump = body @ [CHR 0x0A]" and len: "length body < 512"
    by (simp_all add: body_def demo_dump_def unlines_def)
  show ?thesis
    by (subst ready_text [of demo_full body])
      (simp_all add: demo_full_def demo_silent_def d len demo_line_def quiet_port_def)
qed

lemma demo_values: "stod ''1.5'' = Inr (Fin (3/2))" "stod ''-20'' = Inr (Fin (-20))"
  by (simp_all add: stod_def strip_sign_def is_space_def has_prefix_def lower_def strtod_mantissa_def is_digit_def
      digit_val_def digits_value_def strtod_exponent_def scale10_def max_double_def)

theorem dump_is_read_if_mark_is_whole_witness:
  "\<exists>n'. do_fetch_buffer 2 \<lparr>np_proto = Np_serial demo_full, np_usbmode = False\<rparr> =
    Some (Inr [Fin (3/2), Fin (-20)], n')"
proof -
  let ?n = "\<lparr>np_proto = Np_serial demo_full, np_usbmode = False\<rparr>"
  let ?n1 = "\<lparr>np_proto = Np_serial demo_silent, np_usbmode = False\<rparr>"
  obtain l' where t: "read_until_endl (CHR 0x0A) demo_silent =
      Some (Inl (Protocol_timeout ''serial port read timed out...''), l')"
    using idle_read_times_out [of demo_silent "CHR 0x0A"] by (auto simp: demo_silent_def demo_line_def quiet_port_def)
  have dump: "is_dump [''2936-R'', ''End of Header'', ''1.5'', ''-20'', ''End of Data''] [Fin (3/2), Fin (-20)]"
    unfolding is_dump_def
    by (rule exI [of _ "[''2936-R'']"], rule exI [of _ "''End of Header''"], rule exI [of _ "[''1.5'', ''-20'']"],
        rule exI [of _ "''End of Data''"]) (simp add: demo_values)
  have "find_str ''End of Data'' demo_dump \<noteq> None"
    by (simp add: demo_dump_def unlines_def)
  with dump_is_read_if_mark_is_whole [OF dump, of "[]" demo_dump 2 ?n ?n1] demo_full_read t show ?thesis
    by (auto simp: demo_dump_def read_line_def serial_read_line_def on_line_def)
qed

end
