(* ===== verification/Line_Devices.thy ===== *)
theory Line_Devices
  imports Serial_Line Settings_Store
begin

text \<open>
  What the drivers share that talk in lines of text over a serial port: conversions of what they read,
  pieces of the C++ standard library, and the lemma that a question is answered.
\<close>

section \<open>Conversions\<close>

definition int_bool :: "int result \<Rightarrow> bool result" where
  "int_bool r = rbind r (\<lambda>i. Inr (i \<noteq> 0))"

definition narrow :: "int result \<Rightarrow> 'a::len word result" where
  "narrow r = rbind r (\<lambda>i. Inr (of_int i))"

definition text_bool :: "bool \<Rightarrow> string" where
  "text_bool b = (if b then ''1'' else ''0'')"

definition text_word :: "'a::len word \<Rightarrow> string" where
  "text_word w = show_nat (unat w)"

text \<open>\<open>std::fixed\<close> with a number of decimals.\<close>

definition fixed_double :: "nat \<Rightarrow> f64 \<Rightarrow> string" where
  "fixed_double k = show_double (\<lambda>v. show_decimals k (nat (round_even (v * 10 ^ k))))"

text \<open>\<open>s.erase(std::remove_if(s.begin(), s.end(), p))\<close> erases one character only, the first behind those
  that stay; the others behind it keep what they were. When none is removed it erases at the end.\<close>

definition erase_one :: "(char \<Rightarrow> bool) \<Rightarrow> string \<Rightarrow> string result" where
  "erase_one p s = (let kept = filter (\<lambda>c. \<not> p c) s in
     if length kept = length s then Inl (UB ''erase at the end of a string'')
     else Inr (kept @ drop (Suc (length kept)) s))"

definition char_at :: "string \<Rightarrow> nat \<Rightarrow> char" where
  "char_at s i = (if i < length s then s ! i else CHR 0x00)"

text \<open>The first place of a character; \<open>npos\<close> is \<open>None\<close>.\<close>

definition find_char :: "char \<Rightarrow> string \<Rightarrow> nat option" where
  "find_char c s = (if c \<in> set s then Some (length (takeWhile (\<lambda>x. x \<noteq> c) s)) else None)"

text \<open>\<open>substr(0, pos)\<close>, where \<open>npos\<close> takes all.\<close>

definition upto :: "nat option \<Rightarrow> string \<Rightarrow> string" where
  "upto pos s = (case pos of None \<Rightarrow> s | Some n \<Rightarrow> take n s)"

text \<open>A destructor that runs on every way out.\<close>

definition olastly :: "('s, 'a) oprog \<Rightarrow> ('s \<Rightarrow> 's) \<Rightarrow> ('s, 'a) oprog" where
  "olastly m cleanup s = (case m s of None \<Rightarrow> None | Some (r, s') \<Rightarrow> Some (r, cleanup s'))"

section \<open>Bytes\<close>

lemma high_bit: "bit (w :: byte) 7 \<longleftrightarrow> 128 \<le> w"
proof -
  have "unat w < 256" using unsigned_less [of w, where ?'a = nat] by simp
  then have d: "unat w div 128 = (if 128 \<le> unat w then 1 else 0)" by auto
  have "bit w 7 \<longleftrightarrow> bit (unat w) 7" by (simp add: bit_unsigned_iff)
  also have "\<dots> \<longleftrightarrow> odd (unat w div 128)" by (simp add: bit_iff_odd)
  finally show ?thesis unfolding d by (simp add: word_le_nat_alt)
qed

lemma to_byte_char [simp]: "to_byte (to_char b) = b"
proof -
  have "(of_char (char_of (unat b)) :: byte) = of_nat (of_char (char_of (unat b)))" by (rule of_nat_of_char [symmetric])
  then show ?thesis using unsigned_less [of b, where ?'a = nat] by (simp add: to_byte_def to_char_def)
qed

section \<open>Questions\<close>

definition line_ask :: "char \<Rightarrow> string \<Rightarrow> ('d line, string) oprog" where
  "line_ask endlchar req = othen (always (line_write req)) (\<lambda>_. read_until_endl endlchar)"

text \<open>A line in the state in which a driver leaves it between two calls.\<close>

definition line_good :: "nat \<Rightarrow> 'd line \<Rightarrow> bool" where
  "line_good wait l \<longleftrightarrow> line_idle l \<and> l_asio l \<and> wait_ms (l_port l) = wait"

lemma line_ask_answered:
  assumes "line_good wait l" "hears (l_react l) (l_peer l) req = (d, map (Pair t) (body @ [c]))" "t \<le> wait" "length body < 512"
  obtains l2 where "line_ask c req l = Some (Inr (body @ [c]), l2)" "line_good wait l2" "l_peer l2 = d"
    "line_config l2 = line_config l" "l_react l2 = l_react l"
proof -
  have g: "line_idle l" "l_asio l" "t \<le> wait_ms (l_port l)" using assms(1,3) by (simp_all add: line_good_def)
  obtain l1 l2 where "line_write req l = (Inr (), l1)" "read_until_endl c l1 = Some (Inr (body @ [c]), l2)"
    "line_idle l2" "l_peer l2 = d" "line_config l2 = line_config l" "wait_ms (l_port l2) = wait_ms (l_port l)"
    using line_exchange [OF g(1,2) assms(2) g(3) assms(4)] by metis
  then show thesis
    using assms(1) by (intro that [of l2]) (simp_all add: line_ask_def always_def othen_def line_good_def line_config_def)
qed

text \<open>An answer of a known number of characters.\<close>

lemma line_count_answered:
  assumes "line_idle l" "hears (l_react l) (l_peer l) req = (d, map (Pair t) ans)" "t \<le> wait" "ans \<noteq> []"
  obtains l1 l2 where "line_write req l = (Inr (), l1)" "l_transfer_ms l1 = l_transfer_ms l"
    "line_read_definite (length ans) wait l1 = (Inr ans, l2)" "line_idle l2" "l_peer l2 = d" "line_config l2 = line_config l"
proof -
  let ?p = "(l_port l)\<lparr>sent := sent (l_port l) @ map to_byte req\<rparr>"
  let ?l = "l\<lparr>l_port := ?p, l_out := req\<rparr>"
  define l1 where "l1 = (if l_drain l then transmit_all ?l else transmit (l_fifo l) ?l)"
  have w: "line_write req l = (Inr (), l1)"
    using assms(1) by (simp add: line_write_def on_port_def write_bytes_def sys_call_quiet andthen_def modifies_def
        line_idle_def l1_def Let_def)
  have all: "transmit_all l1 = transmit_all ?l"
    by (simp add: l1_def transmit_all_idem transmit_any)
  let ?q = "?p\<lparr>incoming := map (Pair (now_ms (l_port l) + t)) (map to_byte ans)\<rparr>"
  have ta: "transmit_all ?l = ?l\<lparr>l_out := [], l_peer := d, l_port := ?q\<rparr>"
    using assms(1,2) by (simp add: transmit_all_def transmit_def line_idle_def comp_def)
  have "arrived (now_ms ?q + wait) (incoming ?q) = incoming ?q"
    using assms(3) unfolding arrived_def by (intro takeWhile_eq_all_conv [THEN iffD2]) auto
  moreover obtain c cs where "ans = c # cs" using assms(4) by (cases ans) auto
  ultimately have "\<exists>n. read_definite (length ans) wait ?q = (Inr (map to_byte ans), ?q\<lparr>now_ms := n, incoming := []\<rparr>)"
    using assms(1) by (subst read_definite_quiet) (auto simp: line_idle_def Let_def comp_def)
  then obtain n where n: "read_definite (length ans) wait ?q = (Inr (map to_byte ans), ?q\<lparr>now_ms := n, incoming := []\<rparr>)" ..
  define l2 where "l2 = (?l\<lparr>l_out := [], l_peer := d, l_port := ?q\<lparr>now_ms := n, incoming := []\<rparr>\<rparr>)"
  have r: "line_read_definite (length ans) wait l1 = (Inr ans, l2)"
    using n by (simp add: line_read_definite_def on_wire_def on_port_def all ta andthen_def returns_def l2_def comp_def)
  have "l_transfer_ms l1 = l_transfer_ms l"
    by (simp add: l1_def transmit_all_def transmit_def split: prod.splits)
  then show thesis
    by (rule that [OF w _ r]) (use assms(1) in \<open>simp_all add: l2_def line_idle_def line_config_def\<close>)
qed

end
