(* ===== verification/Arroyo.thy ===== *)
theory Arroyo
  imports Line_Devices
begin

text \<open>
  The Arroyo 5305 temperature controller: devices/arroyo_peltier/arroyo5305.cpp. The driver has no
  state of its own; its operations work on the serial line. A \<open>float\<close> is the number that was written,
  its rounding is not modelled. \<open>duration\<close> is \<open>boost::posix_time::duration_from_string\<close> in milliseconds.
  Enumerations are the numbers they stand for.
\<close>

section \<open>Commands\<close>

definition tec_strip_crlf :: "string \<Rightarrow> string" where
  "tec_strip_crlf s = filter (\<lambda>c. c \<noteq> CHR 0x0A) (filter (\<lambda>c. c \<noteq> CHR 0x0D) s)"

definition tec_cmd_no_response :: "string \<Rightarrow> ('d line, unit) oprog" where
  "tec_cmd_no_response request =
     (if request = [] then othrow (UB ''rbegin of an empty string'')
      else always (line_write (if last request = CHR 0x0D \<or> last request = CHR 0x0A then request else request @ [CHR 0x0D])))"

definition tec_cmd :: "string \<Rightarrow> ('d line, string) oprog" where
  "tec_cmd request = othen (tec_cmd_no_response request) (\<lambda>_.
     othen (read_until_endl (CHR 0x0D)) (\<lambda>resp. oreturn (tec_strip_crlf resp)))"

text \<open>A command, and a question with what is done with the answer; both end with a carriage return.\<close>

definition tec_tell :: "string \<Rightarrow> ('d line, unit) oprog" where
  "tec_tell c = tec_cmd_no_response (c @ [CHR 0x0D])"

definition tec_get :: "(string \<Rightarrow> 'a result) \<Rightarrow> string \<Rightarrow> ('d line, 'a) oprog" where
  "tec_get parse c = othen (tec_cmd (c @ [CHR 0x0D])) (\<lambda>s. olift (parse s))"

definition sport_defaults :: parameterset where
  "sport_defaults = [(''baudrate'', P_int 38400)]"

definition tec_init :: "('d line, unit) oprog" where
  "tec_init = othen (always (setWait 1000)) (\<lambda>_. othen (always (line_init sport_defaults)) (\<lambda>_.
     ofor (\<lambda>s. always (line_write s)) [''TERM 2'' @ [CHR 0x0D, CHR 0x0A], ''TERMINAL 0'' @ [CHR 0x0D, CHR 0x0A],
       ''*ESE 255'' @ [CHR 0x0D], ''*SRE 255'' @ [CHR 0x0D]]))"

text \<open>More than two colons: days before the first one.\<close>

definition parse_arroyo_duration_string :: "(string \<Rightarrow> int result) \<Rightarrow> string \<Rightarrow> int result" where
  "parse_arroyo_duration_string duration s =
     (if 2 < length (filter (\<lambda>c. c = CHR '':'') s)
      then let first_semi = length (takeWhile (\<lambda>c. c \<noteq> CHR '':'') s)
           in rbind (duration (drop first_semi s)) (\<lambda>ms. rbind (stoi (take first_semi s)) (\<lambda>days.
              Inr (ms + days * 24 * 3600000)))
      else duration s)"

definition centiseconds :: "int \<Rightarrow> 32 word" where
  "centiseconds ms = of_int (sgn ms * (\<bar>ms\<bar> div 10))"

section \<open>Operations\<close>

definition tec_version :: "('d line, string) oprog" where
  "tec_version = tec_get Inr ''VER?''"

definition tec_identify :: "('d line, string) oprog" where
  "tec_identify = tec_get Inr ''*IDN?''"

definition tec_serialno :: "('d line, string) oprog" where
  "tec_serialno = tec_get Inr ''SN?''"

definition tec_temp :: "('d line, f64) oprog" where
  "tec_temp = tec_get stod ''TEC:T?''"

definition tec_get_temp_setpoint :: "('d line, f64) oprog" where
  "tec_get_temp_setpoint = tec_get stod ''TEC:SET:T?''"

definition tec_set_temp_setpoint :: "f64 \<Rightarrow> ('d line, unit) oprog" where
  "tec_set_temp_setpoint v = tec_tell (''TEC:T '' @ ostream_double 6 v)"

definition tec_total_centiseconds_uptime :: "(string \<Rightarrow> int result) \<Rightarrow> ('d line, 32 word) oprog" where
  "tec_total_centiseconds_uptime duration =
     tec_get (\<lambda>resp. rbind (parse_arroyo_duration_string duration resp) (\<lambda>ms. Inr (centiseconds ms))) ''TIME?''"

definition tec_total_centiseconds_timer :: "(string \<Rightarrow> int result) \<Rightarrow> ('d line, 32 word) oprog" where
  "tec_total_centiseconds_timer duration =
     tec_get (\<lambda>resp. rbind (parse_arroyo_duration_string duration resp) (\<lambda>ms. Inr (centiseconds ms))) ''TIMER?''"

definition tec_get_remote_volt_sense :: "('d line, bool) oprog" where
  "tec_get_remote_volt_sense = tec_get (\<lambda>s. int_bool (stoi s)) ''TEC:VSENSE?''"

definition tec_set_remote_volt_sense :: "bool \<Rightarrow> ('d line, unit) oprog" where
  "tec_set_remote_volt_sense v = tec_tell (''TEC:VSENSE '' @ text_bool v)"

definition tec_voltage :: "('d line, f64) oprog" where
  "tec_voltage = tec_get stod ''TEC:V?''"

definition tec_get_trate :: "('d line, f64) oprog" where
  "tec_get_trate = tec_get stod ''TEC:TRATE?''"

definition tec_set_trate :: "f64 \<Rightarrow> ('d line, unit) oprog" where
  "tec_set_trate v = tec_tell (''TEC:TRATE '' @ ostream_double 6 v)"

text \<open>The comparison with \<open>npos\<close> is an assignment.\<close>

definition tec_get_tolerance :: "('d line, f64 \<times> f64) oprog" where
  "tec_get_tolerance = tec_get (\<lambda>resp. let commapos = find_char (CHR '','') resp; commapos = None in
     if commapos = None then Inl (Logic_error (''couldn'' @ [CHR 0x27] @ ''t find comma''))
     else rbind (stod (upto commapos resp)) (\<lambda>tolerance.
          rbind (stod (drop (Suc (length (upto commapos resp))) resp)) (\<lambda>time. Inr (tolerance, time)))) ''TEC:TOL?''"

definition tec_set_tolerance :: "f64 \<Rightarrow> f64 \<Rightarrow> ('d line, unit) oprog" where
  "tec_set_tolerance tolerance time = tec_tell (''TEC:TOL '' @ ostream_double 6 tolerance @ '','' @ ostream_double 6 time)"

definition tec_get_status :: "('d line, byte) oprog" where
  "tec_get_status = tec_get (\<lambda>s. narrow (stoi s)) ''*STB?''"

definition tec_get_eventstatus :: "('d line, byte) oprog" where
  "tec_get_eventstatus = tec_get (\<lambda>s. narrow (stoi s)) ''*ESR?''"

text \<open>The pieces are taken while \<open>isnum\<close> is false, and it is never set.\<close>

fun error_pieces :: "bool \<Rightarrow> string list \<Rightarrow> string list" where
  "error_pieces isnum [] = []"
| "error_pieces isnum (st # rest) = (if isnum then error_pieces isnum rest else st # error_pieces isnum rest)"

definition tec_get_errors :: "('d line, string list) oprog" where
  "tec_get_errors = tec_get (\<lambda>resp. Inr (error_pieces True (split_on (CHR '','') resp))) ''ERRSTR?''"

text \<open>\<open>std::array\<close> of three; what is not assigned is indeterminate, a fourth piece is written behind it.\<close>

fun pid_pieces :: "nat \<Rightarrow> string list \<Rightarrow> f64 list result" where
  "pid_pieces free [] = (if free = 0 then Inr [] else Inl (UB ''indeterminate value''))"
| "pid_pieces free (st # rest) = rbind (stod st) (\<lambda>x.
     if free = 0 then Inl (UB ''write past the end of an array'')
     else rbind (pid_pieces (free - 1) rest) (\<lambda>xs. Inr (x # xs)))"

definition tec_get_PID :: "('d line, f64 list) oprog" where
  "tec_get_PID = tec_get (\<lambda>resp. pid_pieces 3 (split_on (CHR '','') resp)) ''TEC:PID?''"

definition tec_set_PID :: "f64 \<Rightarrow> f64 \<Rightarrow> f64 \<Rightarrow> ('d line, unit) oprog" where
  "tec_set_PID P I D = tec_tell (''TEC:PID '' @ ostream_double 6 P @ ostream_double 6 I @ ostream_double 6 D)"

definition tec_get_output :: "('d line, bool) oprog" where
  "tec_get_output = tec_get (\<lambda>s. int_bool (stoi s)) ''TEC:OUT?''"

definition tec_set_output :: "bool \<Rightarrow> ('d line, unit) oprog" where
  "tec_set_output v = tec_tell (''TEC:OUT '' @ text_bool v)"

definition tec_get_TLoLimit :: "('d line, f64) oprog" where
  "tec_get_TLoLimit = tec_get stod ''TEC:LIM:TLO?''"

definition tec_set_TLoLimit :: "f64 \<Rightarrow> ('d line, unit) oprog" where
  "tec_set_TLoLimit v = tec_tell (''TEC:LIMIT:TLO '' @ ostream_double 6 v)"

definition tec_get_THiLimit :: "('d line, f64) oprog" where
  "tec_get_THiLimit = tec_get stod ''TEC:LIM:THI?''"

definition tec_set_THiLimit :: "f64 \<Rightarrow> ('d line, unit) oprog" where
  "tec_set_THiLimit v = tec_tell (''TEC:LIMIT:THI '' @ ostream_double 6 v)"

definition tec_get_RLoLimit :: "('d line, f64) oprog" where
  "tec_get_RLoLimit = tec_get stod ''TEC:LIM:RLO?''"

definition tec_set_RLoLimit :: "f64 \<Rightarrow> ('d line, unit) oprog" where
  "tec_set_RLoLimit v = tec_tell (''TEC:LIMIT:RLO '' @ ostream_double 6 v)"

definition tec_get_RHiLimit :: "('d line, f64) oprog" where
  "tec_get_RHiLimit = tec_get stod ''TEC:LIM:RHI?''"

definition tec_set_RHiLimit :: "f64 \<Rightarrow> ('d line, unit) oprog" where
  "tec_set_RHiLimit v = tec_tell (''TEC:LIMIT:RHI '' @ ostream_double 6 v)"

definition tec_get_ITELimit :: "('d line, f64) oprog" where
  "tec_get_ITELimit = tec_get stod ''TEC:LIM:ITE?''"

definition tec_set_ITELimit :: "f64 \<Rightarrow> ('d line, unit) oprog" where
  "tec_set_ITELimit v = tec_tell (''TEC:LIMIT:ITE '' @ ostream_double 6 v)"

definition tec_get_VLimit :: "('d line, f64) oprog" where
  "tec_get_VLimit = tec_get stod ''TEC:LIM:V?''"

definition tec_set_VLimit :: "f64 \<Rightarrow> ('d line, unit) oprog" where
  "tec_set_VLimit v = tec_tell (''TEC:LIMIT:V '' @ ostream_double 6 v)"

definition tec_TECCurrent :: "('d line, f64) oprog" where
  "tec_TECCurrent = tec_get stod ''TEC:ITE?''"

definition tec_set_ITESetPoint :: "f64 \<Rightarrow> ('d line, unit) oprog" where
  "tec_set_ITESetPoint v = tec_tell (''TEC:ITE '' @ ostream_double 6 v)"

definition tec_get_ITESetPoint :: "('d line, f64) oprog" where
  "tec_get_ITESetPoint = tec_get stod ''TEC:SET:ITE?''"

definition heatcool_of :: "string \<Rightarrow> 16 word result" where
  "heatcool_of resp = (let c = char_at resp 0 in
     if c = CHR ''B'' then Inr 0 else if c = CHR ''H'' then Inr 1 else if c = CHR ''C'' then Inr 2
     else Inl (Device_error ''invalid heatcool response!''))"

definition tec_get_heatcool :: "('d line, 16 word) oprog" where
  "tec_get_heatcool = tec_get heatcool_of ''TEC:HEATCOOL?''"

definition tec_set_heatcool :: "16 word \<Rightarrow> ('d line, unit) oprog" where
  "tec_set_heatcool val = (case map_of [(0, ''BOTH''), (1, ''HEAT''), (2, ''COOL'')] val of
     None \<Rightarrow> othrow (Logic_error ''invalid heat/cool val, should never reach here'')
   | Some s \<Rightarrow> tec_tell (''TEC:HEATCOOL '' @ s))"

text \<open>\<open>find\<close> is zero, that is false, when the answer begins with \<open>PID\<close>, and \<open>npos\<close>, true, when it is not in it.\<close>

definition gain_of :: "string \<Rightarrow> 16 word result" where
  "gain_of resp = (if find_str ''PID'' resp \<noteq> Some 0 then Inr (-1) else narrow (stoi resp))"

definition tec_get_gain :: "('d line, 16 word) oprog" where
  "tec_get_gain = tec_get gain_of ''TEC:GAIN?''"

definition tec_set_gain :: "16 word \<Rightarrow> ('d line, unit) oprog" where
  "tec_set_gain g = (if g = -1 then tec_tell ''TEC:GAIN PID'' else tec_tell (''TEC:GAIN '' @ show_int (sint g)))"

definition tec_resistance :: "('d line, f64) oprog" where
  "tec_resistance = tec_get stod ''TEC:R?''"

definition fanspeed_of :: "string \<Rightarrow> (f64 \<times> 16 word \<times> 16 word) result" where
  "fanspeed_of resp = (case find_char (CHR '','') resp of
     None \<Rightarrow> Inl (Logic_error (''couldn'' @ [CHR 0x27] @ ''t find first comma in response string.''))
   | Some p1 \<Rightarrow> (let rest = drop (Suc p1) resp in case find_char (CHR '','') rest of
       None \<Rightarrow> Inl (Logic_error (''couldn'' @ [CHR 0x27] @ ''t find second comma in response string.''))
     | Some p2 \<Rightarrow> rbind (if take p1 resp = ''OFF'' then Inr (Fin 0) else stod (take p1 resp)) (\<lambda>speed.
         rbind (narrow (stoi (take p2 rest))) (\<lambda>mode. rbind (narrow (stoi (drop (Suc p2) rest))) (\<lambda>delay.
         Inr (speed, mode, delay))))))"

definition tec_get_fanspeed :: "('d line, f64 \<times> 16 word \<times> 16 word) oprog" where
  "tec_get_fanspeed = tec_get fanspeed_of ''TEC:FAN?''"

definition tec_set_fanspeed :: "f64 \<Rightarrow> 16 word \<Rightarrow> 16 word \<Rightarrow> ('d line, unit) oprog" where
  "tec_set_fanspeed speed mode delay = tec_tell (''TEC:FAN '' @ ostream_double 6 speed @ '','' @ text_word mode @ '','' @ text_word delay)"

definition tec_event :: "('d line, byte) oprog" where
  "tec_event = tec_get (\<lambda>s. narrow (stoi s)) ''TEC:EVE?''"

definition tec_get_outputoffregister :: "('d line, 16 word) oprog" where
  "tec_get_outputoffregister = tec_get (\<lambda>s. narrow (stoi s)) ''TEC:OUTOFF?''"

definition tec_set_outputoffregister :: "16 word \<Rightarrow> ('d line, unit) oprog" where
  "tec_set_outputoffregister v = tec_tell (''TEC:OUTOFF '' @ text_word v)"

definition tec_get_sensortype :: "int \<Rightarrow> ('d line, byte) oprog" where
  "tec_get_sensortype idx = (if idx < 1 then othrow (Out_of_range ''invalid idx, must be >= 1'')
     else tec_get (\<lambda>s. narrow (stoi s)) (''TEC:SEN? '' @ show_int idx))"

definition tec_set_sensortype :: "int \<Rightarrow> byte \<Rightarrow> ('d line, unit) oprog" where
  "tec_set_sensortype idx tp = (if idx < 1 then othrow (Out_of_range ''invalid idx, must be >= 1'')
     else tec_tell (''TEC:SEN '' @ text_word tp @ '','' @ show_int idx))"

section \<open>Properties\<close>

lemma strip_answer: "CHR 0x0D \<notin> set s \<Longrightarrow> CHR 0x0A \<notin> set s \<Longrightarrow> tec_strip_crlf (s @ [CHR 0x0D]) = s"
  by (induction s) (auto simp: tec_strip_crlf_def)

lemma tec_get_answered:
  assumes "line_good wait l" "hears (l_react l) (l_peer l) (c @ [CHR 0x0D]) = (d, map (Pair t) (s @ [CHR 0x0D]))"
    "t \<le> wait" "length s < 512" "CHR 0x0D \<notin> set s" "CHR 0x0A \<notin> set s"
  obtains l2 where "tec_get parse c l = Some (parse s, l2)" "line_good wait l2" "l_peer l2 = d"
proof -
  obtain l2 where "line_ask (CHR 0x0D) (c @ [CHR 0x0D]) l = Some (Inr (s @ [CHR 0x0D]), l2)" "line_good wait l2" "l_peer l2 = d"
    using line_ask_answered [OF assms(1-4)] by metis
  then show thesis
    using strip_answer [OF assms(5,6)]
    by (intro that [of l2]) (auto simp: tec_get_def tec_cmd_def tec_cmd_no_response_def line_ask_def othen_assoc
        othen_def always_def returns_def lifts_def split: option.splits prod.splits sum.splits)
qed

lemma int_answer:
  assumes "0 \<le> g" "g < 1000"
  shows "length (show_int g) < 512" "CHR 0x0D \<notin> set (show_int g)" "CHR 0x0A \<notin> set (show_int g)" "find_str ''PID'' (show_int g) \<noteq> Some 0"
proof -
  have ds: "\<forall>c\<in>set (show_int g). is_digit 10 c" using show_nat_digits [of "nat g"] assms by (auto simp: show_int_def list_all_iff)
  show "length (show_int g) < 512"
    using assms length_show_nat [of "nat g" 2] by (force simp: show_int_def)
  show "CHR 0x0D \<notin> set (show_int g)" "CHR 0x0A \<notin> set (show_int g)" using ds by (auto simp: is_digit_def digit_val_def)
  have "CHR ''P'' \<notin> set (show_int g)" using ds by (auto simp: is_digit_def digit_val_def)
  then show "find_str ''PID'' (show_int g) \<noteq> Some 0"
    by (cases "show_int g") auto
qed

text \<open>
  The gain is read inside out: the answer \<open>PID\<close>, which stands for the gain that the three terms
  set, is an exception, and an answer that is a number is reported as that gain whatever the number is.
\<close>

theorem gain_is_read_inside_out:
  assumes "line_good wait l" "hears (l_react l) (l_peer l) (''TEC:GAIN?'' @ [CHR 0x0D]) = (d, map (Pair t) (s @ [CHR 0x0D]))"
    "t \<le> wait" "s = ''PID'' \<or> s = show_int g" "0 \<le> g" "g < 1000"
  shows "\<exists>l2. tec_get_gain l = Some (if s = ''PID'' then Inl (Invalid_argument ''stoi'') else Inr (-1), l2)"
proof -
  have s: "length s < 512" "CHR 0x0D \<notin> set s" "CHR 0x0A \<notin> set s" using assms(4) int_answer [OF assms(5,6)] by auto
  obtain l2 where "tec_get gain_of ''TEC:GAIN?'' l = Some (gain_of s, l2)"
    using tec_get_answered [OF assms(1-3) s] by metis
  moreover have "stoi ''PID'' = Inl (Invalid_argument ''stoi'')" by code_simp
  ultimately show ?thesis
    using assms(4) int_answer(4) [OF assms(5,6)] by (auto simp: tec_get_gain_def gain_of_def narrow_def)
qed

section \<open>A controller to try out\<close>

text \<open>It answers the question for the gain with what it keeps.\<close>

definition demo_tec :: "string \<times> string \<Rightarrow> char \<Rightarrow> (string \<times> string) \<times> (nat \<times> char) list" where
  "demo_tec d c = (case d of (buf, gain) \<Rightarrow>
     if c = CHR 0x0D then (([], gain), if buf = ''TEC:GAIN?'' then map (Pair 20) (gain @ [CHR 0x0D]) else [])
     else ((buf @ [c], gain), []))"

theorem gain_is_read_inside_out_witness:
  "(\<exists>l2. tec_get_gain (demo_line ([], ''PID'') demo_tec) = Some (Inl (Invalid_argument ''stoi''), l2)) \<and>
   (\<exists>l2. tec_get_gain (demo_line ([], ''30'') demo_tec) = Some (Inr (-1), l2))"
proof -
  have line: "line_good 200 (demo_line d demo_tec)" for d
    by (simp add: line_good_def demo_line_def quiet_port_def line_idle_def)
  have ans: "hears (l_react (demo_line ([], g) demo_tec)) (l_peer (demo_line ([], g) demo_tec)) (''TEC:GAIN?'' @ [CHR 0x0D]) =
    (([], g), map (Pair 20) (g @ [CHR 0x0D]))" for g
    by (simp add: demo_line_def demo_tec_def)
  have n: "show_int 30 = ''30''" by code_simp
  show ?thesis
    using gain_is_read_inside_out [OF line ans, of "''PID''" 0] gain_is_read_inside_out [OF line ans, of "''30''" 30] by (simp add: n)
qed

end
