(* ===== verification/Coldvision.thy ===== *)
theory Coldvision
  imports Line_Devices
begin

text \<open>
  The ColdVision LS light source: devices/coldvision-ls/coldvision_ls.cpp and coldvision.hh. The driver
  keeps no state; its operations work on the serial line. A \<open>float\<close> is the number that was written.
\<close>

section \<open>Commands\<close>

definition substr_from :: "nat \<Rightarrow> string \<Rightarrow> string result" where
  "substr_from n s = (if length s < n then Inl (Out_of_range ''basic_string::substr'') else Inr (drop n s))"

definition cv_init :: "('d line, unit) oprog" where
  "cv_init = othen (always (setWait 100)) (\<lambda>_. always (on_port (Init None)))"

definition cv_cmd :: "string \<Rightarrow> ('d line, string) oprog" where
  "cv_cmd request =
     (if char_at request 0 \<noteq> CHR ''&'' then othrow (Logic_error ''commands must start with & character'')
      else if last request \<noteq> CHR 0x0D then othrow (Logic_error ''commands must end with a carriage return'')
      else othen (always (line_write request)) (\<lambda>_. othen (read_until_endl (CHR 0x0D)) (\<lambda>resp.
        if char_at resp 0 \<noteq> CHR ''&'' then othrow (Logic_error ''invalid first character received'')
        else if char_at resp 1 = CHR ''n''
        then othrow (Device_error ''invalid response code received from device, check logs...'')
        else oreturn resp)))"

text \<open>What a question with its question mark at the start or at the end leaves of the answer.\<close>

definition cv_reply :: "string \<Rightarrow> string \<Rightarrow> string result" where
  "cv_reply request resp = (case find_char (CHR ''?'') request of
     None \<Rightarrow> Inl (Logic_error (''couldn'' @ [CHR 0x27] @ ''t find query character in string''))
   | Some querycharloc \<Rightarrow>
       if querycharloc = 1 then substr_from (length request - 1) resp
       else if querycharloc = length request - 2 then substr_from querycharloc resp
       else Inl (Logic_error (''don'' @ [CHR 0x27] @ ''t know how to deal with this query!'')))"

definition query_cmd :: "string \<Rightarrow> ('d line, string) oprog" where
  "query_cmd request = othen (cv_cmd request) (\<lambda>resp. olift (cv_reply request resp))"

text \<open>A question with what is done with the answer; the carriage return is added here.\<close>

definition cv_ask :: "(string \<Rightarrow> 'a result) \<Rightarrow> string \<Rightarrow> ('d line, 'a) oprog" where
  "cv_ask parse q = othen (query_cmd (q @ [CHR 0x0D])) (\<lambda>s. olift (parse s))"

definition cv_tell :: "string \<Rightarrow> ('d line, unit) oprog" where
  "cv_tell c = othen (cv_cmd (c @ [CHR 0x0D])) (\<lambda>_. oreturn ())"

definition set_helper :: "string \<Rightarrow> int \<Rightarrow> ('d line, unit) oprog" where
  "set_helper c v = cv_tell (c @ show_int v)"

definition set_helper_hex :: "string \<Rightarrow> 16 word \<Rightarrow> ('d line, unit) oprog" where
  "set_helper_hex c v = cv_tell (c @ show_base False 16 (unat v))"

definition two_parameter_query :: "string \<Rightarrow> byte \<Rightarrow> string" where
  "two_parameter_query c idx = c @ text_word idx @ '',?''"

definition two_parameter_command :: "string \<Rightarrow> byte \<Rightarrow> 32 word \<Rightarrow> string" where
  "two_parameter_command c idx v = c @ text_word idx @ '','' @ text_word v"

definition ask_int :: "string \<Rightarrow> ('d line, 'a::len word) oprog" where
  "ask_int = cv_ask (\<lambda>s. narrow (stoi s))"

definition ask_bool :: "string \<Rightarrow> ('d line, bool) oprog" where
  "ask_bool = cv_ask (\<lambda>s. int_bool (stoi s))"

definition ask_hex :: "string \<Rightarrow> ('d line, 'a::len word) oprog" where
  "ask_hex = cv_ask (\<lambda>s. narrow (stoi_base 16 s))"

definition check_idx :: "byte \<Rightarrow> ('d line, unit) oprog" where
  "check_idx idx = othrow_unless (1 \<le> idx \<and> idx \<le> 4)
     (Device_error ''invalid index for single channel operation (allowed 1-4)'')"

section \<open>What is measured\<close>

definition temp_query_helper :: "char \<Rightarrow> string \<Rightarrow> ('d line, f64) oprog" where
  "temp_query_helper tchar errstr = othen (ask_bool (''&?'' @ [tchar] @ ''S'')) (\<lambda>tmpgood.
     if \<not> tmpgood then othrow (Device_error (errstr @ ''temperature sensor problem!''))
     else cv_ask stod (''&?'' @ [tchar] @ ''T''))"

definition get_boardTemp :: "('d line, f64) oprog" where
  "get_boardTemp = temp_query_helper (CHR ''B'') ''board''"

definition get_LEDTemp :: "('d line, f64) oprog" where
  "get_LEDTemp = temp_query_helper (CHR ''L'') ''LED''"

definition get_inputVoltage :: "('d line, f64) oprog" where
  "get_inputVoltage = cv_ask stod ''&?VI''"

definition get_referenceVoltage :: "('d line, f64) oprog" where
  "get_referenceVoltage = cv_ask stod ''&?VO''"

definition get_fanSpeed :: "('d line, 32 word) oprog" where
  "get_fanSpeed = ask_int ''&?G''"

text \<open>The status is the number that comes, as a short unsigned.\<close>

definition get_equalizerStatus :: "('d line, 16 word) oprog" where
  "get_equalizerStatus = ask_int ''&ES?''"

definition get_lightFeedbackRaw :: "('d line, 32 word) oprog" where
  "get_lightFeedbackRaw = ask_hex ''&?I''"

definition get_errorFlags :: "('d line, byte) oprog" where
  "get_errorFlags = ask_int ''&C?''"

definition get_analogIn :: "16 word \<Rightarrow> ('d line, 32 word) oprog" where
  "get_analogIn idx = ask_int (''&?a'' @ text_word idx)"

definition get_digitalIn :: "16 word \<Rightarrow> ('d line, bool) oprog" where
  "get_digitalIn idx = ask_bool (''&?d'' @ text_word idx)"

definition get_ProductName :: "('d line, string) oprog" where
  "get_ProductName = cv_ask Inr ''&Q?''"

definition get_FirmwareVersion :: "('d line, string) oprog" where
  "get_FirmwareVersion = cv_ask (erase_one is_space) ''&F?''"

definition get_SerialNumber :: "('d line, string) oprog" where
  "get_SerialNumber = cv_ask (erase_one is_space) ''&Z?''"

definition get_ModelNumber :: "('d line, string) oprog" where
  "get_ModelNumber = cv_ask (\<lambda>resp. Inr (upto (find_char (CHR '':'') resp) resp)) ''&ZF?''"

section \<open>Settings\<close>

definition get_demoMode :: "('d line, bool) oprog" where
  "get_demoMode = ask_bool ''&D?''"

definition set_demoMode :: "bool \<Rightarrow> ('d line, unit) oprog" where
  "set_demoMode b = set_helper ''&D'' (of_bool b)"

definition get_combinedTrigger :: "('d line, bool) oprog" where
  "get_combinedTrigger = ask_bool ''&J0,?''"

definition set_combinedTrigger :: "bool \<Rightarrow> ('d line, unit) oprog" where
  "set_combinedTrigger b = set_helper ''&J0,'' (of_bool b)"

definition get_knobMode :: "('d line, byte) oprog" where
  "get_knobMode = ask_int ''&N?''"

definition set_knobMode :: "byte \<Rightarrow> ('d line, unit) oprog" where
  "set_knobMode mode = set_helper ''&N'' (uint mode)"

datatype led_trigger_mode = CW | ContinuousStrobe | TriggeredStrobe

definition get_triggerMode :: "('d line, led_trigger_mode) oprog" where
  "get_triggerMode = othen (ask_bool ''&RM?'') (\<lambda>trigtest.
     if trigtest then oreturn ContinuousStrobe
     else othen (ask_bool ''&PM?'') (\<lambda>trigtest.
       if trigtest then oreturn TriggeredStrobe else oreturn CW))"


definition get_singleChannel :: "('d line, bool) oprog" where
  "get_singleChannel = othen get_triggerMode (\<lambda>trigmode. ask_bool (case trigmode of
     CW \<Rightarrow> ''&B?'' | TriggeredStrobe \<Rightarrow> ''&PB?'' | ContinuousStrobe \<Rightarrow> ''&RM?''))"

definition set_singleChannel :: "bool \<Rightarrow> ('d line, unit) oprog" where
  "set_singleChannel b = othen (set_helper ''&b'' (of_bool b)) (\<lambda>_. othen (set_helper ''&RB'' (of_bool b)) (\<lambda>_.
     set_helper ''&PB'' (of_bool b)))"

definition get_DIOActiveHigh :: "byte \<Rightarrow> ('d line, bool) oprog" where
  "get_DIOActiveHigh idx = ask_bool (two_parameter_query ''&J'' idx)"

definition set_DIOActiveHigh :: "byte \<Rightarrow> bool \<Rightarrow> ('d line, unit) oprog" where
  "set_DIOActiveHigh idx b = cv_tell (two_parameter_command ''&J'' idx (of_bool b))"

definition get_onOff :: "byte \<Rightarrow> ('d line, bool) oprog" where
  "get_onOff idx = ask_bool (two_parameter_query ''&L'' idx)"

definition set_onOff :: "byte \<Rightarrow> bool \<Rightarrow> ('d line, unit) oprog" where
  "set_onOff idx b = cv_tell (two_parameter_command ''&L'' idx (of_bool b))"

definition get_powerLimit :: "byte \<Rightarrow> ('d line, 16 word) oprog" where
  "get_powerLimit idx = ask_int (two_parameter_query ''&i'' idx)"

definition set_powerLimit :: "byte \<Rightarrow> 16 word \<Rightarrow> ('d line, unit) oprog" where
  "set_powerLimit idx p = cv_tell (two_parameter_command ''&i'' idx (ucast p))"

section \<open>Strobes\<close>

definition get_continuousStrobeFrequency :: "('d line, 32 word) oprog" where
  "get_continuousStrobeFrequency = ask_int ''&rf?''"

definition set_continuousStrobeFrequency :: "32 word \<Rightarrow> ('d line, unit) oprog" where
  "set_continuousStrobeFrequency freq =
     othen (othrow_unless (6 \<le> freq \<and> freq \<le> 20000) (Device_error ''out of bounds frequency specified (6-20000 allowed''))
       (\<lambda>_. set_helper ''&rf'' (uint freq))"

definition get_continuousStrobeOffset :: "byte \<Rightarrow> ('d line, 16 word) oprog" where
  "get_continuousStrobeOffset idx = othen (check_idx idx) (\<lambda>_. ask_int (two_parameter_query ''&rp'' idx))"

definition set_continuousStrobeOffset :: "byte \<Rightarrow> 16 word \<Rightarrow> ('d line, unit) oprog" where
  "set_continuousStrobeOffset idx v = othen (check_idx idx) (\<lambda>_. cv_tell (two_parameter_command ''&rp'' idx (ucast v)))"

definition get_continuousStrobeDutyCycle :: "byte \<Rightarrow> ('d line, 16 word) oprog" where
  "get_continuousStrobeDutyCycle idx = othen (check_idx idx) (\<lambda>_. ask_int (two_parameter_query ''&rd'' idx))"

definition set_continuousStrobeDutyCycle :: "byte \<Rightarrow> 16 word \<Rightarrow> ('d line, unit) oprog" where
  "set_continuousStrobeDutyCycle idx v = othen (check_idx idx) (\<lambda>_.
     othen (othrow_unless (v \<le> 1000) (Device_error ''invalid duty cycle, must be <= 1000'')) (\<lambda>_.
       cv_tell (two_parameter_command ''&rd'' idx (ucast v))))"

definition get_continuousStrobePolarity :: "byte \<Rightarrow> ('d line, bool) oprog" where
  "get_continuousStrobePolarity idx = othen (check_idx idx) (\<lambda>_. ask_bool (two_parameter_query ''&rj'' idx))"

definition set_continuousStrobePolarity :: "byte \<Rightarrow> bool \<Rightarrow> ('d line, unit) oprog" where
  "set_continuousStrobePolarity idx b = othen (check_idx idx) (\<lambda>_. cv_tell (two_parameter_command ''&rj'' idx (of_bool b)))"

definition get_triggeredStrobeDelay :: "byte \<Rightarrow> ('d line, 32 word) oprog" where
  "get_triggeredStrobeDelay idx = othen (check_idx idx) (\<lambda>_. ask_int (two_parameter_query ''&pd'' idx))"

definition set_triggeredStrobeDelay :: "byte \<Rightarrow> 32 word \<Rightarrow> ('d line, unit) oprog" where
  "set_triggeredStrobeDelay idx v = othen (check_idx idx) (\<lambda>_.
     othen (othrow_unless (v \<le> 1000000) (Device_error ''invalid triggered strobe delay, must be <1000000 us'')) (\<lambda>_.
       cv_tell (two_parameter_command ''&pd'' idx v)))"

definition get_triggeredStrobeOnTime :: "byte \<Rightarrow> ('d line, 32 word) oprog" where
  "get_triggeredStrobeOnTime idx = othen (check_idx idx) (\<lambda>_. ask_int (two_parameter_query ''&po'' idx))"

definition set_triggeredStrobeOnTime :: "byte \<Rightarrow> 32 word \<Rightarrow> ('d line, unit) oprog" where
  "set_triggeredStrobeOnTime idx v = othen (check_idx idx) (\<lambda>_.
     othen (othrow_unless (v \<le> 1000000) (Device_error ''invalid strobe on time, must be <1000000 us'')) (\<lambda>_.
       cv_tell (two_parameter_command ''&po'' idx v)))"

definition get_triggeredStrobeFallingEdge :: "byte \<Rightarrow> ('d line, bool) oprog" where
  "get_triggeredStrobeFallingEdge idx = othen (check_idx idx) (\<lambda>_. ask_bool (two_parameter_query ''&pj'' idx))"

definition set_triggeredStrobeFallingEdge :: "byte \<Rightarrow> bool \<Rightarrow> ('d line, unit) oprog" where
  "set_triggeredStrobeFallingEdge idx b = othen (check_idx idx) (\<lambda>_. cv_tell (two_parameter_command ''&pj'' idx (of_bool b)))"

section \<open>Equalizer and fan\<close>

definition get_equalizer :: "('d line, bool) oprog" where
  "get_equalizer = ask_bool ''&E?''"

definition set_equalizer :: "bool \<Rightarrow> ('d line, unit) oprog" where
  "set_equalizer b = set_helper ''&E'' (of_bool b)"

definition get_startUpEqualizerDelay :: "('d line, 16 word) oprog" where
  "get_startUpEqualizerDelay = ask_int ''&EI?''"

definition set_startUpEqualizerDelay :: "16 word \<Rightarrow> ('d line, unit) oprog" where
  "set_startUpEqualizerDelay d = set_helper ''&EI'' (uint d)"

definition get_equalizerTarget :: "('d line, 16 word) oprog" where
  "get_equalizerTarget = ask_hex ''&EE?''"

definition set_equalizerTarget :: "16 word \<Rightarrow> ('d line, unit) oprog" where
  "set_equalizerTarget target = othen (othrow_unless (target \<le> 4095) (Device_error ''invalid light target (allowed 0 - 4095)''))
     (\<lambda>_. set_helper_hex ''&EE'' target)"

definition get_currentLightOutput :: "('d line, 16 word) oprog" where
  "get_currentLightOutput = ask_hex ''&EV?''"

definition get_equalizerOutput :: "('d line, 16 word) oprog" where
  "get_equalizerOutput = ask_hex ''&ED?''"

definition get_fanSpeedSetPoint :: "('d line, int) oprog" where
  "get_fanSpeedSetPoint = othen (ask_bool ''&ge?'') (\<lambda>fanManual.
     if \<not> fanManual then oreturn (-1) else cv_ask stoi ''&gs?'')"

definition set_fanSpeedSetPoint :: "int \<Rightarrow> ('d line, unit) oprog" where
  "set_fanSpeedSetPoint setpoint = (if setpoint < 0 then set_helper ''&ge'' 0
     else othen (set_helper ''&ge'' 1) (\<lambda>_. set_helper ''&gs'' setpoint))"

text \<open>The connection is a serial port, so the cast does not fail.\<close>

definition cv_Reconnect :: "('d line, bool) oprog" where
  "cv_Reconnect = always (catches (andthen (on_port (reconnect None)) (\<lambda>_. returns True))
     (\<lambda>e. case e of Protocol_error _ \<Rightarrow> returns False | _ \<Rightarrow> throws e))"

section \<open>The registers of the light source\<close>

text \<open>The names of registers do not end with a digit, so that a command says where its value begins.\<close>

definition cv_register :: "string \<Rightarrow> bool" where
  "cv_register k \<longleftrightarrow> k \<noteq> [] \<and> length k < 100 \<and> hd k \<noteq> CHR ''n'' \<and> hd k \<noteq> CHR ''?'' \<and> \<not> is_digit 10 (last k) \<and>
     CHR ''?'' \<notin> set k \<and> CHR 0x0D \<notin> set k"

definition cv_value :: "string \<Rightarrow> bool" where
  "cv_value v \<longleftrightarrow> v \<noteq> [] \<and> length v < 100 \<and> list_all (is_digit 10) v"

text \<open>What the manual of the light source says: it repeats a command that it has carried out, and
  answers a question with the command that would give the register the value it has. \<open>resting\<close>
  are its states between two commands, \<open>regs\<close> what its registers hold.\<close>

definition light_source :: "nat \<Rightarrow> ('d \<Rightarrow> bool) \<Rightarrow> ('d \<Rightarrow> string \<Rightarrow> string option) \<Rightarrow>
    ('d \<Rightarrow> char \<Rightarrow> 'd \<times> (nat \<times> char) list) \<Rightarrow> bool" where
  "light_source t resting regs react \<longleftrightarrow> (\<forall>d. resting d \<longrightarrow>
     (\<forall>k v. cv_register k \<and> cv_value v \<longrightarrow> (\<exists>d'. resting d' \<and> regs d' = (regs d)(k \<mapsto> v) \<and>
        hears react d ((CHR ''&'' # k @ v) @ [CHR 0x0D]) = (d', map (Pair t) ((CHR ''&'' # k @ v) @ [CHR 0x0D])))) \<and>
     (\<forall>k v. regs d k = Some v \<longrightarrow> cv_register k \<and> cv_value v \<and> (\<exists>d'. resting d' \<and> regs d' = regs d \<and>
        hears react d ((CHR ''&'' # k @ ''?'') @ [CHR 0x0D]) = (d', map (Pair t) ((CHR ''&'' # k @ v) @ [CHR 0x0D])))))"

definition cv_good :: "nat \<Rightarrow> ('d \<Rightarrow> bool) \<Rightarrow> ('d \<Rightarrow> string \<Rightarrow> string option) \<Rightarrow> 'd line \<Rightarrow> bool" where
  "cv_good t resting regs l \<longleftrightarrow> line_good 100 l \<and> t \<le> 100 \<and> resting (l_peer l) \<and> light_source t resting regs (l_react l)"

text \<open>A register as the driver reads and writes it: its value with the carriage return behind it.\<close>

definition cv_dict :: "('d \<Rightarrow> string \<Rightarrow> string option) \<Rightarrow> 'd line \<Rightarrow> string \<Rightarrow> string option" where
  "cv_dict regs l k = map_option (\<lambda>v. v @ [CHR 0x0D]) (regs (l_peer l) k)"

definition cv_fits :: "'d line \<Rightarrow> string \<Rightarrow> string \<Rightarrow> bool" where
  "cv_fits l k v \<longleftrightarrow> cv_register k \<and> (\<exists>v'. cv_value v' \<and> v = v' @ [CHR 0x0D])"

definition cv_put :: "string \<Rightarrow> string \<Rightarrow> ('d line, unit) oprog" where
  "cv_put k v = othen (cv_cmd (CHR ''&'' # k @ v)) (\<lambda>_. oreturn ())"

definition cv_fetch :: "string \<Rightarrow> ('d line, string) oprog" where
  "cv_fetch k = query_cmd (CHR ''&'' # k @ ''?'' @ [CHR 0x0D])"

lemma cv_cmd_answered:
  assumes "line_good wait l" "hears (l_react l) (l_peer l) (CHR ''&'' # r @ [CHR 0x0D]) = (d, map (Pair t) ((CHR ''&'' # k @ v) @ [CHR 0x0D]))"
    "t \<le> wait" "length (k @ v) < 511" "k \<noteq> []" "hd k \<noteq> CHR ''n''"
  obtains l2 where "cv_cmd (CHR ''&'' # r @ [CHR 0x0D]) l = Some (Inr ((CHR ''&'' # k @ v) @ [CHR 0x0D]), l2)"
    "line_good wait l2" "l_peer l2 = d" "l_react l2 = l_react l"
proof -
  obtain l2 where l2: "line_ask (CHR 0x0D) (CHR ''&'' # r @ [CHR 0x0D]) l = Some (Inr ((CHR ''&'' # k @ v) @ [CHR 0x0D]), l2)"
    "line_good wait l2" "l_peer l2 = d" "l_react l2 = l_react l"
    by (rule line_ask_answered [OF assms(1,2,3)]) (use assms(4) in auto)
  have "char_at ((CHR ''&'' # k @ v) @ [CHR 0x0D]) 0 = CHR ''&''" "char_at ((CHR ''&'' # k @ v) @ [CHR 0x0D]) 1 \<noteq> CHR ''n''"
    using assms(5,6) by (cases k; simp add: char_at_def)+
  then show thesis
    using l2 by (intro that [of l2])
      (auto simp: cv_cmd_def line_ask_def othen_def always_def returns_def char_at_def split: option.splits prod.splits sum.splits)
qed

lemma cv_put_law:
  assumes "cv_good t resting regs l" "cv_fits l k v"
  shows "\<exists>l'. cv_put k v l = Some (Inr (), l') \<and> cv_good t resting regs l' \<and> cv_dict regs l' = (cv_dict regs l)(k \<mapsto> v)"
proof -
  obtain v' where v: "cv_register k" "cv_value v'" "v = v' @ [CHR 0x0D]" using assms(2) by (auto simp: cv_fits_def)
  then obtain d where d: "resting d" "regs d = (regs (l_peer l))(k \<mapsto> v')"
    "hears (l_react l) (l_peer l) (CHR ''&'' # (k @ v') @ [CHR 0x0D]) = (d, map (Pair t) ((CHR ''&'' # k @ v') @ [CHR 0x0D]))"
    using assms(1) unfolding cv_good_def light_source_def by (metis append_Cons)
  have g: "line_good 100 l" "t \<le> 100" "length (k @ v') < 511" "k \<noteq> []" "hd k \<noteq> CHR ''n''"
    using assms(1) v by (auto simp: cv_good_def cv_register_def cv_value_def)
  obtain l2 where l2: "cv_cmd (CHR ''&'' # (k @ v') @ [CHR 0x0D]) l = Some (Inr ((CHR ''&'' # k @ v') @ [CHR 0x0D]), l2)"
    "line_good 100 l2" "l_peer l2 = d" "l_react l2 = l_react l"
    using cv_cmd_answered [OF g(1) d(3) g(2-5)] by metis
  then show ?thesis
    using assms(1) d v(3) by (auto simp: cv_put_def cv_good_def cv_dict_def othen_def always_def returns_def)
qed

lemma cv_fetch_law:
  assumes "cv_good t resting regs l" "cv_dict regs l k = Some v"
  shows "\<exists>l'. cv_fetch k l = Some (Inr v, l') \<and> cv_good t resting regs l' \<and> cv_dict regs l' = cv_dict regs l"
proof -
  obtain v' where v': "regs (l_peer l) k = Some v'" "v = v' @ [CHR 0x0D]" using assms(2) by (auto simp: cv_dict_def)
  then obtain d where d: "cv_register k" "cv_value v'" "resting d" "regs d = regs (l_peer l)"
    "hears (l_react l) (l_peer l) (CHR ''&'' # (k @ ''?'') @ [CHR 0x0D]) = (d, map (Pair t) ((CHR ''&'' # k @ v') @ [CHR 0x0D]))"
    using assms(1) unfolding cv_good_def light_source_def by (metis append_Cons)
  have g: "line_good 100 l" "t \<le> 100" "length (k @ v') < 511" "k \<noteq> []" "hd k \<noteq> CHR ''n''"
    using assms(1) d(1,2) by (auto simp: cv_good_def cv_register_def cv_value_def)
  obtain l2 where l2: "cv_cmd (CHR ''&'' # (k @ ''?'') @ [CHR 0x0D]) l = Some (Inr ((CHR ''&'' # k @ v') @ [CHR 0x0D]), l2)"
    "line_good 100 l2" "l_peer l2 = d" "l_react l2 = l_react l"
    using cv_cmd_answered [OF g(1) d(5) g(2-5)] by metis
  have q: "CHR ''?'' \<notin> set k" using d(1) by (simp add: cv_register_def)
  then have "takeWhile (\<lambda>x. x \<noteq> CHR ''?'') (CHR ''&'' # k @ ''?'' @ [CHR 0x0D]) = CHR ''&'' # k"
    by (simp, subst takeWhile_append2) auto
  then have "cv_reply (CHR ''&'' # k @ ''?'' @ [CHR 0x0D]) ((CHR ''&'' # k @ v') @ [CHR 0x0D]) = Inr v"
    using g(4) v'(2) by (simp add: cv_reply_def find_char_def substr_from_def)
  moreover have "cv_dict regs l2 = cv_dict regs l"
    using l2(3) d(4) by (simp add: cv_dict_def fun_eq_iff)
  ultimately show ?thesis
    using l2 assms(1) d(3) by (auto simp: cv_fetch_def query_cmd_def cv_good_def othen_def always_def lifts_def)
qed

interpretation light: settings_store "cv_good t resting regs" "cv_dict regs" cv_fits cv_put cv_fetch
  by unfold_locales (blast intro: cv_put_law cv_fetch_law)+

section \<open>What is set is what is read\<close>

lemma cv_tell_put: "cv_tell (CHR ''&'' # k @ v) = cv_put k (v @ [CHR 0x0D])"
  by (simp add: cv_tell_def cv_put_def)

lemma cv_ask_fetch: "cv_ask parse (CHR ''&'' # k @ ''?'') = othen (cv_fetch k) (\<lambda>s. olift (parse s))"
  by (simp add: cv_ask_def cv_fetch_def)

lemma cv_number: "list_all (is_digit 10) (show_nat n)" "show_nat n \<noteq> []" "n < 2 ^ 31 \<Longrightarrow> stoi (show_nat n @ [CHR 0x0D]) = Inr (int n)"
  using show_nat_digits [of n] strtol_digits [of 10 "show_nat n" "[CHR 0x0D]"]
  by (simp_all add: stoi_def stoi_base_def digits_value_show_nat int_min_def int_max_def is_digit_def digit_val_def)

lemma cv_value_nat: "n < 2 ^ 32 \<Longrightarrow> cv_value (show_nat n)"
  using length_show_nat [of n 9] cv_number(1,2) [of n] by (simp add: cv_value_def)



lemma flag_value: "cv_value (text_bool b)"
  by (cases b) (simp_all add: cv_value_def text_bool_def is_digit_def digit_val_def)

lemma mode_registers: "cv_register ''RM''" "cv_register ''PM''"
  by (simp_all add: cv_register_def is_digit_def digit_val_def)

lemma power_limit_registers:
  "set_powerLimit idx p = cv_put (''i'' @ text_word idx @ '','') (show_nat (unat p) @ [CHR 0x0D])"
  "get_powerLimit idx = othen (cv_fetch (''i'' @ text_word idx @ '','')) (\<lambda>s. olift (narrow (stoi s)))"
proof -
  have "unat (ucast p :: 32 word) = unat p"
    using unsigned_less [of p, where ?'a = nat] by (simp add: unsigned_ucast_eq take_bit_nat_eq_self)
  then show "set_powerLimit idx p = cv_put (''i'' @ text_word idx @ '','') (show_nat (unat p) @ [CHR 0x0D])"
    using cv_tell_put [of "''i'' @ text_word idx @ '',''" "show_nat (unat p)"]
    by (simp add: set_powerLimit_def two_parameter_command_def text_word_def)
  show "get_powerLimit idx = othen (cv_fetch (''i'' @ text_word idx @ '','')) (\<lambda>s. olift (narrow (stoi s)))"
    using cv_ask_fetch [of _ "''i'' @ text_word idx @ '',''"]
    by (simp add: get_powerLimit_def ask_int_def two_parameter_query_def)
qed

text \<open>
  The power limit of a channel is what was set, for every channel and every limit of 16 bits.
\<close>

theorem power_limit_round_trip:
  assumes "cv_good t resting regs l"
  shows "\<exists>l'. othen (set_powerLimit idx p) (\<lambda>_. get_powerLimit idx) l = Some (Inr p, l')"
proof -
  define k where "k = ''i'' @ text_word idx @ '',''"
  have i: "unat idx < 10 ^ Suc 2" using unsigned_less [of idx, where ?'a = nat] by simp
  have ds: "\<forall>c\<in>set (text_word idx). is_digit 10 c" using show_nat_digits [of "unat idx"] by (simp add: text_word_def list_all_iff)
  have k: "cv_register k"
    using length_show_nat [OF i] ds
    by (auto simp: cv_register_def k_def is_digit_def digit_val_def text_word_def)
  have p: "unat p < 2 ^ 16" using unsigned_less [of p, where ?'a = nat] by simp
  have v: "cv_value (show_nat (unat p))" using p by (intro cv_value_nat) simp
  have "narrow (stoi (show_nat (unat p) @ [CHR 0x0D])) = Inr p"
    using cv_number(3) [of "unat p"] p by (simp add: narrow_def rbind_def)
  moreover have "cv_fits l k (show_nat (unat p) @ [CHR 0x0D])" using k v by (auto simp: cv_fits_def)
  ultimately have n: "narrow (stoi (show_nat (unat p) @ [CHR 0x0D])) = Inr p" and f: "cv_fits l k (show_nat (unat p) @ [CHR 0x0D])" by simp_all
  obtain l1 where l1: "cv_put k (show_nat (unat p) @ [CHR 0x0D]) l = Some (Inr (), l1)" "cv_good t resting regs l1"
    "cv_dict regs l1 k = Some (show_nat (unat p) @ [CHR 0x0D])"
    using light.put_law [OF assms f] by auto
  obtain l2 where "othen (cv_fetch k) (\<lambda>s. olift (narrow (stoi s))) l1 = Some (Inr p, l2)"
    using light.fetch_parsed [OF l1(2,3), of "\<lambda>s. narrow (stoi s)", OF n] by blast
  then have "othen (cv_put k (show_nat (unat p) @ [CHR 0x0D])) (\<lambda>_. othen (cv_fetch k) (\<lambda>s. olift (narrow (stoi s)))) l = Some (Inr p, l2)"
    using l1(1) by simp
  then show ?thesis
    by (simp add: power_limit_registers k_def)
qed


section \<open>A light source to try out\<close>

text \<open>Its registers are a table; a command is cut where the digits at its end begin.\<close>

definition cut_key :: "string \<Rightarrow> string" where
  "cut_key s = rev (dropWhile (is_digit 10) (rev s))"

definition cut_value :: "string \<Rightarrow> string" where
  "cut_value s = rev (takeWhile (is_digit 10) (rev s))"

definition demo_answer :: "string \<Rightarrow> (string \<rightharpoonup> string) \<Rightarrow> (string \<rightharpoonup> string) \<times> string" where
  "demo_answer c m = (if last c = CHR ''?''
     then (m, butlast c @ (case m (tl (butlast c)) of None \<Rightarrow> [] | Some v \<Rightarrow> v))
     else (m(cut_key (tl c) \<mapsto> cut_value (tl c)), c))"

definition demo_light :: "string \<times> (string \<rightharpoonup> string) \<Rightarrow> char \<Rightarrow> (string \<times> (string \<rightharpoonup> string)) \<times> (nat \<times> char) list" where
  "demo_light d c = (case d of (buf, m) \<Rightarrow>
     if c = CHR 0x0D then (([], fst (demo_answer buf m)), map (Pair 20) (snd (demo_answer buf m) @ [CHR 0x0D]))
     else ((buf @ [c], m), []))"

definition demo_resting :: "string \<times> (string \<rightharpoonup> string) \<Rightarrow> bool" where
  "demo_resting d \<longleftrightarrow> fst d = [] \<and> (\<forall>k v. snd d k = Some v \<longrightarrow> cv_register k \<and> cv_value v)"

lemma demo_light_hears: "CHR 0x0D \<notin> set s \<Longrightarrow> hears demo_light (buf, m) s = ((buf @ s, m), [])"
  by (induction s arbitrary: buf) (auto simp: demo_light_def)

lemma demo_light_told:
  "CHR 0x0D \<notin> set s \<Longrightarrow> hears demo_light ([], m) (s @ [CHR 0x0D]) =
    (([], fst (demo_answer s m)), map (Pair 20) (snd (demo_answer s m) @ [CHR 0x0D]))"
  by (simp add: hears_append demo_light_hears) (simp add: demo_light_def)

lemma cut_command:
  assumes "cv_register k" "cv_value v"
  shows "cut_key (k @ v) = k" "cut_value (k @ v) = v"
proof -
  obtain k' c where k: "k = k' @ [c]" "\<not> is_digit 10 c" using assms(1) by (cases k rule: rev_cases) (auto simp: cv_register_def)
  have v: "\<forall>x\<in>set (rev v). is_digit 10 x" using assms(2) by (simp add: cv_value_def list_all_iff)
  show "cut_key (k @ v) = k" "cut_value (k @ v) = v"
    unfolding cut_key_def cut_value_def rev_append
    using k v by (simp_all only: takeWhile_append2 dropWhile_append2, simp_all)
qed

lemma cv_value_chars:
  assumes "cv_value v"
  shows "CHR 0x0D \<notin> set v" "last v \<noteq> CHR ''?''"
proof -
  have d: "is_digit 10 c" if "c \<in> set v" for c using assms that by (simp add: cv_value_def list_all_iff)
  show "CHR 0x0D \<notin> set v" "last v \<noteq> CHR ''?''"
    using d [of "CHR 0x0D"] d [of "last v"] assms by (auto simp: is_digit_def digit_val_def cv_value_def)
qed

lemma demo_light_sets:
  assumes "demo_resting d" "cv_register k" "cv_value v"
  shows "\<exists>d'. demo_resting d' \<and> snd d' = (snd d)(k \<mapsto> v) \<and>
    hears demo_light d ((CHR ''&'' # k @ v) @ [CHR 0x0D]) = (d', map (Pair 20) ((CHR ''&'' # k @ v) @ [CHR 0x0D]))"
proof -
  obtain m where d: "d = ([], m)" using assms(1) by (cases d) (simp add: demo_resting_def)
  have "CHR 0x0D \<notin> set (CHR ''&'' # k @ v)" using assms(2) cv_value_chars [OF assms(3)] by (simp add: cv_register_def)
  moreover have "demo_answer (CHR ''&'' # k @ v) m = (m(k \<mapsto> v), CHR ''&'' # k @ v)"
    using cv_value_chars [OF assms(3)] assms cut_command [OF assms(2,3)] by (auto simp: demo_answer_def cv_value_def)
  ultimately show ?thesis
    using assms demo_light_told [of "CHR ''&'' # k @ v" m] d by (auto simp: demo_resting_def)
qed

lemma demo_light_shows:
  assumes "demo_resting d" "snd d k = Some v"
  shows "\<exists>d'. demo_resting d' \<and> snd d' = snd d \<and>
    hears demo_light d ((CHR ''&'' # k @ ''?'') @ [CHR 0x0D]) = (d', map (Pair 20) ((CHR ''&'' # k @ v) @ [CHR 0x0D]))"
proof -
  obtain m where d: "d = ([], m)" using assms(1) by (cases d) (simp add: demo_resting_def)
  have "CHR 0x0D \<notin> set (CHR ''&'' # k @ ''?'')" using assms by (auto simp: demo_resting_def cv_register_def)
  moreover have "demo_answer (CHR ''&'' # k @ ''?'') m = (m, CHR ''&'' # k @ v)"
    using assms(2) d by (simp add: demo_answer_def butlast_append)
  ultimately show ?thesis
    using assms demo_light_told [of "CHR ''&'' # k @ ''?''" m] d by auto
qed

lemma demo_light_source: "light_source 20 demo_resting snd demo_light"
  unfolding light_source_def
proof (intro allI impI conjI)
  fix d k v
  assume r: "demo_resting d"
  show "\<exists>d'. demo_resting d' \<and> snd d' = (snd d)(k \<mapsto> v) \<and>
      hears demo_light d ((CHR ''&'' # k @ v) @ [CHR 0x0D]) = (d', map (Pair 20) ((CHR ''&'' # k @ v) @ [CHR 0x0D]))"
    if "cv_register k \<and> cv_value v"
    by (rule demo_light_sets [OF r]) (use that in simp_all)
  assume k: "snd d k = Some v"
  show "cv_register k" "cv_value v" using r k by (auto simp: demo_resting_def)
  show "\<exists>d'. demo_resting d' \<and> snd d' = snd d \<and>
      hears demo_light d ((CHR ''&'' # k @ ''?'') @ [CHR 0x0D]) = (d', map (Pair 20) ((CHR ''&'' # k @ v) @ [CHR 0x0D]))"
    by (rule demo_light_shows [OF r k])
qed

definition demo_light_line :: "(string \<times> (string \<rightharpoonup> string)) line" where
  "demo_light_line = (demo_line ([], [''RM'' \<mapsto> ''1'']) demo_light)\<lparr>l_port := quiet_port\<lparr>wait_ms := 100\<rparr>\<rparr>"

lemma demo_light_good: "cv_good 20 demo_resting snd demo_light_line"
proof -
  have "demo_resting ([], [''RM'' \<mapsto> ''1''])"
    using mode_registers(1) flag_value [of True] by (simp add: demo_resting_def text_bool_def)
  then show ?thesis
    using demo_light_source
    by (simp add: cv_good_def demo_light_line_def demo_line_def line_good_def line_idle_def quiet_port_def)
qed

theorem power_limit_round_trip_witness:
  "\<exists>l'. othen (set_powerLimit 2 800) (\<lambda>_. get_powerLimit 2) demo_light_line = Some (Inr 800, l')"
  by (rule power_limit_round_trip [OF demo_light_good])


end
