(* ===== verification/Chillers.thy ===== *)
theory Chillers
  imports Line_Devices
begin

text \<open>
  The two chillers: devices/ssc_chiller/ssc_tcube_edge.cpp and ssc_uc160.cpp. Both drivers keep the time of
  their last command, on the clock of the line in milliseconds. A \<open>double\<close> is the number that was
  written; the enumerations are the numbers they stand for.
\<close>

section \<open>The state of a driver\<close>

record 'd chiller =
  ch_line :: "'d line"
  last_command_sent :: "nat option"

definition on_ch :: "('d line, 'a) oprog \<Rightarrow> ('d chiller, 'a) oprog" where
  "on_ch m s = (case m (ch_line s) of None \<Rightarrow> None | Some (r, l) \<Rightarrow> Some (r, s\<lparr>ch_line := l\<rparr>))"

definition ch_now :: "'d chiller \<Rightarrow> nat" where
  "ch_now s = now_ms (l_port (ch_line s))"

definition sent_now :: "('d chiller, unit) oprog" where
  "sent_now = oset (\<lambda>s. s\<lparr>last_command_sent := Some (ch_now s)\<rparr>)"

text \<open>While the program sleeps, what was written goes on the wire.\<close>

definition line_sleep_until :: "nat \<Rightarrow> 'd line \<Rightarrow> 'd line" where
  "line_sleep_until T l = (if now_ms (l_port l) < T
     then (let l' = transmit_all l in l'\<lparr>l_port := (l_port l')\<lparr>now_ms := T\<rparr>\<rparr>) else l)"

definition sleep_until :: "nat \<Rightarrow> ('d chiller, unit) oprog" where
  "sleep_until T = oset (\<lambda>s. s\<lparr>ch_line := line_sleep_until T (ch_line s)\<rparr>)"

section \<open>The TCube Edge\<close>

definition TCube_serial_params :: parameterset where
  "TCube_serial_params = [(''baudrate'', P_int 57600)]"

definition tce_init :: "('d chiller, unit) oprog" where
  "tce_init = othen (on_ch (always (line_init TCube_serial_params))) (\<lambda>_.
     othen (oset (\<lambda>s. s\<lparr>last_command_sent := None\<rparr>)) (\<lambda>_. on_ch (always line_flush)))"

text \<open>The loop waits until the next possible time; the clock has passed it then.\<close>

definition tce_wait :: "('d chiller, unit) oprog" where
  "tce_wait = othen (oget last_command_sent) (\<lambda>sent_at. case sent_at of
     None \<Rightarrow> oreturn ()
   | Some t \<Rightarrow> othen (oget ch_now) (\<lambda>now. if now < t + 200 then sleep_until (t + 200) else oreturn ()))"

definition tce_request :: "string \<Rightarrow> string" where
  "tce_request request = (case find_char (CHR 0x0D) request of
     None \<Rightarrow> request @ [CHR 0x0D]
   | Some endlpos \<Rightarrow> if endlpos \<noteq> length request - 1 then take (endlpos + 1) request else request)"

definition tce_cmd_no_response :: "string \<Rightarrow> ('d chiller, unit) oprog" where
  "tce_cmd_no_response request = othen tce_wait (\<lambda>_. othen (on_ch (always line_flush)) (\<lambda>_.
     othen (othrow_unless (request \<noteq> []) (Logic_error (''can'' @ [CHR 0x27] @ ''t use an empty request, this is a programming error''))) (\<lambda>_.
     let actreq = tce_request request in
     othen (oget (\<lambda>s. l_transfer_ms (ch_line s) (length actreq) + 100)) (\<lambda>timeout.
     othen (on_ch (always (setWait (timeout * 10)))) (\<lambda>_.
     othen (on_ch (always (line_write actreq))) (\<lambda>_. sent_now))))))"

definition tce_cmd :: "string \<Rightarrow> ('d chiller, string) oprog" where
  "tce_cmd request = othen (tce_cmd_no_response request) (\<lambda>_.
     othen (on_ch (read_until_endl (CHR 0x0D))) (\<lambda>resp. oreturn (upto (find_char (CHR 0x0D) resp) resp)))"

definition tce_get :: "(string \<Rightarrow> 'a result) \<Rightarrow> string \<Rightarrow> ('d chiller, 'a) oprog" where
  "tce_get parse c = othen (tce_cmd c) (\<lambda>resp. olift (parse resp))"

definition tce_identify :: "('d chiller, string) oprog" where
  "tce_identify = tce_cmd ''IDN''"

definition tce_startstop :: "bool \<Rightarrow> ('d chiller, unit) oprog" where
  "tce_startstop onoff = tce_cmd_no_response (if onoff then ''RUN'' else ''STOP'')"

definition running_of :: "string \<Rightarrow> bool result" where
  "running_of resp = (if resp = ''RUNNING'' then Inr True else if resp = ''STOPPED'' then Inr False
     else Inl (Runtime_error ''invalid response received for is_started()''))"

definition tce_running :: "('d chiller, bool) oprog" where
  "tce_running = tce_get running_of ''RUN?''"

definition tce_RTD_temp :: "('d chiller, f64) oprog" where
  "tce_RTD_temp = tce_get stod ''TEMP?''"

definition tce_pump_temp :: "('d chiller, f64) oprog" where
  "tce_pump_temp = tce_get stod ''PUMPTEMP?''"

definition tce_setpoint_temp :: "('d chiller, f64) oprog" where
  "tce_setpoint_temp = tce_get stod ''SETTEMP?''"

definition tce_set_backlight :: "bool \<Rightarrow> ('d chiller, unit) oprog" where
  "tce_set_backlight onoff = tce_cmd_no_response (if onoff then ''BLON'' else ''BLOFF'')"

definition tce_RTD_offset :: "('d chiller, f64) oprog" where
  "tce_RTD_offset = tce_get stod ''RTDOFFSET?''"

definition tce_set_RTD_offset :: "f64 \<Rightarrow> ('d chiller, unit) oprog" where
  "tce_set_RTD_offset offset = tce_cmd_no_response (''RTDOFFSET '' @ fixed_double 1 offset)"

definition tce_set_setpoint_temp :: "f64 \<Rightarrow> ('d chiller, unit) oprog" where
  "tce_set_setpoint_temp temp = tce_cmd_no_response (''SETTEMP '' @ fixed_double 1 temp)"

definition tce_TE_PWM :: "('d chiller, f64) oprog" where
  "tce_TE_PWM = tce_get stod ''PWM?''"

definition tce_fan_PWM :: "('d chiller, f64) oprog" where
  "tce_fan_PWM = tce_get stod ''FANPWM?''"

definition tce_statbits :: "('d chiller, byte) oprog" where
  "tce_statbits = tce_get (\<lambda>s. narrow (stoul_base 10 s)) ''STAT1A?''"

definition tce_faultbits :: "('d chiller, byte) oprog" where
  "tce_faultbits = tce_get (\<lambda>s. narrow (stoul_base 10 s)) ''FLTS1A?''"

definition tce_warning :: "('d chiller, bool) oprog" where
  "tce_warning = othen tce_statbits (\<lambda>bits. oreturn (bit bits 6))"

definition tce_system_alarm :: "('d chiller, bool) oprog" where
  "tce_system_alarm = othen tce_statbits (\<lambda>bits. oreturn (bit bits 7))"

definition tce_heating :: "('d chiller, bool) oprog" where
  "tce_heating = othen tce_statbits (\<lambda>bits. oreturn (bit bits 5))"

definition tce_temp_alarm :: "('d chiller, 16 word) oprog" where
  "tce_temp_alarm = othen tce_statbits (\<lambda>bits. oreturn (if bit bits 3 then - 1 else if bit bits 4 then 1 else 0))"

definition tce_restart :: "('d chiller, unit) oprog" where
  "tce_restart = tce_cmd_no_response ''RESTART''"

text \<open>The fault bits are read and not looked at: every index of a bit is listed.\<close>

definition tce_faults :: "('d chiller, 16 word list) oprog" where
  "tce_faults = othen tce_faultbits (\<lambda>_. oreturn (map of_nat [0..<8]))"

definition tce_alarm_width :: "('d chiller, f64) oprog" where
  "tce_alarm_width = tce_get stod ''WIDTH?''"

definition tce_set_alarm_width :: "f64 \<Rightarrow> ('d chiller, unit) oprog" where
  "tce_set_alarm_width width = tce_cmd_no_response (''WIDTH '' @ fixed_double 1 width)"

definition tce_Reconnect :: "('d chiller, bool) oprog" where
  "tce_Reconnect = othen (on_ch (always (on_port (reconnect None)))) (\<lambda>_. oreturn True)"

section \<open>The UC170\<close>

definition UC170_serial_params :: parameterset where
  "UC170_serial_params = [(''baudrate'', P_int 9600), (''stopbits'', P_int 1), (''bits'', P_int 8),
     (''parity'', P_string ''none''), (''flowcontrol'', P_string ''none'')]"

datatype UC170_command_sigils = SET_POINT_TEMP | ACT_TEMP | CHECK_FAULTS | PERCENT_POWER | RESET_ALARMS_RESTART

fun sigil_bits :: "UC170_command_sigils \<Rightarrow> byte" where
  "sigil_bits SET_POINT_TEMP = 1"
| "sigil_bits ACT_TEMP = 9"
| "sigil_bits CHECK_FAULTS = 8"
| "sigil_bits PERCENT_POWER = 30"
| "sigil_bits RESET_ALARMS_RESTART = 31"

definition uc_init :: "('d chiller, unit) oprog" where
  "uc_init = othen (oset (\<lambda>s. s\<lparr>last_command_sent := None\<rparr>)) (\<lambda>_.
     othen (on_ch (always (line_init UC170_serial_params))) (\<lambda>_. on_ch (always line_flush)))"

definition prepare_command :: "UC170_command_sigils \<Rightarrow> bool \<Rightarrow> string" where
  "prepare_command param setting = [to_char (or (or 0xC0 (if setting then 0x20 else 0)) (sigil_bits param))]"

definition validate_and_dispatch :: "string \<Rightarrow> nat \<Rightarrow> ('d chiller, unit) oprog" where
  "validate_and_dispatch request reqlen =
     (if length request \<noteq> reqlen then othrow (Logic_error ''command needs 4 bytes!'')
      else on_ch (always (line_write request)))"

definition validate_response_echo :: "string \<Rightarrow> nat \<Rightarrow> ('d chiller, string) oprog" where
  "validate_response_echo request n_data_bytes =
     othen (oget (\<lambda>s. l_transfer_ms (ch_line s) (length request))) (\<lambda>timeout.
     othen (on_ch (always (line_read_definite (n_data_bytes + 1) (timeout * 10)))) (\<lambda>rawresp.
       if char_at rawresp 0 \<noteq> char_at request 0 then othrow (Runtime_error ''invalid echo byte received'')
       else oreturn (if n_data_bytes = 0 then [] else drop 1 rawresp)))"

text \<open>The comparison of the times is the wrong way round: the program sleeps until a time that has
  passed. \<open>(request[0] && 0b10000) >> 4\<close> is a truth value shifted to the right by four, that is zero.\<close>

definition uc_wait :: "('d chiller, unit) oprog" where
  "uc_wait = othen (oget last_command_sent) (\<lambda>sent_at. case sent_at of
     None \<Rightarrow> oreturn ()
   | Some t \<Rightarrow> othen (oget ch_now) (\<lambda>now. if t + 500 < now then sleep_until (t + 500) else oreturn ()))"

definition uc_dispatch :: "string \<Rightarrow> ('d chiller, string) oprog" where
  "uc_dispatch request = (let cmdbits = and (to_byte (char_at request 0)) 31;
       exchange = (\<lambda>reqlen n. othen (validate_and_dispatch request reqlen) (\<lambda>_. validate_response_echo request n))
     in if cmdbits = sigil_bits SET_POINT_TEMP
        then exchange 3 (if drop_bit 4 (of_bool (char_at request 0 \<noteq> CHR 0x00) :: 32 word) \<noteq> 0 then 0 else 2)
        else if cmdbits = sigil_bits ACT_TEMP then exchange 1 2
        else if cmdbits = sigil_bits CHECK_FAULTS then exchange 1 1
        else if cmdbits = sigil_bits PERCENT_POWER then exchange 1 3
        else if cmdbits = sigil_bits RESET_ALARMS_RESTART then exchange 1 0
        else othrow (Logic_error ''invalid command byte sent to cmd(), see logs''))"

definition uc_cmd :: "string \<Rightarrow> ('d chiller, string) oprog" where
  "uc_cmd request = othen uc_wait (\<lambda>_.
     othen (othrow_unless (request \<noteq> []) (Logic_error (''can'' @ [CHR 0x27] @ ''t use an empty request!''))) (\<lambda>_.
     othen (uc_dispatch request) (\<lambda>resp. othen sent_now (\<lambda>_. oreturn resp))))"

text \<open>\<open>char\<close> is signed, so both bytes are extended by their sign.\<close>

definition temperature_of :: "string \<Rightarrow> f64" where
  "temperature_of resp = (let tempdata = or (scast (to_byte (char_at resp 0)) :: 32 word)
       (push_bit 8 (scast (to_byte (char_at resp 1))))
     in Fin (of_nat (unat tempdata) / 10))"


definition get_SetPointTemp :: "('d chiller, f64) oprog" where
  "get_SetPointTemp = othen (uc_cmd (prepare_command SET_POINT_TEMP False)) (\<lambda>resp. oreturn (temperature_of resp))"

text \<open>The argument is \<open>value / 0.1\<close>, as the division in double precision gives it; \<open>tempint && 0xFF\<close> is
  a truth value.\<close>

definition set_SetPointTemp :: "rat \<Rightarrow> ('d chiller, unit) oprog" where
  "set_SetPointTemp tenths =
     (if tenths \<le> -1 \<or> 65536 \<le> tenths then othrow (UB ''conversion to short unsigned out of range'')
      else let tempint = (of_int (if tenths < 0 then 0 else \<lfloor>tenths\<rfloor>) :: 16 word);
               templowbyte = (of_bool (tempint \<noteq> 0) :: byte);
               temphighbyte = (ucast (drop_bit 8 tempint) :: byte)
           in othen (uc_cmd (prepare_command SET_POINT_TEMP True @ [to_char templowbyte, to_char temphighbyte])) (\<lambda>_. oreturn ()))"

text \<open>The dividend is positive for all bytes, so the division rounds down.\<close>

definition power_of :: "string \<Rightarrow> int" where
  "power_of resp = (let byte_at = (\<lambda>i. sint (to_byte (char_at resp i)));
       percentint = (61787 - (byte_at 1 + 256 * byte_at 2)) * 100 div 1235
     in if bit (to_byte (char_at resp 0)) 7 then - percentint else percentint)"

definition get_OutputPower :: "('d chiller, f64) oprog" where
  "get_OutputPower = othen (uc_cmd (prepare_command PERCENT_POWER False)) (\<lambda>resp. oreturn (Fin (of_int (power_of resp))))"

definition get_Status :: "('d chiller, byte) oprog" where
  "get_Status = othen (uc_cmd (prepare_command CHECK_FAULTS False)) (\<lambda>resp. oreturn (to_byte (char_at resp 0)))"

definition reset_Errors :: "('d chiller, unit) oprog" where
  "reset_Errors = othen (uc_cmd (prepare_command RESET_ALARMS_RESTART False)) (\<lambda>_. oreturn ())"

section \<open>Commands are spaced\<close>

lemma on_ch_last: "on_ch m s = Some (r, s') \<Longrightarrow> last_command_sent s' = last_command_sent s"
  by (auto simp: on_ch_def split: option.splits)

lemma on_ch_eq_return: "on_ch m s = Some (Inr x, s') \<longleftrightarrow> (\<exists>l. m (ch_line s) = Some (Inr x, l) \<and> s' = s\<lparr>ch_line := l\<rparr>)"
  by (auto simp: on_ch_def split: option.splits)

text \<open>The calls of the line that a command makes take no time.\<close>

definition keeps_time :: "('d line, 'a) prog \<Rightarrow> bool" where
  "keeps_time m \<longleftrightarrow> (\<forall>l. now_ms (l_port (snd (m l))) = now_ms (l_port l))"

lemma transmit_time: "now_ms (l_port (transmit n l)) = now_ms (l_port l)"
  by (simp add: transmit_def split: prod.splits)

lemma command_keeps_time: "keeps_time line_flush" "keeps_time (setWait w)" "keeps_time (line_write t)"
  by (auto simp: keeps_time_def line_flush_def setWait_def line_write_def on_port_def flush_def write_bytes_def sys_call_def
      andthen_def modifies_def Let_def transmit_all_def transmit_time split: prod.splits sum.splits list.splits option.splits)

lemma on_ch_keeps_time:
  assumes "keeps_time m" "on_ch (always m) s = Some (r, s')"
  shows "ch_now s' = ch_now s"
  using assms unfolding keeps_time_def by (auto simp: on_ch_def always_def ch_now_def split: prod.splits option.splits) (metis snd_conv)

lemma tce_wait_waits:
  assumes "tce_wait s = Some (Inr u, s')"
  shows "last_command_sent s' = last_command_sent s" "last_command_sent s = Some t \<Longrightarrow> t + 200 \<le> ch_now s'"
  using assms by (auto simp: tce_wait_def sleep_until_def line_sleep_until_def ch_now_def always_def modifies_def returns_def Let_def
      split: option.splits if_splits)

lemma tce_command_time:
  assumes "tce_cmd_no_response request s = Some (Inr u, s')"
  shows "\<exists>t'. last_command_sent s' = Some t' \<and> (\<forall>t. last_command_sent s = Some t \<longrightarrow> t + 200 \<le> t')"
proof -
  obtain s1 where w: "tce_wait s = Some (Inr (), s1)" and r: "othen (on_ch (always line_flush)) (\<lambda>_.
     othen (othrow_unless (request \<noteq> []) (Logic_error (''can'' @ [CHR 0x27] @ ''t use an empty request, this is a programming error''))) (\<lambda>_.
     let actreq = tce_request request in
     othen (oget (\<lambda>s. l_transfer_ms (ch_line s) (length actreq) + 100)) (\<lambda>timeout.
     othen (on_ch (always (setWait (timeout * 10)))) (\<lambda>_.
     othen (on_ch (always (line_write actreq))) (\<lambda>_. sent_now))))) s1 = Some (Inr u, s')"
    using assms by (auto simp: tce_cmd_no_response_def othen_eq_return)
  obtain s2 where f: "on_ch (always line_flush) s1 = Some (Inr (), s2)" and r2: "request \<noteq> []"
    "othen (oget (\<lambda>s. l_transfer_ms (ch_line s) (length (tce_request request)) + 100)) (\<lambda>timeout.
     othen (on_ch (always (setWait (timeout * 10)))) (\<lambda>_.
     othen (on_ch (always (line_write (tce_request request)))) (\<lambda>_. sent_now))) s2 = Some (Inr u, s')"
    using r by (auto simp: othen_eq_return othen_unless Let_def split: if_splits)
  then obtain w s3 s4 where w3: "on_ch (always (setWait w)) s2 = Some (Inr (), s3)"
    "on_ch (always (line_write (tce_request request))) s3 = Some (Inr (), s4)" "sent_now s4 = Some (Inr u, s')"
    by (auto simp: othen_eq_return always_def gets_def)
  have "ch_now s4 = ch_now s1"
    using on_ch_keeps_time [OF command_keeps_time(1) f] on_ch_keeps_time [OF command_keeps_time(2) w3(1)]
      on_ch_keeps_time [OF command_keeps_time(3) w3(2)] by simp
  moreover have "last_command_sent s' = Some (ch_now s4)" using w3(3) by (auto simp: sent_now_def always_def modifies_def)
  ultimately show ?thesis using tce_wait_waits [OF w] by auto
qed

lemma tce_failed_last:
  assumes "tce_cmd_no_response request s = Some (Inl e, s')"
  shows "last_command_sent s' = last_command_sent s"
proof -
  have w: "last_command_sent s' = last_command_sent s" if "tce_wait s = Some (r, s')" for s s' :: "'d chiller" and r
    using that by (auto simp: tce_wait_def sleep_until_def always_def modifies_def returns_def split: option.splits if_splits)
  show ?thesis
    using assms by (auto simp: tce_cmd_no_response_def othen_def othrow_unless_def always_def throw_unless_def returns_def
        throws_def gets_def sent_now_def modifies_def Let_def split: option.splits prod.splits sum.splits if_splits
        dest!: w on_ch_last)
qed

text \<open>Commands one after the other; between them anything may happen on the line. A command that
  fails is passed over. What is listed are the times at which a command was written.\<close>

fun send_times :: "(string \<times> ('d line \<Rightarrow> 'd line)) list \<Rightarrow> 'd chiller \<Rightarrow> nat list" where
  "send_times [] s = []"
| "send_times ((request, between) # rest) s =
     (case tce_cmd_no_response request (s\<lparr>ch_line := between (ch_line s)\<rparr>) of
        None \<Rightarrow> []
      | Some (Inl e, s') \<Rightarrow> send_times rest s'
      | Some (Inr _, s') \<Rightarrow> (case last_command_sent s' of None \<Rightarrow> [] | Some t \<Rightarrow> [t]) @ send_times rest s')"

lemma send_times_from:
  "sorted_wrt (\<lambda>a b. a + 200 \<le> b) (send_times rs s) \<and>
   (\<forall>t. last_command_sent s = Some t \<longrightarrow> (\<forall>x\<in>set (send_times rs s). t + 200 \<le> x))"
proof (induction rs s rule: send_times.induct)
  case (2 request between rest s)
  let ?s = "s\<lparr>ch_line := between (ch_line s)\<rparr>"
  show ?case
  proof (cases "tce_cmd_no_response request ?s")
    case (Some p)
    obtain r s' where p: "p = (r, s')" by (cases p)
    show ?thesis
    proof (cases r)
      case (Inl e)
      then show ?thesis using 2(1) [OF Some p [symmetric] Inl] Some p tce_failed_last [of request ?s e s'] by simp
    next
      case (Inr u)
      obtain t' where t': "last_command_sent s' = Some t'" "\<forall>t. last_command_sent s = Some t \<longrightarrow> t + 200 \<le> t'"
        using tce_command_time [of request ?s u s'] Some p Inr by auto
      with 2(2) [OF Some p [symmetric] Inr] have ih: "sorted_wrt (\<lambda>a b. a + 200 \<le> b) (send_times rest s')"
        "\<forall>x\<in>set (send_times rest s'). t' + 200 \<le> x" by auto
      show ?thesis using ih t' Some p Inr by fastforce
    qed
  qed simp
qed simp

text \<open>
  C36. Between two commands that the driver of the TCube Edge writes are at least 200 milliseconds,
  whatever happens on the line between them and whichever commands fail.
\<close>

theorem chiller_commands_are_spaced:
  "sorted_wrt (\<lambda>a b. a + 200 \<le> b) (send_times rs s)"
  using send_times_from by blast

section \<open>What the UC170 driver does\<close>

lemma uc_never_waits: "uc_wait s = Some (Inr (), s)"
  by (cases "last_command_sent s")
    (simp_all add: uc_wait_def always_def returns_def sleep_until_def line_sleep_until_def modifies_def ch_now_def)

lemma set_point_is_never_read:
  "get_SetPointTemp s = Some (Inl (Logic_error ''command needs 4 bytes!''), s)"
proof -
  have c: "prepare_command SET_POINT_TEMP False = [CHR 0xC1]" by code_simp
  have "and (to_byte (CHR 0xC1)) 31 = sigil_bits SET_POINT_TEMP" by code_simp
  then have "uc_dispatch [CHR 0xC1] s = Some (Inl (Logic_error ''command needs 4 bytes!''), s)"
    by (simp add: uc_dispatch_def char_at_def validate_and_dispatch_def always_def throws_def othen_def Let_def)
  then show ?thesis
    by (simp add: get_SetPointTemp_def uc_cmd_def c uc_never_waits othen_unless)
qed










section \<open>A chiller to try out\<close>




end
