(* ===== verification/RLY8.thy ===== *)
theory RLY8
  imports Line_Devices
begin

text \<open>
  The RLY-8 relay board: devices/RLY-8/RLY_8.cpp and RLY_8.hh. Its messages are bytes: two marks, the
  address, the number of data bytes, the command, the data, and the sum of all of them. \<open>addr\<close> is the
  address that the driver was made with, its only state.
\<close>

section \<open>Messages\<close>

datatype RLY_8_Commands = QUERY_VERSION | QUERY_RELAY_STATE | SET_RELAY

fun rly_command :: "RLY_8_Commands \<Rightarrow> byte" where
  "rly_command QUERY_VERSION = 7"
| "rly_command QUERY_RELAY_STATE = 1"
| "rly_command SET_RELAY = 0"

text \<open>The sum is built in 32 bits; a signed character adds the same number modulo 256.\<close>

definition calc_checksum :: "byte list \<Rightarrow> byte" where
  "calc_checksum bs = ucast (sum_list (map (\<lambda>b. scast b :: 32 word) bs) mod 256)"

definition assemble_cmd :: "byte \<Rightarrow> RLY_8_Commands \<Rightarrow> byte list \<Rightarrow> byte list result" where
  "assemble_cmd addr c data =
     (if 255 < length data then Inl (Out_of_range ''data supplied is too long!'')
      else let req = [0x55, 0xAA, addr, of_nat (length data), rly_command c] @ data
           in Inr (req @ [calc_checksum req]))"

text \<open>What an index of a string gives: a zero at the end, nothing defined behind it.\<close>

definition rly_at :: "byte list \<Rightarrow> nat \<Rightarrow> byte result" where
  "rly_at bs i = (if i < length bs then Inr (bs ! i) else if i = length bs then Inr 0
     else Inl (UB ''index behind the end of a string''))"

text \<open>The number of data bytes is a signed character; \<open>resize\<close> with a negative number is a
  \<open>std::length_error\<close>, a \<open>logic_error\<close>, and the copy may run behind the end of the response.\<close>

definition rly_data :: "byte list \<Rightarrow> byte list result" where
  "rly_data response = rbind (rly_at response 3) (\<lambda>n.
     if sint n < 0 then Inl (Logic_error ''vector::_M_default_append'')
     else if length response < 5 + unat n then Inl (UB ''copy from behind the end of a string'')
     else Inr (take (unat n) (drop 5 response)))"

definition checksum_message :: "byte \<Rightarrow> byte \<Rightarrow> string" where
  "checksum_message recv calc = ''received checksum was: '' @ text_word recv @ '', but expected: '' @ text_word calc"

definition extract_response :: "byte \<Rightarrow> byte list \<Rightarrow> byte list result" where
  "extract_response addr response =
     rbind (rly_at response 0) (\<lambda>m1. if m1 \<noteq> 0x55 then Inl (Device_error ''first byte should be 0x55!'') else
     rbind (rly_at response 1) (\<lambda>m2. if m2 \<noteq> 0xAA then Inl (Device_error ''second byte should be 0xAA'') else
     rbind (rly_at response 2) (\<lambda>a. if a \<noteq> addr then Inl (Device_error ''unexpected source address!'') else
     rbind (rly_at response 4) (\<lambda>logged.
       let recv_csum = last response; calc_csum = calc_checksum (butlast response)
       in if recv_csum \<noteq> calc_csum then Inl (Device_error (checksum_message recv_csum calc_csum))
          else rly_data response))))"

section \<open>Operations\<close>

definition rly_init :: "('d line, unit) oprog" where
  "rly_init = always (on_port (Init None))"

definition rly_cmd :: "byte list \<Rightarrow> ('d line, byte list) oprog" where
  "rly_cmd request = othen (always (line_write (map to_char request))) (\<lambda>_.
     othen (oget (\<lambda>l. l_transfer_ms l 256 * 100)) (\<lambda>timeout. always (on_wire (read_all 6 timeout))))"

definition rly_exchange :: "byte \<Rightarrow> RLY_8_Commands \<Rightarrow> byte list \<Rightarrow> ('d line, byte list) oprog" where
  "rly_exchange addr c data = othen (olift (assemble_cmd addr c data)) (\<lambda>req.
     othen (rly_cmd req) (\<lambda>ret. olift (extract_response addr ret)))"

definition getVersion :: "byte \<Rightarrow> ('d line, string) oprog" where
  "getVersion addr = othen (rly_exchange addr QUERY_VERSION []) (\<lambda>outdat. oreturn (map to_char outdat))"

definition getRelayState :: "byte \<Rightarrow> ('d line, byte) oprog" where
  "getRelayState addr = othen (rly_exchange addr QUERY_RELAY_STATE []) (\<lambda>outdat.
     if length outdat \<noteq> 1 then othrow (Out_of_range ''expected data of length 1 return'')
     else oreturn (hd outdat))"

definition setRelay :: "byte \<Rightarrow> byte \<Rightarrow> bool \<Rightarrow> ('d line, unit) oprog" where
  "setRelay addr channel onoff =
     (if channel < 1 \<or> 8 < channel then othrow (Out_of_range ''invalid relay number, must be between 1 and 8'')
      else othen (rly_exchange addr SET_RELAY [channel, of_bool onoff]) (\<lambda>outdat.
        if length outdat \<noteq> 1 then othrow (Out_of_range ''expected data of length 1 return!'')
        else if hd outdat \<noteq> 0 then othrow (Device_error ''failed to set relay for some reason!'')
        else oreturn ()))"

definition getRelay :: "byte \<Rightarrow> byte \<Rightarrow> ('d line, bool) oprog" where
  "getRelay addr channel = othen (getRelayState addr) (\<lambda>state.
     if channel < 1 \<or> 8 < channel then othrow (UB ''index outside a bitset'')
     else oreturn (bit state (unat channel - 1)))"

section \<open>Reading back what was assembled\<close>

text \<open>
  C38. A message that the driver assembles is taken apart into its data again when there are fewer than
  128 data bytes. With 128 to 255 bytes, which assembling allows, the number of bytes is read as a
  negative number and taking apart throws; more bytes are refused by assembling.
\<close>

theorem rly_message_round_trip:
  "rbind (assemble_cmd addr c data) (extract_response addr) =
     (if length data < 128 then Inr data
      else if length data \<le> 255 then Inl (Logic_error ''vector::_M_default_append'')
      else Inl (Out_of_range ''data supplied is too long!''))"
proof (cases "length data \<le> 255")
  case True
  let ?n = "of_nat (length data) :: byte"
  have n: "unat ?n = length data" using True by (simp add: unat_of_nat)
  have s: "sint ?n < 0 \<longleftrightarrow> 128 \<le> length data"
    using high_bit [of ?n] bit_last_iff [of ?n] n by (simp add: word_le_nat_alt)
  show ?thesis
    using True n s by (simp add: assemble_cmd_def extract_response_def rly_at_def rly_data_def rbind_def Let_def butlast_append)
qed (simp add: assemble_cmd_def rbind_def)

end
