(* ===== verification/Cornerstone.thy ===== *)
theory Cornerstone
  imports Line_Devices
begin

text \<open>
  The Cornerstone 260 monochromator: devices/cornerstone_260/cornerstone260.cpp. The driver has no state
  that it uses. Every command is sent with a line feed and its echo is read before the reply. Doubles are
  the numbers that are written.
\<close>

section \<open>Commands\<close>

definition cornerstone_class_params_serial :: parameterset where
  "cornerstone_class_params_serial = [(''baudrate'', P_int 9600), (''parity'', P_string ''none''), (''stopbits'', P_int 1),
     (''flowcontrol'', P_string ''none''), (''bits'', P_int 8)]"

definition cornerstone_error_strings :: "(byte \<times> string) list" where
  "cornerstone_error_strings = [(1, ''Command not understood''), (2, ''Bad parameter used in Command''),
     (3, ''Destination Position for wavelength motion not allowed''), (6, ''Accessory not present (usually filter wheel)''),
     (7, ''Accessory already in specified position''), (8, ''Could not home wavelength drive''), (9, ''Label too long''),
     (0, ''system error (miscellaneous)'')]"

definition cs_init :: "('d line, unit) oprog" where
  "cs_init = othen (always (line_init cornerstone_class_params_serial)) (\<lambda>_. othen (always line_flush) (\<lambda>_. always (setWait 2000)))"

text \<open>\<open>SerialPortWaitSetter\<close>: the wait of the port is changed for a block and put back on every way out.\<close>

definition with_wait :: "nat \<Rightarrow> ('d line, 'a) oprog \<Rightarrow> ('d line, 'a) oprog" where
  "with_wait w m = othen (always getWait) (\<lambda>storedwait. othen (always (setWait w)) (\<lambda>_.
     olastly m (\<lambda>l. l\<lparr>l_port := (l_port l)\<lparr>wait_ms := storedwait\<rparr>\<rparr>)))"

definition readecho :: "string \<Rightarrow> ('d line, string) oprog" where
  "readecho request = othen (read_until_endl (CHR 0x0A)) (\<lambda>echo.
     othen (olift (erase_one (\<lambda>c. c = CHR 0x0A) echo)) (\<lambda>echo.
     if length echo \<noteq> length request then othrow (Protocol_error ''invalid size of echo'') else oreturn echo))"

definition cs_cmd_no_response :: "string \<Rightarrow> ('d line, unit) oprog" where
  "cs_cmd_no_response request = othen (always line_flush) (\<lambda>_. othen (always (line_write (request @ [CHR 0x0A]))) (\<lambda>_.
     othen (readecho request) (\<lambda>_. oreturn ())))"

definition cs_cmd :: "string \<Rightarrow> ('d line, string) oprog" where
  "cs_cmd request = othen (cs_cmd_no_response request) (\<lambda>_. othen (read_until_endl (CHR 0x0A)) (\<lambda>response.
     case find_char (CHR 0x0D) response of
       None \<Rightarrow> othrow (Device_error ''failed to find carriage return in device response'')
     | Some cretpos \<Rightarrow> oreturn (take cretpos response)))"

section \<open>Errors\<close>

definition errstatus :: "('d line, bool) oprog" where
  "errstatus = othen (cs_cmd ''STB?'') (\<lambda>repl. othen (olift (stoul_base 10 repl)) (\<lambda>n. oreturn (n \<noteq> 0)))"

text \<open>The code is kept in 16 bits, and the table is asked with its lowest 8.\<close>

definition lasterror :: "('d line, string) oprog" where
  "lasterror = othen (cs_cmd ''ERROR?'') (\<lambda>repl.
     if repl = [] then othrow (Runtime_error ''no error string stored'')
     else oreturn (case stoul_base 10 repl of
         Inl e \<Rightarrow> ''cornerstone260 unknown error, raw: '' @ repl
       | Inr n \<Rightarrow> (let errcode = (of_int n :: 16 word) in case map_of cornerstone_error_strings (ucast errcode) of
           None \<Rightarrow> ''cornerstone260 unknown error, code: '' @ text_word errcode
         | Some text \<Rightarrow> text)))"

definition err_check :: "('d line, unit) oprog" where
  "err_check = othen errstatus (\<lambda>errstat. if errstat then othen lasterror (\<lambda>errstr. othrow (Device_error errstr)) else oreturn ())"

text \<open>A command, or a question, that is followed by the check.\<close>

definition cs_told :: "string \<Rightarrow> ('d line, unit) oprog" where
  "cs_told request = othen (cs_cmd_no_response request) (\<lambda>_. err_check)"

definition cs_asked :: "string \<Rightarrow> (string \<Rightarrow> 'a result) \<Rightarrow> ('d line, 'a) oprog" where
  "cs_asked request parse = othen (cs_cmd request) (\<lambda>repl. othen err_check (\<lambda>_. olift (parse repl)))"

section \<open>Operations\<close>

definition shutter_of :: "string \<Rightarrow> bool result" where
  "shutter_of response = (let c = char_at response 0 in
     if c = CHR ''C'' then Inr False else if c = CHR ''O'' then Inr True else Inl (Protocol_error ''invalid shutter status''))"

definition getShutterStatus :: "('d line, bool) oprog" where
  "getShutterStatus = cs_asked ''SHUTTER?'' shutter_of"

definition setShutterStatus :: "bool \<Rightarrow> ('d line, unit) oprog" where
  "setShutterStatus status = cs_told (''SHUTTER '' @ [if status then CHR ''O'' else CHR ''C''])"

definition setWave :: "f64 \<Rightarrow> ('d line, unit) oprog" where
  "setWave wl_nm = with_wait 120000 (cs_told (''GOWAVE '' @ fixed_double 6 wl_nm))"

definition getWave :: "('d line, f64) oprog" where
  "getWave = cs_asked ''WAVE?'' stod"

text \<open>Here the check is missing.\<close>

definition setFilter :: "int \<Rightarrow> ('d line, unit) oprog" where
  "setFilter fnum = with_wait 120000 (cs_cmd_no_response (''FILTER '' @ show_int fnum))"

definition getFilter :: "('d line, int) oprog" where
  "getFilter = cs_asked ''FILTER?'' stoi"

definition getGrating :: "('d line, int) oprog" where
  "getGrating = cs_asked ''GRAT?'' stoi"

definition setGrating :: "int \<Rightarrow> ('d line, unit) oprog" where
  "setGrating gr = with_wait 120000 (cs_told (''GRAT '' @ show_int gr))"

definition setGratingCalibration :: "int \<Rightarrow> int \<Rightarrow> f64 \<Rightarrow> f64 \<Rightarrow> f64 \<Rightarrow> string \<Rightarrow> ('d line, unit) oprog" where
  "setGratingCalibration gr lines factor zero offset label = ofor (\<lambda>setting. cs_told (''GRAT'' @ show_int gr @ setting))
     [''LINES '' @ show_int lines, ''FACTOR '' @ ostream_double 6 factor, ''OFFSET '' @ ostream_double 6 offset,
      ''ZERO '' @ ostream_double 6 zero, ''LABEL '' @ take 9 label]"

definition cs_abort :: "('d line, unit) oprog" where
  "cs_abort = cs_told ''ABORT''"

text \<open>The check stands behind the return.\<close>

definition cs_info :: "('d line, string) oprog" where
  "cs_info = cs_cmd ''INFO?''"

section \<open>Properties\<close>

text \<open>The wait of the port is what it was after a slow command, on every way out.\<close>

theorem wait_is_put_back:
  assumes "with_wait w m l = Some (r, l')"
  shows "wait_ms (l_port l') = wait_ms (l_port l)"
  using assms by (auto simp: with_wait_def othen_def always_def getWait_def gets_def setWait_def on_port_def modifies_def
      olastly_def split: option.splits prod.splits)

lemma erase_one_some:
  assumes "c \<in> set s" "p c"
  shows "\<exists>r. erase_one p s = Inr r \<and> length r = length s - 1"
proof -
  have "length (filter (\<lambda>c. \<not> p c) s) < length s" using assms by (intro length_filter_less) auto
  then show ?thesis by (auto simp: erase_one_def Let_def)
qed

lemma echo_and_reply:
  assumes "line_good wait l" "t \<le> wait" "length request + length reply < 500"
    and "hears (l_react l) (l_peer l) (request @ [CHR 0x0A]) =
      (d, map (Pair t) ((request @ [CHR 0x0A] @ reply @ [CHR 0x0D]) @ [CHR 0x0A]))"
  shows "\<exists>l'. cs_cmd request l = Some (Inl (Protocol_error ''invalid size of echo''), l')"
proof -
  have i: "incoming (l_port l) = []" "sys_results (l_port l) = []" "l_out l = []"
    using assms(1) by (simp_all add: line_good_def line_idle_def)
  have f: "line_flush l = (Inr (), l)"
    using i by (simp add: line_flush_def on_port_def flush_def sys_call_quiet andthen_def modifies_def arrived_def)
  let ?R = "(request @ [CHR 0x0A] @ reply @ [CHR 0x0D]) @ [CHR 0x0A]"
  have g: "line_idle l" "l_asio l" "t \<le> wait_ms (l_port l)" "length (request @ [CHR 0x0A] @ reply @ [CHR 0x0D]) < 512"
    using assms(1-3) by (simp_all add: line_good_def)
  obtain l1 l2 where x: "line_write (request @ [CHR 0x0A]) l = (Inr (), l1)" "read_until_endl (CHR 0x0A) l1 = Some (Inr ?R, l2)"
    using line_exchange [OF g(1,2) assms(4) g(3,4)] by metis
  obtain e where e: "erase_one (\<lambda>c. c = CHR 0x0A) ?R = Inr e" "length e = length ?R - 1"
    using erase_one_some [of "CHR 0x0A" ?R "\<lambda>c. c = CHR 0x0A"] by auto
  then have "readecho request l1 = Some (Inl (Protocol_error ''invalid size of echo''), l2)"
    unfolding readecho_def othen_Some [where m = "read_until_endl (CHR 0x0A)" and s = l1, OF x(2)] othen_olift e(1)
    using e(2) by (simp add: always_def throws_def)
  then show ?thesis
    using x(1) f by (simp add: cs_cmd_def cs_cmd_no_response_def othen_always)
qed

text \<open>
  An instrument that sends its echo and its reply together is never understood: the echo is read
  with all that has arrived, and its size is compared.
\<close>

theorem quick_reply_is_an_error:
  assumes "line_good wait l" "t \<le> wait" "length reply < 400"
    and "hears (l_react l) (l_peer l) (''WAVE?'' @ [CHR 0x0A]) =
      (d, map (Pair t) ((''WAVE?'' @ [CHR 0x0A] @ reply @ [CHR 0x0D]) @ [CHR 0x0A]))"
  shows "\<exists>l'. getWave l = Some (Inl (Protocol_error ''invalid size of echo''), l')"
proof -
  obtain l' where "cs_cmd ''WAVE?'' l = Some (Inl (Protocol_error ''invalid size of echo''), l')"
    using echo_and_reply [OF assms(1,2) _ assms(4)] assms(3) by auto
  then show ?thesis by (simp add: getWave_def cs_asked_def)
qed

end
