(* ===== verification/System_Fsm.thy ===== *)
theory System_Fsm
  imports Foxtrot_Prelude
begin

text \<open>
  The state machines of the test bench: lsst/fsmd/src/cryo_system_fsm.cpp and vacuum_system_fsm.cpp
  with their headers, and lsst/fsmd/include/foxtrot/tinyfsm.hpp, which runs them.

  A state of tinyfsm is one object for the whole program. What such an object keeps, here the times
  of \<open>CryostatFilling\<close>, is a field of the machine; it is zero before the program starts and is
  not reset when the state is entered again. The time of an event is an argument, in nanoseconds.
  \<open>update_fsm_state_flags\<close> and \<open>log_event\<close> of lsst/fsmd/src/fsm_io.cpp have empty bodies. The program
  does not say which state a machine starts in; the states called Initial are taken. States whose
  class is abstract (\<open>PumpSpinningUp\<close>, \<open>TopUpNeeded\<close>, \<open>EmergencyBailout\<close>) have no object and do not occur.
\<close>

section \<open>Events\<close>

record data_update =
  pump_pressure :: f64
  cryo_pressure :: f64
  tank_temp :: f64
  stage_temp :: f64
  pump_rot_percent :: f64
  pump_rot_speed :: int
  pump_venting :: bool
  valve_open :: bool
  pump_enabled :: bool
  autofill_enabled :: bool
  experiment_running :: bool
  lowvibration_requested :: bool
  tank_refill_flag_set :: bool

datatype fsm_event = Data_update data_update | Time_tick

section \<open>The cryostat\<close>

datatype cryo_state = Initial_cryo | Cryostat_empty | Cryostat_full | Cryostat_filling | Tank_empty | Tank_refilled

record cryo_fsm =
  cryo_at :: cryo_state
  cryo_empty_temp_thresh :: f64
  allowed_pressure_thresh :: f64
  fill_time_preset :: int
  start_time :: int
  filling_time :: int

fun cryo_name :: "cryo_state \<Rightarrow> string" where
  "cryo_name Initial_cryo = ''InitiialCryoState''"
| "cryo_name Cryostat_empty = ''CryoStatEmpty''"
| "cryo_name Cryostat_full = ''CryostatFull''"
| "cryo_name Cryostat_filling = ''CryostatFilling''"
| "cryo_name Tank_empty = ''TankEmpty''"
| "cryo_name Tank_refilled = ''TankRefilled''"

definition cryo_init :: "f64 \<Rightarrow> f64 \<Rightarrow> int \<Rightarrow> cryo_fsm" where
  "cryo_init temp pressure preset = \<lparr>cryo_at = Initial_cryo, cryo_empty_temp_thresh = temp,
     allowed_pressure_thresh = pressure, fill_time_preset = preset, start_time = 0, filling_time = 0\<rparr>"

definition should_refill :: "cryo_fsm \<Rightarrow> data_update \<Rightarrow> bool" where
  "should_refill m ev =
     (if flt (tank_temp ev) (cryo_empty_temp_thresh m) then False
      else if autofill_enabled ev \<and> flt (cryo_pressure ev) (allowed_pressure_thresh m) then True
      else if fgt (cryo_pressure ev) (allowed_pressure_thresh m) then False
      else False)"

definition update_fsm_state_flags :: "string \<Rightarrow> string \<Rightarrow> int \<Rightarrow> cryo_fsm \<Rightarrow> cryo_fsm" where
  "update_fsm_state_flags fsmname statename now m = m"

definition cryo_entry :: "int \<Rightarrow> cryo_fsm \<Rightarrow> cryo_fsm" where
  "cryo_entry now m = (if cryo_at m = Cryostat_filling then m\<lparr>start_time := now\<rparr>
     else update_fsm_state_flags ''CryoSystem'' (cryo_name (cryo_at m)) now m)"

definition transit :: "cryo_state \<Rightarrow> int \<Rightarrow> cryo_fsm \<Rightarrow> cryo_fsm" where
  "transit s now m = cryo_entry now (m\<lparr>cryo_at := s\<rparr>)"

text \<open>\<open>duration_cast\<close> to seconds truncates.\<close>

definition to_seconds :: "int \<Rightarrow> int" where
  "to_seconds ns = sgn ns * (\<bar>ns\<bar> div 1000000000)"

fun react_data :: "cryo_state \<Rightarrow> data_update \<Rightarrow> int \<Rightarrow> cryo_fsm \<Rightarrow> cryo_fsm" where
  "react_data Initial_cryo ev now m =
     (if flt (tank_temp ev) (cryo_empty_temp_thresh m) then transit Cryostat_full now m
      else if should_refill m ev then transit Cryostat_filling now m
      else transit Cryostat_empty now m)"
| "react_data Cryostat_empty ev now m = (if should_refill m ev then transit Cryostat_filling now m else m)"
| "react_data Cryostat_full ev now m =
     (if fgt (tank_temp ev) (cryo_empty_temp_thresh m) then transit Cryostat_empty now m else m)"
| "react_data Cryostat_filling ev now m =
     (if fill_time_preset m < filling_time m
      then (if flt (tank_temp ev) (cryo_empty_temp_thresh m) then transit Cryostat_full now m else transit Tank_empty now m)
      else m)"
| "react_data Tank_empty ev now m = (if tank_refill_flag_set ev then transit Tank_refilled now m else m)"
| "react_data Tank_refilled ev now m = (if should_refill m ev then transit Cryostat_filling now m else m)"

definition react_tick :: "int \<Rightarrow> cryo_fsm \<Rightarrow> cryo_fsm" where
  "react_tick now m = (if cryo_at m = Cryostat_filling then m\<lparr>filling_time := to_seconds (now - start_time m)\<rparr> else m)"

definition dispatch :: "fsm_event \<times> int \<Rightarrow> cryo_fsm \<Rightarrow> cryo_fsm" where
  "dispatch e m = (case fst e of Data_update ev \<Rightarrow> react_data (cryo_at m) ev (snd e) m | Time_tick \<Rightarrow> react_tick (snd e) m)"



lemmas cryo_simps = dispatch_def react_tick_def transit_def cryo_entry_def update_fsm_state_flags_def


section \<open>The vacuum system\<close>

datatype vacuum_state = Initial_vacuum | High_vibration_operation | Pump_spinning_down | Pump_venting
  | Pumped_to_atmosphere | Low_vibration_running | Cryostat_pump_down

record vacuum_fsm =
  vacuum_at :: vacuum_state
  pumpdown_thresh :: f64
  ambient_thresh :: f64
  pump_lowvibration_rot_thresh :: f64

fun vacuum_name :: "vacuum_state \<Rightarrow> string" where
  "vacuum_name Initial_vacuum = ''InitialVacuumState''"
| "vacuum_name High_vibration_operation = ''HighVibrationOperation''"
| "vacuum_name Pump_spinning_down = ''PumpSpinningDown''"
| "vacuum_name Pump_venting = ''Pumpventing''"
| "vacuum_name Pumped_to_atmosphere = ''PumpedToAtmosphere''"
| "vacuum_name Low_vibration_running = ''LowVibrationRunning''"
| "vacuum_name Cryostat_pump_down = ''CryostatPumpDown''"

definition vacuum_init :: "f64 \<Rightarrow> f64 \<Rightarrow> f64 \<Rightarrow> vacuum_fsm" where
  "vacuum_init pumpdown ambient lowvibration = \<lparr>vacuum_at = Initial_vacuum, pumpdown_thresh = pumpdown,
     ambient_thresh = ambient, pump_lowvibration_rot_thresh = lowvibration\<rparr>"

definition vtransit :: "vacuum_state \<Rightarrow> (vacuum_fsm, unit) prog" where
  "vtransit s = modifies (\<lambda>m. m\<lparr>vacuum_at := s\<rparr>)"

text \<open>\<open>transit\<close> returns, and the reaction goes on.\<close>

fun vacuum_react_data :: "vacuum_state \<Rightarrow> data_update \<Rightarrow> (vacuum_fsm, unit) prog" where
  "vacuum_react_data Initial_vacuum ev m =
     andthen (if \<not> pump_enabled ev \<and> valve_open ev \<and> fgt (pump_pressure ev) (ambient_thresh m)
         then vtransit Pumped_to_atmosphere else returns ()) (\<lambda>_.
     andthen (if pump_enabled ev \<and> valve_open ev \<and> fgt (cryo_pressure ev) (pumpdown_thresh m) then vtransit Cryostat_pump_down
         else if pump_enabled ev \<and> valve_open ev then vtransit High_vibration_operation
         else returns ()) (\<lambda>_.
     throws (Logic_error ''cannot transition to a valid operation state!''))) m"
| "vacuum_react_data Pump_venting ev m = vtransit Pumped_to_atmosphere m"
| "vacuum_react_data Cryostat_pump_down ev m =
     (if pump_enabled ev \<and> flt (cryo_pressure ev) (pumpdown_thresh m) \<and> \<not> lowvibration_requested ev
      then vtransit High_vibration_operation
      else if pump_enabled ev \<and> flt (cryo_pressure ev) (pumpdown_thresh m) then vtransit Pump_spinning_down
      else returns ()) m"
| "vacuum_react_data _ ev m = returns () m"

definition vacuum_dispatch :: "fsm_event \<Rightarrow> (vacuum_fsm, unit) prog" where
  "vacuum_dispatch e m = (case e of Data_update ev \<Rightarrow> vacuum_react_data (vacuum_at m) ev m | Time_tick \<Rightarrow> returns () m)"

text \<open>The machine after any events; an exception leaves it as it is at the throw.\<close>

inductive vacuum_reachable :: "vacuum_fsm \<Rightarrow> vacuum_fsm \<Rightarrow> bool" for m0 where
  start: "vacuum_reachable m0 m0"
| event: "vacuum_reachable m0 m \<Longrightarrow> vacuum_reachable m0 (snd (vacuum_dispatch e m))"

lemma initial_vacuum_throws: "vacuum_react_data Initial_vacuum ev m =
    (Inl (Logic_error ''cannot transition to a valid operation state!''), m\<lparr>vacuum_at :=
       if pump_enabled ev \<and> valve_open ev
       then (if fgt (cryo_pressure ev) (pumpdown_thresh m) then Cryostat_pump_down else High_vibration_operation)
       else if valve_open ev \<and> fgt (pump_pressure ev) (ambient_thresh m) then Pumped_to_atmosphere else vacuum_at m\<rparr>)"
  by (cases "pump_enabled ev"; cases "valve_open ev"; cases "fgt (pump_pressure ev) (ambient_thresh m)";
      cases "fgt (cryo_pressure ev) (pumpdown_thresh m)")
    (simp_all add: andthen_def vtransit_def prog_simps)

lemma pump_down_reaction: "vacuum_react_data Cryostat_pump_down ev m = (Inr (), m\<lparr>vacuum_at :=
     if pump_enabled ev \<and> flt (cryo_pressure ev) (pumpdown_thresh m)
     then (if lowvibration_requested ev then Pump_spinning_down else High_vibration_operation) else vacuum_at m\<rparr>)"
  by (simp add: vtransit_def prog_simps)

lemmas vacuum_simps = vacuum_dispatch_def initial_vacuum_throws pump_down_reaction vtransit_def modifies_def returns_def

declare vacuum_react_data.simps(1,3) [simp del]

section \<open>Properties\<close>




text \<open>
  A fill is begun only by a data update that says that the tank is not full, that filling is
  enabled and that the pressure is below the limit, and only from the states Initial, Empty and
  Tank refilled.
\<close>

theorem fill_begins_only_when_allowed:
  assumes "cryo_at m \<noteq> Cryostat_filling" "cryo_at (dispatch e m) = Cryostat_filling"
  shows "\<exists>ev. fst e = Data_update ev \<and> autofill_enabled ev \<and> flt (cryo_pressure ev) (allowed_pressure_thresh m) \<and>
    \<not> flt (tank_temp ev) (cryo_empty_temp_thresh m) \<and> cryo_at m \<in> {Initial_cryo, Cryostat_empty, Tank_refilled}"
  using assms
  by (cases "cryo_at m") (auto simp: cryo_simps should_refill_def split: fsm_event.splits if_splits)

text \<open>
  The vacuum machine never leaves its first state without an exception, never comes to low
  vibration running or venting, and stays where it is once it is at high vibration, at atmosphere or
  spinning down.
\<close>

theorem vacuum_machine_dead_ends:
  assumes "vacuum_reachable (vacuum_init p a l) m"
  shows "vacuum_at m \<in> {Initial_vacuum, Pumped_to_atmosphere, Cryostat_pump_down, High_vibration_operation, Pump_spinning_down} \<and>
    (vacuum_at m = Initial_vacuum \<longrightarrow> fst (vacuum_dispatch (Data_update ev) m) =
       Inl (Logic_error ''cannot transition to a valid operation state!'')) \<and>
    (vacuum_at m \<in> {Pumped_to_atmosphere, High_vibration_operation, Pump_spinning_down} \<longrightarrow> snd (vacuum_dispatch e m) = m)"
proof -
  have "vacuum_at m \<in> {Initial_vacuum, Pumped_to_atmosphere, Cryostat_pump_down, High_vibration_operation, Pump_spinning_down}"
    using assms
  proof (induction rule: vacuum_reachable.induct)
    case start
    then show ?case by (simp add: vacuum_init_def)
  next
    case (event m e)
    then show ?case
      by (cases e) (auto simp: vacuum_simps split: if_splits)
  qed
  then show ?thesis
    by (cases e) (auto simp: vacuum_simps split: if_splits)
qed

definition demo_data :: data_update where
  "demo_data = \<lparr>pump_pressure = Fin 1000, cryo_pressure = Fin 1, tank_temp = Fin 250, stage_temp = Fin 250,
     pump_rot_percent = Fin 0, pump_rot_speed = 0, pump_venting = False, valve_open = True, pump_enabled = False,
     autofill_enabled = True, experiment_running = False, lowvibration_requested = False, tank_refill_flag_set = True\<rparr>"



theorem fill_begins_only_when_allowed_witness:
  "\<exists>ev. Data_update demo_data = Data_update ev \<and> autofill_enabled ev \<and> flt (cryo_pressure ev) (Fin 2) \<and> \<not> flt (tank_temp ev) (Fin 100)"
  using fill_begins_only_when_allowed [of "cryo_init (Fin 100) (Fin 2) 10" "(Data_update demo_data, 5)"]
  by (auto simp: demo_data_def cryo_init_def cryo_simps should_refill_def)

theorem vacuum_machine_dead_ends_witness:
  "fst (vacuum_dispatch (Data_update demo_data) (vacuum_init (Fin 1) (Fin 900) (Fin 0))) =
     Inl (Logic_error ''cannot transition to a valid operation state!'')"
  using vacuum_machine_dead_ends [OF vacuum_reachable.start, of "Fin 1" "Fin 900" "Fin 0" demo_data Time_tick]
  by (simp add: vacuum_init_def)

end
