(* ===== verification/Spec2Isabelle.thy ===== *)
theory Spec2Isabelle
  imports Lease_Table Session_Handlers Invoke Fetch_Data Auth_Handler Autofill Client_Calls Pfeiffer_Drivers BSC203 Wire_Types Archon_Modules Newport Arroyo Coldvision Chillers RLY8 Cornerstone System_Fsm
begin

text \<open>
  Models and proofs for foxtrot, a server that drives the instruments of a detector laboratory, its
  client library, its device drivers and its daemons. All paths below are under src/.

  \<^bold>\<open>The program.\<close> A server process (server/) owns a table of devices (core/src/DeviceHarness.cpp). A
  device (core/src/Device.cpp) is a C++ object whose properties and methods are published through a
  reflection library; its driver (devices/) talks to an instrument through a protocol object
  (protocols/): a serial port, a TCP connection, USB. A client (client/) names a device and a
  capability in a remote call; the server converts the arguments from their wire form
  (core/src/typeUtil.cpp), checks that nobody else has leased the device
  (server/src/SessionManager.cpp), locks it, calls it, and sends the value, or the exception, back.
  Server flags are a shared table of named values (server/src/FlagMap.cpp). Programs for one
  laboratory (lsst/) are clients of the server or state machines of their own.

  \<^bold>\<open>How the code is modelled.\<close> Foxtrot_Prelude has the exceptions of the program as the type \<open>error\<close>, one
  constructor for each C++ class that a handler tells apart, and the stateful operation
  \<open>('s, 'a) prog = 's \<Rightarrow> (error + 'a) \<times> 's\<close>, so that what an operation did before it threw is in the
  result. \<open>UB m\<close> is an execution that C++ gives no meaning to; no handler catches it. Partial_Calls adds
  \<open>oprog\<close>, where \<open>None\<close> is a call that never returns. Integers are words of their width wherever
  they can wrap; \<open>char\<close> is signed. A double is the number that is written (\<open>f64\<close>) where it is
  parsed or printed, and its 64 bits where it is only passed on; rounding is not modelled. Text_Format
  and Float_Format are the number formatting and parsing of the C++ library. Records, variants and
  definitions carry the names of the code, with a prefix of their driver where two would be equal.

  \<^bold>\<open>The server.\<close>
  \<^item> Session_Manager: the four maps of server/src/SessionManager.cpp, every operation on them, and the
    invariant \<open>sm_inv\<close> that ties the caches to the sessions. The locales \<open>guarded_machine\<close> and
    \<open>ownership\<close> carry the proofs over runs and for devices and flags alike. Lease_Table is the
    abstract specification, a relation on leases, and the simulation that the manager implements it.
  \<^item> Server_Core: one remote call, HandlerBase.h and ServerUtil.h, with the replies to exceptions; the
    locale \<open>unary_logic\<close> says that a call is answered exactly once and is interpreted for every logic.
    Session_Handlers are the logics on sessions with the interceptor.
  \<^item> Device_Core: capabilities, invocation by name, the harness and its locks. Invoke: the call of a
    device under the check of its lease. Fetch_Data: arrays sent in chunks.
  \<^item> Auth_Handler: challenge and response. Signatures and random bytes are arguments.
  \<^item> Flag_Map: the flag table, the guarded containers and the handle table, all interpretations of the
    locale \<open>kv_store\<close>; the logics on flags.
  \<^item> Wire_Types: both directions of the conversion between reflected values and messages, and the
    descriptions of types. What the reflection library answers is the record \<open>rttr\<close>. Values nest to
    any depth; the conversions recurse on a depth \<open>n\<close>, and the round trip holds for every \<open>n\<close> that
    is at least the depth of the value, so nothing is cut off.

  \<^bold>\<open>The clients.\<close> Client and Client_Calls: the client library, running against the handlers above over a
  network that may lose a request, a reply or the rest of a stream. Autofill: the daemon that fills a
  cryostat (lsst/autofilld), on the locale \<open>flag_service\<close> that the client interprets; a tick and the
  threads of a fill are interleaved in every order. System_Fsm: the two state machines of lsst/fsmd and
  the library that runs them.

  \<^bold>\<open>The protocols.\<close> Serial_Port: parameters, opening, reading and writing of protocols/src/SerialPort.cpp;
  the bytes that arrive, with their times, and the failures of system calls are arguments of the state.
  Serial_Line joins a port to an instrument that answers, with the queue of the port between them; what
  is read in one piece is at most 512 bytes, the buffer of the library. Simple_TCP: connections. Lib_Usb:
  devices on a bus with their reference counts.

  \<^bold>\<open>The drivers.\<close>
  \<^item> APT_Protocol, APT_Motor, APT_Devices, BSC203: the Thorlabs motors. \<open>wait_loop\<close>, the blocking
    moves, is refined to a monitor of the messages that arrive.
  \<^item> Pfeiffer, Pfeiffer_Drivers: telegrams, the turbo pump and the gauges.
  \<^item> Archon, Archon_Modules: the CCD controller and the modules in its slots. Its configuration memory is
    an interpretation of \<open>settings_store\<close> (Settings_Store), the interface of instruments that keep texts
    under keys.
  \<^item> Newport: the power meter, over USB and over a serial line.
  \<^item> Line_Devices with Arroyo, Coldvision, Chillers, RLY8 and Cornerstone: the instruments that exchange
    lines or short messages over a serial port. The registers of the ColdVision light source are a
    second interpretation of \<open>settings_store\<close>.

  \<^bold>\<open>What is proved.\<close> Of the server: leases are exclusive over every run and refine the lease table; a
  leased device is not touched without the secret, and with it the call is the unguarded one; locks are
  given back; challenges are used once; plain values survive the wire; a fetch delivers the array. Of
  the clients: errors keep their class; a fill begins only when it is needed. Of the drivers: what is
  set is what is read back, waits end as the messages say, lines are read completely, commands are
  spaced. Where the code does not do what it means to, the theorem states what it does: the race between
  two requests for one device, the number of a session that comes round again, the eviction of
  challenges after an answer out of order, the transfer that answers another client's request, the stream
  that breaks unnoticed, the USB start that never completes, the temperature of signed bytes.

  \<^bold>\<open>Loops and fuel.\<close> Loops over input end because the input is finite: the bytes still to arrive are a
  list, and a loop that waits for more than arrives is \<open>None\<close> or times out. \<open>fetch_loop\<close> takes the
  number of calls as fuel, and the theorems say how many are enough, one more than the number of
  chunks. The decimal exponent of a double is searched in 400 steps, more than the 324 decades below one
  and the 308 above it. The loops of the drivers that may really run for ever are
  \<open>partial_function (option)\<close>, and their ends, or that they never end, are theorems.

  \<^bold>\<open>Not modelled.\<close>
  \<^item> Libraries outside the repository: gRPC, protocol buffers, rttr, boost, libusb, libsodium, curl, the
    vendor libraries of cameras and spectrometers. What the code relies on is an argument.
  \<^item> The vendored headers core/include/foxtrot/backward.hpp and termcolor.hpp.
  \<^item> Wiring without decisions of its own: registration tables of the reflection library, the main
    programs (server/src/exptserve.cpp, lsst/tbprogs, lsst/autofilld/autofilld.cpp, every play program),
    the set-up functions of laboratories, server/src/ServerImpl.cpp, logging, configuration paths.
  \<^item> The cameras and the spectrometer (devices/aravis_camera, idscamera, stellarnet) and the scope DM3068
    are calls of vendor libraries or of kernel devices, whose answers the code passes on.
  \<^item> devices/BME280: BME280.cpp defines compensate_temperature and compensate_pressure with parameter
    lists that BME280.h does not declare, so the file does not compile as it stands;
    devices/digitaldiscovery is empty.
  \<^item> The description of the server (ServerDescribeImpl.cpp) beyond what a client looks up in it, the
    notification service, the SASL layer and the unfinished stream and command handlers.
  \<^item> Memory reclamation, real time and scheduling below the granularity of a locked region or of a
    system call.
\<close>

end
